(* ===== verification/Prelude.thy ===== *)
theory Prelude
  imports Main "HOL-Library.Monad_Syntax"
begin

text \<open>
  What the components share: Go's fixed-width signed integers, Go's truncating division and
  remainder, results of operations that may panic or not return, and generic lemmas on lists and
  maps.

  An \<open>int32\<close> is modelled by an \<open>int\<close>; every arithmetic operation of the source whose result
  may leave the range is wrapped by \<open>i32\<close> (\<open>i64\<close> for \<open>int64\<close>). A Go slice is a list, a Go
  \<open>map\<close> a partial function, and an operation that can panic (nil dereference, index out of
  range, division by zero) or loop for ever has an \<open>option\<close> result with \<open>None\<close> for that
  outcome.
\<close>

named_theorems go_arith
named_theorems frame

section \<open>Fixed-width integers\<close>

definition i32 :: "int \<Rightarrow> int" where
  "i32 x = (x + 2147483648) mod 4294967296 - 2147483648"

definition i64 :: "int \<Rightarrow> int" where
  "i64 x = (x + 9223372036854775808) mod 18446744073709551616 - 9223372036854775808"

definition is_i32 :: "int \<Rightarrow> bool" where
  "is_i32 x \<longleftrightarrow> - 2147483648 \<le> x \<and> x \<le> 2147483647"

abbreviation max_int32 :: int where
  "max_int32 \<equiv> 2147483647"

lemma i32_id [simp, go_arith]: "- 2147483648 \<le> x \<Longrightarrow> x \<le> 2147483647 \<Longrightarrow> i32 x = x"
  by (simp add: i32_def)

lemma i64_id [go_arith]:
  "- 9223372036854775808 \<le> x \<Longrightarrow> x \<le> 9223372036854775807 \<Longrightarrow> i64 x = x"
  by (simp add: i64_def)

lemma is_i32_i32 [simp]: "is_i32 (i32 x)"
  by (simp add: is_i32_def i32_def)

lemma i32_range: "- 2147483648 \<le> i32 x" "i32 x \<le> 2147483647"
  using is_i32_i32 [of x] by (simp_all add: is_i32_def)

lemma i32_i32 [simp]: "i32 (i32 x) = i32 x"
  using i32_range [of x] by simp

lemma i32_over: "max_int32 < x \<Longrightarrow> x \<le> 6442450943 \<Longrightarrow> i32 x = x - 4294967296"
  by (simp add: i32_def) (smt (verit) mod_pos_pos_trivial minus_mod_self2)

lemma i32_under: "x < - 2147483648 \<Longrightarrow> - 6442450944 \<le> x \<Longrightarrow> i32 x = x + 4294967296"
  by (simp add: i32_def) (smt (verit) mod_pos_pos_trivial mod_add_self2)

text \<open>Go's \<open>/\<close> and \<open>%\<close> on signed integers truncate towards zero.\<close>

definition go_div :: "int \<Rightarrow> int \<Rightarrow> int" where
  "go_div a b = sgn a * sgn b * (\<bar>a\<bar> div \<bar>b\<bar>)"

definition go_mod :: "int \<Rightarrow> int \<Rightarrow> int" where
  "go_mod a b = a - b * go_div a b"

lemma go_div_nonneg [go_arith]: "0 \<le> a \<Longrightarrow> 0 < b \<Longrightarrow> go_div a b = a div b"
  by (cases "a = 0") (auto simp: go_div_def sgn_if)

lemma go_mod_nonneg [go_arith]: "0 \<le> a \<Longrightarrow> 0 < b \<Longrightarrow> go_mod a b = a mod b"
  by (simp add: go_mod_def go_div_nonneg minus_mult_div_eq_mod)

lemma go_div_neg: "a \<le> 0 \<Longrightarrow> 0 < b \<Longrightarrow> go_div a b = - ((- a) div b)"
  by (cases "a = 0") (auto simp: go_div_def sgn_if)

lemma go_mod_sgn: "0 < b \<Longrightarrow> go_mod a b = sgn a * (\<bar>a\<bar> mod b)"
proof (cases "a < 0")
  case True
  have "- a - b * (- a div b) = - a mod b" by (rule minus_mult_div_eq_mod)
  with True show "0 < b \<Longrightarrow> go_mod a b = sgn a * (\<bar>a\<bar> mod b)"
    by (simp add: go_mod_def go_div_def sgn_if)
qed (auto simp: go_mod_nonneg sgn_if)

lemma go_mod_bounds:
  assumes "0 < b"
  shows "- b < go_mod a b" and "go_mod a b < b"
proof -
  define m where "m = \<bar>a\<bar> mod b"
  have m: "0 \<le> m" "m < b" and eq: "go_mod a b = sgn a * m"
    using assms by (simp_all add: m_def go_mod_sgn)
  show "- b < go_mod a b" "go_mod a b < b"
    using m by (simp_all add: eq sgn_if)
qed

section \<open>Loops that may panic\<close>

text \<open>
  A \<open>for\<close> loop over a list of indices whose body may panic: \<open>None\<close> as soon as one round does.
\<close>

primrec for_each :: "('i \<Rightarrow> 's \<Rightarrow> 's option) \<Rightarrow> 'i list \<Rightarrow> 's \<Rightarrow> 's option" where
  "for_each f [] s = Some s"
| "for_each f (x # xs) s = Option.bind (f x s) (for_each f xs)"

lemma for_each_append:
  "for_each f (xs @ ys) s = Option.bind (for_each f xs s) (for_each f ys)"
  by (induction xs arbitrary: s) (auto split: Option.bind_split)

text \<open>The loop rule: an invariant indexed by the number of rounds done, for a counting loop.\<close>

lemma for_each_upt:
  assumes "m \<le> n" and "P m s"
    and "\<And>k s. m \<le> k \<Longrightarrow> k < n \<Longrightarrow> P k s \<Longrightarrow> \<exists>s'. f k s = Some s' \<and> P (Suc k) s'"
  shows "\<exists>s'. for_each f [m..<n] s = Some s' \<and> P n s'"
  using assms
proof (induction "n - m" arbitrary: m s)
  case 0
  then show ?case by simp
next
  case (Suc d)
  then have "m < n" by simp
  obtain s1 where s1: "f m s = Some s1" "P (Suc m) s1"
    using Suc.prems(3) [of m s] Suc.prems(2) \<open>m < n\<close> by auto
  have "d = n - Suc m" using Suc.hyps(2) by simp
  moreover have "\<And>k s. Suc m \<le> k \<Longrightarrow> k < n \<Longrightarrow> P k s \<Longrightarrow> \<exists>s'. f k s = Some s' \<and> P (Suc k) s'"
    using Suc.prems(3) by simp
  ultimately have "\<exists>s'. for_each f [Suc m..<n] s1 = Some s' \<and> P n s'"
    using Suc.hyps(1) [of "Suc m" s1] s1(2) \<open>m < n\<close> by simp
  then show ?case using s1(1) \<open>m < n\<close> by (simp add: upt_conv_Cons)
qed

section \<open>Lists split by a monotone test\<close>

text \<open>The elements an ordered search skips are a prefix of the list.\<close>

lemma dropWhile_no_hit:
  assumes "sorted_wrt (\<lambda>a b. P b \<longrightarrow> P a) xs"
  shows "\<forall>y \<in> set (dropWhile P xs). \<not> P y"
  using assms
proof (induction xs)
  case (Cons x xs)
  have hd: "\<forall>y \<in> set xs. P y \<longrightarrow> P x" and tl: "sorted_wrt (\<lambda>a b. P b \<longrightarrow> P a) xs"
    using Cons.prems unfolding sorted_wrt.simps by blast+
  show ?case
  proof (cases "P x")
    case True
    with Cons.IH [OF tl] show ?thesis by (simp only: dropWhile.simps if_True)
  next
    case False
    with hd have "\<forall>y \<in> set xs. \<not> P y" by blast
    with False show ?thesis by simp
  qed
qed simp

end
