(* ===== verification/Skiplist.thy ===== *)
theory Skiplist
  imports Prelude
begin

text \<open>
  The ordered list behind every ranking of the server: \<open>libs/utils/skiplist.go\<close>.

  The nodes of one list live in a heap from addresses to nodes; the head node has address 0, and a
  nil pointer is \<open>None\<close>. A node has one layer record for each layer it takes part in (next, prev
  and the span, the number of ranks the next pointer crosses). The interface \<open>SkiplistNode\<close> is
  the pair of its methods the list calls, \<open>Greater\<close> and \<open>KeyEqual\<close>, given to the operations as
  the functions \<open>gt\<close> and \<open>keq\<close>. The random layer of a new node is drawn from a list of the
  values \<open>rand.Int31\<close> returns. A result \<open>None\<close> is a nil dereference, an index out of range, or a
  walk that does not end.
\<close>

section \<open>Nodes, layers and the list\<close>

record skiplist_layer =
  sl_next :: "nat option"
  sl_prev :: "nat option"
  sl_span :: int

record 'v skiplist_node =
  sn_value :: "'v option"
  sn_layers :: "skiplist_layer list"

type_synonym 'v node_heap = "nat \<Rightarrow> 'v skiplist_node option"

record 'v skiplist =
  curr_layer :: nat
  curr_length :: int
  lengths_num :: "int list"
  sl_tail :: "nat option"
  before_node :: "nat option list"
  sl_rank :: "int list"
  sl_heap :: "'v node_heap"
  sl_fresh :: nat

definition MAX_SKIPLIST_LAYER :: nat where
  "MAX_SKIPLIST_LAYER = 32"

text \<open>The draw loop of \<open>random_skiplist_layer\<close>: the argument is what \<open>rand.Int31\<close> returns next.\<close>

fun random_layer_loop :: "int list \<Rightarrow> int \<Rightarrow> (int \<times> int list) option" where
  "random_layer_loop [] n = None"
| "random_layer_loop (r # rs) n =
     (if (r mod 65536) mod 4 = 0 then random_layer_loop rs (n + 1) else Some (n, rs))"

definition random_skiplist_layer :: "int list \<Rightarrow> (nat \<times> int list) option" where
  "random_skiplist_layer rs = do {
     (n, rs') \<leftarrow> random_layer_loop rs 1;
     Some (nat (if n > int MAX_SKIPLIST_LAYER then int MAX_SKIPLIST_LAYER else n), rs') }"

definition new_skiplist_node :: "nat \<Rightarrow> 'v option \<Rightarrow> 'v skiplist_node" where
  "new_skiplist_node layer v =
     \<lparr>sn_value = v, sn_layers = replicate layer \<lparr>sl_next = None, sl_prev = None, sl_span = 0\<rparr>\<rparr>"

definition NewSkiplist :: "'v skiplist" where
  "NewSkiplist = \<lparr>curr_layer = 1, curr_length = 0, lengths_num = replicate MAX_SKIPLIST_LAYER 0,
     sl_tail = None, before_node = replicate MAX_SKIPLIST_LAYER None,
     sl_rank = replicate MAX_SKIPLIST_LAYER 0,
     sl_heap = [0 \<mapsto> new_skiplist_node MAX_SKIPLIST_LAYER None], sl_fresh = 1\<rparr>"

section \<open>Reading and writing the heap\<close>

definition get_layer :: "'v node_heap \<Rightarrow> nat \<Rightarrow> nat \<Rightarrow> skiplist_layer option" where
  "get_layer h a i = (case h a of None \<Rightarrow> None
     | Some nd \<Rightarrow> if i < length (sn_layers nd) then Some (sn_layers nd ! i) else None)"

definition set_layer ::
  "nat \<Rightarrow> nat \<Rightarrow> (skiplist_layer \<Rightarrow> skiplist_layer) \<Rightarrow> 'v node_heap \<Rightarrow> 'v node_heap option" where
  "set_layer a i f h = (case h a of None \<Rightarrow> None
     | Some nd \<Rightarrow> if i < length (sn_layers nd)
         then Some (h(a \<mapsto> nd\<lparr>sn_layers := (sn_layers nd)[i := f (sn_layers nd ! i)]\<rparr>)) else None)"

definition node_value :: "'v node_heap \<Rightarrow> nat \<Rightarrow> 'v option" where
  "node_value h a = (case h a of None \<Rightarrow> None | Some nd \<Rightarrow> sn_value nd)"

section \<open>Operations\<close>

text \<open>The inner loop of the search on layer \<open>i\<close>: advance while the next value is greater.\<close>

partial_function (option) sl_walk ::
  "('v \<Rightarrow> 'v \<Rightarrow> bool) \<Rightarrow> 'v \<Rightarrow> 'v node_heap \<Rightarrow> nat \<Rightarrow> nat \<Rightarrow> int \<Rightarrow> (nat \<times> int) option" where
  "sl_walk gt v h i n r =
     (case get_layer h n i of None \<Rightarrow> None | Some l \<Rightarrow>
       (case sl_next l of None \<Rightarrow> Some (n, r) | Some m \<Rightarrow>
         (case node_value h m of None \<Rightarrow> None | Some x \<Rightarrow>
           if gt x v then sl_walk gt v h i m (r + sl_span l) else Some (n, r))))"

text \<open>The outer loop of \<open>Insert\<close>, from layer \<open>k - 1\<close> down to 0: where the walk stops on each
  layer goes to \<open>before_node\<close>, its rank to \<open>rank\<close>.\<close>

declare sl_walk.simps [code]

primrec insert_search :: "('v \<Rightarrow> 'v \<Rightarrow> bool) \<Rightarrow> 'v \<Rightarrow> 'v node_heap \<Rightarrow> nat \<Rightarrow> nat \<Rightarrow> int
    \<Rightarrow> nat option list \<Rightarrow> int list \<Rightarrow> (nat option list \<times> int list) option" where
  "insert_search gt v h 0 n r bn rk = Some (bn, rk)"
| "insert_search gt v h (Suc i) n r bn rk =
     Option.bind (sl_walk gt v h i n r)
       (\<lambda>(n', r'). insert_search gt v h i n' r' (bn[i := Some n']) (rk[i := r']))"

text \<open>One round of the loop that opens new top layers, and of the loop that links the new node.\<close>

definition open_layer ::
  "int \<Rightarrow> nat \<Rightarrow> nat option list \<times> int list \<times> 'v node_heap
     \<Rightarrow> (nat option list \<times> int list \<times> 'v node_heap) option" where
  "open_layer len i = (\<lambda>(bn, rk, h). do {
     h' \<leftarrow> set_layer 0 i (\<lambda>l. l\<lparr>sl_span := len\<rparr>) h;
     Some (bn[i := Some 0], rk[i := 0], h') })"

definition link_layer ::
  "nat \<Rightarrow> nat option list \<Rightarrow> int list \<Rightarrow> nat \<Rightarrow> 'v node_heap \<Rightarrow> 'v node_heap option" where
  "link_layer z bn rk i h = do {
     a \<leftarrow> bn ! i;
     la \<leftarrow> get_layer h a i;
     h \<leftarrow> set_layer z i (\<lambda>l. l\<lparr>sl_next := sl_next la, sl_prev := Some a\<rparr>) h;
     h \<leftarrow> (case sl_next la of None \<Rightarrow> Some h
            | Some b \<Rightarrow> set_layer b i (\<lambda>l. l\<lparr>sl_prev := Some z\<rparr>) h);
     h \<leftarrow> set_layer a i (\<lambda>l. l\<lparr>sl_next := Some z\<rparr>) h;
     la \<leftarrow> get_layer h a i;
     h \<leftarrow> set_layer z i (\<lambda>l. l\<lparr>sl_span := sl_span la - (rk ! 0 - rk ! i)\<rparr>) h;
     set_layer a i (\<lambda>l. l\<lparr>sl_span := (rk ! 0 - rk ! i) + 1\<rparr>) h }"

definition widen_layer :: "nat option list \<Rightarrow> nat \<Rightarrow> 'v node_heap \<Rightarrow> 'v node_heap option" where
  "widen_layer bn i h = do {
     a \<leftarrow> bn ! i;
     set_layer a i (\<lambda>l. l\<lparr>sl_span := sl_span l + 1\<rparr>) h }"

definition Skiplist_Insert :: "('v \<Rightarrow> 'v \<Rightarrow> bool) \<Rightarrow> 'v \<Rightarrow> int list \<Rightarrow> 'v skiplist
    \<Rightarrow> (nat \<times> 'v skiplist \<times> int list) option" where
  "Skiplist_Insert gt v rs sl = do {
     (bn, rk) \<leftarrow> insert_search gt v (sl_heap sl) (curr_layer sl) 0 0 (before_node sl) (sl_rank sl);
     (new_layer, rs') \<leftarrow> random_skiplist_layer rs;
     (bn, rk, h) \<leftarrow> for_each (open_layer (curr_length sl)) [curr_layer sl..<new_layer]
                     (bn, rk, sl_heap sl);
     let cl = (if new_layer > curr_layer sl then new_layer else curr_layer sl);
     let z = sl_fresh sl;
     let h = h(z \<mapsto> new_skiplist_node new_layer (Some v));
     h \<leftarrow> for_each (link_layer z bn rk) [0..<new_layer] h;
     h \<leftarrow> for_each (widen_layer bn) [new_layer..<cl] h;
     lz \<leftarrow> get_layer h z 0;
     Some (new_layer, sl\<lparr>
       curr_layer := cl,
       sl_tail := (if sl_next lz = None then Some z else sl_tail sl),
       lengths_num := (lengths_num sl)[new_layer - 1 := lengths_num sl ! (new_layer - 1) + 1],
       curr_length := curr_length sl + 1,
       before_node := bn, sl_rank := rk, sl_heap := h, sl_fresh := z + 1\<rparr>, rs') }"

text \<open>\<open>GetNode\<close> also records the path in \<open>before_node\<close>, which \<open>DeleteNode\<close> reads.\<close>

primrec getnode_search :: "('v \<Rightarrow> 'v \<Rightarrow> bool) \<Rightarrow> 'v \<Rightarrow> 'v node_heap \<Rightarrow> nat \<Rightarrow> nat
    \<Rightarrow> nat option list \<Rightarrow> (nat \<times> nat option list) option" where
  "getnode_search gt v h 0 n bn = Some (n, bn)"
| "getnode_search gt v h (Suc i) n bn =
     Option.bind (sl_walk gt v h i n 0)
       (\<lambda>(n', _). getnode_search gt v h i n' (bn[i := Some n']))"

definition GetNode :: "('v \<Rightarrow> 'v \<Rightarrow> bool) \<Rightarrow> ('v \<Rightarrow> 'v \<Rightarrow> bool) \<Rightarrow> 'v \<Rightarrow> 'v skiplist
    \<Rightarrow> (nat option \<times> 'v skiplist) option" where
  "GetNode gt keq v sl = do {
     (n, bn) \<leftarrow> getnode_search gt v (sl_heap sl) (curr_layer sl) 0 (before_node sl);
     l \<leftarrow> get_layer (sl_heap sl) n 0;
     let sl' = sl\<lparr>before_node := bn\<rparr>;
     (case sl_next l of None \<Rightarrow> Some (None, sl')
      | Some m \<Rightarrow> do {
          x \<leftarrow> node_value (sl_heap sl) m;
          Some (if keq x v then Some m else None, sl') }) }"

partial_function (option) rank_walk ::
  "int \<Rightarrow> 'v node_heap \<Rightarrow> nat \<Rightarrow> nat \<Rightarrow> int \<Rightarrow> (nat \<times> int) option" where
  "rank_walk rk h i n r =
     (case get_layer h n i of None \<Rightarrow> None | Some l \<Rightarrow>
       (case sl_next l of None \<Rightarrow> Some (n, r) | Some m \<Rightarrow>
         if r + sl_span l \<le> rk then rank_walk rk h i m (r + sl_span l) else Some (n, r)))"

declare rank_walk.simps [code]

primrec rank_search :: "int \<Rightarrow> 'v node_heap \<Rightarrow> nat \<Rightarrow> nat \<Rightarrow> int \<Rightarrow> nat option option" where
  "rank_search rk h 0 n r = Some None"
| "rank_search rk h (Suc i) n r =
     Option.bind (rank_walk rk h i n r)
       (\<lambda>(n', r'). if r' = rk then Some (Some n') else rank_search rk h i n' r')"

definition GetNodeByRank :: "int \<Rightarrow> 'v skiplist \<Rightarrow> nat option option" where
  "GetNodeByRank rk sl = rank_search rk (sl_heap sl) (curr_layer sl) 0 0"

definition GetByRank :: "int \<Rightarrow> 'v skiplist \<Rightarrow> 'v option option" where
  "GetByRank rk sl = do {
     node \<leftarrow> GetNodeByRank rk sl;
     (case node of None \<Rightarrow> Some None
      | Some a \<Rightarrow> (case sl_heap sl a of None \<Rightarrow> None | Some nd \<Rightarrow> Some (sn_value nd))) }"

primrec getrank_search :: "('v \<Rightarrow> 'v \<Rightarrow> bool) \<Rightarrow> ('v \<Rightarrow> 'v \<Rightarrow> bool) \<Rightarrow> 'v \<Rightarrow> 'v node_heap
    \<Rightarrow> nat \<Rightarrow> nat \<Rightarrow> int \<Rightarrow> int option" where
  "getrank_search gt keq v h 0 n r = Some 0"
| "getrank_search gt keq v h (Suc i) n r = do {
     (n', r') \<leftarrow> sl_walk gt v h i n r;
     l \<leftarrow> get_layer h n' i;
     (case sl_next l of None \<Rightarrow> getrank_search gt keq v h i n' r'
      | Some m \<Rightarrow> do {
          x \<leftarrow> node_value h m;
          if keq x v then Some (r' + sl_span l) else getrank_search gt keq v h i n' r' }) }"

definition GetRank ::
  "('v \<Rightarrow> 'v \<Rightarrow> bool) \<Rightarrow> ('v \<Rightarrow> 'v \<Rightarrow> bool) \<Rightarrow> 'v \<Rightarrow> 'v skiplist \<Rightarrow> int option" where
  "GetRank gt keq v sl = getrank_search gt keq v (sl_heap sl) (curr_layer sl) 0 0"

text \<open>\<open>GetByRankRange\<close> fills the caller's slice \<open>values\<close> (nil entries are \<open>None\<close>) along layer 0.\<close>

fun range_fill :: "'v node_heap \<Rightarrow> nat \<Rightarrow> nat \<Rightarrow> nat \<Rightarrow> 'v option list \<Rightarrow> 'v option list option" where
  "range_fill h i 0 n values = Some values"
| "range_fill h i (Suc todo) n values = do {
     l \<leftarrow> get_layer h n 0;
     (case sl_next l of None \<Rightarrow> Some values
      | Some m \<Rightarrow> (case h m of None \<Rightarrow> None
          | Some nd \<Rightarrow> range_fill h (Suc i) todo m (values[i := sn_value nd]))) }"

definition GetByRankRange :: "int \<Rightarrow> int \<Rightarrow> 'v option list option \<Rightarrow> 'v skiplist
    \<Rightarrow> (bool \<times> 'v option list option) option" where
  "GetByRankRange rank_start rank_num values sl = do {
     node \<leftarrow> GetNodeByRank rank_start sl;
     (case (node, values) of
        (Some a, Some vs) \<Rightarrow>
          if rank_num \<le> 0 \<or> int (length vs) < rank_num then Some (False, values)
          else (case sl_heap sl a of None \<Rightarrow> None
            | Some nd \<Rightarrow> do {
                vs' \<leftarrow> range_fill (sl_heap sl) 1 (nat rank_num - 1) a (vs[0 := sn_value nd]);
                Some (True, Some vs') })
      | _ \<Rightarrow> Some (False, values)) }"

text \<open>One round of \<open>DeleteNode\<close>: unlink the node on a layer it takes part in, otherwise shorten
  the span that crosses it.\<close>

definition unlink_layer ::
  "nat \<Rightarrow> nat \<Rightarrow> nat option list \<Rightarrow> nat \<Rightarrow> 'v node_heap \<Rightarrow> 'v node_heap option" where
  "unlink_layer a levels bn i h =
     (if i < levels then do {
        l \<leftarrow> get_layer h a i;
        h \<leftarrow> (case sl_prev l of None \<Rightarrow> Some h
               | Some p \<Rightarrow> set_layer p i
                   (\<lambda>lp. lp\<lparr>sl_next := sl_next l, sl_span := sl_span lp + (sl_span l - 1)\<rparr>) h);
        (case sl_next l of None \<Rightarrow> Some h
         | Some b \<Rightarrow> set_layer b i (\<lambda>lb. lb\<lparr>sl_prev := sl_prev l\<rparr>) h) }
      else do {
        p \<leftarrow> bn ! i;
        set_layer p i (\<lambda>lp. lp\<lparr>sl_span := sl_span lp - 1\<rparr>) h })"

definition DeleteNode :: "nat \<Rightarrow> 'v skiplist \<Rightarrow> 'v skiplist option" where
  "DeleteNode a sl = do {
     nd \<leftarrow> sl_heap sl a;
     let levels = length (sn_layers nd);
     h \<leftarrow> for_each (unlink_layer a levels (before_node sl)) [0..<curr_layer sl] (sl_heap sl);
     la \<leftarrow> get_layer h a 0;
     top \<leftarrow> get_layer h 0 (curr_layer sl - 1);
     Some (sl\<lparr>sl_heap := h,
       sl_tail := (if sl_tail sl = Some a then sl_prev la else sl_tail sl),
       curr_layer := (if curr_layer sl > 1 \<and> sl_next top = None then curr_layer sl - 1
                      else curr_layer sl),
       lengths_num := (if lengths_num sl ! (levels - 1) > 0
                       then (lengths_num sl)[levels - 1 := lengths_num sl ! (levels - 1) - 1]
                       else lengths_num sl),
       curr_length := (if curr_length sl > 0 then curr_length sl - 1 else curr_length sl)\<rparr>) }"

definition Skiplist_Delete :: "('v \<Rightarrow> 'v \<Rightarrow> bool) \<Rightarrow> ('v \<Rightarrow> 'v \<Rightarrow> bool) \<Rightarrow> 'v \<Rightarrow> 'v skiplist
    \<Rightarrow> (bool \<times> 'v skiplist) option" where
  "Skiplist_Delete gt keq v sl =
     (if curr_length sl = 0 then Some (False, sl)
      else do {
        (node, sl') \<leftarrow> GetNode gt keq v sl;
        (case node of None \<Rightarrow> Some (False, sl')
         | Some a \<Rightarrow> do { sl'' \<leftarrow> DeleteNode a sl'; Some (True, sl'') }) })"

definition DeleteByRank :: "int \<Rightarrow> 'v skiplist \<Rightarrow> (bool \<times> 'v skiplist) option" where
  "DeleteByRank rk sl =
     (if curr_length sl = 0 then Some (False, sl)
      else do {
        node \<leftarrow> GetNodeByRank rk sl;
        (case node of None \<Rightarrow> Some (False, sl)
         | Some a \<Rightarrow> do { sl' \<leftarrow> DeleteNode a sl; Some (True, sl') }) })"

partial_function (option) pull_walk :: "'v node_heap \<Rightarrow> nat \<Rightarrow> 'v option list option" where
  "pull_walk h n =
     (case get_layer h n 0 of None \<Rightarrow> None | Some l \<Rightarrow>
       (case sl_next l of None \<Rightarrow> Some [] | Some m \<Rightarrow>
         (case h m of None \<Rightarrow> None | Some nd \<Rightarrow>
            Option.bind (pull_walk h m) (\<lambda>vs. Some (sn_value nd # vs)))))"

declare pull_walk.simps [code]

definition PullList :: "'v skiplist \<Rightarrow> 'v option list option" where
  "PullList sl = pull_walk (sl_heap sl) 0"

definition GetLength :: "'v skiplist \<Rightarrow> int" where
  "GetLength sl = curr_length sl"

definition GetLayer :: "'v skiplist \<Rightarrow> int" where
  "GetLayer sl = int (curr_layer sl)"

definition GetLayerLength :: "int \<Rightarrow> 'v skiplist \<Rightarrow> int" where
  "GetLayerLength layer sl =
     (if layer < 1 \<or> layer > int (curr_layer sl) then - 1 else lengths_num sl ! nat (layer - 1))"

end
