(* ===== verification/Skiplist_Layer.thy ===== *)
theory Skiplist_Layer
  imports Skiplist
begin

text \<open>
  One layer of the skip list of \<open>libs/utils/skiplist.go\<close>, as a relation between four functions
  on addresses and the whole sequence of nodes: \<open>H\<close> says which nodes take part in the layer,
  \<open>N\<close>, \<open>S\<close> and \<open>P\<close> give their next pointer, span and prev pointer. \<open>seg\<close>: the next
  pointer of a node leads to the first later node of the layer, and its span is the distance to it,
  or the number of nodes that follow when there is none. \<open>bseg\<close> is the same for the prev
  pointers. The second half reads these functions off the heap and gives the effect of one round of
  the loops of \<open>Insert\<close> and \<open>DeleteNode\<close> on them.
\<close>

section \<open>One layer over a sequence of nodes\<close>

fun fh :: "(nat \<Rightarrow> bool) \<Rightarrow> nat list \<Rightarrow> nat option \<times> int \<Rightarrow> nat option \<times> int" where
  "fh H [] p = p"
| "fh H (x # xs) p = (if H x then (Some x, 1) else (fst (fh H xs p), snd (fh H xs p) + 1))"

fun seg :: "(nat \<Rightarrow> bool) \<Rightarrow> (nat \<Rightarrow> nat option) \<Rightarrow> (nat \<Rightarrow> int) \<Rightarrow> nat list
    \<Rightarrow> nat option \<times> int \<Rightarrow> bool" where
  "seg H N S [] p = True"
| "seg H N S (x # xs) p =
     ((H x \<longrightarrow> N x = fst (fh H xs p) \<and> S x = snd (fh H xs p)) \<and> seg H N S xs p)"

fun bseg :: "(nat \<Rightarrow> bool) \<Rightarrow> (nat \<Rightarrow> nat option) \<Rightarrow> nat option \<Rightarrow> nat list \<Rightarrow> bool" where
  "bseg H P pr [] = True"
| "bseg H P pr (x # xs) =
     (if H x then P x = pr \<and> bseg H P (Some x) xs else bseg H P pr xs)"

fun lh :: "(nat \<Rightarrow> bool) \<Rightarrow> nat option \<Rightarrow> nat list \<Rightarrow> nat option" where
  "lh H pr [] = pr"
| "lh H pr (x # xs) = lh H (if H x then Some x else pr) xs"

lemma fh_append [simp]: "fh H (A @ B) p = fh H A (fh H B p)"
  by (induction A) auto

lemma seg_append [simp]: "seg H N S (A @ B) p \<longleftrightarrow> seg H N S A (fh H B p) \<and> seg H N S B p"
  by (induction A) auto

lemma bseg_append [simp]: "bseg H P pr (A @ B) \<longleftrightarrow> bseg H P pr A \<and> bseg H P (lh H pr A) B"
  by (induction A arbitrary: pr) auto

lemma lh_append [simp]: "lh H pr (A @ B) = lh H (lh H pr A) B"
  by (induction A arbitrary: pr) auto

lemma fh_low: "\<forall>x \<in> set A. \<not> H x \<Longrightarrow> fh H A p = (fst p, snd p + int (length A))"
  by (induction A) auto

lemma seg_low: "\<forall>x \<in> set A. \<not> H x \<Longrightarrow> seg H N S A p"
  by (induction A) auto

lemma bseg_low: "\<forall>x \<in> set A. \<not> H x \<Longrightarrow> bseg H P pr A"
  by (induction A) auto

lemma lh_low: "\<forall>x \<in> set A. \<not> H x \<Longrightarrow> lh H pr A = pr"
  by (induction A) auto

lemmas low_simps = fh_low seg_low bseg_low lh_low

lemma fh_cong: "\<forall>x \<in> set A. H x = H' x \<Longrightarrow> fh H A p = fh H' A p"
  by (induction A) auto

lemma seg_cong:
  "\<forall>x \<in> set A. H x = H' x \<and> N x = N' x \<and> S x = S' x \<Longrightarrow> seg H N S A p = seg H' N' S' A p"
  by (induction A) (auto simp: fh_cong [of _ H H'])

lemma bseg_cong:
  "\<forall>x \<in> set A. H x = H' x \<and> P x = P' x \<Longrightarrow> bseg H P pr A = bseg H' P' pr A"
  by (induction A arbitrary: pr) auto

lemma fh_Some_mem: "fst (fh H A p) = Some x \<Longrightarrow> x \<in> set A \<and> H x \<or> fst p = Some x"
  by (induction A) (auto split: if_splits)

lemma fh_nonneg: "0 \<le> snd p \<Longrightarrow> 0 \<le> snd (fh H A p)"
  by (induction A) auto

text \<open>The last node of the layer before the end of \<open>A\<close>, and its position.\<close>

definition pred_at :: "(nat \<Rightarrow> bool) \<Rightarrow> nat list \<Rightarrow> nat \<Rightarrow> int \<Rightarrow> bool" where
  "pred_at H A a m \<longleftrightarrow>
     (\<exists>A1 A2. A = A1 @ a # A2 \<and> H a \<and> (\<forall>x \<in> set A2. \<not> H x) \<and> m = int (length A1))"

lemma pred_atE [elim?]:
  assumes "pred_at H A a m"
  obtains A1 A2 where "A = A1 @ a # A2" "H a" "\<forall>x \<in> set A2. \<not> H x" "m = int (length A1)"
  using assms by (auto simp: pred_at_def)

section \<open>Linking and unlinking a node on one layer\<close>

lemma link_seg:
  assumes A: "pred_at H A a m" and d: "distinct (A @ z # B)" and z: "H z"
    and s: "seg H N S (A @ B) (None, 0)"
    and N': "\<And>x. N' x = (if x = z then N a else if x = a then Some z else N x)"
    and S': "\<And>x. S' x = (if x = z then S a - (int (length A) - 1 - m)
                         else if x = a then (int (length A) - 1 - m) + 1 else S x)"
  shows "seg H N' S' (A @ z # B) (None, 0)"
proof -
  from A obtain A1 A2 where A12: "A = A1 @ a # A2" "H a" "\<forall>x \<in> set A2. \<not> H x"
      "m = int (length A1)" by (rule pred_atE)
  have "seg H N S B (None, 0)" using s by simp
  then have B: "seg H N' S' B (None, 0)"
    using d A12 by (subst seg_cong [where H' = H and N' = N and S' = S]) (auto simp: N' S')
  have "seg H N S A1 (Some a, 1)" using s A12 by simp
  then have A1: "seg H N' S' A1 (Some a, 1)"
    using d A12 by (subst seg_cong [where H' = H and N' = N and S' = S]) (auto simp: N' S')
  have "N a = fst (fh H B (None, 0))" "S a = snd (fh H B (None, 0)) + int (length A2)"
    using s A12 by (simp_all add: fh_low)
  then show ?thesis using A1 B A12 z d by (auto simp: low_simps N' S')
qed

lemma link_bseg:
  assumes A: "pred_at H A a m" and d: "distinct (A @ z # B)" and z: "H z"
    and s: "seg H N S (A @ B) (None, 0)" and b: "bseg H P None (A @ B)"
    and P': "\<And>x. P' x = (if x = z then Some a else if N a = Some x then Some z else P x)"
  shows "bseg H P' None (A @ z # B)"
proof -
  from A obtain A1 A2 where A12: "A = A1 @ a # A2" "H a" "\<forall>x \<in> set A2. \<not> H x"
      "m = int (length A1)" by (rule pred_atE)
  have Na: "N a = fst (fh H B (None, 0))" using s A12 by (simp add: fh_low)
  then have notA: "N a = Some x \<Longrightarrow> x \<in> set B" for x
    using fh_Some_mem [of H B "(None, 0)" x] by auto
  have "bseg H P None A" using b by simp
  then have bA: "bseg H P' None A"
    using d notA by (subst bseg_cong [where H' = H and P' = P]) (auto simp: P')
  have lhA: "lh H None A = Some a" using A12 by (simp add: lh_low)
  have bB: "bseg H P (Some a) B" using b lhA by simp
  have "bseg H P' (Some z) B" using bB Na d
  proof (induction B)
    case (Cons y ys)
    show ?case
    proof (cases "H y")
      case True
      have "bseg H P (Some y) ys" using Cons.prems True by simp
      then have "bseg H P' (Some y) ys"
        using Cons.prems True by (subst bseg_cong [where H' = H and P' = P]) (auto simp: P')
      moreover have "P' y = Some z" using Cons.prems True by (simp add: P')
      ultimately show ?thesis using True by simp
    next
      case False
      then show ?thesis using Cons by auto
    qed
  qed simp
  then show ?thesis using bA lhA z by (simp add: P')
qed

lemma widen_seg:
  assumes A: "pred_at H A a m" and d: "distinct (A @ z # B)" and z: "\<not> H z"
    and s: "seg H N S (A @ B) (None, 0)"
    and S': "\<And>x. S' x = (if x = a then S a + 1 else S x)"
  shows "seg H N S' (A @ z # B) (None, 0)"
proof -
  from A obtain A1 A2 where A12: "A = A1 @ a # A2" "H a" "\<forall>x \<in> set A2. \<not> H x"
      "m = int (length A1)" by (rule pred_atE)
  have "seg H N S B (None, 0)" using s by simp
  then have B: "seg H N S' B (None, 0)"
    using d A12 by (subst seg_cong [where H' = H and N' = N and S' = S]) (auto simp: S')
  have "seg H N S A1 (Some a, 1)" using s A12 by simp
  then have A1: "seg H N S' A1 (Some a, 1)"
    using d A12 by (subst seg_cong [where H' = H and N' = N and S' = S]) (auto simp: S')
  show ?thesis using s A1 B A12 z d by (auto simp: low_simps S')
qed

lemma widen_bseg: "\<not> H z \<Longrightarrow> bseg H P None (A @ B) \<Longrightarrow> bseg H P None (A @ z # B)"
  by simp

lemma unlink_seg:
  assumes A: "pred_at H A a m" and d: "distinct (A @ z # B)" and z: "H z"
    and s: "seg H N S (A @ z # B) (None, 0)"
    and N': "\<And>x. N' x = (if x = a then N z else N x)"
    and S': "\<And>x. S' x = (if x = a then S a + (S z - 1) else S x)"
  shows "seg H N' S' (A @ B) (None, 0)"
proof -
  from A obtain A1 A2 where A12: "A = A1 @ a # A2" "H a" "\<forall>x \<in> set A2. \<not> H x"
      "m = int (length A1)" by (rule pred_atE)
  have "seg H N S B (None, 0)" using s by simp
  then have B: "seg H N' S' B (None, 0)"
    using d A12 by (subst seg_cong [where H' = H and N' = N and S' = S]) (auto simp: N' S')
  have "seg H N S A1 (Some a, 1)" using s A12 by simp
  then have A1: "seg H N' S' A1 (Some a, 1)"
    using d A12 by (subst seg_cong [where H' = H and N' = N and S' = S]) (auto simp: N' S')
  show ?thesis using s A1 B A12 z d by (auto simp: low_simps N' S')
qed

lemma unlink_bseg:
  assumes A: "pred_at H A a m" and d: "distinct (A @ z # B)" and z: "H z"
    and s: "seg H N S (A @ z # B) (None, 0)" and b: "bseg H P None (A @ z # B)"
    and P': "\<And>x. P' x = (if N z = Some x then Some a else P x)"
  shows "P z = Some a" and "bseg H P' None (A @ B)"
proof -
  from A obtain A1 A2 where A12: "A = A1 @ a # A2" "H a" "\<forall>x \<in> set A2. \<not> H x"
      "m = int (length A1)" by (rule pred_atE)
  have lhA: "lh H None A = Some a" using A12 by (simp add: lh_low)
  then show "P z = Some a" using b z by simp
  have Nz: "N z = fst (fh H B (None, 0))" using s z by simp
  then have notA: "N z = Some x \<Longrightarrow> x \<in> set B" for x
    using fh_Some_mem [of H B "(None, 0)" x] by auto
  have "bseg H P None A" using b by simp
  then have bA: "bseg H P' None A"
    using d notA by (subst bseg_cong [where H' = H and P' = P]) (auto simp: P')
  have bB: "bseg H P (Some z) B" using b z by simp
  have "bseg H P' (Some a) B" using bB Nz d
  proof (induction B)
    case (Cons y ys)
    show ?case
    proof (cases "H y")
      case True
      have "bseg H P (Some y) ys" using Cons.prems True by simp
      then have "bseg H P' (Some y) ys"
        using Cons.prems True by (subst bseg_cong [where H' = H and P' = P]) (auto simp: P')
      moreover have "P' y = Some a" using Cons.prems True by (simp add: P')
      ultimately show ?thesis using True by simp
    next
      case False
      then show ?thesis using Cons by auto
    qed
  qed simp
  then show "bseg H P' None (A @ B)" using bA lhA by simp
qed

lemma narrow_seg:
  assumes A: "pred_at H A a m" and d: "distinct (A @ z # B)" and z: "\<not> H z"
    and s: "seg H N S (A @ z # B) (None, 0)"
    and S': "\<And>x. S' x = (if x = a then S a - 1 else S x)"
  shows "seg H N S' (A @ B) (None, 0)"
proof -
  from A obtain A1 A2 where A12: "A = A1 @ a # A2" "H a" "\<forall>x \<in> set A2. \<not> H x"
      "m = int (length A1)" by (rule pred_atE)
  have "seg H N S B (None, 0)" using s by simp
  then have B: "seg H N S' B (None, 0)"
    using d A12 by (subst seg_cong [where H' = H and N' = N and S' = S]) (auto simp: S')
  have "seg H N S A1 (Some a, 1)" using s A12 by simp
  then have A1: "seg H N S' A1 (Some a, 1)"
    using d A12 by (subst seg_cong [where H' = H and N' = N and S' = S]) (auto simp: S')
  show ?thesis using s A1 B A12 z d by (auto simp: low_simps S')
qed

section \<open>The heap, layer by layer\<close>

definition lev :: "'v node_heap \<Rightarrow> nat \<Rightarrow> nat" where
  "lev h a = (case h a of None \<Rightarrow> 0 | Some nd \<Rightarrow> length (sn_layers nd))"

definition nx :: "'v node_heap \<Rightarrow> nat \<Rightarrow> nat \<Rightarrow> nat option" where
  "nx h i a = (case get_layer h a i of None \<Rightarrow> None | Some l \<Rightarrow> sl_next l)"

definition pv :: "'v node_heap \<Rightarrow> nat \<Rightarrow> nat \<Rightarrow> nat option" where
  "pv h i a = (case get_layer h a i of None \<Rightarrow> None | Some l \<Rightarrow> sl_prev l)"

definition sp :: "'v node_heap \<Rightarrow> nat \<Rightarrow> nat \<Rightarrow> int" where
  "sp h i a = (case get_layer h a i of None \<Rightarrow> 0 | Some l \<Rightarrow> sl_span l)"

abbreviation on :: "'v node_heap \<Rightarrow> nat \<Rightarrow> nat \<Rightarrow> bool" where
  "on h i \<equiv> (\<lambda>a. i < lev h a)"

text \<open>Two heaps with the same nodes, values and layer counts.\<close>

definition same_shape :: "'v node_heap \<Rightarrow> 'v node_heap \<Rightarrow> bool" where
  "same_shape h h' \<longleftrightarrow> lev h' = lev h \<and> node_value h' = node_value h \<and> dom h' = dom h"

text \<open>Two heaps that agree on every layer but \<open>i\<close>.\<close>

definition off_layer :: "nat \<Rightarrow> 'v node_heap \<Rightarrow> 'v node_heap \<Rightarrow> bool" where
  "off_layer i h h' \<longleftrightarrow>
     (\<forall>j. j \<noteq> i \<longrightarrow> nx h' j = nx h j \<and> pv h' j = pv h j \<and> sp h' j = sp h j)"

lemma same_shape_refl [simp]: "same_shape h h"
  by (simp add: same_shape_def)

lemma same_shape_trans: "same_shape a b \<Longrightarrow> same_shape b c \<Longrightarrow> same_shape a c"
  by (simp add: same_shape_def)

lemma off_layer_refl [simp]: "off_layer i h h"
  by (simp add: off_layer_def)

lemma off_layer_trans: "off_layer i a b \<Longrightarrow> off_layer i b c \<Longrightarrow> off_layer i a c"
  by (simp add: off_layer_def)

lemma get_layer_on:
  "i < lev h a \<Longrightarrow>
   get_layer h a i = Some \<lparr>sl_next = nx h i a, sl_prev = pv h i a, sl_span = sp h i a\<rparr>"
  by (auto simp: lev_def nx_def pv_def sp_def get_layer_def split: option.splits)

lemma get_layer_off: "\<not> i < lev h a \<Longrightarrow> get_layer h a i = None"
  by (auto simp: lev_def get_layer_def split: option.splits)

lemma set_layer_get:
  assumes "set_layer a i f h = Some h'"
  shows "get_layer h' b j = (if b = a \<and> j = i then map_option f (get_layer h a i) else get_layer h b j)"
  using assms by (auto simp: set_layer_def get_layer_def split: option.splits if_splits)

lemma set_layer_shape:
  assumes "set_layer a i f h = Some h'"
  shows "same_shape h h'"
proof -
  from assms obtain nd where nd: "h a = Some nd"
      "h' = h(a \<mapsto> nd\<lparr>sn_layers := (sn_layers nd)[i := f (sn_layers nd ! i)]\<rparr>)"
    by (auto simp: set_layer_def split: option.splits if_splits)
  have "lev h' x = lev h x" "node_value h' x = node_value h x" for x
    unfolding nd(2) by (simp_all add: lev_def node_value_def nd(1))
  moreover have "dom h' = dom h" unfolding nd(2) using nd(1) by auto
  ultimately show ?thesis by (simp add: same_shape_def fun_eq_iff)
qed

lemma set_layer_on: "i < lev h a \<Longrightarrow> \<exists>h'. set_layer a i f h = Some h'"
  by (auto simp: set_layer_def lev_def split: option.splits)

text \<open>The effect of one write: every other layer and node keeps its record.\<close>

lemma set_layer_off:
  assumes "set_layer a i f h = Some h'"
  shows "off_layer i h h'"
  by (auto simp: off_layer_def nx_def pv_def sp_def set_layer_get [OF assms] fun_eq_iff)

lemma set_layer_fields:
  assumes "set_layer a i f h = Some h'" and "i < lev h a"
  shows "nx h' i = (nx h i)(a := sl_next (f \<lparr>sl_next = nx h i a, sl_prev = pv h i a, sl_span = sp h i a\<rparr>))"
    and "pv h' i = (pv h i)(a := sl_prev (f \<lparr>sl_next = nx h i a, sl_prev = pv h i a, sl_span = sp h i a\<rparr>))"
    and "sp h' i = (sp h i)(a := sl_span (f \<lparr>sl_next = nx h i a, sl_prev = pv h i a, sl_span = sp h i a\<rparr>))"
proof -
  obtain l where l: "get_layer h a i = Some l" using get_layer_on [OF assms(2)] by blast
  then have r: "\<lparr>sl_next = nx h i a, sl_prev = pv h i a, sl_span = sp h i a\<rparr> = l"
    using get_layer_on [OF assms(2)] by simp
  show "nx h' i = (nx h i)(a := sl_next (f \<lparr>sl_next = nx h i a, sl_prev = pv h i a, sl_span = sp h i a\<rparr>))"
    and "pv h' i = (pv h i)(a := sl_prev (f \<lparr>sl_next = nx h i a, sl_prev = pv h i a, sl_span = sp h i a\<rparr>))"
    and "sp h' i = (sp h i)(a := sl_span (f \<lparr>sl_next = nx h i a, sl_prev = pv h i a, sl_span = sp h i a\<rparr>))"
    unfolding r by (rule ext, simp add: nx_def pv_def sp_def set_layer_get [OF assms(1)] l)+
qed

lemma same_shape_lev: "same_shape h h' \<Longrightarrow> lev h' = lev h"
  by (simp add: same_shape_def)

lemmas set_layer_frame = set_layer_shape set_layer_off

lemma set_layer_next:
  assumes "set_layer a i (\<lambda>l. l\<lparr>sl_next := n\<rparr>) h = Some h'" and "i < lev h a"
  shows "nx h' i = (nx h i)(a := n)" "pv h' i = pv h i" "sp h' i = sp h i"
  using set_layer_fields [OF assms] by simp_all

lemma set_layer_prev:
  assumes "set_layer a i (\<lambda>l. l\<lparr>sl_prev := n\<rparr>) h = Some h'" and "i < lev h a"
  shows "nx h' i = nx h i" "pv h' i = (pv h i)(a := n)" "sp h' i = sp h i"
  using set_layer_fields [OF assms] by simp_all

lemma set_layer_span:
  assumes "set_layer a i (\<lambda>l. l\<lparr>sl_span := g l\<rparr>) h = Some h'" and "i < lev h a"
  shows "nx h' i = nx h i" "pv h' i = pv h i"
    "sp h' i = (sp h i)(a := g \<lparr>sl_next = nx h i a, sl_prev = pv h i a, sl_span = sp h i a\<rparr>)"
  using set_layer_fields [OF assms] by simp_all

text \<open>A write through a pointer that may be nil.\<close>

lemma set_prev_opt:
  assumes "\<And>b. q = Some b \<Longrightarrow> i < lev h b"
  shows "\<exists>h'. (case q of None \<Rightarrow> Some h | Some b \<Rightarrow> set_layer b i (\<lambda>l. l\<lparr>sl_prev := n\<rparr>) h) = Some h'
    \<and> same_shape h h' \<and> off_layer i h h' \<and> nx h' i = nx h i \<and> sp h' i = sp h i
    \<and> (\<forall>x. pv h' i x = (if q = Some x then n else pv h i x))"
proof (cases q)
  case (Some b)
  with assms have b: "i < lev h b" by simp
  from set_layer_on [OF b] obtain h' where h': "set_layer b i (\<lambda>l. l\<lparr>sl_prev := n\<rparr>) h = Some h'"
    by blast
  show ?thesis
    using set_layer_frame [OF h'] set_layer_prev [OF h' b] Some h' by auto
qed simp

text \<open>One round of the linking loop of \<open>Insert\<close>.\<close>

lemma link_layer_eff:
  assumes bn: "bn ! i = Some a" and a: "i < lev h a" and z: "i < lev h z" and az: "a \<noteq> z"
    and b: "\<And>b. nx h i a = Some b \<Longrightarrow> i < lev h b"
  shows "\<exists>h'. link_layer z bn rk i h = Some h' \<and> same_shape h h' \<and> off_layer i h h' \<and>
    (\<forall>x. nx h' i x = (if x = z then nx h i a else if x = a then Some z else nx h i x)) \<and>
    (\<forall>x. pv h' i x = (if nx h i a = Some x then Some z else if x = z then Some a else pv h i x)) \<and>
    (\<forall>x. sp h' i x = (if x = z then sp h i a - (rk ! 0 - rk ! i)
                       else if x = a then (rk ! 0 - rk ! i) + 1 else sp h i x))"
proof -
  let ?f = "\<lambda>l. l\<lparr>sl_next := nx h i a, sl_prev := Some a\<rparr>"
  obtain h1 where h1: "set_layer z i ?f h = Some h1" using set_layer_on [OF z] by blast
  have e1: "same_shape h h1" "off_layer i h h1" using set_layer_frame [OF h1] .
  have f1: "nx h1 i = (nx h i)(z := nx h i a)" "pv h1 i = (pv h i)(z := Some a)" "sp h1 i = sp h i"
    using set_layer_fields [OF h1 z] by simp_all
  have "\<And>b. nx h i a = Some b \<Longrightarrow> i < lev h1 b" using b e1 by (simp add: same_shape_lev)
  from set_prev_opt [where q = "nx h i a" and n = "Some z", OF this] obtain h2
    where h2: "(case nx h i a of None \<Rightarrow> Some h1
            | Some b \<Rightarrow> set_layer b i (\<lambda>l. l\<lparr>sl_prev := Some z\<rparr>) h1) = Some h2"
      and e2: "same_shape h1 h2" "off_layer i h1 h2"
      and f2: "nx h2 i = nx h1 i" "sp h2 i = sp h1 i"
        "\<forall>x. pv h2 i x = (if nx h i a = Some x then Some z else pv h1 i x)"
    by blast
  have a2: "i < lev h2 a" using a e1(1) e2(1) by (simp add: same_shape_lev)
  obtain h3 where h3: "set_layer a i (\<lambda>l. l\<lparr>sl_next := Some z\<rparr>) h2 = Some h3"
    using set_layer_on [OF a2] by blast
  have e3: "same_shape h2 h3" "off_layer i h2 h3" using set_layer_frame [OF h3] .
  note f3 = set_layer_next [OF h3 a2]
  have a3: "i < lev h3 a" and z3: "i < lev h3 z"
    using a z e1(1) e2(1) e3(1) by (simp_all add: same_shape_lev)
  obtain h4 where h4: "set_layer z i (\<lambda>l. l\<lparr>sl_span := sp h3 i a - (rk ! 0 - rk ! i)\<rparr>) h3 = Some h4"
    using set_layer_on [OF z3] by blast
  have e4: "same_shape h3 h4" "off_layer i h3 h4" using set_layer_frame [OF h4] .
  note f4 = set_layer_span [OF h4 z3]
  have a4: "i < lev h4 a" using a3 e4(1) by (simp add: same_shape_lev)
  obtain h5 where h5: "set_layer a i (\<lambda>l. l\<lparr>sl_span := (rk ! 0 - rk ! i) + 1\<rparr>) h4 = Some h5"
    using set_layer_on [OF a4] by blast
  have e5: "same_shape h4 h5" "off_layer i h4 h5" using set_layer_frame [OF h5] .
  note f5 = set_layer_span [OF h5 a4]
  have "link_layer z bn rk i h = Some h5"
    using h1 h2 h3 h4 h5
    by (simp add: link_layer_def bn get_layer_on [OF a] get_layer_on [OF a3])
  moreover have "same_shape h h5"
    using e1(1) e2(1) e3(1) e4(1) e5(1) by (meson same_shape_trans)
  moreover have "off_layer i h h5"
    using e1(2) e2(2) e3(2) e4(2) e5(2) by (meson off_layer_trans)
  moreover have "\<forall>x. nx h5 i x = (if x = z then nx h i a else if x = a then Some z else nx h i x)"
    using az by (simp add: f5 f4 f3 f2 f1)
  moreover have "\<forall>x. pv h5 i x =
      (if nx h i a = Some x then Some z else if x = z then Some a else pv h i x)"
    by (simp add: f5 f4 f3 f2 f1)
  moreover have "\<forall>x. sp h5 i x = (if x = z then sp h i a - (rk ! 0 - rk ! i)
                       else if x = a then (rk ! 0 - rk ! i) + 1 else sp h i x)"
    using az by (simp add: f5 f4 f3 f2 f1)
  ultimately show ?thesis by blast
qed

lemma widen_layer_eff:
  assumes "bn ! i = Some a" "i < lev h a"
  shows "\<exists>h'. widen_layer bn i h = Some h' \<and> same_shape h h' \<and> off_layer i h h' \<and>
    nx h' i = nx h i \<and> pv h' i = pv h i \<and> (\<forall>x. sp h' i x = (if x = a then sp h i a + 1 else sp h i x))"
proof -
  obtain h' where h': "set_layer a i (\<lambda>l. l\<lparr>sl_span := sl_span l + 1\<rparr>) h = Some h'"
    using set_layer_on [OF assms(2)] by blast
  show ?thesis
    using set_layer_frame [OF h'] set_layer_span [OF h' assms(2)] h' assms(1)
    by (simp add: widen_layer_def)
qed

text \<open>One round of \<open>DeleteNode\<close>, on a layer of the node and above them.\<close>

lemma unlink_layer_on_eff:
  assumes l: "i < levels" "i < lev h z" and p: "pv h i z = Some a" "i < lev h a"
    and b: "\<And>b. nx h i z = Some b \<Longrightarrow> i < lev h b"
  shows "\<exists>h'. unlink_layer z levels bn i h = Some h' \<and> same_shape h h' \<and> off_layer i h h' \<and>
    (\<forall>x. nx h' i x = (if x = a then nx h i z else nx h i x)) \<and>
    (\<forall>x. pv h' i x = (if nx h i z = Some x then Some a else pv h i x)) \<and>
    (\<forall>x. sp h' i x = (if x = a then sp h i a + (sp h i z - 1) else sp h i x))"
proof -
  let ?f = "\<lambda>lp. lp\<lparr>sl_next := nx h i z, sl_span := sl_span lp + (sp h i z - 1)\<rparr>"
  obtain h1 where h1: "set_layer a i ?f h = Some h1" using set_layer_on [OF p(2)] by blast
  have e1: "same_shape h h1" "off_layer i h h1" using set_layer_frame [OF h1] .
  have f1: "nx h1 i = (nx h i)(a := nx h i z)" "pv h1 i = pv h i"
      "sp h1 i = (sp h i)(a := sp h i a + (sp h i z - 1))"
    using set_layer_fields [OF h1 p(2)] by simp_all
  have "\<And>b. nx h i z = Some b \<Longrightarrow> i < lev h1 b" using b e1 by (simp add: same_shape_lev)
  from set_prev_opt [where q = "nx h i z" and n = "Some a", OF this] obtain h2
    where h2: "(case nx h i z of None \<Rightarrow> Some h1
            | Some b \<Rightarrow> set_layer b i (\<lambda>l. l\<lparr>sl_prev := Some a\<rparr>) h1) = Some h2"
      and e2: "same_shape h1 h2" "off_layer i h1 h2"
      and f2: "nx h2 i = nx h1 i" "sp h2 i = sp h1 i"
        "\<forall>x. pv h2 i x = (if nx h i z = Some x then Some a else pv h1 i x)"
    by blast
  have "unlink_layer z levels bn i h = Some h2"
    using h1 h2 l p(1)
    by (cases "nx h i z") (simp_all add: unlink_layer_def get_layer_on [OF l(2)])
  moreover have "same_shape h h2" using e1(1) e2(1) by (rule same_shape_trans)
  moreover have "off_layer i h h2" using e1(2) e2(2) by (rule off_layer_trans)
  ultimately show ?thesis by (simp add: f2 f1)
qed

lemma unlink_layer_off_eff:
  assumes "\<not> i < levels" "bn ! i = Some a" "i < lev h a"
  shows "\<exists>h'. unlink_layer z levels bn i h = Some h' \<and> same_shape h h' \<and> off_layer i h h' \<and>
    nx h' i = nx h i \<and> pv h' i = pv h i \<and> (\<forall>x. sp h' i x = (if x = a then sp h i a - 1 else sp h i x))"
proof -
  obtain h' where h': "set_layer a i (\<lambda>l. l\<lparr>sl_span := sl_span l - 1\<rparr>) h = Some h'"
    using set_layer_on [OF assms(3)] by blast
  show ?thesis
    using set_layer_frame [OF h'] set_layer_span [OF h' assms(3)] h' assms(1,2)
    by (simp add: unlink_layer_def)
qed

end
