(* ===== verification/Skiplist_Walk.thy ===== *)
theory Skiplist_Walk
  imports Skiplist_Layer
begin

text \<open>
  The walks of the skip list (where the search stops on a layer, and at which rank) and the loops
  that link, widen and unlink a node, each with its invariant over the layers done so far.
\<close>

section \<open>The walk on one layer\<close>

text \<open>
  \<open>A\<close> holds the head and the nodes the search must pass, \<open>B\<close> the rest. From any node of \<open>A\<close>
  on layer \<open>i\<close> the walk stops at the last node of \<open>A\<close> on that layer, having counted the ranks.
\<close>

lemma split_low_high:
  "(\<forall>x \<in> set D. \<not> H x) \<or> (\<exists>D1 m D2. D = D1 @ m # D2 \<and> (\<forall>x \<in> set D1. \<not> H x) \<and> H m)"
  by (metis split_list_first_prop)

lemma sl_walk_stops:
  assumes s: "seg (on h i) (nx h i) (sp h i) (C @ n # D @ B) (None, 0)" and n: "on h i n"
    and D: "\<forall>d \<in> set D. \<exists>x. node_value h d = Some x \<and> gt x v"
    and B: "\<forall>b \<in> set B. \<exists>x. node_value h b = Some x \<and> \<not> gt x v"
  shows "\<exists>a m. sl_walk gt v h i n r = Some (a, r + m - int (length C)) \<and> pred_at (on h i) (C @ n # D) a m"
  using s n D
proof (induction "length D" arbitrary: C n D r rule: less_induct)
  case less
  have nx: "nx h i n = fst (fh (on h i) (D @ B) (None, 0))"
    and sp: "sp h i n = snd (fh (on h i) (D @ B) (None, 0))"
    using less.prems(1,2) by simp_all
  from split_low_high [of D "on h i"] show ?case
  proof (elim disjE exE conjE)
    assume low: "\<forall>x \<in> set D. \<not> on h i x"
    then have "nx h i n = fst (fh (on h i) B (None, 0))" using nx by (simp add: fh_low)
    then have "nx h i n = Some b \<Longrightarrow> \<exists>x. node_value h b = Some x \<and> \<not> gt x v" for b
      using B fh_Some_mem [of "on h i" B "(None, 0)" b] by auto
    then have "sl_walk gt v h i n r = Some (n, r)"
      by (subst sl_walk.simps) (auto simp: get_layer_on [OF less.prems(2)] split: option.splits)
    moreover have "pred_at (on h i) (C @ n # D) n (int (length C))"
      using low less.prems(2) by (auto simp: pred_at_def)
    ultimately show ?thesis by (intro exI [of _ n] exI [of _ "int (length C)"]) simp
  next
    fix D1 m D2
    assume D12: "D = D1 @ m # D2" "\<forall>x \<in> set D1. \<not> on h i x" "on h i m"
    have nxm: "nx h i n = Some m" and spm: "sp h i n = int (length D1) + 1"
      using nx sp D12 by (simp_all add: fh_low)
    obtain x where x: "node_value h m = Some x" "gt x v" using less.prems(3) D12 by auto
    have step: "sl_walk gt v h i n r = sl_walk gt v h i m (r + (int (length D1) + 1))"
      by (subst sl_walk.simps) (simp add: get_layer_on [OF less.prems(2)] nxm spm x)
    have "length D2 < length D" using D12 by simp
    moreover have "seg (on h i) (nx h i) (sp h i) ((C @ n # D1) @ m # D2 @ B) (None, 0)"
      using less.prems(1) D12(1) by simp
    ultimately obtain a k where
      "sl_walk gt v h i m (r + (int (length D1) + 1))
         = Some (a, r + (int (length D1) + 1) + k - int (length (C @ n # D1)))"
      "pred_at (on h i) ((C @ n # D1) @ m # D2) a k"
      using less.hyps [of D2 "C @ n # D1" m "r + (int (length D1) + 1)"] D12 less.prems(3) by auto
    then show ?thesis using step D12(1) by auto
  qed
qed

text \<open>The layers of the list, all over the same sequence of nodes.\<close>

definition layers_ok :: "'v node_heap \<Rightarrow> nat \<Rightarrow> nat list \<Rightarrow> bool" where
  "layers_ok h k L \<longleftrightarrow> (\<forall>i < k. seg (on h i) (nx h i) (sp h i) L (None, 0) \<and> bseg (on h i) (pv h i) None L)"

definition passes :: "('v \<Rightarrow> 'v \<Rightarrow> bool) \<Rightarrow> 'v \<Rightarrow> 'v node_heap \<Rightarrow> nat list \<Rightarrow> bool" where
  "passes gt v h A \<longleftrightarrow> (\<forall>d \<in> set A. \<exists>x. node_value h d = Some x \<and> gt x v)"

definition blocks :: "('v \<Rightarrow> 'v \<Rightarrow> bool) \<Rightarrow> 'v \<Rightarrow> 'v node_heap \<Rightarrow> nat list \<Rightarrow> bool" where
  "blocks gt v h B \<longleftrightarrow> (\<forall>b \<in> set B. \<exists>x. node_value h b = Some x \<and> \<not> gt x v)"

text \<open>What the two array fields hold for the layers below \<open>k\<close> after the search.\<close>

definition path_ok :: "'v node_heap \<Rightarrow> nat \<Rightarrow> nat list \<Rightarrow> nat option list \<Rightarrow> int list \<Rightarrow> bool" where
  "path_ok h k A bn rk \<longleftrightarrow> (\<forall>i < k. \<exists>a. bn ! i = Some a \<and> pred_at (on h i) A a (rk ! i))"

lemma pred_at_on: "pred_at H A a m \<Longrightarrow> a \<in> set A \<and> H a"
  by (auto elim!: pred_atE)

lemma pred_at_resume:
  assumes "pred_at H A a m"
  obtains C D where "A = C @ a # D" "m = int (length C)"
  using assms by (auto elim!: pred_atE)

lemma insert_search_path:
  assumes lay: "layers_ok h cl ((C @ n # D) @ B)" and k: "k \<le> cl" "k \<le> lev h n"
    and D: "passes gt v h (D)" and A: "passes gt v h (tl (C @ n # D))"
    and B: "blocks gt v h B" and len: "k \<le> length bn" "k \<le> length rk"
  shows "\<exists>bn' rk'. insert_search gt v h k n (int (length C)) bn rk = Some (bn', rk')
    \<and> length bn' = length bn \<and> length rk' = length rk
    \<and> (\<forall>j. k \<le> j \<longrightarrow> bn' ! j = bn ! j \<and> rk' ! j = rk ! j)
    \<and> path_ok h k (C @ n # D) bn' rk'"
  using lay k D A len
proof (induction k arbitrary: C n D bn rk)
  case 0
  then show ?case by (simp add: path_ok_def)
next
  case (Suc i)
  have s: "seg (on h i) (nx h i) (sp h i) (C @ n # D @ B) (None, 0)"
    using Suc.prems(1,2) by (simp add: layers_ok_def)
  have n: "on h i n" using Suc.prems(3) by simp
  obtain a m where w: "sl_walk gt v h i n (int (length C)) = Some (a, m)"
      and p: "pred_at (on h i) (C @ n # D) a m"
    using sl_walk_stops [OF s n, of gt v "int (length C)"] Suc.prems(4) B
    by (auto simp: passes_def blocks_def)
  obtain C' D' where CD: "C @ n # D = C' @ a # D'" and m: "m = int (length C')"
    using p by (rule pred_at_resume)
  have a: "i \<le> lev h a" using pred_at_on [OF p] by simp
  have pass: "passes gt v h (tl (C' @ a # D'))" using Suc.prems(5) CD by simp
  then have "passes gt v h D'" by (cases C') (auto simp: passes_def)
  moreover have "layers_ok h cl ((C' @ a # D') @ B)" using Suc.prems(1) CD by simp
  ultimately obtain bn' rk' where
    IH: "insert_search gt v h i a (int (length C')) (bn[i := Some a]) (rk[i := m]) = Some (bn', rk')"
      "length bn' = length bn" "length rk' = length rk"
      "\<forall>j. i \<le> j \<longrightarrow> bn' ! j = bn[i := Some a] ! j \<and> rk' ! j = rk[i := m] ! j"
      "path_ok h i (C' @ a # D') bn' rk'"
    using Suc.IH [of C' a D' "bn[i := Some a]" "rk[i := m]"] Suc.prems(2,6,7) a pass by auto
  have "bn' ! i = Some a" "rk' ! i = m" using IH(4) Suc.prems(6,7) by simp_all
  then have "path_ok h (Suc i) (C @ n # D) bn' rk'"
    using IH(5) p CD by (auto simp: path_ok_def less_Suc_eq)
  moreover have "insert_search gt v h (Suc i) n (int (length C)) bn rk = Some (bn', rk')"
    using w IH(1) m by simp
  ultimately show ?case using IH(2-4) by auto
qed

section \<open>The effect of one round on its layer\<close>

definition lay :: "nat \<Rightarrow> 'v node_heap \<Rightarrow> nat list \<Rightarrow> bool" where
  "lay i h L \<longleftrightarrow> seg (on h i) (nx h i) (sp h i) L (None, 0) \<and> bseg (on h i) (pv h i) None L"

lemma layers_ok_lay: "layers_ok h k L \<longleftrightarrow> (\<forall>i < k. lay i h L)"
  by (simp add: layers_ok_def lay_def)

lemma lay_frame: "same_shape h h' \<Longrightarrow> off_layer i h h' \<Longrightarrow> j \<noteq> i \<Longrightarrow> lay j h' L = lay j h L"
  by (simp add: lay_def off_layer_def same_shape_def)

lemma pred_next_on:
  assumes "lay i h (A @ B)" and "pred_at (on h i) A a m"
  shows "nx h i a = fst (fh (on h i) B (None, 0))"
    and "nx h i a = Some b \<Longrightarrow> b \<in> set B \<and> on h i b"
proof -
  from assms(2) obtain A1 A2 where A: "A = A1 @ a # A2" "on h i a" "\<forall>x \<in> set A2. \<not> on h i x"
    by (rule pred_atE)
  with assms(1) show e: "nx h i a = fst (fh (on h i) B (None, 0))"
    by (simp add: lay_def fh_low)
  then show "nx h i a = Some b \<Longrightarrow> b \<in> set B \<and> on h i b"
    using fh_Some_mem [of "on h i" B "(None, 0)" b] by auto
qed

lemma link_lay:
  assumes l: "lay i h (A @ B)" and d: "distinct (A @ z # B)" and z: "on h i z"
    and bn: "bn ! i = Some a" and p: "pred_at (on h i) A a (rk ! i)"
    and rk: "rk ! 0 = int (length A) - 1"
  shows "\<exists>h'. link_layer z bn rk i h = Some h' \<and> same_shape h h' \<and> off_layer i h h' \<and> lay i h' (A @ z # B)"
proof -
  have a: "a \<in> set A" "on h i a" using pred_at_on [OF p] by simp_all
  have az: "a \<noteq> z" using a d by auto
  have b: "\<And>b. nx h i a = Some b \<Longrightarrow> on h i b" using pred_next_on [OF l p] by simp
  have nz: "nx h i a \<noteq> Some z" using pred_next_on(2) [OF l p, of z] d by auto
  obtain h' where h': "link_layer z bn rk i h = Some h'" "same_shape h h'" "off_layer i h h'"
    "\<forall>x. nx h' i x = (if x = z then nx h i a else if x = a then Some z else nx h i x)"
    "\<forall>x. pv h' i x = (if nx h i a = Some x then Some z else if x = z then Some a else pv h i x)"
    "\<forall>x. sp h' i x = (if x = z then sp h i a - (rk ! 0 - rk ! i)
                       else if x = a then (rk ! 0 - rk ! i) + 1 else sp h i x)"
    using link_layer_eff [OF bn a(2) z az b] by blast
  have lev': "lev h' = lev h" using h'(2) by (simp add: same_shape_lev)
  have "seg (on h i) (nx h' i) (sp h' i) (A @ z # B) (None, 0)"
    by (rule link_seg [OF p d z, where S = "sp h i" and N = "nx h i"]) (use l h'(4,6) rk in \<open>simp_all add: lay_def\<close>)
  moreover have "bseg (on h i) (pv h' i) None (A @ z # B)"
    by (rule link_bseg [OF p d z, where S = "sp h i" and N = "nx h i" and P = "pv h i"])
      (use l h'(5) nz in \<open>auto simp: lay_def\<close>)
  ultimately show ?thesis using h'(1-3) by (auto simp: lay_def lev')
qed

lemma widen_lay:
  assumes l: "lay i h (A @ B)" and d: "distinct (A @ z # B)" and z: "\<not> on h i z"
    and bn: "bn ! i = Some a" and p: "pred_at (on h i) A a m"
  shows "\<exists>h'. widen_layer bn i h = Some h' \<and> same_shape h h' \<and> off_layer i h h' \<and> lay i h' (A @ z # B)
     \<and> nx h' i = nx h i \<and> pv h' i = pv h i"
proof -
  have a: "on h i a" using pred_at_on [OF p] by simp
  obtain h' where h': "widen_layer bn i h = Some h'" "same_shape h h'" "off_layer i h h'"
    "nx h' i = nx h i" "pv h' i = pv h i" "\<forall>x. sp h' i x = (if x = a then sp h i a + 1 else sp h i x)"
    using widen_layer_eff [where h = h, OF bn a] by blast
  have lev': "lev h' = lev h" using h'(2) by (simp add: same_shape_lev)
  have "seg (on h i) (nx h i) (sp h' i) (A @ z # B) (None, 0)"
    by (rule widen_seg [OF p d z, where S = "sp h i"]) (use l h'(6) in \<open>simp_all add: lay_def\<close>)
  moreover have "bseg (on h i) (pv h i) None (A @ z # B)"
    using l z by (simp add: lay_def)
  ultimately show ?thesis using h' by (auto simp: lay_def lev')
qed

lemma unlink_lay:
  assumes l: "lay i h (A @ z # B)" and d: "distinct (A @ z # B)" and z: "on h i z" "i < levels"
    and p: "pred_at (on h i) A a m"
  shows "\<exists>h'. unlink_layer z levels bn i h = Some h' \<and> same_shape h h' \<and> off_layer i h h' \<and> lay i h' (A @ B)
     \<and> pv h' i z = pv h i z"
proof -
  have a: "a \<in> set A" "on h i a" using pred_at_on [OF p] by simp_all
  let ?P = "\<lambda>x. if nx h i z = Some x then Some a else pv h i x"
  have pz: "pv h i z = Some a" and bs: "bseg (on h i) ?P None (A @ B)"
    using unlink_bseg [OF p d z(1), where S = "sp h i" and N = "nx h i" and P = "pv h i" and P' = ?P] l
    by (simp_all add: lay_def)
  have nz: "nx h i z = fst (fh (on h i) B (None, 0))" using l z by (simp add: lay_def)
  have b: "\<And>b. nx h i z = Some b \<Longrightarrow> b \<in> set B \<and> on h i b"
    using nz fh_Some_mem [of "on h i" B "(None, 0)"] by auto
  obtain h' where h': "unlink_layer z levels bn i h = Some h'" "same_shape h h'" "off_layer i h h'"
    "\<forall>x. nx h' i x = (if x = a then nx h i z else nx h i x)"
    "\<forall>x. pv h' i x = ?P x"
    "\<forall>x. sp h' i x = (if x = a then sp h i a + (sp h i z - 1) else sp h i x)"
    using unlink_layer_on_eff [OF z(2) z(1) pz a(2)] b by blast
  have lev': "lev h' = lev h" using h'(2) by (simp add: same_shape_lev)
  have "seg (on h i) (nx h' i) (sp h' i) (A @ B) (None, 0)"
    by (rule unlink_seg [OF p d z(1), where S = "sp h i" and N = "nx h i"])
      (use l h'(4,6) in \<open>simp_all add: lay_def\<close>)
  moreover have "bseg (on h i) (pv h' i) None (A @ B)"
    using bs h'(5) by (subst bseg_cong [where H' = "on h i" and P' = ?P]) auto
  moreover have "pv h' i z = pv h i z" using h'(5) b [of z] d by auto
  ultimately show ?thesis using h'(1-3) by (auto simp: lay_def lev')
qed

lemma narrow_lay:
  assumes l: "lay i h (A @ z # B)" and d: "distinct (A @ z # B)" and z: "\<not> on h i z" "\<not> i < levels"
    and bn: "bn ! i = Some a" and p: "pred_at (on h i) A a m"
  shows "\<exists>h'. unlink_layer z levels bn i h = Some h' \<and> same_shape h h' \<and> off_layer i h h' \<and> lay i h' (A @ B)
     \<and> nx h' i = nx h i \<and> pv h' i = pv h i"
proof -
  have a: "on h i a" using pred_at_on [OF p] by simp
  obtain h' where h': "unlink_layer z levels bn i h = Some h'" "same_shape h h'" "off_layer i h h'"
    "nx h' i = nx h i" "pv h' i = pv h i" "\<forall>x. sp h' i x = (if x = a then sp h i a - 1 else sp h i x)"
    using unlink_layer_off_eff [where h = h, OF z(2) bn a] by blast
  have lev': "lev h' = lev h" using h'(2) by (simp add: same_shape_lev)
  have "seg (on h i) (nx h i) (sp h' i) (A @ B) (None, 0)"
    by (rule narrow_seg [OF p d z(1), where S = "sp h i"]) (use l h'(6) in \<open>simp_all add: lay_def\<close>)
  moreover have "bseg (on h i) (pv h i) None (A @ B)"
    using l z by (simp add: lay_def)
  ultimately show ?thesis using h' by (auto simp: lay_def lev')
qed

section \<open>The loops\<close>

text \<open>While a loop over the layers runs, the layers below \<open>j\<close> describe the new sequence of nodes
  and those from \<open>j\<close> on the old one.\<close>

definition mixed :: "nat \<Rightarrow> nat \<Rightarrow> nat list \<Rightarrow> nat list \<Rightarrow> 'v node_heap \<Rightarrow> bool" where
  "mixed j k L' L h \<longleftrightarrow> (\<forall>i < j. lay i h L') \<and> (\<forall>i. j \<le> i \<and> i < k \<longrightarrow> lay i h L)"

lemma mixed_step:
  assumes "mixed j k L' L h" "same_shape h h'" "off_layer j h h'" "lay j h' L'"
  shows "mixed (Suc j) k L' L h'"
  using assms lay_frame [OF assms(2,3)] by (auto simp: mixed_def less_Suc_eq)

definition rest_nil :: "nat \<Rightarrow> 'v node_heap \<Rightarrow> bool" where
  "rest_nil k h \<longleftrightarrow> (\<forall>i. k \<le> i \<longrightarrow> nx h i 0 = None \<and> pv h i 0 = None)"

lemma rest_nil_off: "rest_nil k h \<Longrightarrow> off_layer i h h' \<Longrightarrow> i < k \<Longrightarrow> rest_nil k h'"
  by (simp add: rest_nil_def off_layer_def)

lemma path_ok_shape: "same_shape h h' \<Longrightarrow> path_ok h' k A bn rk = path_ok h k A bn rk"
  by (simp add: path_ok_def same_shape_def)

lemma path_okD:
  assumes "path_ok h k A bn rk" and "i < k"
  obtains a where "bn ! i = Some a" "pred_at (on h i) A a (rk ! i)"
  using assms by (auto simp: path_ok_def)

lemma link_loop:
  assumes d: "distinct (A @ z # B)" and z: "nl \<le> lev h z" and nl: "nl \<le> k"
    and m: "mixed 0 k (A @ z # B) (A @ B) h" and rn: "rest_nil k h"
    and p: "path_ok h k A bn rk" and rk: "rk ! 0 = int (length A) - 1"
  shows "\<exists>h'. for_each (link_layer z bn rk) [0..<nl] h = Some h'
    \<and> same_shape h h' \<and> mixed nl k (A @ z # B) (A @ B) h' \<and> rest_nil k h'"
proof (rule for_each_upt [where P = "\<lambda>j h1. same_shape h h1 \<and> mixed j k (A @ z # B) (A @ B) h1 \<and> rest_nil k h1"])
  fix j h1
  assume j: "j < nl" and I: "same_shape h h1 \<and> mixed j k (A @ z # B) (A @ B) h1 \<and> rest_nil k h1"
  obtain a where a: "bn ! j = Some a" "pred_at (on h1 j) A a (rk ! j)"
    using path_okD [OF p, of j] j nl I by (auto simp: same_shape_def)
  have "on h1 j z" using z j I by (auto simp: same_shape_def)
  moreover have "lay j h1 (A @ B)" using I j nl by (simp add: mixed_def)
  ultimately obtain h2 where h2: "link_layer z bn rk j h1 = Some h2" "same_shape h1 h2"
      "off_layer j h1 h2" "lay j h2 (A @ z # B)"
    using link_lay [of j h1 A B z bn a rk] d a rk by blast
  then show "\<exists>s'. link_layer z bn rk j h1 = Some s' \<and>
      (same_shape h s' \<and> mixed (Suc j) k (A @ z # B) (A @ B) s' \<and> rest_nil k s')"
    using mixed_step [of j k _ _ h1 h2] rest_nil_off [of k h1 j h2] I j nl
    by (auto intro: same_shape_trans)
qed (use m rn in simp_all)

lemma widen_loop:
  assumes d: "distinct (A @ z # B)" and z: "lev h z \<le> nl" and nl: "nl \<le> k"
    and m: "mixed nl k (A @ z # B) (A @ B) h" and rn: "rest_nil k h"
    and p: "path_ok h k A bn rk"
  shows "\<exists>h'. for_each (widen_layer bn) [nl..<k] h = Some h'
    \<and> same_shape h h' \<and> mixed k k (A @ z # B) (A @ B) h' \<and> rest_nil k h'"
proof (rule for_each_upt [where P = "\<lambda>j h1. same_shape h h1 \<and> mixed j k (A @ z # B) (A @ B) h1 \<and> rest_nil k h1"])
  fix j h1
  assume j: "nl \<le> j" "j < k" and I: "same_shape h h1 \<and> mixed j k (A @ z # B) (A @ B) h1 \<and> rest_nil k h1"
  obtain a where a: "bn ! j = Some a" "pred_at (on h1 j) A a (rk ! j)"
    using path_okD [OF p, of j] j I by (auto simp: same_shape_def)
  have "\<not> on h1 j z" using z j I by (auto simp: same_shape_def)
  moreover have "lay j h1 (A @ B)" using I j by (simp add: mixed_def)
  ultimately obtain h2 where h2: "widen_layer bn j h1 = Some h2" "same_shape h1 h2"
      "off_layer j h1 h2" "lay j h2 (A @ z # B)"
    using widen_lay [of j h1 A B z bn a "rk ! j"] d a by blast
  then show "\<exists>s'. widen_layer bn j h1 = Some s' \<and>
      (same_shape h s' \<and> mixed (Suc j) k (A @ z # B) (A @ B) s' \<and> rest_nil k s')"
    using mixed_step [of j k _ _ h1 h2] rest_nil_off [of k h1 j h2] I j
    by (auto intro: same_shape_trans)
qed (use nl m rn in simp_all)

lemma unlink_loop:
  assumes d: "distinct (A @ z # B)" and z: "lev h z = levels" and lv: "levels \<le> k"
    and m: "mixed 0 k (A @ B) (A @ z # B) h" and rn: "rest_nil k h"
    and p: "path_ok h k A bn rk"
  shows "\<exists>h'. for_each (unlink_layer z levels bn) [0..<k] h = Some h'
    \<and> (same_shape h h' \<and> mixed k k (A @ B) (A @ z # B) h' \<and> rest_nil k h' \<and> (\<forall>i. pv h' i z = pv h i z))"
proof (rule for_each_upt [where P = "\<lambda>j h1. same_shape h h1 \<and> mixed j k (A @ B) (A @ z # B) h1 \<and> rest_nil k h1 \<and> (\<forall>i. pv h1 i z = pv h i z)"])
  fix j h1
  assume j: "j < k" and I: "same_shape h h1 \<and> mixed j k (A @ B) (A @ z # B) h1 \<and> rest_nil k h1
    \<and> (\<forall>i. pv h1 i z = pv h i z)"
  obtain a where a: "bn ! j = Some a" "pred_at (on h1 j) A a (rk ! j)"
    using path_okD [OF p, of j] j I by (auto simp: same_shape_def)
  have l: "lay j h1 (A @ z # B)" using I j by (simp add: mixed_def)
  have on1: "on h1 j z = (j < levels)" using I z by (auto simp: same_shape_def)
  have "\<exists>h2. unlink_layer z levels bn j h1 = Some h2 \<and> same_shape h1 h2 \<and> off_layer j h1 h2
      \<and> lay j h2 (A @ B) \<and> pv h2 j z = pv h1 j z"
  proof (cases "j < levels")
    case True
    then show ?thesis using unlink_lay [OF l d _ _ a(2), of levels bn] on1 by blast
  next
    case False
    then show ?thesis using narrow_lay [OF l d _ _ a, of levels] on1 by auto
  qed
  then obtain h2 where h2: "unlink_layer z levels bn j h1 = Some h2" "same_shape h1 h2"
      "off_layer j h1 h2" "lay j h2 (A @ B)" "pv h2 j z = pv h1 j z" by blast
  have "pv h2 i z = pv h1 i z" for i
    using h2(3,5) by (cases "i = j") (auto simp: off_layer_def)
  then show "\<exists>s'. unlink_layer z levels bn j h1 = Some s' \<and>
      (same_shape h s' \<and> mixed (Suc j) k (A @ B) (A @ z # B) s' \<and> rest_nil k s'
       \<and> (\<forall>i. pv s' i z = pv h i z))"
    using mixed_step [OF _ h2(2-4)] rest_nil_off [OF _ h2(3)] I j h2(1,2)
    by (auto intro: same_shape_trans)
qed (use m rn in simp_all)

lemma open_loop:
  assumes xs: "\<forall>x \<in> set xs. lev h x \<le> cl" and h0: "lev h 0 = 32" and d: "0 \<notin> set xs" and nl: "nl \<le> 32"
    and lo: "layers_ok h cl (0 # xs)" and rn: "rest_nil cl h" and cl: "cl \<le> 32" "A = 0 # A'"
    and sub: "set A' \<subseteq> set xs"
    and p: "path_ok h cl A bn rk" and len: "length bn = 32" "length rk = 32" and le: "cl \<le> nl"
  shows "\<exists>s'. for_each (open_layer (int (length xs))) [cl..<nl] (bn, rk, h) = Some s'
    \<and> (case s' of (bn', rk', h') \<Rightarrow> same_shape h h' \<and> layers_ok h' nl (0 # xs) \<and> rest_nil nl h'
        \<and> path_ok h' nl A bn' rk' \<and> length bn' = 32 \<and> length rk' = 32)"
proof (rule for_each_upt [where P = "\<lambda>j s. case s of (bn', rk', h') \<Rightarrow> same_shape h h' \<and> layers_ok h' j (0 # xs)
     \<and> rest_nil j h' \<and> path_ok h' j A bn' rk' \<and> length bn' = 32 \<and> length rk' = 32"])
  fix j and s :: "nat option list \<times> int list \<times> 'a node_heap"
  assume j: "cl \<le> j" "j < nl" and I: "case s of (bn', rk', h') \<Rightarrow> same_shape h h' \<and> layers_ok h' j (0 # xs)
     \<and> rest_nil j h' \<and> path_ok h' j A bn' rk' \<and> length bn' = 32 \<and> length rk' = 32"
  obtain bn1 rk1 h1 where s: "s = (bn1, rk1, h1)" by (cases s)
  note I = I [unfolded s, simplified]
  have on0: "on h1 j 0" using I h0 nl j by (simp add: same_shape_def)
  have low: "\<forall>x \<in> set xs. \<not> on h1 j x" using xs I j by (auto simp: same_shape_def)
  obtain h2 where h2: "set_layer 0 j (\<lambda>l. l\<lparr>sl_span := int (length xs)\<rparr>) h1 = Some h2"
    using set_layer_on [OF on0] by blast
  note fr = set_layer_frame [OF h2] and sp2 = set_layer_span [OF h2 on0]
  have lev2: "lev h2 = lev h1" using fr(1) by (simp add: same_shape_def)
  have "nx h1 j 0 = None" "pv h1 j 0 = None" using I by (simp_all add: rest_nil_def)
  then have "lay j h2 (0 # xs)"
    using low on0 by (simp add: lay_def lev2 sp2 low_simps)
  then have "layers_ok h2 (Suc j) (0 # xs)"
    using I lay_frame [OF fr] by (auto simp: layers_ok_lay less_Suc_eq)
  moreover have "rest_nil (Suc j) h2" using I fr(2) by (simp add: rest_nil_def off_layer_def)
  moreover have "path_ok h2 (Suc j) A (bn1[j := Some 0]) (rk1[j := 0])"
  proof -
    have "pred_at (on h1 j) A 0 0"
      unfolding pred_at_def using low on0 sub cl(2) by (intro exI [of _ "[]"] exI [of _ A']) auto
    then show ?thesis using I j nl by (auto simp: path_ok_def less_Suc_eq lev2 nth_list_update)
  qed
  ultimately show "\<exists>s'. open_layer (int (length xs)) j s = Some s' \<and>
     (case s' of (bn', rk', h') \<Rightarrow> same_shape h h' \<and> layers_ok h' (Suc j) (0 # xs)
       \<and> rest_nil (Suc j) h' \<and> path_ok h' (Suc j) A bn' rk' \<and> length bn' = 32 \<and> length rk' = 32)"
    using h2 I fr(1) by (auto simp: open_layer_def s intro: same_shape_trans)
qed (use le lo rn p len in simp_all)

end
