(* ===== verification/Skiplist_Inv.thy ===== *)
theory Skiplist_Inv
  imports Skiplist_Walk
begin

text \<open>
  The representation invariant \<open>sl_inv sl xs vs\<close> (the nodes \<open>xs\<close> of the list \<open>sl\<close> hold
  the values \<open>vs\<close>), the interface \<open>skiplist_order\<close> the values promise, and the correctness of
  \<open>Insert\<close>.
\<close>

section \<open>The representation invariant\<close>

definition sl_inv :: "'v skiplist \<Rightarrow> nat list \<Rightarrow> 'v list \<Rightarrow> bool" where
  "sl_inv sl xs vs \<longleftrightarrow>
     distinct (0 # xs) \<and> (\<forall>a. sl_heap sl a \<noteq> None \<longrightarrow> a < sl_fresh sl) \<and>
     lev (sl_heap sl) 0 = 32 \<and> node_value (sl_heap sl) 0 = None \<and> 1 \<le> curr_layer sl \<and> curr_layer sl \<le> 32 \<and>
     (\<forall>x \<in> set xs. 1 \<le> lev (sl_heap sl) x \<and> lev (sl_heap sl) x \<le> curr_layer sl) \<and>
     map (node_value (sl_heap sl)) xs = map Some vs \<and>
     layers_ok (sl_heap sl) (curr_layer sl) (0 # xs) \<and> rest_nil (curr_layer sl) (sl_heap sl) \<and>
     curr_length sl = int (length xs) \<and> (xs \<noteq> [] \<longrightarrow> sl_tail sl = Some (last xs)) \<and>
     length (lengths_num sl) = 32 \<and>
     (\<forall>j < 32. lengths_num sl ! j = int (length (filter (\<lambda>x. lev (sl_heap sl) x = Suc j) xs))) \<and>
     length (before_node sl) = 32 \<and> length (sl_rank sl) = 32"

text \<open>The list represented is in descending order: no later value is greater.\<close>

definition descending :: "('v \<Rightarrow> 'v \<Rightarrow> bool) \<Rightarrow> 'v list \<Rightarrow> bool" where
  "descending gt vs \<longleftrightarrow> sorted_wrt (\<lambda>a b. \<not> gt b a) vs"

text \<open>Where a value belongs: after every greater one.\<close>

definition ins_pos :: "('v \<Rightarrow> 'v \<Rightarrow> bool) \<Rightarrow> 'v \<Rightarrow> 'v list \<Rightarrow> nat" where
  "ins_pos gt v vs = length (takeWhile (\<lambda>x. gt x v) vs)"

text \<open>The interface \<open>SkiplistNode\<close>: \<open>Greater\<close> is a strict weak order.\<close>

locale skiplist_order =
  fixes gt :: "'v \<Rightarrow> 'v \<Rightarrow> bool"
  assumes gt_asym: "gt a b \<Longrightarrow> \<not> gt b a"
    and gt_cotrans: "gt a b \<Longrightarrow> gt a c \<or> gt c b"

lemma ins_pos_le: "ins_pos gt v vs \<le> length vs"
  by (simp add: ins_pos_def length_takeWhile_le)

lemma lev_alloc: "lev (h(z \<mapsto> new_skiplist_node n v)) x = (if x = z then n else lev h x)"
  by (simp add: lev_def new_skiplist_node_def)

lemma get_layer_alloc:
  "get_layer (h(z \<mapsto> nd)) x i = (if x = z then (if i < length (sn_layers nd) then Some (sn_layers nd ! i) else None)
     else get_layer h x i)"
  by (simp add: get_layer_def)

lemma value_alloc: "node_value (h(z \<mapsto> new_skiplist_node n v)) x = (if x = z then v else node_value h x)"
  by (simp add: node_value_def new_skiplist_node_def)

lemma lay_alloc:
  assumes "z \<notin> set L"
  shows "lay i (h(z \<mapsto> nd)) L = lay i h L"
proof -
  have same: "\<forall>x \<in> set L. get_layer (h(z \<mapsto> nd)) x i = get_layer h x i"
      "\<forall>x \<in> set L. lev (h(z \<mapsto> nd)) x = lev h x"
    using assms by (auto simp: get_layer_alloc lev_def)
  have "seg (on (h(z \<mapsto> nd)) i) (nx (h(z \<mapsto> nd)) i) (sp (h(z \<mapsto> nd)) i) L (None, 0)
      = seg (on h i) (nx h i) (sp h i) L (None, 0)"
    by (rule seg_cong) (use same in \<open>auto simp: nx_def sp_def\<close>)
  moreover have "bseg (on (h(z \<mapsto> nd)) i) (pv (h(z \<mapsto> nd)) i) None L = bseg (on h i) (pv h i) None L"
    by (rule bseg_cong) (use same in \<open>auto simp: pv_def\<close>)
  ultimately show ?thesis by (simp add: lay_def)
qed

lemma random_layer_loop_ge: "random_layer_loop rs n = Some (m, rs') \<Longrightarrow> n \<le> m"
  by (induction rs n rule: random_layer_loop.induct) (auto split: if_splits)

lemma random_skiplist_layer_range:
  assumes "random_skiplist_layer rs = Some (nl, rs')"
  shows "1 \<le> nl" and "nl \<le> 32"
  using assms random_layer_loop_ge [of rs 1]
  by (force simp: random_skiplist_layer_def MAX_SKIPLIST_LAYER_def split: Option.bind_splits)+

text \<open>The nodes the search for \<open>v\<close> passes and those that stop it.\<close>

lemma ins_split:
  assumes inv: "map (node_value h) xs = map Some vs" and k: "k = ins_pos gt v vs"
  shows "passes gt v h (take k xs)"
    and "\<forall>y \<in> set (drop k vs). \<not> gt y v \<Longrightarrow> blocks gt v h (drop k xs)"
proof -
  have len: "length xs = length vs" using inv by (metis length_map)
  have tk: "take k vs = takeWhile (\<lambda>x. gt x v) vs" by (simp add: k ins_pos_def takeWhile_eq_take [symmetric])
  have m: "node_value h (xs ! j) = Some (vs ! j)" if "j < length xs" for j
    using inv that len by (metis nth_map)
  show "passes gt v h (take k xs)"
  proof (unfold passes_def, rule ballI)
    fix d assume "d \<in> set (take k xs)"
    then obtain j where j: "j < k" "j < length xs" "d = xs ! j"
      by (auto simp: in_set_conv_nth)
    then have "vs ! j \<in> set (take k vs)" using len by (auto simp: in_set_conv_nth)
    then have "gt (vs ! j) v" using tk by (auto dest: set_takeWhileD)
    then show "\<exists>x. node_value h d = Some x \<and> gt x v" using m j by auto
  qed
  show "blocks gt v h (drop k xs)" if b: "\<forall>y \<in> set (drop k vs). \<not> gt y v"
  proof (unfold blocks_def, rule ballI)
    fix d assume "d \<in> set (drop k xs)"
    then obtain j where "j < length (drop k xs)" "d = drop k xs ! j"
      by (auto simp only: in_set_conv_nth)
    then have j: "k + j < length xs" "d = xs ! (k + j)" by simp_all
    then have "drop k vs ! j \<in> set (drop k vs)" using len by (intro nth_mem) simp
    then have "vs ! (k + j) \<in> set (drop k vs)" using j len by simp
    then show "\<exists>x. node_value h d = Some x \<and> \<not> gt x v" using m j b by auto
  qed
qed

context skiplist_order
begin

lemma ins_rest:
  assumes "descending gt vs"
  shows "\<forall>y \<in> set (drop (ins_pos gt v vs) vs). \<not> gt y v"
proof -
  have s: "sorted_wrt (\<lambda>a b. gt b v \<longrightarrow> gt a v) vs"
  proof (rule sorted_wrt_mono_rel)
    show "sorted_wrt (\<lambda>a b. \<not> gt b a) vs" using assms by (simp only: descending_def)
    show "gt b v \<longrightarrow> gt a v" if "\<not> gt b a" for a b
      using that gt_cotrans [of b v a] by blast
  qed
  have eq: "drop (ins_pos gt v vs) vs = dropWhile (\<lambda>x. gt x v) vs"
    by (simp add: ins_pos_def dropWhile_eq_drop)
  show ?thesis unfolding eq by (rule dropWhile_no_hit [OF s])
qed

lemma insert_descending:
  assumes "descending gt vs"
  shows "descending gt (take (ins_pos gt v vs) vs @ v # drop (ins_pos gt v vs) vs)"
proof -
  let ?k = "ins_pos gt v vs"
  have s: "sorted_wrt (\<lambda>a b. \<not> gt b a) (take ?k vs @ drop ?k vs)"
    using assms by (simp add: descending_def)
  have "take ?k vs = takeWhile (\<lambda>x. gt x v) vs"
    by (simp add: ins_pos_def takeWhile_eq_take [symmetric])
  then have "\<forall>x \<in> set (take ?k vs). gt x v"
    using set_takeWhileD [of _ "\<lambda>x. gt x v" vs] by auto
  then have "\<forall>x \<in> set (take ?k vs). \<not> gt v x"
    using gt_asym by blast
  then show ?thesis
    using s ins_rest [OF assms, of v] unfolding descending_def sorted_wrt_append
    by simp
qed

text \<open>The state of the search for \<open>v\<close> in a well-formed list.\<close>

lemma search_setup:
  fixes v :: 'v
  assumes inv: "sl_inv sl xs vs" and desc: "descending gt vs"
  defines "k \<equiv> ins_pos gt v vs"
  shows "layers_ok (sl_heap sl) (curr_layer sl) (([] @ 0 # take k xs) @ drop k xs)"
    and "passes gt v (sl_heap sl) (take k xs)" and "blocks gt v (sl_heap sl) (drop k xs)"
    and "k \<le> length xs"
proof -
  have m: "map (node_value (sl_heap sl)) xs = map Some vs" using inv by (simp add: sl_inv_def)
  then have "length xs = length vs" by (metis length_map)
  then show "k \<le> length xs" by (simp add: k_def ins_pos_le)
  show "layers_ok (sl_heap sl) (curr_layer sl) (([] @ 0 # take k xs) @ drop k xs)"
    using inv by (simp add: sl_inv_def)
  show "passes gt v (sl_heap sl) (take k xs)" "blocks gt v (sl_heap sl) (drop k xs)"
    using ins_split [OF m k_def [THEN meta_eq_to_obj_eq]] ins_rest [OF desc] k_def by blast+
qed

end

section \<open>Insert\<close>

context skiplist_order
begin

text \<open>\<open>Insert\<close> returns, keeps the invariant, and puts the value after every greater one.\<close>

lemma Insert_correct:
  fixes v :: 'v
  assumes inv: "sl_inv sl xs vs" and desc: "descending gt vs"
    and rnd: "random_skiplist_layer rs = Some (nl, rs')"
  defines "k \<equiv> ins_pos gt v vs"
  shows "\<exists>sl' z. Skiplist_Insert gt v rs sl = Some (nl, sl', rs')
    \<and> sl_inv sl' (take k xs @ z # drop k xs) (take k vs @ v # drop k vs)"
proof -
  let ?h = "sl_heap sl" and ?cl = "curr_layer sl" and ?A = "0 # take k xs" and ?B = "drop k xs"
  note I = inv [unfolded sl_inv_def]
  have nl: "1 \<le> nl" "nl \<le> 32" using random_skiplist_layer_range [OF rnd] .
  note S = search_setup [OF inv desc, of v, folded k_def]
  obtain bn rk where sr: "insert_search gt v ?h ?cl 0 0 (before_node sl) (sl_rank sl) = Some (bn, rk)"
      "length bn = 32" "length rk = 32" "path_ok ?h ?cl ?A bn rk"
    using insert_search_path [OF S(1), of ?cl gt v "before_node sl" "sl_rank sl"] S(2,3) I by auto
  obtain s1 where "for_each (open_layer (int (length xs))) [?cl..<nl] (bn, rk, ?h) = Some s1"
    "case s1 of (bn', rk', h') \<Rightarrow> same_shape ?h h' \<and> layers_ok h' (max ?cl nl) (0 # xs) \<and> rest_nil (max ?cl nl) h'
        \<and> path_ok h' (max ?cl nl) ?A bn' rk' \<and> length bn' = 32 \<and> length rk' = 32"
  proof (cases "?cl \<le> nl")
    case True
    show ?thesis
      using that open_loop [of xs ?h ?cl nl ?A "take k xs" bn rk] I sr(2-4) nl(2) set_take_subset [of k xs] True
      by (auto simp: max_def)
  next
    case False
    then show ?thesis using that [of "(bn, rk, ?h)"] I sr(2-4) by (simp add: max_def)
  qed
  then obtain bn1 rk1 h1 where op: "for_each (open_layer (curr_length sl)) [?cl..<nl] (bn, rk, ?h) = Some (bn1, rk1, h1)"
      and h1: "same_shape ?h h1" "layers_ok h1 (max ?cl nl) (0 # xs)" "rest_nil (max ?cl nl) h1"
        "path_ok h1 (max ?cl nl) ?A bn1 rk1" "length bn1 = 32" "length rk1 = 32"
    using I by (cases s1) auto
  define z where "z = sl_fresh sl"
  define K where "K = max ?cl nl"
  define h2 where "h2 = h1(z \<mapsto> new_skiplist_node nl (Some v))"
  have zfree: "?h z = None" using I by (auto simp: z_def)
  have "node_value ?h x \<noteq> None" if "x \<in> set xs" for x
    using I that by (metis (no_types, lifting) in_set_conv_nth length_map nth_map option.distinct(1))
  from this [of z] have zx: "z \<notin> set xs" using zfree by (auto simp: node_value_def)
  have "lev ?h z = 0" using zfree by (simp add: lev_def)
  then have z0: "z \<noteq> 0" using I by (intro notI) simp
  have "set (take k xs) \<inter> set ?B = {}" using I by (simp add: set_take_disj_set_drop_if_distinct)
  then have dist: "distinct (?A @ z # ?B)"
    using I zx z0 by (auto dest: in_set_takeD in_set_dropD)
  have lev2: "lev h2 x = (if x = z then nl else lev ?h x)" for x
    using h1(1) by (simp add: h2_def lev_alloc same_shape_def)
  have AB: "?A @ ?B = 0 # xs" by simp
  have "lay i h2 (?A @ ?B)" if "i < K" for i
    unfolding AB using h1(2) lay_alloc [of z "0 # xs" i h1] that zx z0
    by (simp add: h2_def K_def layers_ok_lay)
  then have m2: "mixed 0 K (?A @ z # ?B) (?A @ ?B) h2" by (simp add: mixed_def)
  have rn2: "rest_nil K h2"
    using h1(3) z0 by (simp add: rest_nil_def h2_def nx_def pv_def get_layer_alloc K_def)
  have p2: "path_ok h2 K ?A bn1 rk1"
  proof (unfold path_ok_def, intro allI impI)
    fix i assume "i < K"
    then obtain a where a: "bn1 ! i = Some a" "pred_at (on h1 i) ?A a (rk1 ! i)"
      using h1(4) by (auto simp: path_ok_def K_def)
    then obtain A1 A2 where A12: "?A = A1 @ a # A2" "on h1 i a" "\<forall>x \<in> set A2. \<not> on h1 i x"
        "rk1 ! i = int (length A1)" by (auto elim: pred_atE)
    have "z \<notin> set (A1 @ a # A2)" using dist A12(1) by auto
    then have "pred_at (on h2 i) ?A a (rk1 ! i)"
      unfolding pred_at_def using A12 by (intro exI [of _ A1] exI [of _ A2]) (auto simp: h2_def lev_alloc)
    then show "\<exists>a. bn1 ! i = Some a \<and> pred_at (on h2 i) ?A a (rk1 ! i)" using a(1) by blast
  qed
  have rk0: "rk1 ! 0 = int (length ?A) - 1"
  proof -
    have "0 < K" using nl by (simp add: K_def)
    then obtain a where "pred_at (on h1 0) ?A a (rk1 ! 0)" using h1(4) by (auto simp: path_ok_def K_def)
    then obtain A1 A2 where A12: "?A = A1 @ a # A2" "\<forall>x \<in> set A2. \<not> on h1 0 x" "rk1 ! 0 = int (length A1)"
      by (rule pred_atE)
    have "lev h1 y = lev ?h y" for y using h1(1) by (simp add: same_shape_def)
    moreover have "1 \<le> lev ?h y" if "y = 0 \<or> y \<in> set xs" for y using I that by auto
    moreover have "x = 0 \<or> x \<in> set xs" if "x \<in> set A2" for x
    proof -
      have "x \<in> set ?A" using that A12(1) by simp
      then show ?thesis by (auto dest: in_set_takeD)
    qed
    ultimately have "on h1 0 x" if "x \<in> set A2" for x using that by (simp add: Suc_le_eq)
    then have "A2 = []" using A12(2) by (cases A2) auto
    then show ?thesis using A12(1,3) by simp
  qed
  obtain h3 where h3: "for_each (link_layer z bn1 rk1) [0..<nl] h2 = Some h3" "same_shape h2 h3"
      "mixed nl K (?A @ z # ?B) (?A @ ?B) h3" "rest_nil K h3"
    using link_loop [OF dist _ _ m2 rn2 p2 rk0, of nl] lev2 by (auto simp: K_def)
  have p3: "path_ok h3 K ?A bn1 rk1" using p2 path_ok_shape [OF h3(2)] by blast
  have lev3: "lev h3 x = (if x = z then nl else lev ?h x)" for x
    using h3(2) lev2 by (simp add: same_shape_def)
  obtain h4 where h4: "for_each (widen_layer bn1) [nl..<K] h3 = Some h4" "same_shape h3 h4"
      "mixed K K (?A @ z # ?B) (?A @ ?B) h4" "rest_nil K h4"
    using widen_loop [OF dist _ _ h3(3,4) p3] lev3 by (auto simp: K_def)
  have lev4: "lev h4 x = (if x = z then nl else lev ?h x)" for x
    using h4(2) lev3 by (simp add: same_shape_def)
  have z4: "on h4 0 z" using lev4 nl by simp
  have lay4: "layers_ok h4 K (?A @ z # ?B)" using h4(3) by (simp add: mixed_def layers_ok_lay)
  then have "lay 0 h4 (?A @ z # ?B)" using nl by (simp add: layers_ok_lay K_def)
  then have nxz: "nx h4 0 z = fst (fh (on h4 0) ?B (None, 0))" using z4 by (simp add: lay_def)
  have levx: "1 \<le> lev ?h x \<and> lev ?h x \<le> ?cl" if "x \<in> set xs" for x using I that by blast
  have ons: "\<forall>x \<in> set ?B. on h4 0 x"
  proof
    fix x assume "x \<in> set ?B"
    then have "x \<in> set xs" by (rule in_set_dropD)
    then show "on h4 0 x" using levx [of x] lev4 [of x] nl by simp
  qed
  have tail: "(if nx h4 0 z = None then Some z else sl_tail sl) = Some (last (take k xs @ z # ?B))"
  proof (cases ?B)
    case Nil
    then show ?thesis using nxz by simp
  next
    case (Cons b bs)
    then have "xs \<noteq> []" by auto
    moreover have "last xs = last ?B" using Cons by (metis append_take_drop_id last_appendR list.distinct(1))
    ultimately have "sl_tail sl = Some (last ?B)" using I by simp
    then show ?thesis using nxz ons Cons by simp
  qed
  let ?sl' = "sl\<lparr>curr_layer := K, sl_tail := (if nx h4 0 z = None then Some z else sl_tail sl),
       lengths_num := (lengths_num sl)[nl - 1 := lengths_num sl ! (nl - 1) + 1],
       curr_length := curr_length sl + 1, before_node := bn1, sl_rank := rk1, sl_heap := h4, sl_fresh := z + 1\<rparr>"
  have K': "(if nl > ?cl then nl else ?cl) = K" by (simp add: K_def)
  have run: "Skiplist_Insert gt v rs sl = Some (nl, ?sl', rs')"
    using sr(1) rnd op h3(1) h4(1) get_layer_on [OF z4]
    by (simp add: Skiplist_Insert_def Let_def K' z_def [symmetric] h2_def [symmetric])
  have dom4: "h4 a \<noteq> None \<longleftrightarrow> a = z \<or> ?h a \<noteq> None" for a
  proof -
    have "dom h4 = insert z (dom ?h)" using h4(2) h3(2) h1(1) by (simp add: same_shape_def h2_def)
    then show ?thesis by (metis domIff insert_iff)
  qed
  have val4: "node_value h4 x = (if x = z then Some v else node_value ?h x)" for x
    using h4(2) h3(2) h1(1) by (simp add: same_shape_def h2_def value_alloc)
  have cnt: "length (filter (\<lambda>x. lev h4 x = Suc j) (take k xs @ z # ?B))
      = length (filter (\<lambda>x. lev ?h x = Suc j) xs) + (if nl = Suc j then 1 else 0)" for j
  proof -
    have "filter (\<lambda>x. lev h4 x = Suc j) L = filter (\<lambda>x. lev ?h x = Suc j) L" if "z \<notin> set L" for L
      using that lev4 by (intro filter_cong) auto
    moreover have "length (filter P xs) = length (filter P (take k xs)) + length (filter P ?B)" for P
      by (metis append_take_drop_id filter_append length_append)
    ultimately show ?thesis using dist lev4 [of z] by simp
  qed
  have "sl_inv ?sl' (take k xs @ z # ?B) (take k vs @ v # drop k vs)"
    unfolding sl_inv_def
  proof (intro conjI)
    show "distinct (0 # take k xs @ z # ?B)" using dist by simp
    show "\<forall>a. sl_heap ?sl' a \<noteq> None \<longrightarrow> a < sl_fresh ?sl'"
      using I dom4 by (auto simp: z_def less_Suc_eq)
    show "map (node_value (sl_heap ?sl')) (take k xs @ z # ?B) = map Some (take k vs @ v # drop k vs)"
    proof -
      have same: "map (node_value h4) L = map (node_value ?h) L" if "z \<notin> set L" for L
        using that val4 by auto
      have "map (node_value ?h) (take k xs) = map Some (take k vs)"
          "map (node_value ?h) ?B = map Some (drop k vs)"
        using I by (simp_all flip: take_map drop_map)
      then have "map (node_value h4) (take k xs) = map Some (take k vs)"
          "map (node_value h4) ?B = map Some (drop k vs)"
        using same [of "take k xs"] same [of ?B] dist by simp_all
      then show ?thesis using val4 [of z] by simp
    qed
    show "layers_ok (sl_heap ?sl') (curr_layer ?sl') (0 # take k xs @ z # ?B)" using lay4 by simp
    show "\<forall>x \<in> set (take k xs @ z # ?B). 1 \<le> lev (sl_heap ?sl') x \<and> lev (sl_heap ?sl') x \<le> curr_layer ?sl'"
    proof
      fix x assume "x \<in> set (take k xs @ z # ?B)"
      then consider "x = z" | "x \<in> set xs" by (auto dest: in_set_takeD in_set_dropD)
      then show "1 \<le> lev (sl_heap ?sl') x \<and> lev (sl_heap ?sl') x \<le> curr_layer ?sl'"
        using levx [of x] lev4 [of x] nl zx by cases (auto simp: K_def)
    qed
    show "\<forall>j < 32. lengths_num ?sl' ! j
        = int (length (filter (\<lambda>x. lev (sl_heap ?sl') x = Suc j) (take k xs @ z # ?B)))"
    proof (intro allI impI)
      fix j :: nat assume j: "j < 32"
      have L: "length (lengths_num sl) = 32"
          "lengths_num sl ! i = int (length (filter (\<lambda>x. lev ?h x = Suc i) xs))" if "i < 32" for i
        using I that by blast+
      have "lengths_num ?sl' ! j = lengths_num sl ! j + (if nl = Suc j then 1 else 0)"
        using nl j L(1) [of 0] by (cases nl) (auto simp: nth_list_update)
      then show "lengths_num ?sl' ! j
          = int (length (filter (\<lambda>x. lev (sl_heap ?sl') x = Suc j) (take k xs @ z # ?B)))"
        using cnt [of j] L(2) [OF j] by simp
    qed
    show "take k xs @ z # ?B \<noteq> [] \<longrightarrow> sl_tail ?sl' = Some (last (take k xs @ z # ?B))"
      using tail by simp
  qed (use I nl h1(5,6) h4(4) lev4 val4 z0 S(4) in \<open>auto simp: K_def\<close>)
  then show ?thesis using run by blast
qed

end

end
