(* ===== verification/Skiplist_Query.thy ===== *)
theory Skiplist_Query
  imports Skiplist_Inv
begin

text \<open>
  The correctness of the remaining operations of the skip list: the search for a node,
  \<open>DeleteNode\<close> and \<open>Delete\<close>, access by rank, the rank of a value, ranges, and the new list.
\<close>

section \<open>Searching for a node\<close>

lemma getnode_search_path:
  assumes lay: "layers_ok h cl ((C @ n # D) @ B)" and k: "k \<le> cl" "k \<le> lev h n"
    and D: "passes gt v h D" and A: "passes gt v h (tl (C @ n # D))"
    and B: "blocks gt v h B" and len: "k \<le> length bn" "k \<le> length rk"
  shows "\<exists>a bn' rk'. getnode_search gt v h k n bn = Some (a, bn')
    \<and> length bn' = length bn \<and> length rk' = length rk \<and> (\<forall>j. k \<le> j \<longrightarrow> bn' ! j = bn ! j \<and> rk' ! j = rk ! j)
    \<and> path_ok h k (C @ n # D) bn' rk' \<and> (0 < k \<longrightarrow> bn' ! 0 = Some a) \<and> (k = 0 \<longrightarrow> a = n)"
  using lay k D A len
proof (induction k arbitrary: C n D bn rk)
  case 0
  then show ?case by (auto simp: path_ok_def)
next
  case (Suc i)
  have s: "seg (on h i) (nx h i) (sp h i) (C @ n # D @ B) (None, 0)"
    using Suc.prems(1,2) by (simp add: layers_ok_def)
  have n: "on h i n" using Suc.prems(3) by simp
  obtain a m where w: "sl_walk gt v h i n 0 = Some (a, m - int (length C))"
      and p: "pred_at (on h i) (C @ n # D) a m"
    using sl_walk_stops [OF s n, of gt v 0] Suc.prems(4) B
    by (auto simp: passes_def blocks_def)
  obtain C' D' where CD: "C @ n # D = C' @ a # D'" and m: "m = int (length C')"
    using p by (rule pred_at_resume)
  have a: "i \<le> lev h a" using pred_at_on [OF p] by simp
  have pass: "passes gt v h (tl (C' @ a # D'))" using Suc.prems(5) CD by simp
  then have "passes gt v h D'" by (cases C') (auto simp: passes_def)
  moreover have "layers_ok h cl ((C' @ a # D') @ B)" using Suc.prems(1) CD by simp
  ultimately obtain e bn' rk' where
    IH: "getnode_search gt v h i a (bn[i := Some a]) = Some (e, bn')"
      "length bn' = length bn" "length rk' = length rk"
      "\<forall>j. i \<le> j \<longrightarrow> bn' ! j = bn[i := Some a] ! j \<and> rk' ! j = rk[i := m] ! j"
      "path_ok h i (C' @ a # D') bn' rk'" "0 < i \<longrightarrow> bn' ! 0 = Some e" "i = 0 \<longrightarrow> e = a"
    using Suc.IH [of C' a D' "bn[i := Some a]" "rk[i := m]"] Suc.prems(2,6,7) a pass by auto
  have at: "bn' ! i = Some a" "rk' ! i = m" using IH(4) Suc.prems(6,7) by simp_all
  then have "path_ok h (Suc i) (C @ n # D) bn' rk'"
    using IH(5) p CD by (auto simp: path_ok_def less_Suc_eq)
  moreover have "getnode_search gt v h (Suc i) n bn = Some (e, bn')"
    using w IH(1) by simp
  moreover have "bn' ! 0 = Some e" using IH(6,7) at by (cases i) auto
  ultimately show ?case using IH(2-4) by auto
qed

lemma pred_at_all_on:
  assumes "pred_at H A a m" and "\<forall>x \<in> set A. H x"
  shows "a = last A" and "m = int (length A) - 1"
proof -
  obtain A1 A2 where A: "A = A1 @ a # A2" "\<forall>x \<in> set A2. \<not> H x" "m = int (length A1)"
    using assms(1) by (rule pred_atE)
  then have "A2 = []" using assms(2) by (cases A2) auto
  then show "a = last A" "m = int (length A) - 1" using A by simp_all
qed

text \<open>In a well-formed list the next pointers of layer 0 lead through all the nodes.\<close>

lemma sl_inv_nodes:
  assumes "sl_inv sl xs vs"
  shows "\<forall>x \<in> set (0 # xs). on (sl_heap sl) 0 x"
    and "length xs = length vs"
    and "j < length vs \<Longrightarrow> node_value (sl_heap sl) (xs ! j) = Some (vs ! j)"
proof -
  have I: "map (node_value (sl_heap sl)) xs = map Some vs" "lev (sl_heap sl) 0 = 32"
    "\<forall>x \<in> set xs. 1 \<le> lev (sl_heap sl) x" using assms by (auto simp: sl_inv_def)
  show "\<forall>x \<in> set (0 # xs). on (sl_heap sl) 0 x" using I(2,3) by auto
  show len: "length xs = length vs" using I(1) by (metis length_map)
  show "j < length vs \<Longrightarrow> node_value (sl_heap sl) (xs ! j) = Some (vs ! j)"
    using I(1) len by (metis nth_map)
qed

lemma sl_inv_next:
  assumes inv: "sl_inv sl xs vs" and k: "k \<le> length xs"
  shows "nx (sl_heap sl) 0 (last (0 # take k xs)) = (if k < length xs then Some (xs ! k) else None)"
proof -
  let ?h = "sl_heap sl" and ?A = "0 # take k xs"
  have on: "\<forall>x \<in> set (0 # xs). on ?h 0 x" using sl_inv_nodes(1) [OF inv] .
  obtain A1 a where A: "?A = A1 @ [a]" by (metis list.distinct(1) rev_exhaust)
  have "0 # xs = ?A @ drop k xs" by simp
  also have "\<dots> = A1 @ a # drop k xs" using A by simp
  finally have eq: "0 # xs = A1 @ a # drop k xs" .
  have "lay 0 ?h (0 # xs)" using inv by (auto simp: sl_inv_def layers_ok_lay)
  then have "seg (on ?h 0) (nx ?h 0) (sp ?h 0) (A1 @ a # drop k xs) (None, 0)"
    unfolding lay_def eq by blast
  moreover have "on ?h 0 a" using on unfolding eq by simp
  ultimately have "nx ?h 0 a = fst (fh (on ?h 0) (drop k xs) (None, 0))" by simp
  then have e: "nx ?h 0 (last ?A) = fst (fh (on ?h 0) (drop k xs) (None, 0))" unfolding A by simp
  show ?thesis
  proof (cases "k < length xs")
    case True
    then have "drop k xs = xs ! k # drop (Suc k) xs" by (simp add: Cons_nth_drop_Suc)
    moreover have "on ?h 0 (xs ! k)" using on True by auto
    ultimately show ?thesis using e True by simp
  qed (use e k in simp)
qed

context skiplist_order
begin

lemma GetNode_correct:
  fixes v :: 'v
  assumes inv: "sl_inv sl xs vs" and desc: "descending gt vs"
  defines "k \<equiv> ins_pos gt v vs"
  shows "\<exists>bn rk. GetNode gt keq v sl
      = Some (if k < length vs \<and> keq (vs ! k) v then Some (xs ! k) else None, sl\<lparr>before_node := bn\<rparr>)
    \<and> length bn = 32 \<and> path_ok (sl_heap sl) (curr_layer sl) (0 # take k xs) bn rk"
proof -
  let ?h = "sl_heap sl" and ?cl = "curr_layer sl" and ?A = "0 # take k xs"
  note I = inv [unfolded sl_inv_def]
  note S = search_setup [OF inv desc, of v, folded k_def] and N = sl_inv_nodes [OF inv]
  obtain a bn rk where g: "getnode_search gt v ?h ?cl 0 (before_node sl) = Some (a, bn)"
      "length bn = 32" "path_ok ?h ?cl ?A bn rk" "bn ! 0 = Some a"
    using getnode_search_path [OF S(1), of ?cl gt v "before_node sl" "sl_rank sl"] S(2,3) I by auto
  have "0 < ?cl" using I by simp
  then obtain m where "pred_at (on ?h 0) ?A a m" using path_okD [OF g(3)] g(4) by fastforce
  moreover have on: "\<forall>x \<in> set ?A. on ?h 0 x" using N(1) by (auto dest: in_set_takeD)
  ultimately have a: "a = last ?A" by (rule pred_at_all_on)
  have "a \<in> set ?A" unfolding a by (rule last_in_set) simp
  then have "get_layer ?h a 0 = Some \<lparr>sl_next = nx ?h 0 a, sl_prev = pv ?h 0 a, sl_span = sp ?h 0 a\<rparr>"
    using on by (intro get_layer_on) blast
  moreover have "nx ?h 0 a = (if k < length xs then Some (xs ! k) else None)"
    unfolding a using sl_inv_next [OF inv S(4)] .
  ultimately have "GetNode gt keq v sl
      = Some (if k < length vs \<and> keq (vs ! k) v then Some (xs ! k) else None, sl\<lparr>before_node := bn\<rparr>)"
    using g(1) N(2,3) by (simp add: GetNode_def Let_def)
  then show ?thesis using g by blast
qed

end

section \<open>Delete\<close>

lemma fh_None: "fst (fh H A (None, 0)) = None \<longleftrightarrow> (\<forall>x \<in> set A. \<not> H x)"
  by (induction A) auto

lemma lev_dom: "0 < lev h a \<Longrightarrow> \<exists>nd. h a = Some nd \<and> length (sn_layers nd) = lev h a"
  by (auto simp: lev_def split: option.splits)

text \<open>Removing one node: the loop over the layers, then the tail, the top layer and the counters.\<close>

lemma DeleteNode_correct:
  assumes inv: "sl_inv sl xs vs" and k: "k < length xs"
    and p: "path_ok (sl_heap sl) (curr_layer sl) (0 # take k xs) (before_node sl) rk"
  shows "\<exists>sl'. DeleteNode (xs ! k) sl = Some sl'
    \<and> sl_inv sl' (take k xs @ drop (Suc k) xs) (take k vs @ drop (Suc k) vs)"
proof -
  define T where "T = take k xs"
  define A where "A = 0 # T"
  define B where "B = drop (Suc k) xs"
  define z where "z = xs ! k"
  define h where "h = sl_heap sl"
  define cl where "cl = curr_layer sl"
  note I = inv [unfolded sl_inv_def, folded h_def cl_def]
  have xs: "T @ z # B = xs" using k by (simp add: T_def z_def B_def id_take_nth_drop [symmetric])
  then have AzB: "A @ z # B = 0 # xs" by (simp add: A_def)
  have zx: "z \<in> set xs" using k by (simp add: z_def)
  have dist: "distinct (A @ z # B)" using I AzB by simp
  have levz: "1 \<le> lev h z" "lev h z \<le> cl" using I zx by blast+
  have "mixed 0 cl (A @ B) (A @ z # B) h"
    using I by (simp add: mixed_def AzB layers_ok_lay)
  then obtain h' where h': "for_each (unlink_layer z (lev h z) (before_node sl)) [0..<cl] h = Some h'"
      "same_shape h h'" "mixed cl cl (A @ B) (A @ z # B) h'" "rest_nil cl h'" "\<forall>i. pv h' i z = pv h i z"
    using unlink_loop [OF dist refl levz(2) _ _ p [folded T_def A_def h_def cl_def]] I by blast
  have lev': "lev h' = lev h" "node_value h' = node_value h" "dom h' = dom h"
    using h'(2) by (simp_all add: same_shape_def)
  have lo': "layers_ok h' cl (0 # T @ B)" using h'(3) by (simp add: mixed_def layers_ok_lay A_def)
  have cl: "1 \<le> cl" "cl \<le> 32" "lev h 0 = 32" using I by simp_all
  obtain nd where nd: "h z = Some nd" "length (sn_layers nd) = lev h z" using lev_dom [of h z] levz by auto
  have la: "get_layer h' z 0 = Some \<lparr>sl_next = nx h' 0 z, sl_prev = pv h' 0 z, sl_span = sp h' 0 z\<rparr>"
    using levz lev' by (intro get_layer_on) simp
  have top: "get_layer h' 0 (cl - 1) = Some \<lparr>sl_next = nx h' (cl - 1) 0, sl_prev = pv h' (cl - 1) 0,
      sl_span = sp h' (cl - 1) 0\<rparr>" using cl lev' by (intro get_layer_on) simp
  let ?ln = "lengths_num sl" and ?j = "lev h z - 1"
  let ?cl' = "if cl > 1 \<and> nx h' (cl - 1) 0 = None then cl - 1 else cl"
  let ?sl' = "sl\<lparr>sl_heap := h', sl_tail := (if sl_tail sl = Some z then pv h' 0 z else sl_tail sl),
       curr_layer := ?cl', lengths_num := (if ?ln ! ?j > 0 then ?ln[?j := ?ln ! ?j - 1] else ?ln),
       curr_length := (if curr_length sl > 0 then curr_length sl - 1 else curr_length sl)\<rparr>"
  have run: "DeleteNode z sl = Some ?sl'"
    using nd h'(1) la top
    by (simp add: DeleteNode_def Let_def h_def [symmetric] cl_def [symmetric] cong: if_cong)
  have levx: "1 \<le> lev h x \<and> lev h x \<le> cl" if "x \<in> set (T @ B)" for x
    using I that unfolding B_def T_def by (auto dest: in_set_takeD in_set_dropD)
  have "cl - 1 < cl" using cl by simp
  then have top': "seg (on h' (cl - 1)) (nx h' (cl - 1)) (sp h' (cl - 1)) (0 # T @ B) (None, 0)
      \<and> bseg (on h' (cl - 1)) (pv h' (cl - 1)) None (0 # T @ B)"
    using lo' unfolding layers_ok_def by blast
  have levx': "lev h x \<le> ?cl'" if "x \<in> set (T @ B)" for x
  proof (cases "cl > 1 \<and> nx h' (cl - 1) 0 = None")
    case True
    then have "seg (on h' (cl - 1)) (nx h' (cl - 1)) (sp h' (cl - 1)) (0 # T @ B) (None, 0)"
      using top' by blast
    then have "fst (fh (on h (cl - 1)) (T @ B) (None, 0)) = None"
      using True cl lev' by simp
    then have "\<not> cl - 1 < lev h x" using that unfolding fh_None by blast
    then show ?thesis using True by simp
  qed (use levx [OF that] in auto)
  have rn': "rest_nil ?cl' h'"
  proof (cases "cl > 1 \<and> nx h' (cl - 1) 0 = None")
    case True
    have "bseg (on h' (cl - 1)) (pv h' (cl - 1)) None (0 # T @ B)" using top' by blast
    then have "pv h' (cl - 1) 0 = None" using cl lev' by simp
    then have "nx h' i 0 = None \<and> pv h' i 0 = None" if "cl - 1 \<le> i" for i
      using h'(4) True that by (cases "i = cl - 1") (auto simp: rest_nil_def)
    then show ?thesis using True by (simp add: rest_nil_def)
  qed (use h'(4) in auto)
  have lo2: "layers_ok h' ?cl' (0 # T @ B)" using lo' unfolding layers_ok_lay by simp
  have cnt: "length (filter P xs) = length (filter P (T @ B)) + (if P z then 1 else 0)" for P
    by (subst xs [symmetric]) simp
  have ln: "length ?ln = 32" "\<And>j. j < 32 \<Longrightarrow> ?ln ! j = int (length (filter (\<lambda>x. lev h x = Suc j) xs))"
    using I by blast+
  have tail: "(if sl_tail sl = Some z then pv h' 0 z else sl_tail sl) = Some (last (T @ B))"
    if ne: "T @ B \<noteq> []"
  proof -
    have tl: "sl_tail sl = Some (last xs)" using I zx by auto
    show ?thesis
    proof (cases "B = []")
      case False
      then have "last xs = last B" "last B \<in> set B" using xs by (auto simp flip: xs)
      moreover have "z \<notin> set B" using dist by simp
      ultimately show ?thesis using tl False by auto
    next
      case True
      then have "last xs = z" by (simp flip: xs)
      have tk: "T \<noteq> []" using ne True by simp
      have on: "\<forall>x \<in> set (0 # xs). on h 0 x" using sl_inv_nodes(1) [OF inv] by (simp add: h_def)
      obtain C c where C: "T = C @ [c]" using tk by (metis rev_exhaust)
      have eq: "0 # xs = (0 # C) @ c # z # []" using xs C True by simp
      have "bseg (on h 0) (pv h 0) None (0 # xs)" using I by (simp add: layers_ok_def)
      then have "bseg (on h 0) (pv h 0) (lh (on h 0) None (0 # C)) (c # z # [])"
        unfolding eq bseg_append by blast
      moreover have "on h 0 c" "on h 0 z" using on unfolding eq by simp_all
      ultimately have "pv h 0 z = Some c" by simp
      then show ?thesis using tl \<open>last xs = z\<close> h'(5) C True by simp
    qed
  qed
  have "sl_inv ?sl' (T @ B) (take k vs @ drop (Suc k) vs)"
    unfolding sl_inv_def
  proof (intro conjI)
    show "distinct (0 # T @ B)" using dist by (simp add: A_def)
    have "h' a \<noteq> None \<longleftrightarrow> h a \<noteq> None" for a using lev'(3) by (metis domIff)
    then show "\<forall>a. sl_heap ?sl' a \<noteq> None \<longrightarrow> a < sl_fresh ?sl'" using I by (auto simp: h_def)
    show "map (node_value (sl_heap ?sl')) (T @ B) = map Some (take k vs @ drop (Suc k) vs)"
      using I lev' unfolding B_def T_def by (simp flip: take_map drop_map)
    show "layers_ok (sl_heap ?sl') (curr_layer ?sl') (0 # T @ B)" using lo2 by simp
    show "rest_nil (curr_layer ?sl') (sl_heap ?sl')" using rn' by simp
    show "\<forall>x \<in> set (T @ B). 1 \<le> lev (sl_heap ?sl') x \<and> lev (sl_heap ?sl') x \<le> curr_layer ?sl'"
      using levx levx' lev' by simp
    show "T @ B \<noteq> [] \<longrightarrow> sl_tail ?sl' = Some (last (T @ B))" using tail by simp
    show "\<forall>j < 32. lengths_num ?sl' ! j
        = int (length (filter (\<lambda>x. lev (sl_heap ?sl') x = Suc j) (T @ B)))"
    proof (intro allI impI)
      fix j :: nat assume j: "j < 32"
      have "0 < ?ln ! ?j" using ln(2) [of ?j] cnt [of "\<lambda>x. lev h x = Suc ?j"] levz cl by simp
      moreover have "?ln ! j = int (length (filter (\<lambda>x. lev h x = Suc j) (T @ B)))
          + (if j = ?j then 1 else 0)"
        using ln(2) [OF j] cnt [of "\<lambda>x. lev h x = Suc j"] levz by auto
      ultimately show "lengths_num ?sl' ! j
          = int (length (filter (\<lambda>x. lev (sl_heap ?sl') x = Suc j) (T @ B)))"
        using ln(1) j lev' by (cases "j = ?j") simp_all
    qed
    show "length (lengths_num ?sl') = 32" using ln by simp
    have "length xs = Suc (length (T @ B))" by (subst xs [symmetric]) simp
    then show "curr_length ?sl' = int (length (T @ B))" using I by simp
  qed (use I cl lev' in \<open>auto simp: h_def\<close>)
  then show ?thesis using run unfolding B_def T_def z_def by blast
qed

section \<open>Access by rank\<close>

lemma rank_walk_stops:
  assumes s: "seg (on h i) (nx h i) (sp h i) (C @ n # D @ B) (None, 0)" and n: "on h i n"
    and D: "D = [] \<or> int (length (C @ D)) \<le> rk" and B: "B = [] \<or> rk \<le> int (length (C @ D))"
  shows "\<exists>a m. rank_walk rk h i n (int (length C)) = Some (a, m) \<and> pred_at (on h i) (C @ n # D) a m"
  using s n D B
proof (induction "length D" arbitrary: C n D rule: less_induct)
  case less
  have nx: "nx h i n = fst (fh (on h i) (D @ B) (None, 0))"
    and sp: "sp h i n = snd (fh (on h i) (D @ B) (None, 0))"
    using less.prems(1,2) by simp_all
  from split_low_high [of D "on h i"] show ?case
  proof (elim disjE exE conjE)
    assume low: "\<forall>x \<in> set D. \<not> on h i x"
    have nxB: "nx h i n = fst (fh (on h i) B (None, 0))" using nx low by (simp add: fh_low)
    have "rk < int (length C) + sp h i n" if "nx h i n = Some b" for b
    proof -
      have ne: "B \<noteq> []" using that nxB by auto
      then obtain y ys where B: "B = y # ys" by (cases B) auto
      have "0 \<le> snd (fh (on h i) ys (None, 0))" by (simp add: fh_nonneg)
      then have "1 \<le> snd (fh (on h i) B (None, 0))" by (simp add: B)
      then have "int (length D) + 1 \<le> sp h i n" using sp low by (simp add: fh_low)
      then show ?thesis using less.prems(4) ne by simp
    qed
    then have "rank_walk rk h i n (int (length C)) = Some (n, int (length C))"
      by (subst rank_walk.simps) (auto simp: get_layer_on [OF less.prems(2)] not_le split: option.splits)
    moreover have "pred_at (on h i) (C @ n # D) n (int (length C))"
      using low less.prems(2) by (auto simp: pred_at_def)
    ultimately show ?thesis by blast
  next
    fix D1 m D2
    assume D12: "D = D1 @ m # D2" "\<forall>x \<in> set D1. \<not> on h i x" "on h i m"
    have nxm: "nx h i n = Some m" and spm: "sp h i n = int (length D1) + 1"
      using nx sp D12 by (simp_all add: fh_low)
    have le: "int (length (C @ D)) \<le> rk" using less.prems(3) D12(1) by simp
    have step: "rank_walk rk h i n (int (length C)) = rank_walk rk h i m (int (length (C @ n # D1)))"
      by (subst rank_walk.simps)
        (use le D12(1) in \<open>simp add: get_layer_on [OF less.prems(2)] nxm spm ac_simps\<close>)
    have "length D2 < length D" using D12 by simp
    moreover have "seg (on h i) (nx h i) (sp h i) ((C @ n # D1) @ m # D2 @ B) (None, 0)"
      using less.prems(1) D12(1) by simp
    moreover have "D2 = [] \<or> int (length ((C @ n # D1) @ D2)) \<le> rk"
        "B = [] \<or> rk \<le> int (length ((C @ n # D1) @ D2))" using le less.prems(4) D12(1) by auto
    ultimately obtain a k where
      "rank_walk rk h i m (int (length (C @ n # D1))) = Some (a, k)"
      "pred_at (on h i) ((C @ n # D1) @ m # D2) a k"
      using less.hyps [of D2 "C @ n # D1" m] D12(3) by auto
    then show ?thesis using step D12(1) by auto
  qed
qed

lemma rank_search_result:
  assumes lay: "layers_ok h cl ((C @ n # D) @ B)" and k: "k \<le> cl" "k \<le> lev h n"
    and on0: "\<forall>x \<in> set (C @ n # D). on h 0 x"
    and D: "tl (C @ n # D) = [] \<or> int (length (C @ D)) \<le> rk" and B: "B = [] \<or> rk \<le> int (length (C @ D))"
  shows "rank_search rk h k n (int (length C))
    = Some (if 0 < k \<and> rk = int (length (C @ D)) then Some (last (C @ n # D)) else None)"
  using lay k D B on0
proof (induction k arbitrary: C n D)
  case (Suc i)
  have s: "seg (on h i) (nx h i) (sp h i) (C @ n # D @ B) (None, 0)"
    using Suc.prems(1,2) by (simp add: layers_ok_def)
  have n: "on h i n" using Suc.prems(3) by simp
  have D': "D = [] \<or> int (length (C @ D)) \<le> rk" using Suc.prems(4) by (cases C) auto
  obtain a m where w: "rank_walk rk h i n (int (length C)) = Some (a, m)"
      and p: "pred_at (on h i) (C @ n # D) a m"
    using rank_walk_stops [OF s n D' Suc.prems(5)] by auto
  obtain C' D'' where CD: "C @ n # D = C' @ a # D''" and m: "m = int (length C')"
    using p by (rule pred_at_resume)
  have a: "i \<le> lev h a" using pred_at_on [OF p] by simp
  have len: "length (C @ D) = length (C' @ D'')" using arg_cong [OF CD, of length] by simp
  have L: "layers_ok h cl ((C' @ a # D'') @ B)" using Suc.prems(1) CD by simp
  have cond: "tl (C' @ a # D'') = [] \<or> int (length (C' @ D'')) \<le> rk" "B = [] \<or> rk \<le> int (length (C' @ D''))"
    using Suc.prems(4,5) unfolding CD len by blast+
  have on0: "\<forall>x \<in> set (C' @ a # D''). on h 0 x" using Suc.prems(6) CD by simp
  have IH: "rank_search rk h i a (int (length C'))
    = Some (if 0 < i \<and> rk = int (length (C' @ D'')) then Some (last (C' @ a # D'')) else None)"
    using Suc.IH [OF L _ a cond on0] Suc.prems(2) by simp
  show ?case
  proof (cases "m = rk")
    case True
    then have "D'' = []" using m cond(1) by (cases C') auto
    then show ?thesis using w True CD m len by simp
  next
    case False
    have "i \<noteq> 0" if "rk = int (length (C' @ D''))"
    proof
      assume "i = 0"
      then have "m = int (length (C @ n # D)) - 1" using pred_at_all_on(2) [OF p] Suc.prems(6) by simp
      then show False using False that len by simp
    qed
    then show ?thesis using w False IH m CD len by auto
  qed
qed simp

text \<open>Rank 0 is the head; ranks from 1 on are the nodes in order.\<close>

lemma GetNodeByRank_correct:
  assumes inv: "sl_inv sl xs vs"
  shows "GetNodeByRank rk sl = Some (if 0 \<le> rk \<and> rk \<le> int (length xs) then Some ((0 # xs) ! nat rk) else None)"
proof -
  let ?k = "if rk < 0 then 0 else min (nat rk) (length xs)"
  have I: "layers_ok (sl_heap sl) (curr_layer sl) (0 # xs)" "1 \<le> curr_layer sl" "curr_layer sl \<le> 32"
      "lev (sl_heap sl) 0 = 32" using inv by (auto simp: sl_inv_def)
  have on: "\<forall>x \<in> set (0 # xs). on (sl_heap sl) 0 x" using sl_inv_nodes(1) [OF inv] .
  define K where "K = ?k"
  have "layers_ok (sl_heap sl) (curr_layer sl) (([] @ 0 # take K xs) @ drop K xs)"
    using I(1) by simp
  then have "rank_search rk (sl_heap sl) (curr_layer sl) 0 (int (length ([] :: nat list)))
    = Some (if 0 < curr_layer sl \<and> rk = int (length ([] @ take K xs)) then Some (last ([] @ 0 # take K xs)) else None)"
    by (rule rank_search_result) (use I on in \<open>auto simp: K_def dest: in_set_takeD\<close>)
  then have r: "rank_search rk (sl_heap sl) (curr_layer sl) 0 0
    = Some (if rk = int (length (take K xs)) then Some (last (0 # take K xs)) else None)"
    using I(2) by (simp del: last.simps)
  have c: "rk = int (length (take K xs)) \<longleftrightarrow> 0 \<le> rk \<and> rk \<le> int (length xs)" by (auto simp: K_def)
  have "last (0 # take K xs) = (0 # xs) ! nat rk" if "0 \<le> rk" "rk \<le> int (length xs)"
    using that by (subst last_conv_nth) (auto simp: K_def nth_Cons split: nat.splits)
  then show ?thesis unfolding GetNodeByRank_def r c by simp
qed

lemma GetByRank_correct:
  assumes inv: "sl_inv sl xs vs"
  shows "GetByRank rk sl = Some (if 1 \<le> rk \<and> rk \<le> int (length vs) then Some (vs ! nat (rk - 1)) else None)"
proof -
  let ?h = "sl_heap sl"
  note N = sl_inv_nodes [OF inv]
  have head: "node_value ?h 0 = None" using inv by (simp add: sl_inv_def)
  consider "rk < 0 \<or> int (length xs) < rk" | "rk = 0" | "1 \<le> rk" "rk \<le> int (length xs)" by linarith
  then show ?thesis
  proof cases
    case 1
    then show ?thesis using GetNodeByRank_correct [OF inv, of rk] N(2) by (auto simp: GetByRank_def)
  next
    case 2
    have "0 < lev ?h 0" using N(1) by simp
    then obtain nd where "?h 0 = Some nd" using lev_dom by blast
    then show ?thesis using 2 GetNodeByRank_correct [OF inv, of rk] head by (auto simp: GetByRank_def node_value_def)
  next
    case 3
    define j where "j = nat (rk - 1)"
    have j: "j < length xs" "nat rk = Suc j" using 3 by (auto simp: j_def)
    then have v: "node_value ?h (xs ! j) = Some (vs ! j)" using N(2,3) by simp
    then obtain nd where "?h (xs ! j) = Some nd" "sn_value nd = Some (vs ! j)"
      by (auto simp: node_value_def split: option.splits)
    then show ?thesis using 3 j GetNodeByRank_correct [OF inv, of rk] N(2)
      by (simp add: GetByRank_def j_def [symmetric])
  qed
qed

section \<open>The rank of a value\<close>

definition only_at :: "('v \<Rightarrow> 'v \<Rightarrow> bool) \<Rightarrow> 'v \<Rightarrow> nat \<Rightarrow> 'v list \<Rightarrow> bool" where
  "only_at keq v k vs \<longleftrightarrow> (\<forall>j < length vs. k < j \<longrightarrow> \<not> keq (vs ! j) v)"

lemma fh_first:
  assumes "fst (fh H B (None, 0)) = Some b"
  shows "\<exists>B1 B2. B = B1 @ b # B2 \<and> (\<forall>x \<in> set B1. \<not> H x) \<and> H b \<and> snd (fh H B (None, 0)) = int (length B1) + 1"
  using split_low_high [of B H] assms
  by (elim disjE exE conjE) (auto simp: fh_low)

lemma getrank_search_result:
  assumes lay: "layers_ok h cl ((C @ n # D) @ B)" and k: "k \<le> cl" "k \<le> lev h n"
    and D: "passes gt v h D" and A: "passes gt v h (tl (C @ n # D))" and B: "blocks gt v h B"
    and first: "\<forall>b \<in> set (tl B). \<forall>x. node_value h b = Some x \<longrightarrow> \<not> keq x v"
    and on0: "\<forall>x \<in> set (C @ n # D @ B). on h 0 x"
  shows "getrank_search gt keq v h k n (int (length C))
    = Some (if 0 < k \<and> B \<noteq> [] \<and> keq (the (node_value h (hd B))) v then int (length (C @ n # D)) else 0)"
  using lay k D A on0
proof (induction k arbitrary: C n D)
  case (Suc i)
  let ?hit = "B \<noteq> [] \<and> keq (the (node_value h (hd B))) v"
  have s: "seg (on h i) (nx h i) (sp h i) (C @ n # D @ B) (None, 0)"
    using Suc.prems(1,2) by (simp add: layers_ok_def)
  have n: "on h i n" using Suc.prems(3) by simp
  obtain a m where w: "sl_walk gt v h i n (int (length C)) = Some (a, m)"
      and p: "pred_at (on h i) (C @ n # D) a m"
    using sl_walk_stops [OF s n, of gt v "int (length C)"] Suc.prems(4) B
    by (auto simp: passes_def blocks_def)
  obtain A1 A2 where A: "C @ n # D = A1 @ a # A2" "on h i a" "\<forall>x \<in> set A2. \<not> on h i x" and m: "m = int (length A1)"
    using p by (rule pred_atE)
  have a: "i \<le> lev h a" using A(2) by simp
  have pass: "passes gt v h (tl (A1 @ a # A2))" using Suc.prems(5) A by simp
  then have pass2: "passes gt v h A2" by (cases A1) (auto simp: passes_def)
  have L: "layers_ok h cl ((A1 @ a # A2) @ B)" using Suc.prems(1) A by simp
  have o: "\<forall>x \<in> set (A1 @ a # A2 @ B). on h 0 x"
    using Suc.prems(6) A(1) by (metis append.assoc append_Cons)
  have IH: "getrank_search gt keq v h i a m
      = Some (if 0 < i \<and> ?hit then int (length (A1 @ a # A2)) else 0)"
    unfolding m using Suc.IH [OF L _ a pass2 pass o] Suc.prems(2) by simp
  have la: "get_layer h a i = Some \<lparr>sl_next = nx h i a, sl_prev = pv h i a, sl_span = sp h i a\<rparr>"
    using A(2) by (rule get_layer_on)
  have "seg (on h i) (nx h i) (sp h i) (A1 @ a # A2 @ B) (None, 0)"
    using s A(1) by (metis append.assoc append_Cons)
  then have na: "nx h i a = fst (fh (on h i) B (None, 0))"
      "sp h i a = snd (fh (on h i) B (None, 0)) + int (length A2)"
    using A(2,3) by (simp_all add: fh_low)
  have len: "length (C @ n # D) = length (A1 @ a # A2)" using A(1) by simp
  have step: "getrank_search gt keq v h (Suc i) n (int (length C))
    = (case nx h i a of None \<Rightarrow> getrank_search gt keq v h i a m
       | Some b \<Rightarrow> Option.bind (node_value h b)
           (\<lambda>x. if keq x v then Some (m + sp h i a) else getrank_search gt keq v h i a m))"
    using w la by (cases "nx h i a") (simp_all cong: if_cong)
  show ?case
  proof (cases "nx h i a")
    case None
    then have "\<forall>x \<in> set B. \<not> on h i x" using na(1) fh_None [of "on h i" B] by simp
    then have "i \<noteq> 0 \<or> B = []" using o by (cases B) auto
    then show ?thesis using step None IH len by auto
  next
    case (Some b)
    obtain B1 B2 where B12: "B = B1 @ b # B2" "\<forall>x \<in> set B1. \<not> on h i x"
        "snd (fh (on h i) B (None, 0)) = int (length B1) + 1"
      using fh_first na(1) Some by metis
    obtain x where x: "node_value h b = Some x" using B B12(1) by (auto simp: blocks_def)
    show ?thesis
    proof (cases "keq x v")
      case True
      then have "b \<notin> set (tl B)" using first x by blast
      then have "B1 = []" using B12(1) by (cases B1) auto
      then have "?hit" and "m + sp h i a = int (length (A1 @ a # A2))"
        using True x B12 na(2) m by simp_all
      then show ?thesis using step Some x True len by simp
    next
      case False
      have "?hit \<Longrightarrow> i \<noteq> 0"
      proof
        assume h: ?hit and "i = 0"
        then have "B1 = []" using B12(1,2) o by (cases B1) auto
        then show False using h B12(1) x False by simp
      qed
      then show ?thesis using step Some x False IH len by auto
    qed
  qed
qed simp

context skiplist_order
begin

lemma GetRank_correct:
  fixes v :: 'v
  assumes inv: "sl_inv sl xs vs" and desc: "descending gt vs" and only: "only_at keq v (ins_pos gt v vs) vs"
  shows "GetRank gt keq v sl
    = Some (if ins_pos gt v vs < length vs \<and> keq (vs ! ins_pos gt v vs) v then int (ins_pos gt v vs) + 1 else 0)"
proof -
  define k where "k = ins_pos gt v vs"
  let ?h = "sl_heap sl"
  note S = search_setup [OF inv desc, of v, folded k_def] and N = sl_inv_nodes [OF inv]
  have I: "1 \<le> curr_layer sl" "curr_layer sl \<le> 32" "lev ?h 0 = 32" using inv by (auto simp: sl_inv_def)
  have first: "\<forall>b \<in> set (tl (drop k xs)). \<forall>x. node_value ?h b = Some x \<longrightarrow> \<not> keq x v"
  proof (intro ballI allI impI)
    fix b x assume "b \<in> set (tl (drop k xs))" and x: "node_value ?h b = Some x"
    then obtain j where j: "j < length (drop (Suc k) xs)" "b = drop (Suc k) xs ! j"
      by (metis in_set_conv_nth drop_Suc tl_drop)
    then have "b = xs ! (Suc k + j)" "Suc k + j < length vs" using N(2) by simp_all
    then show "\<not> keq x v"
      using only [unfolded only_at_def, rule_format, of "Suc k + j"] N(3) [of "Suc k + j"] x
      by (simp add: k_def)
  qed
  have on: "\<forall>x \<in> set ([] @ 0 # take k xs @ drop k xs). on ?h 0 x" using N(1) by simp
  have "getrank_search gt keq v ?h (curr_layer sl) 0 (int (length ([] :: nat list)))
    = Some (if 0 < curr_layer sl \<and> drop k xs \<noteq> [] \<and> keq (the (node_value ?h (hd (drop k xs)))) v
        then int (length ([] @ 0 # take k xs)) else 0)"
    by (rule getrank_search_result [where cl = "curr_layer sl"]) (use I S first on in simp_all)
  moreover have "hd (drop k xs) = xs ! k" if "k < length xs" using that by (simp add: hd_drop_conv_nth)
  ultimately show ?thesis using I S(4) N(2) N(3) [of k]
    by (auto simp: GetRank_def k_def [symmetric] min_def)
qed

lemma Delete_correct:
  fixes v :: 'v and keq :: "'v \<Rightarrow> 'v \<Rightarrow> bool"
  assumes inv: "sl_inv sl xs vs" and desc: "descending gt vs"
  defines "k \<equiv> ins_pos gt v vs"
  defines "hit \<equiv> k < length vs \<and> keq (vs ! k) v"
  shows "\<exists>sl'. Skiplist_Delete gt keq v sl = Some (hit, sl')
    \<and> sl_inv sl' (if hit then take k xs @ drop (Suc k) xs else xs)
               (if hit then take k vs @ drop (Suc k) vs else vs)"
proof (cases "xs = []")
  case True
  then have "vs = []" using sl_inv_nodes(2) [OF inv] by simp
  moreover have "curr_length sl = 0" using inv True by (simp add: sl_inv_def)
  ultimately show ?thesis using inv True by (auto simp: Skiplist_Delete_def hit_def)
next
  case False
  have len: "length xs = length vs" using sl_inv_nodes(2) [OF inv] .
  have ne: "curr_length sl \<noteq> 0" using inv False by (simp add: sl_inv_def)
  obtain bn rk where g: "GetNode gt keq v sl = Some (if hit then Some (xs ! k) else None, sl\<lparr>before_node := bn\<rparr>)"
      "length bn = 32" "path_ok (sl_heap sl) (curr_layer sl) (0 # take k xs) bn rk"
    using GetNode_correct [OF inv desc, of keq v] unfolding k_def hit_def by blast
  have inv2: "sl_inv (sl\<lparr>before_node := bn\<rparr>) xs vs" using inv g(2) by (simp add: sl_inv_def)
  show ?thesis
  proof (cases hit)
    case True
    then have "k < length xs" using len by (simp add: hit_def)
    then obtain sl' where "DeleteNode (xs ! k) (sl\<lparr>before_node := bn\<rparr>) = Some sl'"
        "sl_inv sl' (take k xs @ drop (Suc k) xs) (take k vs @ drop (Suc k) vs)"
      using DeleteNode_correct [OF inv2, of k rk] g(3) by auto
    then show ?thesis using g(1) True ne by (simp add: Skiplist_Delete_def)
  next
    case False
    then show ?thesis using g(1) ne inv2 by (simp add: Skiplist_Delete_def)
  qed
qed

end

lemma delete_descending:
  assumes "descending gt vs"
  shows "descending gt (take k vs @ drop (Suc k) vs)"
proof (cases "k < length vs")
  case True
  then have "sorted_wrt (\<lambda>a b. \<not> gt b a) (take k vs @ [vs ! k] @ drop (Suc k) vs)"
    using assms by (simp add: descending_def id_take_nth_drop [symmetric])
  then show ?thesis unfolding descending_def sorted_wrt_append by auto
qed (use assms in simp)

section \<open>Whole lists\<close>

lemma pull_walk_nodes:
  assumes "seg (on h 0) (nx h 0) (sp h 0) (n # B) (None, 0)" and "\<forall>x \<in> set (n # B). on h 0 x"
  shows "pull_walk h n = Some (map (node_value h) B)"
  using assms
proof (induction B arbitrary: n)
  case Nil
  then show ?case by (subst pull_walk.simps) (simp add: get_layer_on)
next
  case (Cons b B)
  then have "nx h 0 n = Some b" by simp
  moreover have "pull_walk h b = Some (map (node_value h) B)" using Cons by simp
  moreover have "0 < lev h b" using Cons.prems by simp
  then obtain nd where "h b = Some nd" using lev_dom by blast
  ultimately show ?case using Cons.prems
    by (subst pull_walk.simps) (simp add: get_layer_on node_value_def)
qed

lemma PullList_correct:
  assumes inv: "sl_inv sl xs vs"
  shows "PullList sl = Some (map Some vs)"
proof -
  have "layers_ok (sl_heap sl) (curr_layer sl) (0 # xs)" "1 \<le> curr_layer sl"
      "map (node_value (sl_heap sl)) xs = map Some vs" using inv by (auto simp: sl_inv_def)
  then show ?thesis
    using pull_walk_nodes [of "sl_heap sl" 0 xs] sl_inv_nodes(1) [OF inv]
    by (simp add: PullList_def layers_ok_def)
qed

lemma range_fill_nodes:
  assumes "seg (on h 0) (nx h 0) (sp h 0) (n # B) (None, 0)" and "\<forall>x \<in> set (n # B). on h 0 x"
  shows "range_fill h i k n ws = Some (take i ws @ take (length ws - i) (map (node_value h) (take k B))
      @ drop (i + min k (length B)) ws)"
  using assms
proof (induction h i k n ws arbitrary: B rule: range_fill.induct)
  case (1 h i n ws)
  then show ?case by simp
next
  case (2 h i k n ws)
  have n: "get_layer h n 0 = Some \<lparr>sl_next = nx h 0 n, sl_prev = pv h 0 n, sl_span = sp h 0 n\<rparr>"
    using 2(3) by (intro get_layer_on) simp
  show ?case
  proof (cases B)
    case Nil
    then have "nx h 0 n = None" using 2(2,3) by simp
    then show ?thesis using n Nil by simp
  next
    case (Cons b B')
    then have nb: "nx h 0 n = Some b" using 2(2,3) by simp
    have "0 < lev h b" using 2(3) Cons by simp
    then obtain nd where nd: "h b = Some nd" using lev_dom by blast
    have IH: "range_fill h (Suc i) k b (ws[i := sn_value nd])
      = Some (take (Suc i) (ws[i := sn_value nd]) @ take (length (ws[i := sn_value nd]) - Suc i) (map (node_value h) (take k B'))
        @ drop (Suc i + min k (length B')) (ws[i := sn_value nd]))"
      by (rule 2(1) [OF n _ nd]) (use nb 2(2,3) Cons in simp_all)
    have v: "node_value h b = sn_value nd" using nd by (simp add: node_value_def)
    show ?thesis
    proof (cases "i < length ws")
      case True
      then show ?thesis using n nb nd IH Cons v
        by (simp add: take_Suc_conv_app_nth Suc_diff_Suc [symmetric] del: Suc_diff_Suc)
    next
      case False
      then show ?thesis using n nb nd IH Cons v by (simp add: list_update_beyond)
    qed
  qed
qed

lemma NewSkiplist_inv: "sl_inv (NewSkiplist :: 'v skiplist) [] []"
proof -
  let ?s = "NewSkiplist :: 'v skiplist"
  have g: "get_layer (sl_heap ?s) 0 i
      = (if i < 32 then Some \<lparr>sl_next = None, sl_prev = None, sl_span = 0\<rparr> else None)" for i
    by (simp add: NewSkiplist_def get_layer_def new_skiplist_node_def MAX_SKIPLIST_LAYER_def)
  have "lev (sl_heap ?s) 0 = 32"
    by (simp add: NewSkiplist_def lev_def new_skiplist_node_def MAX_SKIPLIST_LAYER_def)
  moreover have "node_value (sl_heap ?s) 0 = None"
    by (simp add: NewSkiplist_def node_value_def new_skiplist_node_def)
  moreover have "curr_layer ?s = 1" "curr_length ?s = 0" "sl_fresh ?s = 1"
    "lengths_num ?s = replicate 32 0" "length (before_node ?s) = 32"
    "length (sl_rank ?s) = 32" "\<forall>a. sl_heap ?s a \<noteq> None \<longrightarrow> a < sl_fresh ?s"
    by (auto simp: NewSkiplist_def MAX_SKIPLIST_LAYER_def split: if_splits)
  ultimately show ?thesis
    unfolding sl_inv_def layers_ok_def rest_nil_def by (intro conjI) (simp_all add: nx_def pv_def sp_def g)
qed

lemma GetByRankRange_correct:
  assumes inv: "sl_inv sl xs vs" and s: "1 \<le> start" "start \<le> int (length vs)"
    and n: "0 < num" "num \<le> int (length ws)"
  defines "out \<equiv> map Some (take (nat num) (drop (nat (start - 1)) vs))"
  shows "GetByRankRange start num (Some ws) sl = Some (True, Some (out @ drop (length out) ws))"
proof -
  define j where "j = nat (start - 1)"
  let ?h = "sl_heap sl" and ?B = "drop (Suc j) xs"
  note N = sl_inv_nodes [OF inv]
  have j: "j < length xs" "j < length vs" "nat start = Suc j" using s N(2) by (auto simp: j_def)
  have node: "GetNodeByRank start sl = Some (Some (xs ! j))"
    using GetNodeByRank_correct [OF inv, of start] s N(2) j(3) by simp
  have "0 < lev ?h (xs ! j)" using N(1) j by simp
  then obtain nd where nd: "?h (xs ! j) = Some nd" using lev_dom by blast
  have v: "sn_value nd = Some (vs ! j)" using N(3) [OF j(2)] nd by (simp add: node_value_def)
  have eq: "0 # xs = (0 # take j xs) @ xs ! j # ?B" using j by (simp add: id_take_nth_drop [symmetric])
  have "1 \<le> curr_layer sl" "layers_ok ?h (curr_layer sl) (0 # xs)" using inv by (auto simp: sl_inv_def)
  then have "seg (on ?h 0) (nx ?h 0) (sp ?h 0) (0 # xs) (None, 0)" by (simp add: layers_ok_def)
  then have seg: "seg (on ?h 0) (nx ?h 0) (sp ?h 0) (xs ! j # ?B) (None, 0)"
    unfolding eq seg_append by blast
  have on: "\<forall>x \<in> set (xs ! j # ?B). on ?h 0 x" using N(1) unfolding eq by simp
  have m: "map (node_value ?h) xs = map Some vs" using inv by (simp add: sl_inv_def)
  have m2: "map (node_value ?h) (take k ?B) = map Some (take k (drop (Suc j) vs))" for k
    using m by (simp flip: take_map drop_map)
  define n' where "n' = nat num - 1"
  have n': "nat num = Suc n'" "Suc n' \<le> length ws" using n by (auto simp: n'_def)
  have out: "out = Some (vs ! j) # map Some (take n' (drop (Suc j) vs))"
    unfolding out_def j_def [symmetric] n'(1) using j(2) by (simp add: Cons_nth_drop_Suc [symmetric])
  have "range_fill ?h 1 n' (xs ! j) (ws[0 := Some (vs ! j)])
    = Some (take 1 (ws[0 := Some (vs ! j)]) @ take (length (ws[0 := Some (vs ! j)]) - 1) (map (node_value ?h) (take n' ?B))
      @ drop (1 + min n' (length ?B)) (ws[0 := Some (vs ! j)]))"
    by (rule range_fill_nodes [OF seg on])
  also have "\<dots> = Some (out @ drop (length out) ws)"
    using n' out N(2) by (cases ws) (auto simp: m2 min_def)
  finally show ?thesis using node nd n v n'(1)
    by (simp add: GetByRankRange_def not_le)
qed

end
