(* ===== verification/Skiplist_Nodes.thy ===== *)
theory Skiplist_Nodes
  imports Skiplist_Query "HOL-Library.Product_Lexorder"
begin

text \<open>
  The values that \<open>libs/utils/skiplist.go\<close> declares for its lists, \<open>Int32Value\<close> and
  \<open>PlayerInfo\<close> with their methods \<open>Less\<close>, \<open>Greater\<close> and \<open>KeyEqual\<close>; the interface
  \<open>skiplist_order\<close> interpreted on both; and what the list promises for them, stated over the
  list of values a skip list holds (\<open>sl_holds\<close>).
\<close>

section \<open>Int32Value\<close>

definition Int32Value_Less :: "int \<Rightarrow> int \<Rightarrow> bool" where
  "Int32Value_Less this val \<longleftrightarrow> this < val"

definition Int32Value_Greater :: "int \<Rightarrow> int \<Rightarrow> bool" where
  "Int32Value_Greater this val \<longleftrightarrow> this > val"

definition Int32Value_KeyEqual :: "int \<Rightarrow> int \<Rightarrow> bool" where
  "Int32Value_KeyEqual this val \<longleftrightarrow> this = val"

interpretation i32_nodes: skiplist_order Int32Value_Greater
  by unfold_locales (auto simp: Int32Value_Greater_def)

section \<open>PlayerInfo\<close>

text \<open>A nil argument (\<open>None\<close>) compares false.\<close>

record PlayerInfo =
  PlayerId :: int
  PlayerLevel :: int
  PlayerScore :: int

definition PlayerInfo_Less :: "PlayerInfo \<Rightarrow> PlayerInfo option \<Rightarrow> bool" where
  "PlayerInfo_Less this info = (case info of None \<Rightarrow> False
     | Some item \<Rightarrow>
         if PlayerScore this < PlayerScore item then True
         else if PlayerScore this = PlayerScore item then
           (if PlayerLevel this < PlayerLevel item then True
            else if PlayerLevel this = PlayerLevel item then PlayerId this < PlayerId item
            else False)
         else False)"

definition PlayerInfo_Greater :: "PlayerInfo \<Rightarrow> PlayerInfo option \<Rightarrow> bool" where
  "PlayerInfo_Greater this info = (case info of None \<Rightarrow> False
     | Some item \<Rightarrow>
         if PlayerScore this > PlayerScore item then True
         else if PlayerScore this = PlayerScore item then
           (if PlayerLevel this > PlayerLevel item then True
            else if PlayerLevel this = PlayerLevel item then PlayerId this > PlayerId item
            else False)
         else False)"

definition PlayerInfo_KeyEqual :: "PlayerInfo \<Rightarrow> PlayerInfo option \<Rightarrow> bool" where
  "PlayerInfo_KeyEqual this info = (case info of None \<Rightarrow> False
     | Some item \<Rightarrow> PlayerId this = PlayerId item)"

definition PlayerInfo_Assign :: "PlayerInfo \<Rightarrow> PlayerInfo option \<Rightarrow> PlayerInfo" where
  "PlayerInfo_Assign this node = (case node of None \<Rightarrow> this
     | Some n \<Rightarrow> this\<lparr>PlayerId := PlayerId n, PlayerLevel := PlayerLevel n, PlayerScore := PlayerScore n\<rparr>)"

abbreviation pi_gt :: "PlayerInfo \<Rightarrow> PlayerInfo \<Rightarrow> bool" where
  "pi_gt a b \<equiv> PlayerInfo_Greater a (Some b)"

abbreviation pi_keq :: "PlayerInfo \<Rightarrow> PlayerInfo \<Rightarrow> bool" where
  "pi_keq a b \<equiv> PlayerInfo_KeyEqual a (Some b)"

interpretation pi_nodes: skiplist_order pi_gt
  by unfold_locales (auto simp: PlayerInfo_Greater_def split: if_splits)

lemma pi_gt_iff: "pi_gt a b \<longleftrightarrow>
    (PlayerScore b, PlayerLevel b, PlayerId b) < (PlayerScore a, PlayerLevel a, PlayerId a)"
  by (auto simp: PlayerInfo_Greater_def less_prod_simp)

lemma pi_less_gt: "PlayerInfo_Less a (Some b) \<longleftrightarrow> pi_gt b a"
  by (auto simp: PlayerInfo_Greater_def PlayerInfo_Less_def)

section \<open>What the list promises\<close>

definition sl_holds :: "'v skiplist \<Rightarrow> 'v list \<Rightarrow> bool" where
  "sl_holds sl vs \<longleftrightarrow> (\<exists>xs. sl_inv sl xs vs)"

lemma holds_new [simp]: "sl_holds NewSkiplist []"
  using NewSkiplist_inv by (auto simp: sl_holds_def)

lemma holds_length: "sl_holds sl vs \<Longrightarrow> GetLength sl = int (length vs)"
  unfolding sl_holds_def
proof (elim exE)
  fix xs assume i: "sl_inv sl xs vs"
  then have "curr_length sl = int (length xs)" unfolding sl_inv_def by blast
  then show "GetLength sl = int (length vs)" using sl_inv_nodes(2) [OF i] by (simp add: GetLength_def)
qed

text \<open>The value list after \<open>Insert\<close> and \<open>Delete\<close>.\<close>

definition put_value :: "('v \<Rightarrow> 'v \<Rightarrow> bool) \<Rightarrow> 'v \<Rightarrow> 'v list \<Rightarrow> 'v list" where
  "put_value gt v vs = takeWhile (\<lambda>x. gt x v) vs @ v # dropWhile (\<lambda>x. gt x v) vs"

definition drop_value :: "('v \<Rightarrow> 'v \<Rightarrow> bool) \<Rightarrow> ('v \<Rightarrow> 'v \<Rightarrow> bool) \<Rightarrow> 'v \<Rightarrow> 'v list \<Rightarrow> 'v list" where
  "drop_value gt keq v vs = (case dropWhile (\<lambda>x. gt x v) vs of [] \<Rightarrow> vs
     | y # ys \<Rightarrow> if keq y v then takeWhile (\<lambda>x. gt x v) vs @ ys else vs)"

lemma ins_pos_split:
  "take (ins_pos gt v vs) vs = takeWhile (\<lambda>x. gt x v) vs"
  "drop (ins_pos gt v vs) vs = dropWhile (\<lambda>x. gt x v) vs"
  by (simp_all add: ins_pos_def takeWhile_eq_take [symmetric] dropWhile_eq_drop)

lemma drop_value_pos:
  fixes gt :: "'v \<Rightarrow> 'v \<Rightarrow> bool" and v :: 'v and vs :: "'v list"
  defines "k \<equiv> ins_pos gt v vs"
  shows "drop_value gt keq v vs
    = (if k < length vs \<and> keq (vs ! k) v then take k vs @ drop (Suc k) vs else vs)"
proof (cases "dropWhile (\<lambda>x. gt x v) vs")
  case Nil
  then have "drop k vs = []" using ins_pos_split(2) [of gt v vs] by (simp only: k_def)
  then have "length vs \<le> k" by simp
  moreover have "drop_value gt keq v vs = vs" unfolding drop_value_def Nil by simp
  ultimately show ?thesis by simp
next
  case (Cons y ys)
  then have d: "drop k vs = y # ys" using ins_pos_split(2) [of gt v vs] by (simp add: k_def)
  then have "k < length vs" by (metis drop_eq_Nil list.distinct(1) not_less)
  then have "vs ! k = y" "drop (Suc k) vs = ys" using d by (simp_all add: Cons_nth_drop_Suc [symmetric])
  then show ?thesis using Cons \<open>k < length vs\<close> ins_pos_split(1) [of gt v vs]
    by (simp add: drop_value_def k_def)
qed

context skiplist_order
begin

lemma insert_holds:
  assumes "sl_holds sl vs" and "descending gt vs" and "random_skiplist_layer rs = Some (nl, rs')"
  shows "\<exists>sl'. Skiplist_Insert gt v rs sl = Some (nl, sl', rs') \<and> sl_holds sl' (put_value gt v vs)"
  using assms Insert_correct [of sl _ vs rs nl rs' v]
  unfolding sl_holds_def put_value_def ins_pos_split by blast

lemma put_descending: "descending gt vs \<Longrightarrow> descending gt (put_value gt v vs)"
  using insert_descending [of vs v] unfolding put_value_def ins_pos_split .

lemma delete_holds:
  fixes v :: 'v and keq :: "'v \<Rightarrow> 'v \<Rightarrow> bool"
  assumes "sl_holds sl vs" and "descending gt vs"
  shows "\<exists>b sl'. Skiplist_Delete gt keq v sl = Some (b, sl') \<and> sl_holds sl' (drop_value gt keq v vs)
    \<and> (b \<longleftrightarrow> drop_value gt keq v vs \<noteq> vs)"
proof -
  let ?k = "ins_pos gt v vs"
  let ?hit = "?k < length vs \<and> keq (vs ! ?k) v"
  obtain xs where "sl_inv sl xs vs" using assms(1) by (auto simp: sl_holds_def)
  then obtain sl' where sl': "Skiplist_Delete gt keq v sl = Some (?hit, sl')"
      "sl_inv sl' (if ?hit then take ?k xs @ drop (Suc ?k) xs else xs)
         (if ?hit then take ?k vs @ drop (Suc ?k) vs else vs)"
    using Delete_correct [OF _ assms(2), of sl xs keq v] by blast
  have "take ?k vs @ drop (Suc ?k) vs \<noteq> vs" if ?hit
  proof
    assume "take ?k vs @ drop (Suc ?k) vs = vs"
    from arg_cong [OF this, of length] show False using that by simp linarith
  qed
  then have "?hit \<longleftrightarrow> drop_value gt keq v vs \<noteq> vs" by (auto simp: drop_value_pos)
  moreover have "sl_holds sl' (drop_value gt keq v vs)"
    using sl'(2) unfolding drop_value_pos sl_holds_def by blast
  ultimately show ?thesis using sl'(1) by blast
qed

lemma drop_descending: "descending gt vs \<Longrightarrow> descending gt (drop_value gt keq v vs)"
  by (simp add: drop_value_pos delete_descending)

end

end
