(* ===== verification/Skiplist_Props.thy ===== *)
theory Skiplist_Props
  imports Skiplist_Nodes
begin

text \<open>
  The properties of the skip list of \<open>libs/utils/skiplist.go\<close>, stated for its \<open>PlayerInfo\<close> and
  \<open>Int32Value\<close> nodes: what each operation does to the list of values, whatever the layers drawn.
\<close>

section \<open>Reaching a state by insertions\<close>

text \<open>A list of three players, built by the operations; the properties are applied to it below.\<close>

definition p1 :: PlayerInfo where "p1 = \<lparr>PlayerId = 1, PlayerLevel = 10, PlayerScore = 500\<rparr>"
definition p2 :: PlayerInfo where "p2 = \<lparr>PlayerId = 2, PlayerLevel = 12, PlayerScore = 700\<rparr>"
definition p3 :: PlayerInfo where "p3 = \<lparr>PlayerId = 3, PlayerLevel = 12, PlayerScore = 500\<rparr>"

lemmas demo_values = p1_def p2_def p3_def

definition demo_list :: "(PlayerInfo skiplist \<times> int list) option" where
  "demo_list = do {
     (_, sl, rs) \<leftarrow> Skiplist_Insert pi_gt p1 [4, 1, 8, 12, 3, 5] NewSkiplist;
     (_, sl, rs) \<leftarrow> Skiplist_Insert pi_gt p2 rs sl;
     (_, sl, rs) \<leftarrow> Skiplist_Insert pi_gt p3 rs sl;
     Some (sl, rs) }"

lemmas draw_simps = random_skiplist_layer_def MAX_SKIPLIST_LAYER_def

lemma demo_order: "put_value pi_gt p1 [] = [p1]" "put_value pi_gt p2 [p1] = [p2, p1]"
    "put_value pi_gt p3 [p2, p1] = [p2, p3, p1]"
  by (simp_all add: put_value_def PlayerInfo_Greater_def demo_values)

lemma demo_descending: "descending pi_gt []" "descending pi_gt [p1]" "descending pi_gt [p2, p1]"
    "descending pi_gt [p2, p3, p1]"
  by (simp_all add: descending_def PlayerInfo_Greater_def demo_values)

lemma demo_holds: "\<exists>sl. demo_list = Some (sl, []) \<and> sl_holds sl [p2, p3, p1]"
proof -
  have d: "random_skiplist_layer [4, 1, 8, 12, 3, 5] = Some (2, [8, 12, 3, 5])"
      "random_skiplist_layer [8, 12, 3, 5] = Some (3, [5])" "random_skiplist_layer [5] = Some (1, [])"
    by (simp_all add: draw_simps)
  obtain s1 where s1: "Skiplist_Insert pi_gt p1 [4, 1, 8, 12, 3, 5] NewSkiplist = Some (2, s1, [8, 12, 3, 5])"
      "sl_holds s1 [p1]"
    using pi_nodes.insert_holds [OF holds_new demo_descending(1) d(1), of p1] demo_order(1) by auto
  obtain s2 where s2: "Skiplist_Insert pi_gt p2 [8, 12, 3, 5] s1 = Some (3, s2, [5])" "sl_holds s2 [p2, p1]"
    using pi_nodes.insert_holds [OF s1(2) demo_descending(2) d(2), of p2] demo_order(2) by auto
  obtain s3 where s3: "Skiplist_Insert pi_gt p3 [5] s2 = Some (1, s3, [])" "sl_holds s3 [p2, p3, p1]"
    using pi_nodes.insert_holds [OF s2(2) demo_descending(3) d(3), of p3] demo_order(3) by auto
  show ?thesis using s1(1) s2(1) s3 by (simp add: demo_list_def)
qed

section \<open>The position of a value\<close>

lemma pi_irrefl: "\<not> pi_gt v v"
  by (simp add: PlayerInfo_Greater_def)

lemma pi_before:
  assumes "descending pi_gt vs" and "distinct (map PlayerId vs)" and "i < j" "j < length vs"
  shows "pi_gt (vs ! i) (vs ! j)"
proof -
  have "\<not> pi_gt (vs ! j) (vs ! i)"
    using assms(1,3,4) unfolding descending_def by (rule sorted_wrt_nth_less)
  moreover have "PlayerId (vs ! i) \<noteq> PlayerId (vs ! j)"
    using assms(2-4) nth_eq_iff_index_eq [OF assms(2), of i j] by simp
  ultimately show ?thesis unfolding pi_gt_iff by auto
qed

lemma pi_position:
  assumes d: "descending pi_gt vs" and u: "distinct (map PlayerId vs)" and i: "i < length vs"
  shows "ins_pos pi_gt (vs ! i) vs = i"
proof -
  have before: "\<forall>x \<in> set (take i vs). pi_gt x (vs ! i)"
    using pi_before [OF d u] i by (auto simp: in_set_conv_nth)
  have "vs = take i vs @ vs ! i # drop (Suc i) vs" using i by (rule id_take_nth_drop)
  then have "takeWhile (\<lambda>x. pi_gt x (vs ! i)) vs
      = takeWhile (\<lambda>x. pi_gt x (vs ! i)) (take i vs @ vs ! i # drop (Suc i) vs)" by simp
  also have "\<dots> = take i vs"
    using before by (simp add: takeWhile_tail pi_irrefl takeWhile_eq_all_conv)
  finally show ?thesis using i by (simp add: ins_pos_def)
qed

section \<open>Properties\<close>

text \<open>C1: \<open>Insert\<close> always returns, keeps the list well formed and in descending order, and puts
  the player after every greater one and before the others, whatever layer is drawn.\<close>
theorem skiplist_insert:
  assumes "sl_holds sl vs" and "descending pi_gt vs" and "random_skiplist_layer rs = Some (nl, rs')"
  shows "\<exists>sl'. Skiplist_Insert pi_gt v rs sl = Some (nl, sl', rs')
    \<and> sl_holds sl' (put_value pi_gt v vs) \<and> descending pi_gt (put_value pi_gt v vs)"
  using pi_nodes.insert_holds [OF assms, of v] pi_nodes.put_descending [OF assms(2)] by blast

theorem skiplist_insert_witness:
  "\<exists>sl'. Skiplist_Insert pi_gt p1 [4, 1] NewSkiplist = Some (2, sl', [])
    \<and> sl_holds sl' (put_value pi_gt p1 []) \<and> descending pi_gt (put_value pi_gt p1 [])"
  by (rule skiplist_insert) (simp_all add: descending_def draw_simps)

text \<open>C2: \<open>Delete\<close> always returns; it removes the first player that is not greater exactly when
  the keys are equal, says so by its result, and leaves the list well formed and in order.\<close>
theorem skiplist_delete:
  assumes "sl_holds sl vs" and "descending pi_gt vs"
  shows "\<exists>b sl'. Skiplist_Delete pi_gt pi_keq v sl = Some (b, sl')
    \<and> sl_holds sl' (drop_value pi_gt pi_keq v vs) \<and> (b \<longleftrightarrow> drop_value pi_gt pi_keq v vs \<noteq> vs)
    \<and> descending pi_gt (drop_value pi_gt pi_keq v vs)"
  using pi_nodes.delete_holds [OF assms, of pi_keq v] pi_nodes.drop_descending [OF assms(2)] by blast

theorem skiplist_delete_witness:
  "\<exists>sl b sl'. demo_list = Some (sl, []) \<and> Skiplist_Delete pi_gt pi_keq p3 sl = Some (b, sl')
    \<and> b \<and> sl_holds sl' [p2, p1]"
proof -
  obtain sl where sl: "demo_list = Some (sl, [])" "sl_holds sl [p2, p3, p1]" using demo_holds by blast
  have "drop_value pi_gt pi_keq p3 [p2, p3, p1] = [p2, p1]"
    by (simp add: drop_value_def PlayerInfo_Greater_def PlayerInfo_KeyEqual_def demo_values)
  then show ?thesis using skiplist_delete [OF sl(2) demo_descending(4), of p3] sl(1) by fastforce
qed

text \<open>\<open>Delete\<close> undoes \<open>Insert\<close>: a player inserted and deleted again leaves the values as
  they were.\<close>
theorem skiplist_insert_delete:
  assumes "sl_holds sl vs" and "descending pi_gt vs" and "random_skiplist_layer rs = Some (nl, rs')"
  shows "\<exists>sl' sl''. Skiplist_Insert pi_gt v rs sl = Some (nl, sl', rs')
    \<and> Skiplist_Delete pi_gt pi_keq v sl' = Some (True, sl'') \<and> sl_holds sl'' vs"
proof -
  obtain sl' where sl': "Skiplist_Insert pi_gt v rs sl = Some (nl, sl', rs')"
      "sl_holds sl' (put_value pi_gt v vs)" using pi_nodes.insert_holds [OF assms] by blast
  have "\<forall>x \<in> set (takeWhile (\<lambda>x. pi_gt x v) vs). pi_gt x v" by (blast dest: set_takeWhileD)
  then have split: "dropWhile (\<lambda>x. pi_gt x v) (put_value pi_gt v vs) = v # dropWhile (\<lambda>x. pi_gt x v) vs"
       "takeWhile (\<lambda>x. pi_gt x v) (put_value pi_gt v vs) = takeWhile (\<lambda>x. pi_gt x v) vs"
    unfolding put_value_def by (simp_all only: dropWhile_append2 takeWhile_append2 dropWhile.simps
      takeWhile.simps pi_irrefl if_False append_Nil2)
  have d: "drop_value pi_gt pi_keq v (put_value pi_gt v vs) = vs"
    unfolding drop_value_def split by (simp add: PlayerInfo_KeyEqual_def)
  have "length (put_value pi_gt v vs) = Suc (length vs)"
    unfolding put_value_def by (metis add_Suc_right length_Cons length_append takeWhile_dropWhile_id)
  then have ne: "vs \<noteq> put_value pi_gt v vs" by (metis n_not_Suc_n)
  obtain b sl'' where "Skiplist_Delete pi_gt pi_keq v sl' = Some (b, sl'')" "sl_holds sl'' vs" "b"
    using pi_nodes.delete_holds [OF sl'(2) pi_nodes.put_descending [OF assms(2)], of pi_keq v] ne
    unfolding d by blast
  then have "Skiplist_Delete pi_gt pi_keq v sl' = Some (True, sl'')" "sl_holds sl'' vs" by simp_all
  then show ?thesis using sl'(1) by blast
qed

theorem skiplist_insert_delete_witness:
  "\<exists>sl' sl''. Skiplist_Insert pi_gt p2 [8, 7] NewSkiplist = Some (2, sl', [])
    \<and> Skiplist_Delete pi_gt pi_keq p2 sl' = Some (True, sl'') \<and> sl_holds sl'' []"
  by (rule skiplist_insert_delete) (simp_all add: descending_def draw_simps)

text \<open>C3: with different player ids, \<open>GetRank\<close> gives every player in the list its position
  counted from 1, and \<open>GetByRank\<close> gives that player back.\<close>
theorem skiplist_rank_roundtrip:
  assumes "sl_holds sl vs" and "descending pi_gt vs" and "distinct (map PlayerId vs)" and "i < length vs"
  shows "GetRank pi_gt pi_keq (vs ! i) sl = Some (int i + 1)
    \<and> GetByRank (int i + 1) sl = Some (Some (vs ! i))"
proof -
  obtain xs where xs: "sl_inv sl xs vs" using assms(1) by (auto simp: sl_holds_def)
  have pos: "ins_pos pi_gt (vs ! i) vs = i" using pi_position [OF assms(2-4)] .
  have "only_at pi_keq (vs ! i) i vs"
    using assms(3,4) nth_eq_iff_index_eq [OF assms(3)]
    by (auto simp: only_at_def PlayerInfo_KeyEqual_def)
  then have "GetRank pi_gt pi_keq (vs ! i) sl = Some (int i + 1)"
    using pi_nodes.GetRank_correct [OF xs assms(2), of pi_keq "vs ! i"] pos assms(4)
    by (simp add: PlayerInfo_KeyEqual_def)
  then show ?thesis using GetByRank_correct [OF xs, of "int i + 1"] assms(4) by simp
qed

theorem skiplist_rank_roundtrip_witness:
  "\<exists>sl. demo_list = Some (sl, []) \<and> GetRank pi_gt pi_keq p3 sl = Some 2 \<and> GetByRank 2 sl = Some (Some p3)"
proof -
  obtain sl where sl: "demo_list = Some (sl, [])" "sl_holds sl [p2, p3, p1]" using demo_holds by blast
  have "distinct (map PlayerId [p2, p3, p1])" by (simp add: demo_values)
  from skiplist_rank_roundtrip [OF sl(2) demo_descending(4) this, of 1] sl(1) show ?thesis by auto
qed

text \<open>\<open>GetByRank\<close> answers nil for every rank outside \<open>1..length\<close>, the head's rank 0 and
  negative ranks included, and never panics.\<close>
theorem skiplist_rank_bounds:
  assumes "sl_holds sl vs" and "rk < 1 \<or> GetLength sl < rk"
  shows "GetByRank rk sl = Some (None :: PlayerInfo option)"
proof -
  obtain xs where xs: "sl_inv sl xs vs" using assms(1) by (auto simp: sl_holds_def)
  then show ?thesis using GetByRank_correct [OF xs, of rk] holds_length [OF assms(1)] assms(2) by auto
qed

theorem skiplist_rank_bounds_witness:
  "GetByRank 0 (NewSkiplist :: PlayerInfo skiplist) = Some None"
  by (rule skiplist_rank_bounds [of _ "[]"]) simp_all

text \<open>\<open>GetByRankRange\<close> writes the values of the ranks asked for, as many as there are, to the
  front of the caller's slice and leaves the rest of the slice alone.\<close>
theorem skiplist_rank_range:
  assumes "sl_holds sl vs" and "1 \<le> start" "start \<le> GetLength sl" and "0 < num" "num \<le> int (length ws)"
  shows "\<exists>out. GetByRankRange start num (Some ws) sl = Some (True, Some (map Some out @ drop (length out) ws))
    \<and> out = take (nat num) (drop (nat (start - 1)) (vs :: int list))"
proof -
  obtain xs where xs: "sl_inv sl xs vs" using assms(1) by (auto simp: sl_holds_def)
  have "start \<le> int (length vs)" using holds_length [OF assms(1)] assms(3) by simp
  then show ?thesis using GetByRankRange_correct [OF xs assms(2) _ assms(4,5)] by simp
qed

theorem skiplist_rank_range_witness:
  "\<exists>sl. Skiplist_Insert Int32Value_Greater 7 [1] NewSkiplist = Some (1, sl, [])
    \<and> GetByRankRange 1 2 (Some [None, None]) sl = Some (True, Some [Some 7, None])"
proof -
  obtain sl where sl: "Skiplist_Insert Int32Value_Greater 7 [1] NewSkiplist = Some (1, sl, [])"
      "sl_holds sl [7]"
    using i32_nodes.insert_holds [OF holds_new, of "[1]" 1 "[]" 7]
    by (auto simp: descending_def draw_simps put_value_def)
  then show ?thesis using skiplist_rank_range [OF sl(2), of 1 2 "[None, None]"] holds_length [OF sl(2)] by auto
qed

text \<open>\<open>PullList\<close> returns all the values in order, so the list can be read back.\<close>
theorem skiplist_pull:
  assumes "sl_holds sl (vs :: int list)"
  shows "PullList sl = Some (map Some vs)"
  using assms PullList_correct by (auto simp: sl_holds_def)

theorem skiplist_pull_witness: "PullList (NewSkiplist :: int skiplist) = Some []"
  using skiplist_pull [OF holds_new] by simp

section \<open>A finding\<close>

definition delete_by_rank_run :: "(bool \<times> int \<times> int option list) option" where
  "delete_by_rank_run = do {
     (_, sl, _) \<leftarrow> Skiplist_Insert Int32Value_Greater 1 [1] NewSkiplist;
     (_, sl, _) \<leftarrow> Skiplist_Insert Int32Value_Greater 2 [4, 1] sl;
     (b, sl) \<leftarrow> DeleteByRank 2 sl;
     r \<leftarrow> GetRank Int32Value_Greater Int32Value_KeyEqual 2 sl;
     l \<leftarrow> PullList sl;
     Some (b, r, l) }"

text \<open>\<open>DeleteByRank\<close> unlinks the node it finds by rank with the \<open>before_node\<close> array that the last
  \<open>Insert\<close>, \<open>Delete\<close> or \<open>GetNode\<close> left: \<open>GetNodeByRank\<close> does not record its path. Where the node is
  absent from a layer the span of another node is then shortened. After two insertions and one
  \<open>DeleteByRank\<close> the list is \<open>[2]\<close> and \<open>GetRank\<close> of 2 is 0 (not found).\<close>
lemma delete_by_rank_stale: "delete_by_rank_run = Some (True, 0, [Some 2])"
  by code_simp

end
