(* ===== verification/Ranklist.thy ===== *)
theory Ranklist
  imports Skiplist_Nodes "HOL-Library.AList"
begin

text \<open>
  The common ranking list of \<open>libs/utils/ranklist.go\<close>: a skip list of item pointers, a map from
  keys to item pointers, and a pool of items for reuse. Items are mutable and shared by pointer, so
  they live in a store from addresses to item values, and the skip list and the map hold addresses.
  The interface of an item is the record \<open>rank_node\<close> of its methods. What \<open>sync.Pool\<close> hands out is
  the argument \<open>pick\<close>: a position in the pool, or \<open>None\<close> for a new item. The locks guard whole
  operations and leave no trace in a sequential model.
\<close>

section \<open>The methods of an item\<close>

record ('i, 'k, 'w) rank_node =
  rn_Greater :: "'i \<Rightarrow> 'i \<Rightarrow> bool"
  rn_KeyEqual :: "'i \<Rightarrow> 'i \<Rightarrow> bool"
  rn_GetKey :: "'i \<Rightarrow> 'k"
  rn_GetValue :: "'i \<Rightarrow> 'w"
  rn_New :: 'i
  rn_Assign :: "'i \<Rightarrow> 'i \<Rightarrow> 'i"
  rn_CopyDataTo :: "'i \<Rightarrow> 'i \<Rightarrow> 'i"

record ('i, 'k) CommonRankingList =
  ranking_items :: "nat skiplist"
  key2item :: "('k \<times> nat) list"
  max_rank :: int
  items_pool :: "nat list"
  item_store :: "nat \<Rightarrow> 'i"
  store_fresh :: nat

definition rl_gt :: "('i, 'k, 'w) rank_node \<Rightarrow> (nat \<Rightarrow> 'i) \<Rightarrow> nat \<Rightarrow> nat \<Rightarrow> bool" where
  "rl_gt ops s a b = rn_Greater ops (s a) (s b)"

definition rl_keq :: "('i, 'k, 'w) rank_node \<Rightarrow> (nat \<Rightarrow> 'i) \<Rightarrow> nat \<Rightarrow> nat \<Rightarrow> bool" where
  "rl_keq ops s a b = rn_KeyEqual ops (s a) (s b)"

definition NewCommonRankingList ::
  "('i, 'k, 'w) rank_node \<Rightarrow> int \<Rightarrow> ('i, 'k) CommonRankingList" where
  "NewCommonRankingList ops mr = \<lparr>ranking_items = NewSkiplist, key2item = [], max_rank = mr,
     items_pool = [], item_store = (\<lambda>_. rn_New ops), store_fresh = 0\<rparr>"

definition pool_get :: "('i, 'k, 'w) rank_node \<Rightarrow> nat option \<Rightarrow> ('i, 'k) CommonRankingList
    \<Rightarrow> nat \<times> ('i, 'k) CommonRankingList" where
  "pool_get ops pick st = (case pick of
       Some j \<Rightarrow> if j < length (items_pool st)
         then (items_pool st ! j, st\<lparr>items_pool := take j (items_pool st) @ drop (Suc j) (items_pool st)\<rparr>)
         else (store_fresh st, st\<lparr>item_store := (item_store st)(store_fresh st := rn_New ops),
                                  store_fresh := store_fresh st + 1\<rparr>)
     | None \<Rightarrow> (store_fresh st, st\<lparr>item_store := (item_store st)(store_fresh st := rn_New ops),
                                    store_fresh := store_fresh st + 1\<rparr>))"

definition item_assign :: "('i, 'k, 'w) rank_node \<Rightarrow> nat \<Rightarrow> 'i \<Rightarrow> ('i, 'k) CommonRankingList
    \<Rightarrow> ('i, 'k) CommonRankingList" where
  "item_assign ops a x st =
     st\<lparr>item_store := (item_store st)(a := rn_Assign ops (item_store st a) x)\<rparr>"

section \<open>Operations\<close>

definition rl_GetByRank :: "('i, 'k, 'w) rank_node \<Rightarrow> nat option \<Rightarrow> int \<Rightarrow> ('i, 'k) CommonRankingList
    \<Rightarrow> (nat option \<times> ('i, 'k) CommonRankingList) option" where
  "rl_GetByRank ops pick rk st = do {
     item \<leftarrow> GetByRank rk (ranking_items st);
     (case item of None \<Rightarrow> Some (None, st)
      | Some a \<Rightarrow> (let (b, st) = pool_get ops pick st in
          Some (Some b, item_assign ops b (item_store st a) st))) }"

definition rl_GetByKey :: "('i, 'k, 'w) rank_node \<Rightarrow> nat option \<Rightarrow> 'k \<Rightarrow> ('i, 'k) CommonRankingList
    \<Rightarrow> nat option \<times> ('i, 'k) CommonRankingList" where
  "rl_GetByKey ops pick key st = (case map_of (key2item st) key of None \<Rightarrow> (None, st)
      | Some a \<Rightarrow> (let (b, st) = pool_get ops pick st in
          (Some b, item_assign ops b (item_store st a) st)))"

text \<open>\<open>SetValue\<close> is the item's method on the value given, as a function on items.\<close>

definition rl_SetValueByKey :: "'k \<Rightarrow> ('i \<Rightarrow> 'i) \<Rightarrow> ('i, 'k) CommonRankingList
    \<Rightarrow> ('i, 'k) CommonRankingList" where
  "rl_SetValueByKey key SetValue st = (case map_of (key2item st) key of None \<Rightarrow> st
     | Some a \<Rightarrow> st\<lparr>item_store := (item_store st)(a := SetValue (item_store st a))\<rparr>)"

definition rl_insert :: "('i, 'k, 'w) rank_node \<Rightarrow> 'k \<Rightarrow> nat \<Rightarrow> int list \<Rightarrow> ('i, 'k) CommonRankingList
    \<Rightarrow> (bool \<times> ('i, 'k) CommonRankingList \<times> int list) option" where
  "rl_insert ops key item rs st = do {
     (_, sl, rs') \<leftarrow> Skiplist_Insert (rl_gt ops (item_store st)) item rs (ranking_items st);
     Some (True, st\<lparr>ranking_items := sl, key2item := AList.update key item (key2item st)\<rparr>, rs') }"

definition rl_delete :: "('i, 'k, 'w) rank_node \<Rightarrow> 'k \<Rightarrow> bool \<Rightarrow> ('i, 'k) CommonRankingList
    \<Rightarrow> (bool \<times> ('i, 'k) CommonRankingList) option" where
  "rl_delete ops key is_lock st = (case map_of (key2item st) key of None \<Rightarrow> Some (False, st)
     | Some item \<Rightarrow> do {
         (b, sl) \<leftarrow> Skiplist_Delete (rl_gt ops (item_store st)) (rl_keq ops (item_store st)) item
                      (ranking_items st);
         let st = st\<lparr>ranking_items := sl\<rparr>;
         (if \<not> b then Some (False, st)
          else Some (True, if is_lock then st\<lparr>items_pool := items_pool st @ [item]\<rparr> else st)) })"

definition rl_Delete :: "('i, 'k, 'w) rank_node \<Rightarrow> 'k \<Rightarrow> ('i, 'k) CommonRankingList
    \<Rightarrow> (bool \<times> ('i, 'k) CommonRankingList) option" where
  "rl_Delete ops key st = rl_delete ops key True st"

definition rl_Update :: "('i, 'k, 'w) rank_node \<Rightarrow> nat option \<Rightarrow> int list \<Rightarrow> 'i
    \<Rightarrow> ('i, 'k) CommonRankingList \<Rightarrow> (bool \<times> ('i, 'k) CommonRankingList \<times> int list) option" where
  "rl_Update ops pick rs item st = (case map_of (key2item st) (rn_GetKey ops item) of
       Some old_item \<Rightarrow> do {
         (b, st) \<leftarrow> rl_delete ops (rn_GetKey ops item) False st;
         (if \<not> b then Some (False, st, rs)
          else rl_insert ops (rn_GetKey ops item) old_item rs (item_assign ops old_item item st)) }
     | None \<Rightarrow> (let (new_item, st) = pool_get ops pick st in
         rl_insert ops (rn_GetKey ops item) new_item rs (item_assign ops new_item item st)))"

definition rl_len :: "('i, 'k) CommonRankingList \<Rightarrow> int" where
  "rl_len st = int (length (key2item st))"

text \<open>The copy loop of \<open>GetRangeNodes\<close> over the caller's \<open>nodes\<close>.\<close>

fun copy_items :: "('i, 'k, 'w) rank_node \<Rightarrow> (nat \<Rightarrow> 'i) \<Rightarrow> nat \<Rightarrow> nat option list \<Rightarrow> 'i list \<Rightarrow> int
    \<Rightarrow> ('i list \<times> int) option" where
  "copy_items ops s i [] nodes n = Some (nodes, n)"
| "copy_items ops s i (None # items) nodes n = copy_items ops s (Suc i) items nodes n"
| "copy_items ops s i (Some a # items) nodes n =
     (if i < length nodes
      then copy_items ops s (Suc i) items (nodes[i := rn_CopyDataTo ops (s a) (nodes ! i)]) (n + 1)
      else None)"

definition GetRangeNodes :: "('i, 'k, 'w) rank_node \<Rightarrow> int \<Rightarrow> int \<Rightarrow> 'i list
    \<Rightarrow> ('i, 'k) CommonRankingList \<Rightarrow> ('i list \<times> int) option" where
  "GetRangeNodes ops rank_start rank_num nodes st =
     (if rank_start \<le> 0 \<or> rank_start > max_rank st then Some (nodes, 0)
      else if rank_start > rl_len st then Some (nodes, 0)
      else let real_num = rl_len st - rank_start + 1;
               num = (if real_num < rank_num then real_num else rank_num) in
        if num < 0 then None
        else do {
          (b, items) \<leftarrow> GetByRankRange rank_start num (Some (replicate (nat num) None)) (ranking_items st);
          (if \<not> b then Some (nodes, 0)
           else case items of None \<Rightarrow> None
             | Some its \<Rightarrow> copy_items ops (item_store st) 0 its nodes 0) })"

definition rl_GetRank :: "('i, 'k, 'w) rank_node \<Rightarrow> 'k \<Rightarrow> ('i, 'k) CommonRankingList \<Rightarrow> int option" where
  "rl_GetRank ops key st = (case map_of (key2item st) key of None \<Rightarrow> Some 0
     | Some item \<Rightarrow> GetRank (rl_gt ops (item_store st)) (rl_keq ops (item_store st)) item (ranking_items st))"

definition GetRankAndValue :: "('i, 'k, 'w) rank_node \<Rightarrow> 'k \<Rightarrow> ('i, 'k) CommonRankingList
    \<Rightarrow> (int \<times> 'w option) option" where
  "GetRankAndValue ops key st = (case map_of (key2item st) key of None \<Rightarrow> Some (0, None)
     | Some item \<Rightarrow> do {
         r \<leftarrow> GetRank (rl_gt ops (item_store st)) (rl_keq ops (item_store st)) item (ranking_items st);
         Some (r, Some (rn_GetValue ops (item_store st item))) })"

definition GetRankRange :: "int \<Rightarrow> int \<Rightarrow> ('i, 'k) CommonRankingList \<Rightarrow> int \<times> int" where
  "GetRankRange start num st =
     (let l = rl_len st in
      if l = 0 then (0, 0)
      else if start > l then (0, 0)
      else (start, if i32 (l - start + 1) < num then i32 (l - start + 1) else num))"

definition GetLastRankRange :: "int \<Rightarrow> ('i, 'k) CommonRankingList \<Rightarrow> int \<times> int" where
  "GetLastRankRange num st =
     (let l = rl_len st in
      if l = 0 then (0, 0)
      else let num = (if num > l then l else num) in (i32 (l - num + 1), num))"

definition GetLastRank :: "('i, 'k) CommonRankingList \<Rightarrow> int" where
  "GetLastRank st = rl_len st"

definition rl_GetLength :: "('i, 'k) CommonRankingList \<Rightarrow> int" where
  "rl_GetLength st = GetLength (ranking_items st)"

end
