(* ===== verification/Rank_Items.thy ===== *)
theory Rank_Items
  imports Ranklist
begin

text \<open>
  The items of the server's rankings: \<open>PlayerInt32RankItem\<close> and \<open>PlayerInt64RankItem\<close> of
  \<open>hall_server/common_rank_item.go\<close> and \<open>ArenaRankItem\<close> of \<open>hall_server/player_arena.go\<close>, each
  with its methods. A nil argument is \<open>None\<close>. \<open>SetValue\<close> of the first two stamps the time,
  which is the argument \<open>now\<close>. The interface \<open>rank_node_laws\<close> says what the ranking list needs
  of its items, and is interpreted on the three.
\<close>

section \<open>The interface\<close>

locale rank_node_laws = skiplist_order "rn_Greater ops" for ops :: "('i, 'k, 'w) rank_node" +
  assumes key_keq: "rn_KeyEqual ops a b \<longleftrightarrow> rn_GetKey ops a = rn_GetKey ops b"
    and total: "rn_GetKey ops a \<noteq> rn_GetKey ops b \<Longrightarrow> rn_Greater ops a b \<or> rn_Greater ops b a"
    and assign: "rn_Assign ops a b = b"
    and copy: "rn_CopyDataTo ops a b = a"

sublocale rank_node_laws \<subseteq> stored: skiplist_order "rl_gt ops s" for s
proof
  show "\<not> rl_gt ops s b a" if "rl_gt ops s a b" for a b
    using that gt_asym by (simp add: rl_gt_def)
  show "rl_gt ops s a c \<or> rl_gt ops s c b" if "rl_gt ops s a b" for a b c
    using that gt_cotrans by (simp add: rl_gt_def)
qed

section \<open>PlayerInt32RankItem\<close>

record PlayerInt32RankItem =
  p32_Value :: int
  p32_UpdateTime :: int
  p32_PlayerId :: int

definition PlayerInt32RankItem_Less :: "PlayerInt32RankItem \<Rightarrow> PlayerInt32RankItem option \<Rightarrow> bool" where
  "PlayerInt32RankItem_Less this val = (case val of None \<Rightarrow> False
     | Some item \<Rightarrow>
         if p32_Value this < p32_Value item then True
         else if p32_Value this = p32_Value item then
           (if p32_UpdateTime this > p32_UpdateTime item then True
            else if p32_UpdateTime this = p32_UpdateTime item then p32_PlayerId this > p32_PlayerId item
            else False)
         else False)"

definition PlayerInt32RankItem_Greater :: "PlayerInt32RankItem \<Rightarrow> PlayerInt32RankItem option \<Rightarrow> bool" where
  "PlayerInt32RankItem_Greater this val = (case val of None \<Rightarrow> False
     | Some item \<Rightarrow>
         if p32_Value this > p32_Value item then True
         else if p32_Value this = p32_Value item then
           (if p32_UpdateTime this < p32_UpdateTime item then True
            else if p32_UpdateTime this = p32_UpdateTime item then p32_PlayerId this < p32_PlayerId item
            else False)
         else False)"

definition PlayerInt32RankItem_KeyEqual :: "PlayerInt32RankItem \<Rightarrow> PlayerInt32RankItem option \<Rightarrow> bool" where
  "PlayerInt32RankItem_KeyEqual this val = (case val of None \<Rightarrow> False
     | Some item \<Rightarrow> p32_PlayerId this = p32_PlayerId item)"

definition PlayerInt32RankItem_GetKey :: "PlayerInt32RankItem \<Rightarrow> int" where
  "PlayerInt32RankItem_GetKey this = p32_PlayerId this"

definition PlayerInt32RankItem_GetValue :: "PlayerInt32RankItem \<Rightarrow> int" where
  "PlayerInt32RankItem_GetValue this = p32_Value this"

definition PlayerInt32RankItem_SetValue :: "int \<Rightarrow> int \<Rightarrow> PlayerInt32RankItem \<Rightarrow> PlayerInt32RankItem" where
  "PlayerInt32RankItem_SetValue now val this = this\<lparr>p32_Value := val, p32_UpdateTime := i32 now\<rparr>"

definition PlayerInt32RankItem_New :: PlayerInt32RankItem where
  "PlayerInt32RankItem_New = \<lparr>p32_Value = 0, p32_UpdateTime = 0, p32_PlayerId = 0\<rparr>"

definition PlayerInt32RankItem_Assign :: "PlayerInt32RankItem \<Rightarrow> PlayerInt32RankItem option \<Rightarrow> PlayerInt32RankItem" where
  "PlayerInt32RankItem_Assign this node = (case node of None \<Rightarrow> this
     | Some n \<Rightarrow> this\<lparr>p32_Value := p32_Value n, p32_UpdateTime := p32_UpdateTime n, p32_PlayerId := p32_PlayerId n\<rparr>)"

definition PlayerInt32RankItem_CopyDataTo :: "PlayerInt32RankItem \<Rightarrow> PlayerInt32RankItem option \<Rightarrow> PlayerInt32RankItem option" where
  "PlayerInt32RankItem_CopyDataTo this node = (case node of None \<Rightarrow> None
     | Some n \<Rightarrow> Some (n\<lparr>p32_Value := p32_Value this, p32_UpdateTime := p32_UpdateTime this, p32_PlayerId := p32_PlayerId this\<rparr>))"

definition int32_item_ops :: "(PlayerInt32RankItem, int, int) rank_node" where
  "int32_item_ops = \<lparr>rn_Greater = (\<lambda>a b. PlayerInt32RankItem_Greater a (Some b)), rn_KeyEqual = (\<lambda>a b. PlayerInt32RankItem_KeyEqual a (Some b)),
     rn_GetKey = PlayerInt32RankItem_GetKey, rn_GetValue = PlayerInt32RankItem_GetValue, rn_New = PlayerInt32RankItem_New,
     rn_Assign = (\<lambda>a b. PlayerInt32RankItem_Assign a (Some b)), rn_CopyDataTo = (\<lambda>a b. the (PlayerInt32RankItem_CopyDataTo a (Some b)))\<rparr>"

lemma int32_item_ops_gt: "rn_Greater int32_item_ops a b \<longleftrightarrow>
    (p32_Value b, p32_UpdateTime a, p32_PlayerId a) < (p32_Value a, p32_UpdateTime b, p32_PlayerId b)"
  by (auto simp: int32_item_ops_def PlayerInt32RankItem_Greater_def less_prod_simp)

interpretation p32_items: rank_node_laws int32_item_ops
proof
  show "\<not> rn_Greater int32_item_ops b a" if "rn_Greater int32_item_ops a b" for a b
    using that by (auto simp: int32_item_ops_gt)
  show "rn_Greater int32_item_ops a c \<or> rn_Greater int32_item_ops c b" if "rn_Greater int32_item_ops a b" for a b c
    using that unfolding int32_item_ops_gt less_prod_simp by linarith
  show "rn_Greater int32_item_ops a b \<or> rn_Greater int32_item_ops b a"
    if "rn_GetKey int32_item_ops a \<noteq> rn_GetKey int32_item_ops b" for a b
    using that by (auto simp: int32_item_ops_gt) (auto simp: int32_item_ops_def PlayerInt32RankItem_GetKey_def)
qed (simp_all add: int32_item_ops_def PlayerInt32RankItem_KeyEqual_def PlayerInt32RankItem_GetKey_def PlayerInt32RankItem_Assign_def PlayerInt32RankItem_CopyDataTo_def)

text \<open>\<open>Less\<close> and \<open>Greater\<close> are converse.\<close>

lemma p32_less_greater: "PlayerInt32RankItem_Less a (Some b) \<longleftrightarrow> PlayerInt32RankItem_Greater b (Some a)"
  by (auto simp: PlayerInt32RankItem_Less_def PlayerInt32RankItem_Greater_def)

section \<open>PlayerInt64RankItem\<close>

record PlayerInt64RankItem =
  p64_Value :: int
  p64_UpdateTime :: int
  p64_PlayerId :: int

definition PlayerInt64RankItem_Less :: "PlayerInt64RankItem \<Rightarrow> PlayerInt64RankItem option \<Rightarrow> bool" where
  "PlayerInt64RankItem_Less this val = (case val of None \<Rightarrow> False
     | Some item \<Rightarrow>
         if p64_Value this < p64_Value item then True
         else if p64_Value this = p64_Value item then
           (if p64_UpdateTime this > p64_UpdateTime item then True
            else if p64_UpdateTime this = p64_UpdateTime item then p64_PlayerId this > p64_PlayerId item
            else False)
         else False)"

definition PlayerInt64RankItem_Greater :: "PlayerInt64RankItem \<Rightarrow> PlayerInt64RankItem option \<Rightarrow> bool" where
  "PlayerInt64RankItem_Greater this val = (case val of None \<Rightarrow> False
     | Some item \<Rightarrow>
         if p64_Value this > p64_Value item then True
         else if p64_Value this = p64_Value item then
           (if p64_UpdateTime this < p64_UpdateTime item then True
            else if p64_UpdateTime this = p64_UpdateTime item then p64_PlayerId this < p64_PlayerId item
            else False)
         else False)"

definition PlayerInt64RankItem_KeyEqual :: "PlayerInt64RankItem \<Rightarrow> PlayerInt64RankItem option \<Rightarrow> bool" where
  "PlayerInt64RankItem_KeyEqual this val = (case val of None \<Rightarrow> False
     | Some item \<Rightarrow> p64_PlayerId this = p64_PlayerId item)"

definition PlayerInt64RankItem_GetKey :: "PlayerInt64RankItem \<Rightarrow> int" where
  "PlayerInt64RankItem_GetKey this = p64_PlayerId this"

definition PlayerInt64RankItem_GetValue :: "PlayerInt64RankItem \<Rightarrow> int" where
  "PlayerInt64RankItem_GetValue this = p64_Value this"

definition PlayerInt64RankItem_SetValue :: "int \<Rightarrow> int \<Rightarrow> PlayerInt64RankItem \<Rightarrow> PlayerInt64RankItem" where
  "PlayerInt64RankItem_SetValue now val this = this\<lparr>p64_Value := val, p64_UpdateTime := i32 now\<rparr>"

definition PlayerInt64RankItem_New :: PlayerInt64RankItem where
  "PlayerInt64RankItem_New = \<lparr>p64_Value = 0, p64_UpdateTime = 0, p64_PlayerId = 0\<rparr>"

definition PlayerInt64RankItem_Assign :: "PlayerInt64RankItem \<Rightarrow> PlayerInt64RankItem option \<Rightarrow> PlayerInt64RankItem" where
  "PlayerInt64RankItem_Assign this node = (case node of None \<Rightarrow> this
     | Some n \<Rightarrow> this\<lparr>p64_Value := p64_Value n, p64_UpdateTime := p64_UpdateTime n, p64_PlayerId := p64_PlayerId n\<rparr>)"

definition PlayerInt64RankItem_CopyDataTo :: "PlayerInt64RankItem \<Rightarrow> PlayerInt64RankItem option \<Rightarrow> PlayerInt64RankItem option" where
  "PlayerInt64RankItem_CopyDataTo this node = (case node of None \<Rightarrow> None
     | Some n \<Rightarrow> Some (n\<lparr>p64_Value := p64_Value this, p64_UpdateTime := p64_UpdateTime this, p64_PlayerId := p64_PlayerId this\<rparr>))"

definition int64_item_ops :: "(PlayerInt64RankItem, int, int) rank_node" where
  "int64_item_ops = \<lparr>rn_Greater = (\<lambda>a b. PlayerInt64RankItem_Greater a (Some b)), rn_KeyEqual = (\<lambda>a b. PlayerInt64RankItem_KeyEqual a (Some b)),
     rn_GetKey = PlayerInt64RankItem_GetKey, rn_GetValue = PlayerInt64RankItem_GetValue, rn_New = PlayerInt64RankItem_New,
     rn_Assign = (\<lambda>a b. PlayerInt64RankItem_Assign a (Some b)), rn_CopyDataTo = (\<lambda>a b. the (PlayerInt64RankItem_CopyDataTo a (Some b)))\<rparr>"

lemma int64_item_ops_gt: "rn_Greater int64_item_ops a b \<longleftrightarrow>
    (p64_Value b, p64_UpdateTime a, p64_PlayerId a) < (p64_Value a, p64_UpdateTime b, p64_PlayerId b)"
  by (auto simp: int64_item_ops_def PlayerInt64RankItem_Greater_def less_prod_simp)

interpretation p64_items: rank_node_laws int64_item_ops
proof
  show "\<not> rn_Greater int64_item_ops b a" if "rn_Greater int64_item_ops a b" for a b
    using that by (auto simp: int64_item_ops_gt)
  show "rn_Greater int64_item_ops a c \<or> rn_Greater int64_item_ops c b" if "rn_Greater int64_item_ops a b" for a b c
    using that unfolding int64_item_ops_gt less_prod_simp by linarith
  show "rn_Greater int64_item_ops a b \<or> rn_Greater int64_item_ops b a"
    if "rn_GetKey int64_item_ops a \<noteq> rn_GetKey int64_item_ops b" for a b
    using that by (auto simp: int64_item_ops_gt) (auto simp: int64_item_ops_def PlayerInt64RankItem_GetKey_def)
qed (simp_all add: int64_item_ops_def PlayerInt64RankItem_KeyEqual_def PlayerInt64RankItem_GetKey_def PlayerInt64RankItem_Assign_def PlayerInt64RankItem_CopyDataTo_def)

text \<open>\<open>Less\<close> and \<open>Greater\<close> are converse.\<close>

lemma p64_less_greater: "PlayerInt64RankItem_Less a (Some b) \<longleftrightarrow> PlayerInt64RankItem_Greater b (Some a)"
  by (auto simp: PlayerInt64RankItem_Less_def PlayerInt64RankItem_Greater_def)

section \<open>ArenaRankItem\<close>

record ArenaRankItem =
  ar_Score :: int
  ar_UpdateTime :: int
  ar_PlayerId :: int

definition ArenaRankItem_Less :: "ArenaRankItem \<Rightarrow> ArenaRankItem option \<Rightarrow> bool" where
  "ArenaRankItem_Less this val = (case val of None \<Rightarrow> False
     | Some item \<Rightarrow>
         if ar_Score this < ar_Score item then True
         else if ar_Score this = ar_Score item then
           (if ar_UpdateTime this > ar_UpdateTime item then True
            else if ar_UpdateTime this = ar_UpdateTime item then ar_PlayerId this > ar_PlayerId item
            else False)
         else False)"

definition ArenaRankItem_Greater :: "ArenaRankItem \<Rightarrow> ArenaRankItem option \<Rightarrow> bool" where
  "ArenaRankItem_Greater this val = (case val of None \<Rightarrow> False
     | Some item \<Rightarrow>
         if ar_Score this > ar_Score item then True
         else if ar_Score this = ar_Score item then
           (if ar_UpdateTime this < ar_UpdateTime item then True
            else if ar_UpdateTime this = ar_UpdateTime item then ar_PlayerId this < ar_PlayerId item
            else False)
         else False)"

definition ArenaRankItem_KeyEqual :: "ArenaRankItem \<Rightarrow> ArenaRankItem option \<Rightarrow> bool" where
  "ArenaRankItem_KeyEqual this val = (case val of None \<Rightarrow> False
     | Some item \<Rightarrow> ar_PlayerId this = ar_PlayerId item)"

definition ArenaRankItem_GetKey :: "ArenaRankItem \<Rightarrow> int" where
  "ArenaRankItem_GetKey this = ar_PlayerId this"

definition ArenaRankItem_GetValue :: "ArenaRankItem \<Rightarrow> int" where
  "ArenaRankItem_GetValue this = ar_Score this"

definition ArenaRankItem_SetValue :: "ArenaRankItem option \<Rightarrow> ArenaRankItem \<Rightarrow> ArenaRankItem" where
  "ArenaRankItem_SetValue val this = (case val of None \<Rightarrow> this
     | Some item \<Rightarrow> this\<lparr>ar_Score := ar_Score item, ar_UpdateTime := ar_UpdateTime item\<rparr>)"

definition ArenaRankItem_New :: ArenaRankItem where
  "ArenaRankItem_New = \<lparr>ar_Score = 0, ar_UpdateTime = 0, ar_PlayerId = 0\<rparr>"

definition ArenaRankItem_Assign :: "ArenaRankItem \<Rightarrow> ArenaRankItem option \<Rightarrow> ArenaRankItem" where
  "ArenaRankItem_Assign this node = (case node of None \<Rightarrow> this
     | Some n \<Rightarrow> this\<lparr>ar_Score := ar_Score n, ar_UpdateTime := ar_UpdateTime n, ar_PlayerId := ar_PlayerId n\<rparr>)"

definition ArenaRankItem_CopyDataTo :: "ArenaRankItem \<Rightarrow> ArenaRankItem option \<Rightarrow> ArenaRankItem option" where
  "ArenaRankItem_CopyDataTo this node = (case node of None \<Rightarrow> None
     | Some n \<Rightarrow> Some (n\<lparr>ar_Score := ar_Score this, ar_UpdateTime := ar_UpdateTime this, ar_PlayerId := ar_PlayerId this\<rparr>))"

definition arena_item_ops :: "(ArenaRankItem, int, int) rank_node" where
  "arena_item_ops = \<lparr>rn_Greater = (\<lambda>a b. ArenaRankItem_Greater a (Some b)), rn_KeyEqual = (\<lambda>a b. ArenaRankItem_KeyEqual a (Some b)),
     rn_GetKey = ArenaRankItem_GetKey, rn_GetValue = ArenaRankItem_GetValue, rn_New = ArenaRankItem_New,
     rn_Assign = (\<lambda>a b. ArenaRankItem_Assign a (Some b)), rn_CopyDataTo = (\<lambda>a b. the (ArenaRankItem_CopyDataTo a (Some b)))\<rparr>"

lemma arena_item_ops_gt: "rn_Greater arena_item_ops a b \<longleftrightarrow>
    (ar_Score b, ar_UpdateTime a, ar_PlayerId a) < (ar_Score a, ar_UpdateTime b, ar_PlayerId b)"
  by (auto simp: arena_item_ops_def ArenaRankItem_Greater_def less_prod_simp)

interpretation ar_items: rank_node_laws arena_item_ops
proof
  show "\<not> rn_Greater arena_item_ops b a" if "rn_Greater arena_item_ops a b" for a b
    using that by (auto simp: arena_item_ops_gt)
  show "rn_Greater arena_item_ops a c \<or> rn_Greater arena_item_ops c b" if "rn_Greater arena_item_ops a b" for a b c
    using that unfolding arena_item_ops_gt less_prod_simp by linarith
  show "rn_Greater arena_item_ops a b \<or> rn_Greater arena_item_ops b a"
    if "rn_GetKey arena_item_ops a \<noteq> rn_GetKey arena_item_ops b" for a b
    using that by (auto simp: arena_item_ops_gt) (auto simp: arena_item_ops_def ArenaRankItem_GetKey_def)
qed (simp_all add: arena_item_ops_def ArenaRankItem_KeyEqual_def ArenaRankItem_GetKey_def ArenaRankItem_Assign_def ArenaRankItem_CopyDataTo_def)

text \<open>\<open>Less\<close> and \<open>Greater\<close> are converse.\<close>

lemma ar_less_greater: "ArenaRankItem_Less a (Some b) \<longleftrightarrow> ArenaRankItem_Greater b (Some a)"
  by (auto simp: ArenaRankItem_Less_def ArenaRankItem_Greater_def)

end
