(* ===== verification/Ranklist_Correct.thy ===== *)
theory Ranklist_Correct
  imports Rank_Items
begin

text \<open>
  The ranking list refines a list of item values in descending order with different keys. The
  representation invariant \<open>rl_inv st as\<close> says that the skip list holds the addresses \<open>as\<close>, in
  descending order of the items stored there, and that the key map names exactly these; \<open>rl_items\<close>
  reads the abstract list off. It holds as long as no key is deleted (\<open>Delete\<close> leaves the key in
  the map and puts the item into the pool, which the last section is about).
\<close>

definition rl_inv :: "('i, 'k, 'w) rank_node \<Rightarrow> ('i, 'k) CommonRankingList \<Rightarrow> nat list \<Rightarrow> bool" where
  "rl_inv ops st as \<longleftrightarrow>
     sl_holds (ranking_items st) as \<and> descending (rl_gt ops (item_store st)) as \<and> distinct as \<and>
     (\<forall>a \<in> set as. a < store_fresh st) \<and> items_pool st = [] \<and> distinct (map fst (key2item st)) \<and>
     snd ` set (key2item st) = set as \<and>
     (\<forall>(k, a) \<in> set (key2item st). rn_GetKey ops (item_store st a) = k)"

text \<open>The invariant without the order, which \<open>SetValueByKey\<close> may break.\<close>

definition rl_shape :: "('i, 'k, 'w) rank_node \<Rightarrow> ('i, 'k) CommonRankingList \<Rightarrow> nat list \<Rightarrow> bool" where
  "rl_shape ops st as \<longleftrightarrow>
     sl_holds (ranking_items st) as \<and> distinct as \<and>
     (\<forall>a \<in> set as. a < store_fresh st) \<and> items_pool st = [] \<and> distinct (map fst (key2item st)) \<and>
     snd ` set (key2item st) = set as \<and>
     (\<forall>(k, a) \<in> set (key2item st). rn_GetKey ops (item_store st a) = k)"

definition rl_items :: "('i, 'k) CommonRankingList \<Rightarrow> nat list \<Rightarrow> 'i list" where
  "rl_items st as = map (item_store st) as"

text \<open>The abstract update: the new value replaces the one with its key.\<close>

definition rank_put :: "('i, 'k, 'w) rank_node \<Rightarrow> 'i \<Rightarrow> 'i list \<Rightarrow> 'i list" where
  "rank_put ops x L = put_value (rn_Greater ops) x (filter (\<lambda>y. rn_GetKey ops y \<noteq> rn_GetKey ops x) L)"

lemma alist_update_new: "map_of al k = None \<Longrightarrow> AList.update k v al = al @ [(k, v)]"
  by (induction al) (auto split: if_splits)

lemma rl_inv_new: "rl_inv ops (NewCommonRankingList ops mr) []"
  by (simp add: rl_inv_def NewCommonRankingList_def descending_def)

lemma rl_inv_shape: "rl_inv ops st as \<Longrightarrow> rl_shape ops st as"
  unfolding rl_inv_def rl_shape_def by blast

lemma rl_shape_inv:
  assumes "rl_shape ops st as" and "descending (rn_Greater ops) (rl_items st as)"
  shows "rl_inv ops st as"
proof -
  have "descending (rl_gt ops (item_store st)) as"
    using assms(2) by (simp add: descending_def rl_items_def rl_gt_def sorted_wrt_map)
  then show ?thesis using assms(1) unfolding rl_inv_def rl_shape_def by blast
qed

lemma rl_inv_items: "rl_inv ops st as \<Longrightarrow> descending (rn_Greater ops) (rl_items st as)"
  unfolding rl_inv_def by (simp add: descending_def rl_items_def rl_gt_def sorted_wrt_map)

lemma rl_inv_keys:
  assumes "rl_shape ops st as"
  shows "distinct (map (\<lambda>a. rn_GetKey ops (item_store st a)) as)"
    and "length (key2item st) = length as"
    and "map_of (key2item st) k = Some a \<longleftrightarrow> a \<in> set as \<and> rn_GetKey ops (item_store st a) = k"
proof -
  let ?K = "key2item st" and ?key = "\<lambda>a. rn_GetKey ops (item_store st a)"
  have I: "distinct as" "distinct (map fst ?K)" "snd ` set ?K = set as" "\<forall>p \<in> set ?K. ?key (snd p) = fst p"
    using assms unfolding rl_shape_def by auto
  have inj: "inj_on snd (set ?K)"
  proof (rule inj_onI)
    fix p q assume "p \<in> set ?K" "q \<in> set ?K" "snd p = snd q"
    then show "p = q" using I(4) by (metis prod_eqI)
  qed
  have "distinct ?K" using I(2) by (simp only: distinct_map)
  then have "length ?K = card (set ?K)" by (rule distinct_card [symmetric])
  also have "\<dots> = card (snd ` set ?K)" using inj by (rule card_image [symmetric])
  also have "\<dots> = length as" unfolding I(3) using I(1) by (rule distinct_card)
  finally show "length ?K = length as" .
  have found: "map_of ?K (?key a) = Some a" if "a \<in> set as" for a
  proof -
    have "a \<in> snd ` set ?K" unfolding I(3) using that .
    then obtain k where m: "(k, a) \<in> set ?K" by force
    have "?key a = k" using bspec [OF I(4) m] by simp
    then show ?thesis using map_of_is_SomeI [OF I(2) m] by simp
  qed
  then have "inj_on ?key (set as)" by (intro inj_onI) (metis option.inject)
  then show "distinct (map ?key as)" using I(1) by (simp add: distinct_map)
  note found
  moreover have "a \<in> set as \<and> ?key a = k" if "map_of ?K k = Some a" for a
  proof -
    have m: "(k, a) \<in> set ?K" using that by (rule map_of_SomeD)
    have "a \<in> snd ` set ?K" using imageI [OF m, of snd] by simp
    then show ?thesis using I(3) bspec [OF I(4) m] by simp
  qed
  ultimately show "map_of ?K k = Some a \<longleftrightarrow> a \<in> set as \<and> ?key a = k" by blast
qed

lemma put_value_map:
  "map s (put_value (rl_gt ops s) a L) = put_value (rn_Greater ops) (s a) (map s L)"
  by (simp add: put_value_def rl_gt_def takeWhile_map dropWhile_map comp_def)

lemma put_value_set: "set (put_value gt v L) = insert v (set L)"
  unfolding put_value_def using set_append [of "takeWhile (\<lambda>x. gt x v) L" "dropWhile (\<lambda>x. gt x v) L"]
  by simp

lemma put_value_distinct:
  assumes "distinct L" and "v \<notin> set L"
  shows "distinct (put_value gt v L)"
proof -
  define T D where "T = takeWhile (\<lambda>x. gt x v) L" and "D = dropWhile (\<lambda>x. gt x v) L"
  have "L = T @ D" by (simp add: T_def D_def)
  then have "distinct (T @ D)" "v \<notin> set (T @ D)" using assms by simp_all
  then have "distinct (T @ v # D)" by auto
  then show ?thesis by (simp add: put_value_def T_def D_def)
qed

lemma descending_store_cong:
  "\<forall>x \<in> set L. s' x = s x \<Longrightarrow> descending (rl_gt ops s') L = descending (rl_gt ops s) L"
  unfolding descending_def rl_gt_def by (induction L) auto

context rank_node_laws
begin

text \<open>An item that is in the list is where the search looks for it.\<close>

lemma member_split:
  assumes inv: "rl_inv ops st as" and a: "a \<in> set as"
  obtains A B where "as = A @ a # B" "takeWhile (\<lambda>x. rl_gt ops (item_store st) x a) as = A"
    "dropWhile (\<lambda>x. rl_gt ops (item_store st) x a) as = a # B"
proof -
  let ?s = "item_store st"
  obtain A B where AB: "as = A @ a # B" using a by (meson split_list)
  have I: "descending (rl_gt ops ?s) as" "distinct (map (\<lambda>a. rn_GetKey ops (?s a)) as)"
    using inv rl_inv_keys(1) [OF rl_inv_shape [OF inv]] by (auto simp: rl_inv_def)
  have "rl_gt ops ?s x a" if "x \<in> set A" for x
  proof -
    have "\<not> rl_gt ops ?s a x" using I(1) that unfolding AB descending_def sorted_wrt_append by simp
    moreover have "rn_GetKey ops (?s x) \<noteq> rn_GetKey ops (?s a)"
      using I(2) imageI [OF that, of "\<lambda>a. rn_GetKey ops (?s a)"] unfolding AB by auto
    ultimately show ?thesis using total by (auto simp: rl_gt_def)
  qed
  moreover have "\<not> rl_gt ops ?s a a" using gt_asym by (auto simp: rl_gt_def)
  ultimately show ?thesis
    using that [OF AB] unfolding AB by (simp add: takeWhile_append dropWhile_append)
qed

lemma drop_member:
  assumes inv: "rl_inv ops st as" and a: "a \<in> set as"
  shows "drop_value (rl_gt ops (item_store st)) (rl_keq ops (item_store st)) a as = filter (\<lambda>x. x \<noteq> a) as"
proof -
  obtain A B where AB: "as = A @ a # B" "takeWhile (\<lambda>x. rl_gt ops (item_store st) x a) as = A"
    "dropWhile (\<lambda>x. rl_gt ops (item_store st) x a) as = a # B" using member_split [OF inv a] .
  have "distinct as" using inv by (simp add: rl_inv_def)
  then have "filter (\<lambda>x. x \<noteq> a) as = A @ B" unfolding AB(1)
    by (auto intro!: arg_cong2 [of _ _ _ _ append] filter_True)
  then show ?thesis using AB(2,3) by (simp add: drop_value_def rl_keq_def key_keq)
qed

text \<open>Deleting an item from the skip list (the first half of an update, and of \<open>Delete\<close>).\<close>

lemma delete_member:
  assumes inv: "rl_inv ops st as" and k: "map_of (key2item st) key = Some a"
  shows "\<exists>sl. rl_delete ops key is_lock st = Some (True, st\<lparr>ranking_items := sl,
      items_pool := (if is_lock then items_pool st @ [a] else items_pool st)\<rparr>) \<and> sl_holds sl (filter (\<lambda>x. x \<noteq> a) as)"
proof -
  let ?s = "item_store st"
  have a: "a \<in> set as" using k rl_inv_keys(3) [OF rl_inv_shape [OF inv]] by blast
  have I: "sl_holds (ranking_items st) as" "descending (rl_gt ops ?s) as" "items_pool st = []"
    using inv by (auto simp: rl_inv_def)
  have "filter (\<lambda>x. x \<noteq> a) as \<noteq> as" using a by (auto simp: filter_id_conv)
  then obtain sl where "Skiplist_Delete (rl_gt ops ?s) (rl_keq ops ?s) a (ranking_items st) = Some (True, sl)"
      "sl_holds sl (filter (\<lambda>x. x \<noteq> a) as)"
    using stored.delete_holds [OF I(1,2), of "rl_keq ops ?s" a] unfolding drop_member [OF inv a] by auto
  then show ?thesis using k by (cases is_lock) (auto simp: rl_delete_def)
qed

text \<open>Inserting an address whose item has just been written.\<close>

lemma insert_item:
  assumes h: "sl_holds sl L" and d: "descending (rl_gt ops s) L" and a: "a \<notin> set L"
    and r: "random_skiplist_layer rs = Some (nl, rs')"
  shows "\<exists>sl'. Skiplist_Insert (rl_gt ops (s(a := x))) a rs sl = Some (nl, sl', rs')
    \<and> sl_holds sl' (put_value (rl_gt ops (s(a := x))) a L)
    \<and> descending (rl_gt ops (s(a := x))) (put_value (rl_gt ops (s(a := x))) a L)"
proof -
  have "descending (rl_gt ops (s(a := x))) L"
    using d a by (subst descending_store_cong [where s = s]) auto
  then show ?thesis using stored.insert_holds [OF h _ r] stored.put_descending by blast
qed

lemma Update_correct:
  assumes inv: "rl_inv ops st as" and r: "random_skiplist_layer rs = Some (nl, rs')"
  shows "\<exists>st' as'. rl_Update ops pick rs x st = Some (True, st', rs') \<and> rl_inv ops st' as'
    \<and> rl_items st' as' = rank_put ops x (rl_items st as) \<and> max_rank st' = max_rank st"
proof -
  let ?s = "item_store st" and ?k = "rn_GetKey ops x"
  note I = inv [unfolded rl_inv_def]
  show ?thesis
  proof (cases "map_of (key2item st) ?k")
    case None
    define a where "a = store_fresh st"
    have none: "\<forall>b \<in> set as. rn_GetKey ops (?s b) \<noteq> ?k"
      using None rl_inv_keys(3) [OF rl_inv_shape [OF inv]] by force
    have new: "a \<notin> set as" using I by (auto simp: a_def)
    obtain sl where sl: "Skiplist_Insert (rl_gt ops (?s(a := x))) a rs (ranking_items st) = Some (nl, sl, rs')"
        "sl_holds sl (put_value (rl_gt ops (?s(a := x))) a as)"
        "descending (rl_gt ops (?s(a := x))) (put_value (rl_gt ops (?s(a := x))) a as)"
      using insert_item [OF _ _ new r, of "ranking_items st" ?s x] I by blast
    let ?st = "st\<lparr>item_store := ?s(a := x), store_fresh := a + 1, ranking_items := sl,
        key2item := AList.update ?k a (key2item st)\<rparr>"
    let ?as = "put_value (rl_gt ops (?s(a := x))) a as"
    have run: "rl_Update ops pick rs x st = Some (True, ?st, rs')"
      using None I sl(1)
      by (cases pick) (simp_all add: rl_Update_def pool_get_def item_assign_def rl_insert_def assign
        a_def [symmetric])
    have upd: "AList.update ?k a (key2item st) = key2item st @ [(?k, a)]"
      using None by (rule alist_update_new)
    have "rl_inv ops ?st ?as"
      unfolding rl_inv_def
      using I sl(2,3) new None imageI [of "(_, a)" "set (key2item st)" snd]
      by (auto simp: put_value_set put_value_distinct upd [unfolded a_def] a_def less_Suc_eq map_of_eq_None_iff)
    moreover have "rl_items ?st ?as = rank_put ops x (rl_items st as)"
    proof -
      have e: "map (?s(a := x)) as = map ?s as" using new by auto
      have "filter (\<lambda>y. rn_GetKey ops y \<noteq> ?k) (map ?s as) = map ?s as"
        using none by (auto simp: filter_id_conv)
      then show ?thesis by (simp add: rl_items_def rank_put_def put_value_map e del: map_eq_conv)
    qed
    ultimately show ?thesis using run by (intro exI [of _ ?st] exI [of _ ?as]) simp
  next
    case (Some a)
    then have a: "a \<in> set as" "rn_GetKey ops (?s a) = ?k" using rl_inv_keys(3) [OF rl_inv_shape [OF inv]] by auto
    let ?L = "filter (\<lambda>b. b \<noteq> a) as"
    obtain sl1 where del: "rl_delete ops ?k False st = Some (True, st\<lparr>ranking_items := sl1, items_pool := items_pool st\<rparr>)"
        "sl_holds sl1 ?L" using delete_member [OF inv Some, of False] by auto
    have dL: "descending (rl_gt ops ?s) ?L" using I unfolding descending_def by (blast intro: sorted_wrt_filter)
    obtain sl where sl: "Skiplist_Insert (rl_gt ops (?s(a := x))) a rs sl1 = Some (nl, sl, rs')"
        "sl_holds sl (put_value (rl_gt ops (?s(a := x))) a ?L)"
        "descending (rl_gt ops (?s(a := x))) (put_value (rl_gt ops (?s(a := x))) a ?L)"
      using insert_item [OF del(2) dL _ r, of a x] by auto
    let ?st = "st\<lparr>item_store := ?s(a := x), ranking_items := sl,
        key2item := AList.update ?k a (key2item st)\<rparr>"
    let ?as = "put_value (rl_gt ops (?s(a := x))) a ?L"
    have run: "rl_Update ops pick rs x st = Some (True, ?st, rs')"
      using Some del(1) sl(1) by (simp add: rl_Update_def item_assign_def rl_insert_def assign)
    have upd: "AList.update ?k a (key2item st) = key2item st"
      using Some I by (metis AList.update_triv)
    have "rl_inv ops ?st ?as"
      unfolding rl_inv_def
      using I sl(2,3) a
      by (auto simp: put_value_set put_value_distinct upd)
    moreover have "rl_items ?st ?as = rank_put ops x (rl_items st as)"
    proof -
      have "filter (\<lambda>y. rn_GetKey ops y \<noteq> ?k) (map ?s as) = map ?s ?L"
        unfolding filter_map comp_def
        using rl_inv_keys(1) [OF rl_inv_shape [OF inv]] a by (intro arg_cong [of _ _ "map ?s"] filter_cong) (auto simp: distinct_map inj_on_def)
      moreover have "map (?s(a := x)) ?L = map ?s ?L" by simp
      ultimately show ?thesis by (simp add: rl_items_def rank_put_def put_value_map)
    qed
    ultimately show ?thesis using run by (intro exI [of _ ?st] exI [of _ ?as]) simp
  qed
qed

text \<open>Queries.\<close>

lemma member_rank:
  assumes inv: "rl_inv ops st as" and i: "i < length as"
  shows "rl_GetRank ops (rn_GetKey ops (item_store st (as ! i))) st = Some (int i + 1)"
proof -
  let ?s = "item_store st" and ?a = "as ! i"
  have a: "?a \<in> set as" using i by simp
  have I: "distinct as" "descending (rl_gt ops ?s) as" "sl_holds (ranking_items st) as"
    using inv by (auto simp: rl_inv_def)
  obtain xs where xs: "sl_inv (ranking_items st) xs as" using I(3) by (auto simp: sl_holds_def)
  obtain A B where AB: "as = A @ ?a # B" "takeWhile (\<lambda>x. rl_gt ops ?s x ?a) as = A"
    using member_split [OF inv a] by metis
  have "as ! length A = ?a" "length A < length as"
    using arg_cong [OF AB(1), of "\<lambda>l. l ! length A"] arg_cong [OF AB(1), of length] by simp_all
  then have "length A = i" using I(1) i nth_eq_iff_index_eq by blast
  then have pos: "ins_pos (rl_gt ops ?s) ?a as = i" using AB(2) by (simp add: ins_pos_def)
  have keys: "distinct (map (\<lambda>a. rn_GetKey ops (?s a)) as)" using rl_inv_keys(1) [OF rl_inv_shape [OF inv]] .
  have "only_at (rl_keq ops ?s) ?a i as"
    using nth_eq_iff_index_eq [OF keys] i by (auto simp: only_at_def rl_keq_def key_keq)
  then have "GetRank (rl_gt ops ?s) (rl_keq ops ?s) ?a (ranking_items st) = Some (int i + 1)"
    using stored.GetRank_correct [OF xs I(2), of "rl_keq ops ?s" ?a] pos i by (simp add: rl_keq_def key_keq)
  moreover have "map_of (key2item st) (rn_GetKey ops (?s ?a)) = Some ?a"
    using rl_inv_keys(3) [OF rl_inv_shape [OF inv]] a by blast
  ultimately show ?thesis by (simp add: rl_GetRank_def)
qed

lemma absent_rank:
  assumes "rl_inv ops st as" and "\<forall>y \<in> set (rl_items st as). rn_GetKey ops y \<noteq> k"
  shows "rl_GetRank ops k st = Some 0"
proof -
  have "map_of (key2item st) k = None"
    using rl_inv_keys(3) [OF rl_inv_shape [OF assms(1)], of k] assms(2) by (cases "map_of (key2item st) k") (auto simp: rl_items_def)
  then show ?thesis by (simp add: rl_GetRank_def)
qed

lemma by_rank_shape:
  assumes inv: "rl_shape ops st as" and rk: "1 \<le> rk" "rk \<le> int (length as)"
  shows "\<exists>b st'. rl_GetByRank ops pick rk st = Some (Some b, st')
    \<and> item_store st' b = rl_items st as ! nat (rk - 1) \<and> rl_shape ops st' as \<and> rl_items st' as = rl_items st as
    \<and> max_rank st' = max_rank st \<and> key2item st' = key2item st \<and> ranking_items st' = ranking_items st
    \<and> store_fresh st \<le> store_fresh st' \<and> (\<forall>a < store_fresh st. item_store st' a = item_store st a)"
proof -
  let ?s = "item_store st" and ?f = "store_fresh st"
  note I = inv [unfolded rl_shape_def]
  obtain xs where "sl_inv (ranking_items st) xs as" using I by (auto simp: sl_holds_def)
  then have g: "GetByRank rk (ranking_items st) = Some (Some (as ! nat (rk - 1)))"
    by (subst GetByRank_correct [of _ xs as]) (use rk in simp_all)
  define a where "a = as ! nat (rk - 1)"
  have a: "a \<in> set as" "a < ?f" using rk I by (auto simp: a_def)
  let ?st = "st\<lparr>item_store := ?s(?f := ?s a), store_fresh := ?f + 1\<rparr>"
  have run: "rl_GetByRank ops pick rk st = Some (Some ?f, ?st)"
    using g a(2) I unfolding a_def [symmetric]
    by (cases pick) (simp_all add: rl_GetByRank_def pool_get_def item_assign_def assign)
  have same: "\<forall>x \<in> set as. (?s(?f := ?s a)) x = ?s x" using I by auto
  have key: "\<forall>(k, b) \<in> set (key2item st). rn_GetKey ops ((?s(?f := ?s a)) b) = k"
    using I by (force simp: same)
  have "rl_shape ops ?st as"
    unfolding rl_shape_def using I key by (auto simp: less_Suc_eq simp del: fun_upd_apply)
  then show ?thesis
    using run same rk by (intro exI [of _ ?f] exI [of _ ?st]) (auto simp: rl_items_def a_def)
qed

lemma by_rank:
  assumes inv: "rl_inv ops st as" and rk: "1 \<le> rk" "rk \<le> int (length as)"
  shows "\<exists>b st'. rl_GetByRank ops pick rk st = Some (Some b, st')
    \<and> item_store st' b = rl_items st as ! nat (rk - 1) \<and> rl_inv ops st' as \<and> rl_items st' as = rl_items st as
    \<and> max_rank st' = max_rank st"
  using by_rank_shape [OF rl_inv_shape [OF inv] rk, of pick] rl_shape_inv rl_inv_items [OF inv] by fastforce

text \<open>Writing the item of a key in place, without moving it.\<close>

lemma set_value_shape:
  assumes sh: "rl_shape ops st as" and i: "i < length as"
    and key: "\<And>x. rn_GetKey ops (f x) = rn_GetKey ops x"
    and k: "k = rn_GetKey ops (rl_items st as ! i)"
  shows "rl_shape ops (rl_SetValueByKey k f st) as"
    and "rl_items (rl_SetValueByKey k f st) as = (rl_items st as)[i := f (rl_items st as ! i)]"
    and "max_rank (rl_SetValueByKey k f st) = max_rank st"
    and "ranking_items (rl_SetValueByKey k f st) = ranking_items st"
proof -
  let ?a = "as ! i"
  have "map_of (key2item st) k = Some ?a"
    using rl_inv_keys(3) [OF sh, of k ?a] i k by (simp add: rl_items_def)
  then have e: "rl_SetValueByKey k f st = st\<lparr>item_store := (item_store st)(?a := f (item_store st ?a))\<rparr>"
    by (simp add: rl_SetValueByKey_def)
  show "max_rank (rl_SetValueByKey k f st) = max_rank st"
    "ranking_items (rl_SetValueByKey k f st) = ranking_items st" by (simp_all add: e)
  show "rl_shape ops (rl_SetValueByKey k f st) as"
    using sh unfolding rl_shape_def e by (auto simp: key)
  have "distinct as" using sh by (simp add: rl_shape_def)
  then show "rl_items (rl_SetValueByKey k f st) as = (rl_items st as)[i := f (rl_items st as ! i)]"
    using i by (auto simp: e rl_items_def list_eq_iff_nth_eq nth_list_update nth_eq_iff_index_eq)
qed

lemma range_nodes_copy:
  assumes "i + length items \<le> length nodes"
  shows "copy_items ops s i (map Some items) nodes n
    = Some (take i nodes @ map s items @ drop (i + length items) nodes, n + int (length items))"
  using assms
proof (induction items arbitrary: i nodes n)
  case (Cons a items)
  then have i: "i < length nodes" by simp
  have "take (Suc i) (nodes[i := s a]) = take i nodes @ [s a]"
    using i by (simp add: take_Suc_conv_app_nth)
  moreover have "drop (Suc (i + length items)) (nodes[i := s a]) = drop (Suc (i + length items)) nodes"
    by simp
  ultimately show ?case using Cons i by (simp add: copy)
qed simp

lemma range_nodes:
  assumes inv: "rl_inv ops st as" and s: "1 \<le> start" "start \<le> max_rank st" "start \<le> int (length as)"
    and n: "0 < num" "num \<le> int (length nodes)"
  defines "out \<equiv> take (nat num) (drop (nat (start - 1)) (rl_items st as))"
  shows "GetRangeNodes ops start num nodes st = Some (out @ drop (length out) nodes, int (length out))"
proof -
  obtain xs where xs: "sl_inv (ranking_items st) xs as" using inv by (auto simp: rl_inv_def sl_holds_def)
  have len: "rl_len st = int (length as)" using rl_inv_keys(2) [OF rl_inv_shape [OF inv]] by (simp add: rl_len_def)
  define m where "m = (if rl_len st - start + 1 < num then rl_len st - start + 1 else num)"
  have m: "0 < m" "m \<le> num" "m \<le> int (length as) - start + 1" using s n len by (auto simp: m_def)
  let ?it = "take (nat m) (drop (nat (start - 1)) as)"
  have lit: "length ?it = nat m" using m s by (simp add: min_def) linarith
  have "GetByRankRange start m (Some (replicate (nat m) None)) (ranking_items st)
      = Some (True, Some (map Some ?it))"
    using GetByRankRange_correct [OF xs s(1) s(3) m(1), of "replicate (nat m) None"] lit m(1) by simp
  moreover have "nat m \<le> length nodes" using m n by simp
  ultimately have "GetRangeNodes ops start num nodes st
      = Some (map (item_store st) ?it @ drop (length ?it) nodes, int (length ?it))"
    using s len m range_nodes_copy [of 0 ?it nodes "item_store st" 0] lit
    unfolding GetRangeNodes_def Let_def m_def [symmetric] by simp
  moreover have "out = map (item_store st) ?it"
  proof -
    have "nat m = min (nat num) (length as - nat (start - 1))" using s n len by (auto simp: m_def)
    then have "take (nat num) (drop (nat (start - 1)) as) = ?it"
      by (metis length_drop min.commute take_all_iff linear min_def)
    then show ?thesis unfolding out_def rl_items_def by (simp add: take_map drop_map)
  qed
  ultimately show ?thesis by simp
qed

text \<open>\<open>Delete\<close> leaves the key in the map: from then on \<open>Update\<close> of that key fails.\<close>

lemma update_after_delete:
  assumes inv: "rl_inv ops st as" and k: "x \<in> set (rl_items st as)"
  shows "\<exists>st'. rl_Delete ops (rn_GetKey ops x) st = Some (True, st')
    \<and> (\<forall>pick rs y. rn_GetKey ops y = rn_GetKey ops x \<longrightarrow> (\<exists>st''. rl_Update ops pick rs y st' = Some (False, st'', rs)))
    \<and> rl_GetLength st' = GetLastRank st' - 1"
proof -
  let ?s = "item_store st" and ?key = "rn_GetKey ops x"
  obtain a where a: "a \<in> set as" "?s a = x" using k by (auto simp: rl_items_def)
  then have ka: "map_of (key2item st) ?key = Some a" using rl_inv_keys(3) [OF rl_inv_shape [OF inv]] by blast
  let ?L = "filter (\<lambda>b. b \<noteq> a) as"
  obtain sl where del: "rl_delete ops ?key True st
      = Some (True, st\<lparr>ranking_items := sl, items_pool := items_pool st @ [a]\<rparr>)" "sl_holds sl ?L"
    using delete_member [OF inv ka, of True] by auto
  let ?st = "st\<lparr>ranking_items := sl, items_pool := items_pool st @ [a]\<rparr>"
  have dL: "descending (rl_gt ops ?s) ?L"
    using inv unfolding rl_inv_def descending_def by (blast intro: sorted_wrt_filter)
  have none: "drop_value (rl_gt ops ?s) (rl_keq ops ?s) a ?L = ?L"
  proof -
    have "\<not> rl_keq ops ?s b a" if "b \<in> set ?L" for b
      using that rl_inv_keys(1) [OF rl_inv_shape [OF inv]] a(1) by (auto simp: rl_keq_def key_keq distinct_map inj_on_def)
    moreover have "y \<in> set ?L" if "dropWhile (\<lambda>x. rl_gt ops ?s x a) ?L = y # ys" for y ys
      using that set_dropWhileD [of y "\<lambda>x. rl_gt ops ?s x a" ?L] by (metis list.set_intros(1))
    ultimately have hd: "\<not> rl_keq ops ?s y a" if "dropWhile (\<lambda>x. rl_gt ops ?s x a) ?L = y # ys" for y ys
      using that by blast
    show ?thesis unfolding drop_value_def
    proof (cases "dropWhile (\<lambda>x. rl_gt ops ?s x a) ?L")
      case (Cons y ys)
      show "(case dropWhile (\<lambda>x. rl_gt ops ?s x a) ?L of [] \<Rightarrow> ?L
        | y # ys \<Rightarrow> if rl_keq ops ?s y a then takeWhile (\<lambda>x. rl_gt ops ?s x a) ?L @ ys else ?L) = ?L"
        unfolding Cons using hd [OF Cons] by simp
    qed (simp only: list.case)
  qed
  then obtain sl' where fail: "Skiplist_Delete (rl_gt ops ?s) (rl_keq ops ?s) a sl = Some (False, sl')"
    using stored.delete_holds [OF del(2) dL, of "rl_keq ops ?s" a] by auto
  have upd: "\<exists>st''. rl_Update ops pick rs y ?st = Some (False, st'', rs)"
    if "rn_GetKey ops y = ?key" for pick rs y
    using that ka fail by (simp add: rl_Update_def rl_delete_def)
  have "distinct as" using inv by (simp add: rl_inv_def)
  moreover have "?L = removeAll a as" unfolding removeAll_filter_not_eq by (rule filter_cong) auto
  ultimately have "Suc (length ?L) = length as"
    using distinct_remove1_removeAll [of as a] a(1) length_remove1 [of a as] length_pos_if_in_set [OF a(1)]
    by simp
  then have "rl_GetLength ?st = GetLastRank ?st - 1"
    using holds_length [OF del(2)] rl_inv_keys(2) [OF rl_inv_shape [OF inv]]
    by (simp add: rl_GetLength_def GetLastRank_def rl_len_def)
  then show ?thesis using del(1) upd by (intro exI [of _ ?st]) (auto simp: rl_Delete_def)
qed

end

end
