(* ===== verification/Rank_List.thy ===== *)
theory Rank_List
  imports Ranklist_Correct
begin

text \<open>
  The server's rankings, \<open>hall_server/rank_list.go\<close>: \<open>RankList\<close> (one common ranking list) and
  \<open>RankListManager\<close>, which finds the list of a rank type. The root item of a type, which fixes the
  item methods, is its \<open>rank_node\<close>; \<open>root_rank_item\<close> is the list of these by type. A list that
  was never initialised is a \<open>RankList\<close> whose \<open>rank_list\<close> is nil, and any operation on it panics.
  The lists' own \<open>item_pool\<close> only ever hands out new items, since nothing is put back.
\<close>

definition RANK_LIST_TYPE_ARENA :: int where "RANK_LIST_TYPE_ARENA = 1"
definition RANK_LIST_TYPE_MAX :: nat where "RANK_LIST_TYPE_MAX = 10"
definition ARENA_RANK_MAX :: int where "ARENA_RANK_MAX = 100000"

section \<open>RankList\<close>

record ('i, 'k) RankList =
  rank_list :: "('i, 'k) CommonRankingList option"

definition RankList_Init :: "('i, 'k, 'w) rank_node \<Rightarrow> ('i, 'k) RankList" where
  "RankList_Init root = \<lparr>rank_list = Some (NewCommonRankingList root ARENA_RANK_MAX)\<rparr>"

definition GetItemByKey :: "('i, 'k, 'w) rank_node \<Rightarrow> nat option \<Rightarrow> 'k \<Rightarrow> ('i, 'k) RankList
    \<Rightarrow> ('i option \<times> ('i, 'k) RankList) option" where
  "GetItemByKey ops pick key rl = do {
     st \<leftarrow> rank_list rl;
     let (b, st) = rl_GetByKey ops pick key st;
     Some (map_option (item_store st) b, rl\<lparr>rank_list := Some st\<rparr>) }"

definition GetRankByKey :: "('i, 'k, 'w) rank_node \<Rightarrow> 'k \<Rightarrow> ('i, 'k) RankList \<Rightarrow> int option" where
  "GetRankByKey ops key rl = do { st \<leftarrow> rank_list rl; rl_GetRank ops key st }"

definition GetItemByRank :: "('i, 'k, 'w) rank_node \<Rightarrow> nat option \<Rightarrow> int \<Rightarrow> ('i, 'k) RankList
    \<Rightarrow> ('i option \<times> ('i, 'k) RankList) option" where
  "GetItemByRank ops pick rank rl = do {
     st \<leftarrow> rank_list rl;
     (b, st) \<leftarrow> rl_GetByRank ops pick rank st;
     Some (map_option (item_store st) b, rl\<lparr>rank_list := Some st\<rparr>) }"

definition SetValueByKey :: "'k \<Rightarrow> ('i \<Rightarrow> 'i) \<Rightarrow> ('i, 'k) RankList \<Rightarrow> ('i, 'k) RankList option" where
  "SetValueByKey key SetValue rl = do {
     st \<leftarrow> rank_list rl;
     Some (rl\<lparr>rank_list := Some (rl_SetValueByKey key SetValue st)\<rparr>) }"

definition RankNum :: "('i, 'k) RankList \<Rightarrow> int option" where
  "RankNum rl = do { st \<leftarrow> rank_list rl; Some (rl_GetLength st) }"

text \<open>The items of a range of ranks, with the rank and the value of \<open>key\<close>; \<open>(None, 0, None)\<close> is
  the nil answer.\<close>

definition GetItemsByRange :: "('i, 'k, 'w) rank_node \<Rightarrow> 'k \<Rightarrow> int \<Rightarrow> int \<Rightarrow> ('i, 'k) RankList
    \<Rightarrow> ('i list option \<times> int \<times> 'w option) option" where
  "GetItemsByRange ops key start_rank rank_num rl = do {
     st \<leftarrow> rank_list rl;
     let (start_rank, rank_num) = GetRankRange start_rank rank_num st;
     (if start_rank = 0 then Some (None, 0, None)
      else if rank_num < 0 then None
      else do {
        (nodes, num) \<leftarrow> GetRangeNodes ops start_rank rank_num (replicate (nat rank_num) (rn_New ops)) st;
        (if num = 0 then Some (None, 0, None)
         else do {
           (self_rank, self_value) \<leftarrow> GetRankAndValue ops key st;
           Some (Some (take (nat num) nodes), self_rank, self_value) }) }) }"

definition RankList_GetLastRankRange :: "int \<Rightarrow> ('i, 'k) RankList \<Rightarrow> (int \<times> int) option" where
  "RankList_GetLastRankRange rank_num rl = do { st \<leftarrow> rank_list rl; Some (GetLastRankRange rank_num st) }"

definition UpdateItem :: "('i, 'k, 'w) rank_node \<Rightarrow> nat option \<Rightarrow> int list \<Rightarrow> 'i \<Rightarrow> ('i, 'k) RankList
    \<Rightarrow> (bool \<times> ('i, 'k) RankList \<times> int list) option" where
  "UpdateItem ops pick rs item rl = do {
     st \<leftarrow> rank_list rl;
     (b, st, rs) \<leftarrow> rl_Update ops pick rs item st;
     Some (b, rl\<lparr>rank_list := Some st\<rparr>, rs) }"

text \<open>\<open>DeleteItem\<close> calls itself with the same receiver and key.\<close>

partial_function (option) DeleteItem :: "'k \<Rightarrow> ('i, 'k) RankList \<Rightarrow> bool option" where
  "DeleteItem key rl = DeleteItem key rl"

section \<open>RankListManager\<close>

record ('i, 'k) RankListManager =
  rank_lists :: "('i, 'k) RankList option list"
  rank_map :: "int \<Rightarrow> ('i, 'k) RankList option"

definition RankListManager_Init :: "('i, 'k, 'w) rank_node option list \<Rightarrow> ('i, 'k) RankListManager" where
  "RankListManager_Init root_rank_item = \<lparr>
     rank_lists = map (\<lambda>i. if 1 \<le> i \<and> i < length root_rank_item
                            then map_option RankList_Init (root_rank_item ! i) else None)
                      [0..<RANK_LIST_TYPE_MAX],
     rank_map = (\<lambda>_. None)\<rparr>"

text \<open>The list of a type: \<open>None\<close> is the index panic of a negative type, \<open>Some None\<close> no such list.\<close>

definition GetRankList :: "int \<Rightarrow> ('i, 'k) RankListManager \<Rightarrow> ('i, 'k) RankList option option" where
  "GetRankList rank_type m =
     (if rank_type \<ge> int (length (rank_lists m)) then Some None
      else if rank_type < 0 then None
      else Some (rank_lists m ! nat rank_type))"

definition put_list :: "int \<Rightarrow> ('i, 'k) RankList \<Rightarrow> ('i, 'k) RankListManager \<Rightarrow> ('i, 'k) RankListManager" where
  "put_list rank_type rl m = m\<lparr>rank_lists := (rank_lists m)[nat rank_type := Some rl]\<rparr>"

definition mgr_GetItemByKey :: "('i, 'k, 'w) rank_node \<Rightarrow> nat option \<Rightarrow> int \<Rightarrow> 'k
    \<Rightarrow> ('i, 'k) RankListManager \<Rightarrow> ('i option \<times> ('i, 'k) RankListManager) option" where
  "mgr_GetItemByKey ops pick rank_type key m = do {
     l \<leftarrow> GetRankList rank_type m;
     (case l of None \<Rightarrow> Some (None, m)
      | Some rl \<Rightarrow> do { (x, rl) \<leftarrow> GetItemByKey ops pick key rl; Some (x, put_list rank_type rl m) }) }"

definition mgr_GetRankByKey :: "('i, 'k, 'w) rank_node \<Rightarrow> int \<Rightarrow> 'k \<Rightarrow> ('i, 'k) RankListManager
    \<Rightarrow> int option" where
  "mgr_GetRankByKey ops rank_type key m = do {
     l \<leftarrow> GetRankList rank_type m;
     (case l of None \<Rightarrow> Some (- 1) | Some rl \<Rightarrow> GetRankByKey ops key rl) }"

definition mgr_GetItemByRank :: "('i, 'k, 'w) rank_node \<Rightarrow> nat option \<Rightarrow> int \<Rightarrow> int
    \<Rightarrow> ('i, 'k) RankListManager \<Rightarrow> ('i option \<times> ('i, 'k) RankListManager) option" where
  "mgr_GetItemByRank ops pick rank_type rank m = do {
     l \<leftarrow> GetRankList rank_type m;
     (case l of None \<Rightarrow> Some (None, m)
      | Some rl \<Rightarrow> do { (x, rl) \<leftarrow> GetItemByRank ops pick rank rl; Some (x, put_list rank_type rl m) }) }"

definition mgr_GetItemsByRange :: "('i, 'k, 'w) rank_node \<Rightarrow> int \<Rightarrow> 'k \<Rightarrow> int \<Rightarrow> int
    \<Rightarrow> ('i, 'k) RankListManager \<Rightarrow> ('i list option \<times> int \<times> 'w option) option" where
  "mgr_GetItemsByRange ops rank_type key start_rank rank_num m = do {
     l \<leftarrow> GetRankList rank_type m;
     (case l of None \<Rightarrow> Some (None, 0, None)
      | Some rl \<Rightarrow> GetItemsByRange ops key start_rank rank_num rl) }"

definition mgr_GetLastRankRange :: "int \<Rightarrow> int \<Rightarrow> ('i, 'k) RankListManager \<Rightarrow> (int \<times> int) option" where
  "mgr_GetLastRankRange rank_type rank_num m = do {
     l \<leftarrow> GetRankList rank_type m;
     (case l of None \<Rightarrow> Some (- 1, - 1) | Some rl \<Rightarrow> RankList_GetLastRankRange rank_num rl) }"

definition mgr_UpdateItem :: "('i, 'k, 'w) rank_node \<Rightarrow> nat option \<Rightarrow> int list \<Rightarrow> int \<Rightarrow> 'i
    \<Rightarrow> ('i, 'k) RankListManager \<Rightarrow> (bool \<times> ('i, 'k) RankListManager \<times> int list) option" where
  "mgr_UpdateItem ops pick rs rank_type item m = do {
     l \<leftarrow> GetRankList rank_type m;
     (case l of None \<Rightarrow> Some (False, m, rs)
      | Some rl \<Rightarrow> do {
          (b, rl, rs) \<leftarrow> UpdateItem ops pick rs item rl;
          Some (b, put_list rank_type rl m, rs) }) }"

definition mgr_DeleteItem :: "int \<Rightarrow> 'k \<Rightarrow> ('i, 'k) RankListManager \<Rightarrow> bool option" where
  "mgr_DeleteItem rank_type key m = do {
     l \<leftarrow> GetRankList rank_type m;
     (case l of None \<Rightarrow> Some False | Some rl \<Rightarrow> DeleteItem key rl) }"

text \<open>The second family keeps its lists in a map and creates a missing one without \<open>Init\<close>.\<close>

definition GetRankList2 :: "int \<Rightarrow> ('i, 'k) RankListManager
    \<Rightarrow> ('i, 'k) RankList \<times> ('i, 'k) RankListManager" where
  "GetRankList2 rank_type m = (case rank_map m rank_type of
       Some rl \<Rightarrow> (rl, m)
     | None \<Rightarrow> (\<lparr>rank_list = None\<rparr>, m\<lparr>rank_map := (rank_map m)(rank_type \<mapsto> \<lparr>rank_list = None\<rparr>)\<rparr>))"

definition GetRankByKey2 :: "('i, 'k, 'w) rank_node \<Rightarrow> int \<Rightarrow> 'k \<Rightarrow> ('i, 'k) RankListManager
    \<Rightarrow> (int \<times> ('i, 'k) RankListManager) option" where
  "GetRankByKey2 ops rank_type key m = (let (rl, m) = GetRankList2 rank_type m in
     do { r \<leftarrow> GetRankByKey ops key rl; Some (r, m) })"

definition UpdateItem2 :: "('i, 'k, 'w) rank_node \<Rightarrow> nat option \<Rightarrow> int list \<Rightarrow> int \<Rightarrow> 'i
    \<Rightarrow> ('i, 'k) RankListManager \<Rightarrow> (bool \<times> ('i, 'k) RankListManager \<times> int list) option" where
  "UpdateItem2 ops pick rs rank_type item m = (let (rl, m) = GetRankList2 rank_type m in
     do { (b, rl, rs) \<leftarrow> UpdateItem ops pick rs item rl;
          Some (b, m\<lparr>rank_map := (rank_map m)(rank_type \<mapsto> rl)\<rparr>, rs) })"

section \<open>Contracts\<close>

definition rank_holds :: "('i, 'k, 'w) rank_node \<Rightarrow> ('i, 'k) RankList \<Rightarrow> 'i list \<Rightarrow> bool" where
  "rank_holds ops rl L \<longleftrightarrow>
     (\<exists>st as. rank_list rl = Some st \<and> rl_inv ops st as \<and> rl_items st as = L \<and> max_rank st = ARENA_RANK_MAX)"

lemma rank_holds_init: "rank_holds ops (RankList_Init ops) []"
  using rl_inv_new [of ops ARENA_RANK_MAX]
  by (force simp: rank_holds_def RankList_Init_def rl_items_def NewCommonRankingList_def)

context rank_node_laws
begin

lemma update_item:
  assumes "rank_holds ops rl L" and "random_skiplist_layer rs = Some (nl, rs')"
  shows "\<exists>rl'. UpdateItem ops pick rs x rl = Some (True, rl', rs') \<and> rank_holds ops rl' (rank_put ops x L)"
proof -
  obtain st as where st: "rank_list rl = Some st" "rl_inv ops st as" "rl_items st as = L" "max_rank st = ARENA_RANK_MAX"
    using assms(1) by (auto simp: rank_holds_def)
  from Update_correct [OF st(2) assms(2), of pick x] st show ?thesis
    by (fastforce simp: UpdateItem_def rank_holds_def)
qed

lemma rank_by_key:
  assumes "rank_holds ops rl L"
  shows "i < length L \<Longrightarrow> GetRankByKey ops (rn_GetKey ops (L ! i)) rl = Some (int i + 1)"
    and "\<forall>y \<in> set L. rn_GetKey ops y \<noteq> k \<Longrightarrow> GetRankByKey ops k rl = Some 0"
proof -
  obtain st as where st: "rank_list rl = Some st" "rl_inv ops st as" "rl_items st as = L"
    using assms(1) by (auto simp: rank_holds_def)
  have "length as = length L" "\<And>i. i < length L \<Longrightarrow> item_store st (as ! i) = L ! i"
    using st(3) by (auto simp: rl_items_def)
  then show "i < length L \<Longrightarrow> GetRankByKey ops (rn_GetKey ops (L ! i)) rl = Some (int i + 1)"
    using member_rank [OF st(2), of i] st(1) by (simp add: GetRankByKey_def)
  show "\<forall>y \<in> set L. rn_GetKey ops y \<noteq> k \<Longrightarrow> GetRankByKey ops k rl = Some 0"
    using absent_rank [OF st(2), of k] st(1,3) by (simp add: GetRankByKey_def)
qed

lemma item_by_rank:
  assumes "rank_holds ops rl L" and "1 \<le> rk" "rk \<le> int (length L)"
  shows "\<exists>rl'. GetItemByRank ops pick rk rl = Some (Some (L ! nat (rk - 1)), rl') \<and> rank_holds ops rl' L"
proof -
  obtain st as where st: "rank_list rl = Some st" "rl_inv ops st as" "rl_items st as = L" "max_rank st = ARENA_RANK_MAX"
    using assms(1) by (auto simp: rank_holds_def)
  have "length as = length L" using st(3) by (auto simp: rl_items_def)
  then obtain b st' where "rl_GetByRank ops pick rk st = Some (Some b, st')"
      "item_store st' b = L ! nat (rk - 1)" "rl_inv ops st' as" "rl_items st' as = L" "max_rank st' = max_rank st"
    using by_rank [OF st(2) assms(2), of pick] assms(3) st(3) by auto
  then show ?thesis using st(1,4) by (auto simp: GetItemByRank_def rank_holds_def)
qed

lemma item_by_any_rank:
  assumes "rank_holds ops rl L"
  shows "\<exists>rl'. GetItemByRank ops pick rk rl
      = Some (if 1 \<le> rk \<and> rk \<le> int (length L) then Some (L ! nat (rk - 1)) else None, rl')
    \<and> rank_holds ops rl' L"
proof (cases "1 \<le> rk \<and> rk \<le> int (length L)")
  case True
  then show ?thesis using item_by_rank [OF assms, of rk pick] by simp
next
  case False
  obtain st as where st: "rank_list rl = Some st" "rl_inv ops st as" "rl_items st as = L"
    using assms by (auto simp: rank_holds_def)
  obtain xs where "sl_inv (ranking_items st) xs as" using st(2) by (auto simp: rl_inv_def sl_holds_def)
  moreover have "length as = length L" using st(3) by (auto simp: rl_items_def)
  ultimately have "GetByRank rk (ranking_items st) = Some None" using False by (subst GetByRank_correct) auto
  then have "GetItemByRank ops pick rk rl = Some (None, rl)"
    using st(1) by (simp add: GetItemByRank_def rl_GetByRank_def)
  then show ?thesis using False assms by auto
qed

lemma last_rank_range:
  assumes "rank_holds ops rl L" and "L \<noteq> []" and "0 \<le> num" and "int (length L) < max_int32"
  shows "RankList_GetLastRankRange num rl
    = Some (int (length L) - min num (int (length L)) + 1, min num (int (length L)))"
proof -
  obtain st as where st: "rank_list rl = Some st" "rl_inv ops st as" "rl_items st as = L"
    using assms(1) by (auto simp: rank_holds_def)
  have "rl_len st = int (length L)"
    using rl_inv_keys(2) [OF rl_inv_shape [OF st(2)]] st(3) by (auto simp: rl_len_def rl_items_def)
  then show ?thesis
    using st(1) assms(2-4) by (simp add: RankList_GetLastRankRange_def GetLastRankRange_def Let_def min_def)
qed

lemma holds_sorted:
  assumes "rank_holds ops rl L"
  shows "descending (rn_Greater ops) L" and "distinct (map (rn_GetKey ops) L)"
proof -
  obtain st as where st: "rl_inv ops st as" "rl_items st as = L" using assms by (auto simp: rank_holds_def)
  show "descending (rn_Greater ops) L"
    using st unfolding rl_inv_def rl_items_def descending_def rl_gt_def by (auto simp: sorted_wrt_map)
  show "distinct (map (rn_GetKey ops) L)"
    using rl_inv_keys(1) [OF rl_inv_shape [OF st(1)]] st(2) by (auto simp: rl_items_def comp_def)
qed

lemma items_by_range:
  assumes h: "rank_holds ops rl L" and s: "1 \<le> start" "start \<le> ARENA_RANK_MAX" "start \<le> int (length L)"
    and n: "0 < num" "num \<le> max_int32" and len: "int (length L) \<le> max_int32"
  shows "\<exists>sr sv. GetItemsByRange ops key start num rl
      = Some (Some (take (nat num) (drop (nat (start - 1)) L)), sr, sv)
    \<and> (sr = 0 \<and> sv = None \<and> key \<notin> rn_GetKey ops ` set L \<or>
       (\<exists>i < length L. rn_GetKey ops (L ! i) = key \<and> sr = int i + 1 \<and> sv = Some (rn_GetValue ops (L ! i))))"
proof -
  obtain st as where st: "rank_list rl = Some st" "rl_inv ops st as" "rl_items st as = L" "max_rank st = ARENA_RANK_MAX"
    using h by (auto simp: rank_holds_def)
  have la: "length as = length L" using st(3) by (auto simp: rl_items_def)
  have l: "rl_len st = int (length L)" using rl_inv_keys(2) [OF rl_inv_shape [OF st(2)]] la by (simp add: rl_len_def)
  define m where "m = (if int (length L) - start + 1 < num then int (length L) - start + 1 else num)"
  have m: "0 < m" "m \<le> num" using s n by (auto simp: m_def)
  have wrap: "i32 (int (length L) - start + 1) = int (length L) - start + 1" using s len by (intro i32_id) auto
  have r: "GetRankRange start num st = (start, m)"
    using s l by (cases "L = []") (simp_all add: GetRankRange_def Let_def m_def wrap)
  let ?out = "take (nat m) (drop (nat (start - 1)) L)"
  have lo: "length ?out = nat m" using m s by (auto simp: m_def)
  have nodes: "GetRangeNodes ops start m (replicate (nat m) (rn_New ops)) st = Some (?out, int (nat m))"
  proof -
    have "start \<le> max_rank st" "start \<le> int (length as)" "m \<le> int (length (replicate (nat m) (rn_New ops)))"
      using s st(4) la m(1) by simp_all
    from range_nodes [OF st(2) s(1) this(1,2) m(1) this(3), unfolded st(3) lo] show ?thesis by simp
  qed
  have out: "?out = take (nat num) (drop (nat (start - 1)) L)"
  proof (cases "int (length L) - start + 1 < num")
    case True
    then have "nat m = length (drop (nat (start - 1)) L)" "length (drop (nat (start - 1)) L) \<le> nat num"
      using s by (auto simp: m_def)
    then show ?thesis by simp
  qed (simp add: m_def)
  obtain sr sv where self: "GetRankAndValue ops key st = Some (sr, sv)"
      "sr = 0 \<and> sv = None \<and> key \<notin> rn_GetKey ops ` set L \<or>
       (\<exists>i < length L. rn_GetKey ops (L ! i) = key \<and> sr = int i + 1 \<and> sv = Some (rn_GetValue ops (L ! i)))"
  proof (cases "map_of (key2item st) key")
    case None
    have "rn_GetKey ops (item_store st a) \<noteq> key" if "a \<in> set as" for a
      using rl_inv_keys(3) [OF rl_inv_shape [OF st(2)], of key a] that None by simp
    then have k: "key \<notin> rn_GetKey ops ` set L" unfolding st(3) [symmetric] rl_items_def by auto
    show ?thesis by (rule that [of 0 None]) (use None k in \<open>simp_all add: GetRankAndValue_def\<close>)
  next
    case (Some a)
    have a: "a \<in> set as" "rn_GetKey ops (item_store st a) = key"
      using rl_inv_keys(3) [OF rl_inv_shape [OF st(2)], of key a] Some by simp_all
    then obtain i where i: "i < length L" "a = as ! i" using la by (metis in_set_conv_nth)
    have e: "item_store st a = L ! i" unfolding st(3) [symmetric] rl_items_def using i la by simp
    have "rl_GetRank ops key st = Some (int i + 1)"
      using member_rank [OF st(2), of i] i la a(2) by simp
    then have "GetRankAndValue ops key st = Some (int i + 1, Some (rn_GetValue ops (L ! i)))"
      using Some e by (simp add: GetRankAndValue_def rl_GetRank_def)
    then show ?thesis by (rule that) (use i a(2) e in auto)
  qed
  have "start \<noteq> 0" "\<not> m < 0" using s m by auto
  moreover have "int (nat m) \<noteq> 0" "take (nat (int (nat m))) ?out = ?out" using m(1) by simp_all
  ultimately have "GetItemsByRange ops key start num rl = Some (Some ?out, sr, sv)"
    unfolding GetItemsByRange_def st(1) bind.bind_lunit r Let_def split nodes self(1) by (simp only: if_False bind.bind_lunit prod.case)
  then show ?thesis using self(2) unfolding out by blast
qed

end

end
