(* ===== verification/Hall_Utils.thy ===== *)
theory Hall_Utils
  imports Prelude "HOL-Library.Multiset"
begin

text \<open>
  The helpers of \<open>hall_server/utils.go\<close>. A call of \<open>rand.Int31n(n)\<close> is the argument \<open>draw\<close>
  applied to \<open>n\<close> (it panics for \<open>n \<le> 0\<close>); a clock reading is an argument. \<open>int\<close> is 64 bits wide.
\<close>

section \<open>Powers\<close>

fun power_loop :: "int \<Rightarrow> nat \<Rightarrow> int \<Rightarrow> int" where
  "power_loop num 0 val = val"
| "power_loop num (Suc k) val = power_loop num k (i64 (val * num))"

definition power_n :: "int \<Rightarrow> int \<Rightarrow> int" where
  "power_n num pw = (if pw = 0 then 1 else power_loop num (nat (pw - 1)) num)"

lemma i64_mult_left: "i64 (i64 a * b) = i64 (a * b)"
proof -
  have "(i64 a * b + 9223372036854775808) mod 18446744073709551616
      = (a * b + 9223372036854775808) mod 18446744073709551616"
  proof (rule mod_add_cong [OF _ refl], rule mod_mult_cong [OF _ refl])
    show "i64 a mod 18446744073709551616 = a mod 18446744073709551616"
      unfolding i64_def by (simp add: mod_diff_left_eq)
  qed
  then show ?thesis unfolding i64_def by simp
qed

lemma power_loop_power: "i64 (power_loop num k val) = i64 (val * num ^ k)"
proof (induction k arbitrary: val)
  case (Suc k)
  have "i64 (power_loop num (Suc k) val) = i64 (i64 (val * num) * num ^ k)" using Suc by simp
  also have "\<dots> = i64 (val * num ^ Suc k)" by (simp add: i64_mult_left mult.assoc)
  finally show ?case .
qed simp

section \<open>Random choices\<close>

definition draw_Int31n :: "(int \<Rightarrow> int) \<Rightarrow> int \<Rightarrow> int option" where
  "draw_Int31n draw n = (if n \<le> 0 then None else Some (draw n))"

definition rand31n_from_range :: "(int \<Rightarrow> int) \<Rightarrow> int \<Rightarrow> int \<Rightarrow> (bool \<times> int) option" where
  "rand31n_from_range draw mn mx =
     (if mn > mx then Some (False, 0)
      else if mn = mx then Some (True, mn)
      else do { r \<leftarrow> draw_Int31n draw (i32 (mx - mn + 1)); Some (True, i32 (r + mn)) })"

text \<open>What the documentation of \<open>math/rand\<close> promises of \<open>Int31n\<close>.\<close>

definition good_draw :: "(int \<Rightarrow> int) \<Rightarrow> bool" where
  "good_draw draw \<longleftrightarrow> (\<forall>n > 0. 0 \<le> draw n \<and> draw n < n)"

lemma rand31n_in_range:
  assumes "good_draw draw" and "is_i32 mn" "is_i32 mx" and "mn \<le> mx" "mx - mn < max_int32"
  shows "\<exists>r. rand31n_from_range draw mn mx = Some (True, r) \<and> mn \<le> r \<and> r \<le> mx"
proof (cases "mn = mx")
  case False
  then have n: "0 < mx - mn + 1" "i32 (mx - mn + 1) = mx - mn + 1"
    using assms(4,5) by (auto intro: i32_id)
  then have "0 \<le> draw (mx - mn + 1) \<and> draw (mx - mn + 1) < mx - mn + 1"
    using assms(1) by (simp only: good_draw_def)
  moreover from this have "i32 (draw (mx - mn + 1) + mn) = draw (mx - mn + 1) + mn"
    using assms(2,3) by (intro i32_id) (auto simp: is_i32_def)
  ultimately show ?thesis using False n assms(4) by (auto simp: rand31n_from_range_def draw_Int31n_def)
qed (use assms in \<open>simp add: rand31n_from_range_def\<close>)

text \<open>The scan for an element not yet taken, and \<open>randn_different\<close>: the draws come from a list.\<close>

fun next_free :: "int list \<Rightarrow> int list \<Rightarrow> nat \<Rightarrow> nat \<Rightarrow> nat" where
  "next_free array nums 0 r = r"
| "next_free array nums (Suc n) r =
     (if array ! r \<in> set nums then next_free array nums n ((r + 1) mod length array) else r)"

fun rand_take :: "int list \<Rightarrow> nat list \<Rightarrow> int list \<Rightarrow> int list" where
  "rand_take array [] nums = nums"
| "rand_take array (r # rs) nums =
     rand_take array rs (nums @ [array ! next_free array nums (length array) r])"

text \<open>\<open>rs\<close> are the \<open>n\<close> values drawn, each below the length of the array.\<close>

definition randn_different :: "int list \<Rightarrow> nat list \<Rightarrow> int list option" where
  "randn_different array rs =
     (if length rs > length array then Some []
      else if \<exists>r \<in> set rs. length array \<le> r then None
      else Some (rand_take array rs []))"

lemma mod_length: "r < length array \<Longrightarrow> k mod length array < length array"
  by (rule mod_less_divisor) linarith

lemma next_free_lt: "r < length array \<Longrightarrow> next_free array nums n r < length array"
  by (induction array nums n r rule: next_free.induct) (auto simp: mod_length)

lemma next_free_index:
  assumes "r < length array" and "\<forall>m < k. array ! ((r + m) mod length array) \<in> set nums"
    and "array ! ((r + k) mod length array) \<notin> set nums" and "k < n"
  shows "array ! next_free array nums n r \<notin> set nums"
  using assms
proof (induction array nums n r arbitrary: k rule: next_free.induct)
  case (2 array nums n r)
  show ?case
  proof (cases "array ! r \<in> set nums")
    case True
    then obtain k' where k: "k = Suc k'" using 2(2,4) by (cases k) auto
    let ?r = "(r + 1) mod length array"
    have eq: "(?r + m) mod length array = (r + Suc m) mod length array" for m
      by (simp add: mod_add_left_eq)
    have "array ! next_free array nums n ?r \<notin> set nums"
    proof (rule 2(1) [OF True, of k'])
      show "?r < length array" using 2(2) by (rule mod_length)
      show "\<forall>m < k'. array ! ((?r + m) mod length array) \<in> set nums"
        unfolding eq using 2(3) k by (metis Suc_less_eq)
      show "array ! ((?r + k') mod length array) \<notin> set nums" using 2(4) k unfolding eq by simp
    qed (use 2(5) k in simp)
    then show ?thesis using True by simp
  qed simp
qed simp

text \<open>As long as some element is free the scan finds one.\<close>

lemma next_free_new:
  assumes r: "r < length array" and free: "\<exists>x \<in> set array. x \<notin> set nums"
  shows "array ! next_free array nums (length array) r \<notin> set nums"
proof -
  let ?l = "length array"
  from free obtain j where j: "j < ?l" "array ! j \<notin> set nums" by (auto simp: in_set_conv_nth)
  define m where "m = (if r \<le> j then j - r else ?l - r + j)"
  have m: "m < ?l" "(r + m) mod ?l = j" using j r by (auto simp: m_def)
  define k where "k = (LEAST k. array ! ((r + k) mod ?l) \<notin> set nums)"
  have k: "array ! ((r + k) mod ?l) \<notin> set nums" "k \<le> m"
    using m(2) j(2) LeastI [of "\<lambda>k. array ! ((r + k) mod ?l) \<notin> set nums" m]
      Least_le [of "\<lambda>k. array ! ((r + k) mod ?l) \<notin> set nums" m] by (auto simp: k_def)
  moreover have "\<forall>i < k. array ! ((r + i) mod ?l) \<in> set nums"
    using not_less_Least by (fastforce simp: k_def)
  ultimately show ?thesis using next_free_index [OF r] m(1) by simp
qed

lemma rand_take_distinct:
  assumes "distinct nums" "set nums \<subseteq> set array" "distinct array"
    and "\<forall>r \<in> set rs. r < length array" and "length nums + length rs \<le> length array"
  shows "distinct (rand_take array rs nums) \<and> set (rand_take array rs nums) \<subseteq> set array
    \<and> length (rand_take array rs nums) = length nums + length rs"
  using assms
proof (induction rs arbitrary: nums)
  case (Cons r rs)
  let ?x = "array ! next_free array nums (length array) r"
  have r: "r < length array" using Cons.prems by simp
  have "card (set nums) < card (set array)"
    using Cons.prems(1,3,5) by (simp add: distinct_card)
  then have "\<exists>x \<in> set array. x \<notin> set nums" by (metis List.finite_set card_mono leD subsetI)
  then have new: "?x \<notin> set nums" by (rule next_free_new [OF r])
  have mem: "?x \<in> set array" using next_free_lt [OF r] by simp
  have "distinct (rand_take array rs (nums @ [?x])) \<and> set (rand_take array rs (nums @ [?x])) \<subseteq> set array
    \<and> length (rand_take array rs (nums @ [?x])) = length (nums @ [?x]) + length rs"
    by (rule Cons.IH) (use Cons.prems new mem in auto)
  then show ?case by simp
qed simp

section \<open>Time left\<close>

definition GetRemainSeconds :: "int \<Rightarrow> int \<Rightarrow> int \<Rightarrow> int" where
  "GetRemainSeconds now start_time duration =
     (if duration \<le> i32 (i32 now - start_time) then 0
      else i32 (duration - i32 (i32 now - start_time)))"

section \<open>Players of this server first\<close>

text \<open>The two scans of \<open>SplitLocalAndRemotePlayers\<close>; \<open>local\<close> says whether \<open>GetPlayerById\<close> finds the
  player here.\<close>

function scan_down :: "(int \<Rightarrow> bool) \<Rightarrow> int list \<Rightarrow> int \<Rightarrow> int \<Rightarrow> int" where
  "scan_down loc xs i j = (if j \<le> i \<and> \<not> loc (xs ! nat i) then scan_down loc xs (i - 1) j else i)"
  by auto
termination by (relation "measure (\<lambda>(loc, xs, i, j). nat (i - j + 1))") auto

function scan_up :: "(int \<Rightarrow> bool) \<Rightarrow> int list \<Rightarrow> int \<Rightarrow> int \<Rightarrow> int" where
  "scan_up loc xs j i = (if j \<le> i \<and> loc (xs ! nat j) then scan_up loc xs (j + 1) i else j)"
  by auto
termination by (relation "measure (\<lambda>(loc, xs, j, i). nat (i - j + 1))") auto

declare scan_down.simps [simp del] scan_up.simps [simp del]

definition swap_at :: "int list \<Rightarrow> int \<Rightarrow> int \<Rightarrow> int list" where
  "swap_at xs i j = (xs[nat i := xs ! nat j])[nat j := xs ! nat i]"

lemma scan_down_spec:
  assumes "j - 1 \<le> i"
  shows "j - 1 \<le> scan_down loc xs i j \<and> scan_down loc xs i j \<le> i
    \<and> (\<forall>k. scan_down loc xs i j < k \<and> k \<le> i \<longrightarrow> \<not> loc (xs ! nat k))
    \<and> (j \<le> scan_down loc xs i j \<longrightarrow> loc (xs ! nat (scan_down loc xs i j)))"
  using assms
proof (induction loc xs i j rule: scan_down.induct)
  case (1 loc xs i j)
  show ?case
  proof (cases "j \<le> i \<and> \<not> loc (xs ! nat i)")
    case True
    then have e: "scan_down loc xs i j = scan_down loc xs (i - 1) j" by (subst scan_down.simps) simp
    show ?thesis unfolding e using 1(1) [OF True] True
      by (smt (verit, ccfv_SIG))
  next
    case False
    then have "scan_down loc xs i j = i" by (subst scan_down.simps) (simp only: if_False)
    then show ?thesis using False 1(2) by auto
  qed
qed

lemma scan_up_spec:
  assumes "j \<le> i + 1"
  shows "j \<le> scan_up loc xs j i \<and> scan_up loc xs j i \<le> i + 1
    \<and> (\<forall>k. j \<le> k \<and> k < scan_up loc xs j i \<longrightarrow> loc (xs ! nat k))
    \<and> (scan_up loc xs j i \<le> i \<longrightarrow> \<not> loc (xs ! nat (scan_up loc xs j i)))"
  using assms
proof (induction loc xs j i rule: scan_up.induct)
  case (1 loc xs j i)
  show ?case
  proof (cases "j \<le> i \<and> loc (xs ! nat j)")
    case True
    then have e: "scan_up loc xs j i = scan_up loc xs (j + 1) i" by (subst scan_up.simps) simp
    show ?thesis unfolding e using 1(1) [OF True] True
      by (smt (verit, ccfv_SIG))
  next
    case False
    then have "scan_up loc xs j i = j" by (subst scan_up.simps) (simp only: if_False)
    then show ?thesis using False 1(2) by auto
  qed
qed

text \<open>The outer loop; indexing outside the slice panics.\<close>

function split_loop :: "(int \<Rightarrow> bool) \<Rightarrow> int list \<Rightarrow> int \<Rightarrow> int \<Rightarrow> bool \<Rightarrow> (int list \<times> int \<times> bool) option" where
  "split_loop loc xs i j found =
     (if j \<le> i then
        (if 0 \<le> j \<and> i < int (length xs) then
           (let i' = scan_down loc xs i j; j' = scan_up loc xs j i' in
            split_loop loc (if i' > j' then swap_at xs i' j' else xs) i' j' (found \<or> j \<le> i'))
         else None)
      else Some (xs, i, found))"
  by auto

lemma swap_nth:
  assumes "0 \<le> j" "j < i" "i < int (length xs)"
  shows "swap_at xs i j ! nat i = xs ! nat j" and "swap_at xs i j ! nat j = xs ! nat i"
    and "k \<noteq> nat i \<Longrightarrow> k \<noteq> nat j \<Longrightarrow> swap_at xs i j ! k = xs ! k"
    and "length (swap_at xs i j) = length xs" and "mset (swap_at xs i j) = mset xs"
  using assms by (auto simp: swap_at_def mset_swap nth_list_update)

text \<open>What one round does to a well-formed state.\<close>

lemma split_round:
  fixes loc :: "int \<Rightarrow> bool"
  assumes "0 \<le> j" "j \<le> i" "i < int (length xs)"
  defines "i' \<equiv> scan_down loc xs i j" defines "j' \<equiv> scan_up loc xs j i'"
  shows "i' = j - 1 \<and> j' = j \<or> j \<le> i' \<and> i' \<le> i \<and> loc (xs ! nat i') \<and> j' = i' + 1
     \<or> j \<le> j' \<and> j' < i' \<and> i' \<le> i \<and> loc (xs ! nat i') \<and> \<not> loc (xs ! nat j')"
proof -
  have d: "j - 1 \<le> i'" "i' \<le> i" "j \<le> i' \<longrightarrow> loc (xs ! nat i')"
    using scan_down_spec [of j i loc xs] assms(2) by (auto simp: i'_def)
  have u: "j \<le> j'" "j' \<le> i' + 1" "j' \<le> i' \<longrightarrow> \<not> loc (xs ! nat j')"
    using scan_up_spec [of j i' loc xs] d(1) by (auto simp: j'_def)
  have "j' \<noteq> i'" if "j \<le> i'" using that d(3) u(3) by auto
  then show ?thesis using d u by (smt (verit))
qed

termination split_loop
proof (relation "measure (\<lambda>(loc, xs, i, j, _). 2 * nat (i - j + 1) + (if loc (xs ! nat i) then 1 else 0))")
  fix loc :: "int \<Rightarrow> bool" and xs i j and found :: bool and i' j'
  assume a: "j \<le> i" "0 \<le> j \<and> i < int (length xs)" and i': "i' = scan_down loc xs i j"
    and j': "j' = scan_up loc xs j i'"
  consider "i' = j - 1" "j' = j" | "j \<le> i'" "j' = i' + 1"
    | "j \<le> j'" "j' < i'" "i' \<le> i" "loc (xs ! nat i')" "\<not> loc (xs ! nat j')"
    using split_round [of j i xs loc] a unfolding i' j' by blast
  then show "((loc, if j' < i' then swap_at xs i' j' else xs, i', j', found \<or> j \<le> i'), loc, xs, i, j, found)
      \<in> measure (\<lambda>(loc, xs, i, j, _). 2 * nat (i - j + 1) + (if loc (xs ! nat i) then 1 else 0))"
  proof cases
    case 3
    then have "swap_at xs i' j' ! nat i' = xs ! nat j'" using swap_nth(1) a by simp
    then show ?thesis using 3 by (cases "i' = i") auto
  qed (use a in auto)
qed simp

declare split_loop.simps [simp del]

definition SplitLocalAndRemotePlayers :: "(int \<Rightarrow> bool) \<Rightarrow> int list \<Rightarrow> (int list \<times> int) option" where
  "SplitLocalAndRemotePlayers loc player_ids =
     (if player_ids = [] then Some (player_ids, 0)
      else do {
        (xs, i, found) \<leftarrow> split_loop loc player_ids (int (length player_ids) - 1) 0 False;
        Some (xs, if \<not> found then - 1 else i) })"

lemma split_loop_spec:
  assumes "0 \<le> j" "j \<le> i + 1" "i < int (length xs)" "0 < j \<longrightarrow> found"
    and "\<forall>k < nat j. loc (xs ! k)" and "\<forall>k < length xs. i < int k \<longrightarrow> \<not> loc (xs ! k)"
  shows "\<exists>ys i' f. split_loop loc xs i j found = Some (ys, i', f) \<and> mset ys = mset xs
    \<and> - 1 \<le> i' \<and> i' < int (length ys) \<and> (\<forall>k < length ys. loc (ys ! k) \<longleftrightarrow> int k \<le> i') \<and> (0 \<le> i' \<longrightarrow> f)"
  using assms
proof (induction loc xs i j found rule: split_loop.induct)
  case (1 loc xs i j found)
  show ?case
  proof (cases "j \<le> i")
    case False
    then have "split_loop loc xs i j found = Some (xs, i, found)" by (subst split_loop.simps) simp
    moreover have "i = j - 1" using False 1(3) by simp
    ultimately show ?thesis using 1(2-7) by (auto simp: not_le)
  next
    case True
    let ?i = "scan_down loc xs i j"
    let ?j = "scan_up loc xs j ?i"
    let ?xs = "if ?i > ?j then swap_at xs ?i ?j else xs"
    have step: "split_loop loc xs i j found = split_loop loc ?xs ?i ?j (found \<or> j \<le> ?i)"
      using True 1(2,4) by (subst split_loop.simps) (simp add: Let_def)
    have d: "j - 1 \<le> ?i" "?i \<le> i" "\<And>k. ?i < k \<Longrightarrow> k \<le> i \<Longrightarrow> \<not> loc (xs ! nat k)"
      using scan_down_spec [of j i loc xs] 1(3) by auto
    have u: "j \<le> ?j" "?j \<le> ?i + 1" "\<And>k. j \<le> k \<Longrightarrow> k < ?j \<Longrightarrow> loc (xs ! nat k)"
      using scan_up_spec [of j ?i loc xs] d(1) by auto
    have low: "\<forall>k < nat ?j. loc (xs ! k)"
    proof (intro allI impI)
      fix k assume "k < nat ?j"
      then show "loc (xs ! k)" using 1(6) u(3) [of "int k"] by (cases "int k < j") auto
    qed
    have high: "\<forall>k < length xs. ?i < int k \<longrightarrow> \<not> loc (xs ! k)"
    proof (intro allI impI)
      fix k assume "k < length xs" "?i < int k"
      then show "\<not> loc (xs ! k)" using 1(7) d(3) [of "int k"] by (cases "int k \<le> i") auto
    qed
    have sw: "length ?xs = length xs" "mset ?xs = mset xs" "\<forall>k < nat ?j. ?xs ! k = xs ! k"
        "\<forall>k < length xs. ?i < int k \<longrightarrow> ?xs ! k = xs ! k"
      using swap_nth [of ?j ?i xs] 1(2,4) d u by auto
    have "\<exists>ys i' f. split_loop loc ?xs ?i ?j (found \<or> j \<le> ?i) = Some (ys, i', f) \<and> mset ys = mset ?xs
      \<and> - 1 \<le> i' \<and> i' < int (length ys) \<and> (\<forall>k < length ys. loc (ys ! k) \<longleftrightarrow> int k \<le> i') \<and> (0 \<le> i' \<longrightarrow> f)"
    proof (rule 1(1) [OF True _ refl refl])
      show "0 \<le> j \<and> i < int (length xs)" using 1(2,4) by simp
      show "0 \<le> ?j" "?j \<le> ?i + 1" "?i < int (length ?xs)" using 1(2,4) d u sw(1) by linarith+
      show "0 < ?j \<longrightarrow> found \<or> j \<le> ?i" using 1(2,5) u d by linarith
      show "\<forall>k < nat ?j. loc (?xs ! k)" using low sw(3) by simp
      show "\<forall>k < length ?xs. ?i < int k \<longrightarrow> \<not> loc (?xs ! k)" using high sw(1,4) by simp
    qed
    then show ?thesis unfolding step sw(2) .
  qed
qed

section \<open>Properties\<close>

text \<open>\<open>SplitLocalAndRemotePlayers\<close> returns for every list, never indexes outside it, and only permutes it: the
  players of this server come first, and the result is the index of the last of them (for a list that
  is not empty: one less than their number).\<close>
theorem split_players:
  assumes "ids \<noteq> []"
  shows "\<exists>ys i. SplitLocalAndRemotePlayers loc ids = Some (ys, i) \<and> mset ys = mset ids
    \<and> (\<forall>k < length ys. loc (ys ! k) \<longleftrightarrow> int k \<le> i) \<and> i = int (length (filter loc ids)) - 1"
proof -
  obtain ys i f where r: "split_loop loc ids (int (length ids) - 1) 0 False = Some (ys, i, f)" "mset ys = mset ids"
      "- 1 \<le> i" "i < int (length ys)" "\<forall>k < length ys. loc (ys ! k) \<longleftrightarrow> int k \<le> i" "0 \<le> i \<longrightarrow> f"
    using split_loop_spec [of 0 "int (length ids) - 1" ids False loc] assms by auto
  have "{k. k < length ys \<and> loc (ys ! k)} = {..<nat (i + 1)}" using r(3-5) by auto
  then have "length (filter loc ys) = nat (i + 1)" by (simp add: length_filter_conv_card)
  moreover have "length (filter loc ids) = length (filter loc ys)"
    using r(2) by (metis mset_filter size_mset)
  moreover have "(if \<not> f then - 1 else i) = i" using r(3,6) by auto
  ultimately show ?thesis using r assms by (simp add: SplitLocalAndRemotePlayers_def)
qed

theorem split_players_witness:
  "\<exists>ys. SplitLocalAndRemotePlayers (\<lambda>p. p < 10) [20, 3, 30, 4] = Some (ys, 1) \<and> mset ys = {#20, 3, 30, 4#}"
  using split_players [of "[20, 3, 30, 4]" "\<lambda>p. p < 10"] by auto

text \<open>\<open>randn_different\<close> draws as many different elements of the array as asked for, whatever the
  draws are, when the array has that many different elements.\<close>
theorem randn_different_distinct:
  assumes "distinct array" and "length rs \<le> length array" and "\<forall>r \<in> set rs. r < length array"
  shows "\<exists>nums. randn_different array rs = Some nums \<and> distinct nums \<and> set nums \<subseteq> set array
    \<and> length nums = length rs"
  using rand_take_distinct [of "[]" array rs] assms by (auto simp: randn_different_def not_le)

theorem randn_different_distinct_witness:
  "\<exists>nums. randn_different [5, 6, 7] [1, 1] = Some nums \<and> distinct nums \<and> length nums = 2"
  using randn_different_distinct [of "[5, 6, 7]" "[1, 1]"] by auto

end
