(* ===== verification/Arena.thy ===== *)
theory Arena
  imports Rank_List Hall_Utils
begin

text \<open>
  The arena on top of its ranking: \<open>hall_server/player_arena.go\<close> and the lookup of
  \<open>table_config/table_arena_division.go\<close>. The arena's ranking is a \<open>RankList\<close> of \<open>ArenaRankItem\<close>s.
  Of a player the model keeps the columns of \<open>db.Arena\<close>; messages, mails and task updates sent on
  the way are collected as events. Configuration and table values are arguments.
\<close>

section \<open>Divisions\<close>

record ArenaDivision =
  Division_Id :: int
  DivisionScoreMin :: int
  DivisionScoreMax :: int
  WinScore :: int
  WinningStreakScoreBonus :: int
  LoseScore :: int
  NewSeasonScore :: int

fun GetByScore :: "ArenaDivision list \<Rightarrow> int \<Rightarrow> ArenaDivision option" where
  "GetByScore [] score = None"
| "GetByScore (d # ds) score =
     (if DivisionScoreMin d \<le> score \<and> DivisionScoreMax d \<ge> score then Some d else GetByScore ds score)"

definition GetGradeByScore :: "ArenaDivision list \<Rightarrow> int \<Rightarrow> int" where
  "GetGradeByScore table score = (case GetByScore table score of None \<Rightarrow> 0 | Some d \<Rightarrow> Division_Id d)"

record ArenaBonus =
  RankingMin :: int
  RankingMax :: int
  DayRewardList :: "int list"
  SeasonRewardList :: "int list"

fun Bonus_GetByRank :: "ArenaBonus list \<Rightarrow> int \<Rightarrow> ArenaBonus option" where
  "Bonus_GetByRank [] rank = None"
| "Bonus_GetByRank (d # ds) rank =
     (if RankingMin d \<le> rank \<and> RankingMax d \<ge> rank then Some d else Bonus_GetByRank ds rank)"

section \<open>A player's score\<close>

record ArenaColumn =
  ac_PlayerId :: int
  ac_Score :: int
  ac_UpdateScoreTime :: int
  ac_RepeatedWinNum :: int
  ac_RepeatedLoseNum :: int
  ac_HistoryTopRank :: int

record ArenaConfig =
  ArenaRepeatedWinNum :: int
  ArenaLoseRepeatedNum :: int
  ArenaMatchPlayerNum :: int

datatype arena_event =
    GradeRewardMail int
  | GradeRewardNotify int
  | TaskReachScore int
  | ActivityArenaScore int

type_synonym arena_list = "(ArenaRankItem, int) RankList"

definition update_arena_score :: "nat option \<Rightarrow> int list \<Rightarrow> ArenaRankItem \<Rightarrow> arena_list
    \<Rightarrow> (arena_list \<times> int list) option" where
  "update_arena_score pick rs item rl = do {
     (_, rl, rs) \<leftarrow> UpdateItem arena_item_ops pick rs item rl; Some (rl, rs) }"

definition LoadArenaScore :: "nat option \<Rightarrow> int list \<Rightarrow> bool \<Rightarrow> int \<Rightarrow> ArenaColumn \<Rightarrow> arena_list
    \<Rightarrow> (arena_list \<times> int list) option" where
  "LoadArenaScore pick rs team_empty last_login p rl =
     (if team_empty \<or> ac_Score p \<le> 0 then Some (rl, rs)
      else update_arena_score pick rs
        \<lparr>ar_Score = ac_Score p,
         ar_UpdateTime = (if ac_UpdateScoreTime p = 0 then last_login else ac_UpdateScoreTime p),
         ar_PlayerId = ac_PlayerId p\<rparr> rl)"

text \<open>The part of \<open>UpdateArenaScore\<close> before the score changes: the streaks and the points won.\<close>

definition arena_points :: "ArenaConfig \<Rightarrow> ArenaDivision \<Rightarrow> bool \<Rightarrow> ArenaColumn \<Rightarrow> int \<times> ArenaColumn" where
  "arena_points cfg division is_win p =
     (if is_win then
        (let wins = i32 (ac_RepeatedWinNum p + 1);
             add_score = (if wins \<ge> ArenaRepeatedWinNum cfg
               then i32 (WinScore division + WinningStreakScoreBonus division) else WinScore division) in
         (add_score, p\<lparr>ac_RepeatedWinNum := wins,
            ac_RepeatedLoseNum := (if ac_RepeatedLoseNum p > 0 then 0 else ac_RepeatedLoseNum p)\<rparr>))
      else (LoseScore division, p\<lparr>
         ac_RepeatedWinNum := (if ac_RepeatedWinNum p > 0 then 0 else ac_RepeatedWinNum p),
         ac_RepeatedLoseNum := i32 (ac_RepeatedLoseNum p + 1)\<rparr>))"

definition UpdateArenaScore :: "ArenaDivision list \<Rightarrow> ArenaConfig \<Rightarrow> int \<Rightarrow> nat option \<Rightarrow> int list \<Rightarrow> bool
    \<Rightarrow> ArenaColumn \<Rightarrow> arena_list
    \<Rightarrow> ((int \<times> int) \<times> ArenaColumn \<times> arena_list \<times> int list \<times> arena_event list) option" where
  "UpdateArenaScore table cfg now pick rs is_win p rl =
     (case GetByScore table (ac_Score p) of None \<Rightarrow> Some ((0, 0), p, rl, rs, [])
      | Some division \<Rightarrow>
         (let (add_score, p) = arena_points cfg division is_win p;
              act = ActivityArenaScore (if is_win then 2 else 1) in
          if add_score > 0 then
            (let score = i32 (ac_Score p + add_score);
                 p = p\<lparr>ac_Score := score, ac_UpdateScoreTime := i32 now\<rparr> in do {
              (rl, rs) \<leftarrow> update_arena_score pick rs
                 \<lparr>ar_Score = score, ar_UpdateTime = i32 now, ar_PlayerId = ac_PlayerId p\<rparr> rl;
              rank \<leftarrow> GetRankByKey arena_item_ops (ac_PlayerId p) rl;
              let p = (if ac_HistoryTopRank p = 0 \<or> rank < ac_HistoryTopRank p
                       then p\<lparr>ac_HistoryTopRank := rank\<rparr> else p);
              let grade = (case GetByScore table score of
                    None \<Rightarrow> []
                  | Some d \<Rightarrow> if Division_Id d > Division_Id division
                              then [GradeRewardMail (Division_Id d), GradeRewardNotify (Division_Id d)] else []);
              Some ((score, add_score), p, rl, rs, grade @ [TaskReachScore add_score, act]) })
          else Some ((0, add_score), p, rl, rs, [act])))"

section \<open>Matching an opponent\<close>

text \<open>The range of ranks for a player of rank \<open>rank > 0\<close>, as \<open>(left, right)\<close>.\<close>

definition match_range :: "ArenaConfig \<Rightarrow> ArenaColumn \<Rightarrow> int \<Rightarrow> int \<Rightarrow> int \<times> int" where
  "match_range cfg p rank last_rank =
     (let match_num = ArenaMatchPlayerNum cfg;
          half_num = go_div match_num 2;
          (left, right) =
            (if ac_RepeatedWinNum p \<ge> ArenaRepeatedWinNum cfg then (i32 (rank - match_num), rank - 1)
             else if ac_RepeatedLoseNum p \<ge> ArenaLoseRepeatedNum cfg then (rank + 1, i32 (rank + match_num))
             else (i32 (rank - half_num), i32 (rank + half_num)));
          left = (if left < 1 then 1 else left);
          right = (if right > last_rank then last_rank else right) in
      if i32 (right - left) < match_num then
        (if left > 1 then
           (let left = i32 (left - (match_num - (right - left))) in (if left < 1 then 1 else left, right))
         else
           (let right = (if right < last_rank then i32 (right + (match_num - (right - left))) else right) in
            (left, if right > last_rank then last_rank else right)))
      else (left, right))"

text \<open>The first rank, the number of ranks, and the last rank of the ranking (0 for a player without a
  rank, as in the code).\<close>

definition match_start :: "ArenaConfig \<Rightarrow> ArenaColumn \<Rightarrow> int \<Rightarrow> arena_list \<Rightarrow> (int \<times> int \<times> int) option" where
  "match_start cfg p rank rl =
     (if rank = 0 then do {
        (start_rank, rank_num) \<leftarrow> RankList_GetLastRankRange (ArenaMatchPlayerNum cfg) rl;
        Some (start_rank, rank_num, 0) }
      else do {
        (last_rank, _) \<leftarrow> RankList_GetLastRankRange 1 rl;
        let (left, right) = match_range cfg p rank last_rank;
        Some (left, i32 (right - left + 1), last_rank) })"

text \<open>When the rank drawn is the player's own, the next one, or the one before the last.\<close>

definition match_shift :: "int \<Rightarrow> int \<Rightarrow> int \<Rightarrow> int" where
  "match_shift rank last_rank r = (if rank = r then (if r + 1 > last_rank then r + 1 - 2 else r + 1) else r)"

definition match_take :: "nat option \<Rightarrow> int \<Rightarrow> arena_list \<Rightarrow> ((int \<times> int) \<times> arena_list) option" where
  "match_take pick r rl = do {
     (item, rl) \<leftarrow> GetItemByRank arena_item_ops pick r rl;
     Some (case item of None \<Rightarrow> (0, 0) | Some it \<Rightarrow> (ar_PlayerId it, r), rl) }"

definition MatchArenaPlayer :: "ArenaConfig \<Rightarrow> (int \<Rightarrow> int) \<Rightarrow> nat option \<Rightarrow> ArenaColumn \<Rightarrow> arena_list
    \<Rightarrow> ((int \<times> int) \<times> arena_list) option" where
  "MatchArenaPlayer cfg draw pick p rl = do {
     rank \<leftarrow> GetRankByKey arena_item_ops (ac_PlayerId p) rl;
     (if rank < 0 then Some ((0, 0), rl)
      else do {
        (start_rank, rank_num, last_rank) \<leftarrow> match_start cfg p rank rl;
        (if rank = 0 \<and> start_rank < 0 then Some ((0, 0), rl)
         else do {
           (_, r) \<leftarrow> rand31n_from_range draw start_rank (i32 (start_rank + rank_num));
           match_take pick (match_shift rank last_rank r) rl }) }) }"

section \<open>The end of a season\<close>

text \<open>Rewards are mails (player, reward list, rank); \<open>present\<close> says which players are found.\<close>

definition reward_step :: "ArenaBonus list \<Rightarrow> int \<Rightarrow> (int \<Rightarrow> bool) \<Rightarrow> nat \<Rightarrow> arena_list \<times> (int \<times> int list \<times> int) list
    \<Rightarrow> (arena_list \<times> (int \<times> int list \<times> int) list) option" where
  "reward_step bonus typ present rank = (\<lambda>(rl, mails). do {
     (item, rl) \<leftarrow> GetItemByRank arena_item_ops None (int rank) rl;
     Some (case item of None \<Rightarrow> (rl, mails)
       | Some it \<Rightarrow> (case Bonus_GetByRank bonus (int rank) of None \<Rightarrow> (rl, mails)
           | Some b \<Rightarrow>
             if \<not> present (ar_PlayerId it) then (rl, mails)
             else if typ = 1 then (rl, mails @ [(ar_PlayerId it, DayRewardList b, int rank)])
             else if typ = 2 then (rl, mails @ [(ar_PlayerId it, SeasonRewardList b, int rank)])
             else (rl, mails))) })"

definition Season_Reward :: "ArenaBonus list \<Rightarrow> int \<Rightarrow> (int \<Rightarrow> bool) \<Rightarrow> arena_list
    \<Rightarrow> (arena_list \<times> (int \<times> int list \<times> int) list) option" where
  "Season_Reward bonus typ present rl = do {
     rank_num \<leftarrow> RankNum rl;
     for_each (reward_step bonus typ present) [1..<Suc (nat rank_num)] (rl, []) }"

text \<open>One rank of \<open>Reset\<close>; \<open>scores\<close> holds the stored scores of the players and robots by id, where
  the id is known.\<close>

definition reset_step :: "ArenaDivision list \<Rightarrow> int \<Rightarrow> int \<Rightarrow> nat \<Rightarrow> arena_list \<times> (int \<Rightarrow> int option)
    \<Rightarrow> (arena_list \<times> (int \<Rightarrow> int option)) option" where
  "reset_step table now rank_num rank = (\<lambda>(rl, scores). do {
     (item, rl) \<leftarrow> GetItemByRank arena_item_ops None (int rank) rl;
     (case item of None \<Rightarrow> Some (rl, scores)
      | Some it \<Rightarrow> (case GetByScore table (ar_Score it) of None \<Rightarrow> Some (rl, scores)
          | Some division \<Rightarrow> do {
              let scores = (if scores (ar_PlayerId it) = None then scores
                            else scores(ar_PlayerId it \<mapsto> NewSeasonScore division));
              let upd = \<lparr>ar_Score = NewSeasonScore division,
                         ar_UpdateTime = i32 (i32 now - (rank_num - int rank)), ar_PlayerId = ar_PlayerId it\<rparr>;
              rl \<leftarrow> SetValueByKey (ar_PlayerId it) (ArenaRankItem_SetValue (Some upd)) rl;
              Some (rl, scores) })) })"

definition Season_Reset :: "ArenaDivision list \<Rightarrow> int \<Rightarrow> arena_list \<times> (int \<Rightarrow> int option)
    \<Rightarrow> (arena_list \<times> (int \<Rightarrow> int option)) option" where
  "Season_Reset table now = (\<lambda>(rl, scores). do {
     rank_num \<leftarrow> RankNum rl;
     for_each (reset_step table now rank_num) [1..<Suc (nat rank_num)] (rl, scores) })"

section \<open>The reset keeps the order\<close>

definition reset_item :: "ArenaDivision list \<Rightarrow> int \<Rightarrow> int \<Rightarrow> int \<Rightarrow> ArenaRankItem \<Rightarrow> ArenaRankItem" where
  "reset_item table now n rank x = (case GetByScore table (ar_Score x) of None \<Rightarrow> x
     | Some d \<Rightarrow> x\<lparr>ar_Score := NewSeasonScore d, ar_UpdateTime := i32 (i32 now - (n - rank))\<rparr>)"

definition reset_items :: "ArenaDivision list \<Rightarrow> int \<Rightarrow> nat \<Rightarrow> ArenaRankItem list \<Rightarrow> ArenaRankItem list" where
  "reset_items table now m L =
     map (\<lambda>i. if i < m then reset_item table now (int (length L)) (int i + 1) (L ! i) else L ! i) [0..<length L]"

lemma reset_items_Suc:
  assumes "m < length L"
  shows "reset_items table now (Suc m) L
    = (reset_items table now m L)[m := reset_item table now (int (length L)) (int m + 1) (L ! m)]"
proof (rule nth_equalityI)
  show "length (reset_items table now (Suc m) L) = length ((reset_items table now m L)
      [m := reset_item table now (int (length L)) (int m + 1) (L ! m)])" by (simp add: reset_items_def)
  fix i assume "i < length (reset_items table now (Suc m) L)"
  then have "i < length L" by (simp add: reset_items_def)
  then show "reset_items table now (Suc m) L ! i
      = (reset_items table now m L)[m := reset_item table now (int (length L)) (int m + 1) (L ! m)] ! i"
    using assms by (cases "i = m") (simp_all add: reset_items_def less_Suc_eq)
qed

lemma arena_key [simp]: "rn_GetKey arena_item_ops x = ar_PlayerId x"
  by (simp add: arena_item_ops_def ArenaRankItem_GetKey_def)

lemma reset_item_id [simp]: "ar_PlayerId (reset_item table now n rank x) = ar_PlayerId x"
  by (simp add: reset_item_def split: option.splits)

lemma reset_descending:
  assumes d: "descending (rn_Greater arena_item_ops) L" and u: "distinct (map ar_PlayerId L)"
    and tab: "\<forall>x \<in> set L. \<exists>d. GetByScore table (ar_Score x) = Some d"
    and mono: "\<forall>x \<in> set L. \<forall>y \<in> set L. ar_Score x \<le> ar_Score y \<longrightarrow>
      NewSeasonScore (the (GetByScore table (ar_Score x))) \<le> NewSeasonScore (the (GetByScore table (ar_Score y)))"
    and now: "0 \<le> now" "now \<le> max_int32" "length L < 2147483648"
  shows "descending (rn_Greater arena_item_ops) (reset_items table now (length L) L)"
  unfolding descending_def
proof (rule sorted_wrt_iff_nth_less [THEN iffD2], intro allI impI)
  fix i j assume ij: "i < j" "j < length (reset_items table now (length L) L)"
  then have L: "i < length L" "j < length L" by (simp_all add: reset_items_def)
  have "\<not> rn_Greater arena_item_ops (L ! j) (L ! i)"
    using d ij(1) L unfolding descending_def by (simp add: sorted_wrt_iff_nth_less)
  then have le: "ar_Score (L ! j) \<le> ar_Score (L ! i)" by (auto simp: arena_item_ops_gt less_prod_simp)
  obtain di dj where dd: "GetByScore table (ar_Score (L ! i)) = Some di"
      "GetByScore table (ar_Score (L ! j)) = Some dj" using tab L by (metis nth_mem)
  have "NewSeasonScore dj \<le> NewSeasonScore di"
    using mono le dd L by (metis nth_mem option.sel)
  moreover have time: "i32 (i32 now - (int (length L) - (int k + 1))) = now - (int (length L) - (int k + 1))"
    if "k < length L" for k
    using now that by (subst i32_id) auto
  moreover have "reset_items table now (length L) L ! i
      = (L ! i)\<lparr>ar_Score := NewSeasonScore di, ar_UpdateTime := now - (int (length L) - (int i + 1))\<rparr>"
    "reset_items table now (length L) L ! j
      = (L ! j)\<lparr>ar_Score := NewSeasonScore dj, ar_UpdateTime := now - (int (length L) - (int j + 1))\<rparr>"
    using L dd by (simp_all add: reset_items_def reset_item_def time [OF L(1)] time [OF L(2)])
  ultimately show "\<not> rn_Greater arena_item_ops (reset_items table now (length L) L ! j)
      (reset_items table now (length L) L ! i)"
    using ij(1) by (simp add: arena_item_ops_gt less_prod_simp)
qed

text \<open>What the loop keeps: the first \<open>m\<close> items and stored scores are written, the others are not.\<close>

definition scores_written :: "ArenaDivision list \<Rightarrow> ArenaRankItem list \<Rightarrow> (int \<Rightarrow> int option) \<Rightarrow> nat
    \<Rightarrow> (int \<Rightarrow> int option) \<Rightarrow> bool" where
  "scores_written table L scores m sc \<longleftrightarrow>
     (\<forall>k. sc k = None \<longleftrightarrow> scores k = None) \<and>
     (\<forall>i < m. scores (ar_PlayerId (L ! i)) \<noteq> None \<longrightarrow>
        sc (ar_PlayerId (L ! i)) = Some (NewSeasonScore (the (GetByScore table (ar_Score (L ! i))))))"

definition reset_inv :: "ArenaDivision list \<Rightarrow> int \<Rightarrow> ArenaRankItem list \<Rightarrow> (int \<Rightarrow> int option) \<Rightarrow> nat
    \<Rightarrow> arena_list \<times> (int \<Rightarrow> int option) \<Rightarrow> bool" where
  "reset_inv table now L scores m s \<longleftrightarrow> (case s of (rl, sc) \<Rightarrow>
     (\<exists>st as. rank_list rl = Some st \<and> rl_shape arena_item_ops st as \<and> max_rank st = ARENA_RANK_MAX
       \<and> rl_items st as = reset_items table now m L) \<and> scores_written table L scores m sc)"

lemma scores_written_Suc:
  assumes "scores_written table L scores m sc" and "distinct (map ar_PlayerId L)" and "m < length L"
    and "GetByScore table (ar_Score (L ! m)) = Some d"
  shows "scores_written table L scores (Suc m)
    (if sc (ar_PlayerId (L ! m)) = None then sc else sc(ar_PlayerId (L ! m) \<mapsto> NewSeasonScore d))"
proof -
  have "ar_PlayerId (L ! i) \<noteq> ar_PlayerId (L ! m)" if "i < m" for i
    using nth_eq_iff_index_eq [OF assms(2), of i m] that assms(3) by simp
  then show ?thesis using assms(1,4) by (auto simp: scores_written_def less_Suc_eq)
qed

lemma reset_step_inv:
  assumes inv: "reset_inv table now L scores m s" and m: "m < length L" and u: "distinct (map ar_PlayerId L)"
    and tab: "\<forall>x \<in> set L. \<exists>d. GetByScore table (ar_Score x) = Some d"
  shows "\<exists>s'. reset_step table now (int (length L)) (Suc m) s = Some s' \<and> reset_inv table now L scores (Suc m) s'"
proof -
  obtain rl sc st as where s: "s = (rl, sc)" "rank_list rl = Some st" "rl_shape arena_item_ops st as"
      "max_rank st = ARENA_RANK_MAX" "rl_items st as = reset_items table now m L" "scores_written table L scores m sc"
    using inv by (cases s) (auto simp: reset_inv_def)
  have len: "length as = length L" using arg_cong [OF s(5), of length] by (simp add: rl_items_def reset_items_def)
  have at: "rl_items st as ! m = L ! m" using m s(5) by (simp add: reset_items_def)
  obtain b st1 where g: "rl_GetByRank arena_item_ops None (int (Suc m)) st = Some (Some b, st1)"
      "item_store st1 b = L ! m" "rl_shape arena_item_ops st1 as" "rl_items st1 as = rl_items st as"
      "max_rank st1 = max_rank st"
    using ar_items.by_rank_shape [OF s(3), of "int (Suc m)" None] m len at by auto
  obtain d where d: "GetByScore table (ar_Score (L ! m)) = Some d" using tab m by (meson nth_mem)
  let ?n = "int (length L)" and ?x = "L ! m"
  let ?upd = "\<lparr>ar_Score = NewSeasonScore d, ar_UpdateTime = i32 (i32 now - (?n - int (Suc m))), ar_PlayerId = ar_PlayerId ?x\<rparr>"
  let ?f = "ArenaRankItem_SetValue (Some ?upd)"
  let ?st2 = "rl_SetValueByKey (ar_PlayerId ?x) ?f st1"
  let ?sc = "if sc (ar_PlayerId ?x) = None then sc else sc(ar_PlayerId ?x \<mapsto> NewSeasonScore d)"
  have fx: "?f ?x = reset_item table now ?n (int m + 1) ?x"
    by (simp add: ArenaRankItem_SetValue_def reset_item_def d ac_simps)
  have "m < length as" using m len by simp
  moreover have "rn_GetKey arena_item_ops (?f x) = rn_GetKey arena_item_ops x" for x
    by (simp add: ArenaRankItem_SetValue_def)
  moreover have "ar_PlayerId ?x = rn_GetKey arena_item_ops (rl_items st1 as ! m)"
    unfolding g(4) at by simp
  ultimately have sv: "rl_shape arena_item_ops ?st2 as"
      "rl_items ?st2 as = (rl_items st1 as)[m := ?f (rl_items st1 as ! m)]" "max_rank ?st2 = max_rank st1"
    by (rule ar_items.set_value_shape [OF g(3)])+
  have "rl_items ?st2 as = reset_items table now (Suc m) L"
    unfolding sv(2) g(4) at reset_items_Suc [OF m] s(5) [symmetric] fx ..
  then have "reset_inv table now L scores (Suc m) (rl\<lparr>rank_list := Some ?st2\<rparr>, ?sc)"
    unfolding reset_inv_def using sv(1,3) g(5) s(4) scores_written_Suc [OF s(6) u m d] by auto
  moreover have "reset_step table now ?n (Suc m) s = Some (rl\<lparr>rank_list := Some ?st2\<rparr>, ?sc)"
    using s(1,2) g(1,2) d
    by (simp add: reset_step_def GetItemByRank_def SetValueByKey_def Let_def)
  ultimately show ?thesis by blast
qed

lemma reset_correct:
  assumes h: "rank_holds arena_item_ops rl L"
    and tab: "\<forall>x \<in> set L. \<exists>d. GetByScore table (ar_Score x) = Some d"
    and mono: "\<forall>x \<in> set L. \<forall>y \<in> set L. ar_Score x \<le> ar_Score y \<longrightarrow>
      NewSeasonScore (the (GetByScore table (ar_Score x))) \<le> NewSeasonScore (the (GetByScore table (ar_Score y)))"
    and now: "0 \<le> now" "now \<le> max_int32" "length L < 2147483648"
  shows "\<exists>rl' sc'. Season_Reset table now (rl, scores) = Some (rl', sc')
    \<and> rank_holds arena_item_ops rl' (reset_items table now (length L) L)
    \<and> scores_written table L scores (length L) sc'"
proof -
  have sorted: "descending (rn_Greater arena_item_ops) L" and u: "distinct (map ar_PlayerId L)"
    using ar_items.holds_sorted [OF h] by (simp_all cong: map_cong)
  obtain st as where st: "rank_list rl = Some st" "rl_inv arena_item_ops st as" "rl_items st as = L"
      "max_rank st = ARENA_RANK_MAX" using h by (auto simp: rank_holds_def)
  have "RankNum rl = Some (int (length L))"
    using st holds_length [of "ranking_items st" as]
    by (auto simp: RankNum_def rl_GetLength_def rl_inv_def rl_items_def)
  moreover have "reset_items table now 0 L = L" by (simp add: reset_items_def map_nth)
  then have init: "reset_inv table now L scores 0 (rl, scores)"
    using st rl_inv_shape [OF st(2)] by (auto simp: reset_inv_def scores_written_def)
  have loop: "\<exists>s'. for_each (reset_step table now (int (length L))) [1..<Suc (length L)] (rl, scores) = Some s'
      \<and> reset_inv table now L scores (Suc (length L) - 1) s'"
  proof (rule for_each_upt [where P = "\<lambda>j s. reset_inv table now L scores (j - 1) s"])
    show "\<exists>s'. reset_step table now (int (length L)) k s = Some s' \<and> reset_inv table now L scores (Suc k - 1) s'"
      if "1 \<le> k" "k < Suc (length L)" "reset_inv table now L scores (k - 1) s" for k s
      using reset_step_inv [OF that(3) _ u tab] that(1,2) by simp
  qed (use init in simp_all)
  then obtain rl' sc' where fin: "for_each (reset_step table now (int (length L))) [1..<Suc (length L)] (rl, scores)
      = Some (rl', sc')" "reset_inv table now L scores (length L) (rl', sc')" by force
  then obtain st' as' where st': "rank_list rl' = Some st'" "rl_shape arena_item_ops st' as'"
      "max_rank st' = ARENA_RANK_MAX" "rl_items st' as' = reset_items table now (length L) L"
      "scores_written table L scores (length L) sc'" by (auto simp: reset_inv_def)
  have "rl_inv arena_item_ops st' as'"
    using reset_descending [OF sorted u tab mono now] st'(2,4) by (intro rl_shape_inv) simp_all
  then have "rank_holds arena_item_ops rl' (reset_items table now (length L) L)"
    using st' by (auto simp: rank_holds_def)
  then show ?thesis using fin(1) st'(5) \<open>RankNum rl = _\<close> by (simp add: Season_Reset_def del: upt_Suc)
qed

end
