(* ===== verification/Ranking_Props.thy ===== *)
theory Ranking_Props
  imports Arena
begin

text \<open>
  The properties of the rankings: the ranking lists of \<open>hall_server/rank_list.go\<close> over
  \<open>libs/utils/ranklist.go\<close>, and the arena of \<open>hall_server/player_arena.go\<close>.
\<close>

section \<open>Examples the properties are applied to\<close>

definition ra :: ArenaRankItem where "ra = \<lparr>ar_Score = 320, ar_UpdateTime = 100, ar_PlayerId = 7\<rparr>"
definition rb :: ArenaRankItem where "rb = \<lparr>ar_Score = 40, ar_UpdateTime = 90, ar_PlayerId = 9\<rparr>"

definition two_divisions :: "ArenaDivision list" where
  "two_divisions = [\<lparr>Division_Id = 1, DivisionScoreMin = 0, DivisionScoreMax = 299, WinScore = 20,
       WinningStreakScoreBonus = 20, LoseScore = 10, NewSeasonScore = 0\<rparr>,
     \<lparr>Division_Id = 2, DivisionScoreMin = 300, DivisionScoreMax = 599, WinScore = 20,
       WinningStreakScoreBonus = 20, LoseScore = 6, NewSeasonScore = 200\<rparr>]"

lemma two_players: "\<exists>rl. rank_holds arena_item_ops rl [ra, rb]"
proof -
  have d: "random_skiplist_layer [1] = Some (1, [])" by (simp add: random_skiplist_layer_def MAX_SKIPLIST_LAYER_def)
  obtain rl where "rank_holds arena_item_ops rl (rank_put arena_item_ops ra [])"
    using ar_items.update_item [OF rank_holds_init d] by blast
  then have "rank_holds arena_item_ops rl [ra]" by (simp add: rank_put_def put_value_def)
  then obtain rl' where "rank_holds arena_item_ops rl' (rank_put arena_item_ops rb [ra])"
    using ar_items.update_item [OF _ d] by blast
  moreover have "rank_put arena_item_ops rb [ra] = [ra, rb]"
    by (simp add: rank_put_def put_value_def arena_item_ops_gt ra_def rb_def less_prod_simp)
  ultimately show ?thesis by auto
qed

section \<open>Properties\<close>

text \<open>C5: an update of a ranking always succeeds: the item takes the place of the one with its key,
  the rest keeps its order, and the list stays sorted with one item per key.\<close>
theorem ranking_update:
  assumes "rank_holds int32_item_ops rl L" and "random_skiplist_layer rs = Some (nl, rs')"
  shows "\<exists>rl'. UpdateItem int32_item_ops pick rs x rl = Some (True, rl', rs')
    \<and> rank_holds int32_item_ops rl' (rank_put int32_item_ops x L)
    \<and> descending (rn_Greater int32_item_ops) (rank_put int32_item_ops x L)
    \<and> distinct (map p32_PlayerId (rank_put int32_item_ops x L))
    \<and> set (rank_put int32_item_ops x L) = insert x {y \<in> set L. p32_PlayerId y \<noteq> p32_PlayerId x}"
proof -
  obtain rl' where rl': "UpdateItem int32_item_ops pick rs x rl = Some (True, rl', rs')"
      "rank_holds int32_item_ops rl' (rank_put int32_item_ops x L)"
    using p32_items.update_item [OF assms] by blast
  have key: "rn_GetKey int32_item_ops = p32_PlayerId"
    by (simp add: int32_item_ops_def PlayerInt32RankItem_GetKey_def fun_eq_iff)
  show ?thesis
    using rl' p32_items.holds_sorted [OF rl'(2)] unfolding key
    by (auto simp: rank_put_def put_value_set key)
qed

theorem ranking_update_witness:
  "\<exists>rl'. UpdateItem int32_item_ops None [1] \<lparr>p32_Value = 5, p32_UpdateTime = 3, p32_PlayerId = 8\<rparr>
      (RankList_Init int32_item_ops) = Some (True, rl', [])
    \<and> rank_holds int32_item_ops rl' [\<lparr>p32_Value = 5, p32_UpdateTime = 3, p32_PlayerId = 8\<rparr>]"
  using ranking_update [OF rank_holds_init, of "[1]" 1 "[]" None
      "\<lparr>p32_Value = 5, p32_UpdateTime = 3, p32_PlayerId = 8\<rparr>"]
  by (auto simp: rank_put_def put_value_def random_skiplist_layer_def MAX_SKIPLIST_LAYER_def)

text \<open>the rank of a player in the arena's ranking is his position counted from 1, and 0 for a player
  who is not in it; \<open>GetItemByRank\<close> gives the item at a rank back and leaves the ranking as it is.\<close>
theorem ranking_positions:
  assumes "rank_holds arena_item_ops rl L"
  shows "(i < length L \<longrightarrow> GetRankByKey arena_item_ops (ar_PlayerId (L ! i)) rl = Some (int i + 1)
      \<and> (\<exists>rl'. GetItemByRank arena_item_ops pick (int i + 1) rl = Some (Some (L ! i), rl')
           \<and> rank_holds arena_item_ops rl' L))
    \<and> (k \<notin> ar_PlayerId ` set L \<longrightarrow> GetRankByKey arena_item_ops k rl = Some 0)"
proof (intro conjI impI)
  assume i: "i < length L"
  show "GetRankByKey arena_item_ops (ar_PlayerId (L ! i)) rl = Some (int i + 1)"
    using ar_items.rank_by_key(1) [OF assms i] by simp
  show "\<exists>rl'. GetItemByRank arena_item_ops pick (int i + 1) rl = Some (Some (L ! i), rl')
      \<and> rank_holds arena_item_ops rl' L"
    using ar_items.item_by_rank [OF assms, of "int i + 1" pick] i by simp
next
  assume "k \<notin> ar_PlayerId ` set L"
  then show "GetRankByKey arena_item_ops k rl = Some 0"
    by (intro ar_items.rank_by_key(2) [OF assms]) auto
qed

theorem ranking_positions_witness:
  "\<exists>rl. rank_holds arena_item_ops rl [ra, rb] \<and> GetRankByKey arena_item_ops 9 rl = Some 2
    \<and> GetRankByKey arena_item_ops 5 rl = Some 0"
proof -
  obtain rl where rl: "rank_holds arena_item_ops rl [ra, rb]" using two_players by blast
  show ?thesis using rl ranking_positions [OF rl, of 1 None 5] by (auto simp: ra_def rb_def)
qed

text \<open>the answer to a ranking request is the slice of the ranking asked for, with the rank and value
  of the player who asks (0 and nil when he is not ranked).\<close>
theorem ranking_range:
  assumes "rank_holds arena_item_ops rl L" and "1 \<le> start" "start \<le> ARENA_RANK_MAX" "start \<le> int (length L)"
    and "0 < num" "num \<le> max_int32" and "int (length L) \<le> max_int32"
  shows "\<exists>sr sv. GetItemsByRange arena_item_ops key start num rl
      = Some (Some (take (nat num) (drop (nat (start - 1)) L)), sr, sv)
    \<and> (sr = 0 \<and> sv = None \<and> key \<notin> ar_PlayerId ` set L \<or>
       (\<exists>i < length L. ar_PlayerId (L ! i) = key \<and> sr = int i + 1 \<and> sv = Some (ar_Score (L ! i))))"
proof -
  have "rn_GetValue arena_item_ops = ar_Score" "rn_GetKey arena_item_ops = ar_PlayerId"
    by (simp_all add: arena_item_ops_def ArenaRankItem_GetValue_def ArenaRankItem_GetKey_def fun_eq_iff)
  then show ?thesis using ar_items.items_by_range [OF assms, of key] by simp
qed

theorem ranking_range_witness:
  "\<exists>rl. rank_holds arena_item_ops rl [ra, rb]
    \<and> GetItemsByRange arena_item_ops 9 1 10 rl = Some (Some [ra, rb], 2, Some 40)"
proof -
  obtain rl where rl: "rank_holds arena_item_ops rl [ra, rb]" using two_players by blast
  have two: "i < Suc (Suc 0) \<Longrightarrow> i = 0 \<or> i = 1" for i by auto
  have "\<exists>sr sv. GetItemsByRange arena_item_ops 9 1 10 rl = Some (Some [ra, rb], sr, sv)
    \<and> (sr = 0 \<and> sv = None \<and> 9 \<notin> ar_PlayerId ` set [ra, rb] \<or>
       (\<exists>i < length [ra, rb]. ar_PlayerId ([ra, rb] ! i) = 9 \<and> sr = int i + 1 \<and> sv = Some (ar_Score ([ra, rb] ! i))))"
    using ranking_range [OF rl, of 1 10 9] by (simp add: ARENA_RANK_MAX_def)
  moreover have "ar_PlayerId ra = 7" "ar_PlayerId rb = 9" "ar_Score rb = 40" by (simp_all add: ra_def rb_def)
  ultimately have "GetItemsByRange arena_item_ops 9 1 10 rl = Some (Some [ra, rb], 2, Some 40)"
    by (auto dest!: two)
  then show ?thesis using rl by blast
qed



text \<open>\<open>RankList.DeleteItem\<close> never returns, for any key and any ranking.\<close>
theorem ranking_delete_item_diverges: "DeleteItem key rl = None"
proof -
  have "DeleteItem key rl = Some b \<Longrightarrow> False" for b
    by (rule DeleteItem.raw_induct [where P = "\<lambda>_ _ _. False"]) auto
  then show ?thesis by (cases "DeleteItem key rl") auto
qed

text \<open>C4: the season reset visits every rank once, gives each player the new-season score of his
  division and stamps the times so that the ranking, written in place, is still sorted and every player
  keeps his rank; the stored scores are the same ones. The new-season scores must not decrease with the
  division.\<close>
theorem arena_reset_order:
  assumes "rank_holds arena_item_ops rl L"
    and "\<forall>x \<in> set L. \<exists>d. GetByScore table (ar_Score x) = Some d"
    and "\<forall>x \<in> set L. \<forall>y \<in> set L. ar_Score x \<le> ar_Score y \<longrightarrow>
      NewSeasonScore (the (GetByScore table (ar_Score x))) \<le> NewSeasonScore (the (GetByScore table (ar_Score y)))"
    and "0 \<le> now" "now \<le> max_int32" "length L < 2147483648"
  shows "\<exists>rl' sc'. Season_Reset table now (rl, scores) = Some (rl', sc')
    \<and> rank_holds arena_item_ops rl' (reset_items table now (length L) L)
    \<and> map ar_PlayerId (reset_items table now (length L) L) = map ar_PlayerId L
    \<and> scores_written table L scores (length L) sc'"
proof -
  have "map ar_PlayerId (reset_items table now (length L) L) = map ar_PlayerId L"
    by (rule nth_equalityI) (simp_all add: reset_items_def)
  then show ?thesis using reset_correct [OF assms, of scores] by blast
qed

theorem arena_reset_order_witness:
  "\<exists>rl rl' sc'. rank_holds arena_item_ops rl [ra, rb]
    \<and> Season_Reset two_divisions 1000 (rl, \<lambda>_. None) = Some (rl', sc')
    \<and> rank_holds arena_item_ops rl' [\<lparr>ar_Score = 200, ar_UpdateTime = 999, ar_PlayerId = 7\<rparr>,
         \<lparr>ar_Score = 0, ar_UpdateTime = 1000, ar_PlayerId = 9\<rparr>]"
proof -
  obtain rl where rl: "rank_holds arena_item_ops rl [ra, rb]" using two_players by blast
  have "reset_items two_divisions 1000 2 [ra, rb] = [\<lparr>ar_Score = 200, ar_UpdateTime = 999, ar_PlayerId = 7\<rparr>,
         \<lparr>ar_Score = 0, ar_UpdateTime = 1000, ar_PlayerId = 9\<rparr>]"
    by (simp add: reset_items_def reset_item_def two_divisions_def ra_def rb_def upt_conv_Cons)
  moreover have "\<exists>rl' sc'. Season_Reset two_divisions 1000 (rl, \<lambda>_. None) = Some (rl', sc')
    \<and> rank_holds arena_item_ops rl' (reset_items two_divisions 1000 (length [ra, rb]) [ra, rb])
    \<and> map ar_PlayerId (reset_items two_divisions 1000 (length [ra, rb]) [ra, rb]) = map ar_PlayerId [ra, rb]
    \<and> scores_written two_divisions [ra, rb] (\<lambda>_. None) (length [ra, rb]) sc'"
    by (rule arena_reset_order [OF rl]) (simp_all add: two_divisions_def ra_def rb_def)
  ultimately show ?thesis using rl by (auto simp: numeral_2_eq_2)
qed

text \<open>C6: matching never picks the player himself: whatever is drawn, the opponent found is a member of
  the ranking at the rank reported, and has another id and another rank.\<close>
theorem arena_match_other:
  assumes "rank_holds arena_item_ops rl L" and "MatchArenaPlayer cfg draw pick p rl = Some ((pid, r), rl')"
    and "(pid, r) \<noteq> (0, 0)"
  shows "1 \<le> r \<and> r \<le> int (length L) \<and> ar_PlayerId (L ! nat (r - 1)) = pid
    \<and> pid \<noteq> ac_PlayerId p \<and> GetRankByKey arena_item_ops (ac_PlayerId p) rl \<noteq> Some r \<and> rank_holds arena_item_ops rl' L"
proof -
  obtain rank r0 last_rank where rank: "GetRankByKey arena_item_ops (ac_PlayerId p) rl = Some rank"
      and take: "match_take pick (match_shift rank last_rank r0) rl = Some ((pid, r), rl')"
    using assms(2,3) by (auto simp: MatchArenaPlayer_def bind_eq_Some_conv split: if_splits)
  define r1 where "r1 = match_shift rank last_rank r0"
  have ne: "r1 \<noteq> rank" by (auto simp: r1_def match_shift_def)
  obtain rl2 where g: "GetItemByRank arena_item_ops pick r1 rl
      = Some (if 1 \<le> r1 \<and> r1 \<le> int (length L) then Some (L ! nat (r1 - 1)) else None, rl2)"
      "rank_holds arena_item_ops rl2 L" using ar_items.item_by_any_rank [OF assms(1)] by blast
  have in_range: "1 \<le> r1 \<and> r1 \<le> int (length L)" and res: "pid = ar_PlayerId (L ! nat (r1 - 1))" "r = r1" "rl' = rl2"
    using take assms(3) g(1) unfolding r1_def [symmetric] match_take_def by (auto split: if_splits)
  have "GetRankByKey arena_item_ops (ar_PlayerId (L ! nat (r1 - 1))) rl = Some r1"
  proof -
    have "nat (r1 - 1) < length L" using in_range by linarith
    from ar_items.rank_by_key(1) [OF assms(1) this] in_range show ?thesis by simp
  qed
  then have "pid \<noteq> ac_PlayerId p" using rank ne res(1) by auto
  then show ?thesis using in_range res g(2) rank ne by simp
qed

text \<open>A player of rank 2 of 2, matched with an even streak.\<close>

definition rb_column :: ArenaColumn where
  "rb_column = \<lparr>ac_PlayerId = 9, ac_Score = 40, ac_UpdateScoreTime = 0, ac_RepeatedWinNum = 0,
     ac_RepeatedLoseNum = 0, ac_HistoryTopRank = 0\<rparr>"

definition match_config :: ArenaConfig where
  "match_config = \<lparr>ArenaRepeatedWinNum = 3, ArenaLoseRepeatedNum = 3, ArenaMatchPlayerNum = 2\<rparr>"

lemma rb_match:
  assumes "rank_holds arena_item_ops rl [ra, rb]"
  shows "\<exists>rl'. MatchArenaPlayer match_config (\<lambda>_. 0) None rb_column rl = Some ((7, 1), rl')"
proof -
  have r: "GetRankByKey arena_item_ops 9 rl = Some 2"
    using ar_items.rank_by_key(1) [OF assms, of 1] by (simp add: rb_def)
  have l: "RankList_GetLastRankRange 1 rl = Some (2, 1)"
    using ar_items.last_rank_range [OF assms, of 1] by simp
  obtain rl' where g: "GetItemByRank arena_item_ops None 1 rl = Some (Some ra, rl')"
    using ar_items.item_by_rank [OF assms, of 1 None] by auto
  have "match_start match_config rb_column 2 rl = Some (1, 2, 2)"
    using l by (simp add: match_start_def match_range_def match_config_def rb_column_def go_div_nonneg Let_def)
  then show ?thesis using r g
    by (simp add: MatchArenaPlayer_def rb_column_def rand31n_from_range_def draw_Int31n_def match_shift_def
      match_take_def ra_def)
qed

theorem arena_match_other_witness:
  "\<exists>rl. rank_holds arena_item_ops rl [ra, rb]
    \<and> (\<exists>rl'. MatchArenaPlayer match_config (\<lambda>_. 0) None rb_column rl = Some ((7, 1), rl'))
    \<and> (7 :: int) \<noteq> ac_PlayerId rb_column"
proof -
  obtain rl where rl: "rank_holds arena_item_ops rl [ra, rb]" using two_players by blast
  obtain rl' where m: "MatchArenaPlayer match_config (\<lambda>_. 0) None rb_column rl = Some ((7, 1), rl')"
    using rb_match [OF rl] by blast
  from arena_match_other [OF rl m] show ?thesis using rl m by auto
qed

text \<open>the ranks drawn from include one past the end (the upper bound of \<open>rand31n_from_range\<close> is
  inclusive): for a player without a rank the largest draw finds nobody, however many are ranked.\<close>
theorem arena_match_off_by_one:
  assumes "rank_holds arena_item_ops rl L" and "L \<noteq> []" and "int (length L) < max_int32 - 1"
    and "ac_PlayerId p \<notin> ar_PlayerId ` set L" and "0 < ArenaMatchPlayerNum cfg" and "\<forall>n. draw n = n - 1"
  shows "\<exists>rl'. MatchArenaPlayer cfg draw pick p rl = Some ((0, 0), rl')"
proof -
  let ?l = "int (length L)"
  define m where "m = min (ArenaMatchPlayerNum cfg) ?l"
  have l: "0 < ?l" using assms(2) by simp
  have r: "GetRankByKey arena_item_ops (ac_PlayerId p) rl = Some 0"
    by (rule ar_items.rank_by_key(2) [OF assms(1)]) (use assms(4) in \<open>metis arena_key image_eqI\<close>)
  have s: "match_start cfg p 0 rl = Some (?l - m + 1, m, 0)"
    using ar_items.last_rank_range [OF assms(1,2), of "ArenaMatchPlayerNum cfg"] assms(3,5)
    by (simp add: match_start_def m_def)
  have m: "0 < m" "m \<le> ?l" using l assms(5) by (auto simp: m_def)
  then have "i32 (?l - m + 1 + m) = ?l + 1" "i32 (?l + 1 - (?l - m + 1) + 1) = m + 1"
      "i32 (m + (?l - m + 1)) = ?l + 1"
    using assms(3) by (simp_all add: i32_id)
  then have d: "rand31n_from_range draw (?l - m + 1) (i32 (?l - m + 1 + m)) = Some (True, ?l + 1)"
    using m assms(6) by (simp add: rand31n_from_range_def draw_Int31n_def)
  obtain rl' where "GetItemByRank arena_item_ops pick (?l + 1) rl = Some (None, rl')"
    using ar_items.item_by_any_rank [OF assms(1), of pick "?l + 1"] by auto
  then have "match_take pick (match_shift 0 0 (?l + 1)) rl = Some ((0, 0), rl')"
    using l by (simp add: match_take_def match_shift_def)
  then show ?thesis unfolding MatchArenaPlayer_def r using s d m l by simp
qed

theorem arena_match_off_by_one_witness:
  "\<exists>rl rl'. rank_holds arena_item_ops rl [ra, rb]
    \<and> MatchArenaPlayer match_config (\<lambda>n. n - 1) None (rb_column\<lparr>ac_PlayerId := 5\<rparr>) rl = Some ((0, 0), rl')"
proof -
  obtain rl where rl: "rank_holds arena_item_ops rl [ra, rb]" using two_players by blast
  have "\<exists>rl'. MatchArenaPlayer match_config (\<lambda>n. n - 1) None (rb_column\<lparr>ac_PlayerId := 5\<rparr>) rl = Some ((0, 0), rl')"
    by (rule arena_match_off_by_one [OF rl]) (simp_all add: match_config_def ra_def rb_def)
  then show ?thesis using rl by blast
qed

end
