(* ===== verification/Short_Ranklist.thy ===== *)
theory Short_Ranklist
  imports Prelude "HOL-Library.Multiset"
begin

text \<open>
  The short ranking of \<open>libs/utils/short_ranklist.go\<close>: an array of items in descending order with a
  map from keys to positions. The items belong to the list (\<open>Update\<close> copies the caller's item), so
  they are values here. \<open>Update\<close> with \<open>add\<close> also writes the caller's item, which is part of the
  result. Positions are naturals; an index outside the array, or a method call on a nil item, is the
  result \<open>None\<close>.
\<close>

record ('i, 'k, 'w) short_node =
  sr_Less :: "'i \<Rightarrow> 'i \<Rightarrow> bool"
  sr_Greater :: "'i \<Rightarrow> 'i \<Rightarrow> bool"
  sr_GetKey :: "'i \<Rightarrow> 'k"
  sr_GetValue :: "'i \<Rightarrow> 'w"
  sr_Assign :: "'i \<Rightarrow> 'i \<Rightarrow> 'i"
  sr_Add :: "'i \<Rightarrow> 'i \<Rightarrow> 'i"
  sr_New :: 'i

record ('i, 'k) ShortRankList =
  sr_items :: "'i option list"
  sr_max_num :: int
  sr_curr_num :: nat
  keys_map :: "'k \<Rightarrow> nat option"

type_synonym ('i, 'k) sr_arrays = "'i option list \<times> ('k \<Rightarrow> nat option)"

definition ShortRankList_Init :: "int \<Rightarrow> ('i, 'k) ShortRankList option" where
  "ShortRankList_Init max_num =
     (if max_num \<le> 0 then None
      else Some \<lparr>sr_items = replicate (nat max_num) None, sr_max_num = max_num, sr_curr_num = 0,
        keys_map = (\<lambda>_. None)\<rparr>)"

definition sr_GetLength :: "('i, 'k) ShortRankList \<Rightarrow> int" where
  "sr_GetLength st = int (sr_curr_num st)"

section \<open>Update\<close>

text \<open>The item at a position; nil or out of range is \<open>None\<close>.\<close>

definition item_at :: "'i option list \<Rightarrow> nat \<Rightarrow> 'i option" where
  "item_at items i = (if i < length items then items ! i else None)"

text \<open>The scans for the position: back from \<open>n - 1\<close> while the item is greater, forward from \<open>i\<close>
  until it is.\<close>

primrec scan_back :: "('i, 'k, 'w) short_node \<Rightarrow> 'i \<Rightarrow> 'i option list \<Rightarrow> nat \<Rightarrow> nat option" where
  "scan_back ops item items 0 = Some 0"
| "scan_back ops item items (Suc i) = do {
     x \<leftarrow> item_at items i;
     if sr_Greater ops item x then scan_back ops item items i else Some (Suc i) }"

primrec scan_forward :: "('i, 'k, 'w) short_node \<Rightarrow> 'i \<Rightarrow> 'i option list \<Rightarrow> nat \<Rightarrow> nat \<Rightarrow> nat option" where
  "scan_forward ops item items i 0 = Some i"
| "scan_forward ops item items i (Suc n) = do {
     x \<leftarrow> item_at items i;
     if sr_Greater ops item x then Some i else scan_forward ops item items (Suc i) n }"

text \<open>One round of the loops that move the items between the old and the new position.\<close>

definition move_right :: "('i, 'k, 'w) short_node \<Rightarrow> nat \<Rightarrow> ('i, 'k) sr_arrays \<Rightarrow> ('i, 'k) sr_arrays option" where
  "move_right ops n = (\<lambda>(items, km). do {
     x \<leftarrow> item_at items n;
     (if Suc n < length items then Some (items[Suc n := Some x], km(sr_GetKey ops x \<mapsto> Suc n)) else None) })"

definition move_left :: "('i, 'k, 'w) short_node \<Rightarrow> nat \<Rightarrow> ('i, 'k) sr_arrays \<Rightarrow> ('i, 'k) sr_arrays option" where
  "move_left ops n = (\<lambda>(items, km). do {
     x \<leftarrow> item_at items n;
     (case n of 0 \<Rightarrow> None | Suc m \<Rightarrow> Some (items[m := Some x], km(sr_GetKey ops x \<mapsto> m))) })"

definition sr_update_new :: "('i, 'k, 'w) short_node \<Rightarrow> 'i \<Rightarrow> ('i, 'k) ShortRankList
    \<Rightarrow> (bool \<times> 'i \<times> ('i, 'k) ShortRankList) option" where
  "sr_update_new ops item st =
     (let c = sr_curr_num st; new_item = sr_Assign ops (sr_New ops) item; key = sr_GetKey ops item in
      if \<not> c < length (sr_items st) then None
      else do {
        let items = (sr_items st)[c := Some new_item];
        let km = (keys_map st)(key \<mapsto> c);
        b \<leftarrow> scan_back ops item items c;
        (items, km) \<leftarrow>
          (if b \<noteq> c then do {
             (items, km) \<leftarrow> for_each (move_right ops) (rev [b..<c]) (items, km);
             Some (items[b := Some new_item], km(key \<mapsto> b)) }
           else Some (items, km));
        Some (True, item, st\<lparr>sr_items := items, keys_map := km, sr_curr_num := c + 1\<rparr>) })"

text \<open>The range \<open>b..e\<close> to move and the new position, for an item already there; \<open>None\<close> inside when
  nothing changes. \<open>e\<close> is exclusive here.\<close>

definition sr_place :: "('i, 'k, 'w) short_node \<Rightarrow> 'i \<Rightarrow> 'i \<Rightarrow> nat \<Rightarrow> ('i, 'k) ShortRankList
    \<Rightarrow> (nat \<times> nat \<times> nat) option option" where
  "sr_place ops item old idx st =
     (if sr_Greater ops item old then do {
        b \<leftarrow> scan_back ops item (sr_items st) idx;
        Some (Some (b, idx, b)) }
      else if sr_Less ops item old then do {
        i \<leftarrow> scan_forward ops item (sr_items st) (Suc idx) (sr_curr_num st - Suc idx);
        Some (Some (Suc idx, i, i - 1)) }
      else Some None)"

definition sr_update_old :: "('i, 'k, 'w) short_node \<Rightarrow> 'i \<Rightarrow> bool \<Rightarrow> nat \<Rightarrow> ('i, 'k) ShortRankList
    \<Rightarrow> (bool \<times> 'i \<times> ('i, 'k) ShortRankList) option" where
  "sr_update_old ops item add idx st =
     (if \<not> idx < length (sr_items st) then None
      else case sr_items st ! idx of None \<Rightarrow> Some (False, item, st)
      | Some old \<Rightarrow>
          (let item = (if add then sr_Add ops item old else item) in do {
             place \<leftarrow> sr_place ops item old idx st;
             (case place of None \<Rightarrow> Some (False, item, st)
              | Some (b, e, pos) \<Rightarrow> do {
                  (items, km) \<leftarrow>
                    (if pos = idx then Some (sr_items st, keys_map st)
                     else if pos < idx then for_each (move_right ops) (rev [b..<e]) (sr_items st, keys_map st)
                     else for_each (move_left ops) [b..<e] (sr_items st, keys_map st));
                  let items = items[pos := Some (sr_Assign ops old item)];
                  let km = km(sr_GetKey ops (sr_Assign ops old item) \<mapsto> pos);
                  Some (True, item, st\<lparr>sr_items := items, keys_map := km\<rparr>) }) }))"

definition sr_Update :: "('i, 'k, 'w) short_node \<Rightarrow> 'i \<Rightarrow> bool \<Rightarrow> ('i, 'k) ShortRankList
    \<Rightarrow> (bool \<times> 'i \<times> ('i, 'k) ShortRankList) option" where
  "sr_Update ops item add st = (case keys_map st (sr_GetKey ops item) of
       None \<Rightarrow> if int (sr_curr_num st) \<ge> sr_max_num st then Some (False, item, st)
                else sr_update_new ops item st
     | Some idx \<Rightarrow> sr_update_old ops item add idx st)"

section \<open>Delete, Clear and the queries\<close>

definition sr_Delete :: "('i, 'k, 'w) short_node \<Rightarrow> 'k \<Rightarrow> ('i, 'k) ShortRankList
    \<Rightarrow> (bool \<times> ('i, 'k) ShortRankList) option" where
  "sr_Delete ops key st = (case keys_map st key of None \<Rightarrow> Some (False, st)
     | Some idx \<Rightarrow> do {
         (items, km) \<leftarrow> for_each (move_left ops) [Suc idx..<sr_curr_num st] (sr_items st, keys_map st);
         (if sr_curr_num st = 0 \<or> length items < sr_curr_num st then None
          else Some (True, st\<lparr>sr_items := items[sr_curr_num st - 1 := None], keys_map := km(key := None),
                              sr_curr_num := sr_curr_num st - 1\<rparr>)) })"

definition sr_Clear :: "('i, 'k) ShortRankList \<Rightarrow> ('i, 'k) ShortRankList" where
  "sr_Clear st = st\<lparr>sr_items := replicate (nat (sr_max_num st)) None, sr_curr_num := 0, keys_map := (\<lambda>_. None)\<rparr>"

definition sr_GetRank :: "'k \<Rightarrow> ('i, 'k) ShortRankList \<Rightarrow> int" where
  "sr_GetRank key st = (case keys_map st key of None \<Rightarrow> 0 | Some idx \<Rightarrow> int idx + 1)"

definition sr_GetByRank :: "('i, 'k, 'w) short_node \<Rightarrow> int \<Rightarrow> ('i, 'k) ShortRankList
    \<Rightarrow> ('k \<times> 'w) option option" where
  "sr_GetByRank ops rank st =
     (if int (sr_curr_num st) < rank then Some None
      else if rank < 1 \<or> int (length (sr_items st)) < rank then None
      else Some (map_option (\<lambda>x. (sr_GetKey ops x, sr_GetValue ops x)) (sr_items st ! nat (rank - 1))))"

definition sr_GetIndex :: "('i, 'k, 'w) short_node \<Rightarrow> int \<Rightarrow> ('i, 'k) ShortRankList \<Rightarrow> int option" where
  "sr_GetIndex ops rank st =
     (if int (sr_curr_num st) < rank then Some (- 1)
      else if rank < 1 \<or> int (length (sr_items st)) < rank then None
      else case sr_items st ! nat (rank - 1) of None \<Rightarrow> Some (- 1)
        | Some x \<Rightarrow> Some (case keys_map st (sr_GetKey ops x) of None \<Rightarrow> 0 | Some i \<Rightarrow> int i))"

end
