(* ===== verification/Short_Ranklist_Correct.thy ===== *)
theory Short_Ranklist_Correct
  imports Short_Ranklist
begin

text \<open>
  The short ranking refines a sorted list with one item per key: the representation invariant
  \<open>sr_inv\<close>, the loops that move items in terms of lists, and the effect of every operation on the
  list represented. The interface \<open>short_node_laws\<close> says what the items promise.
\<close>

section \<open>The key map as positions in a list\<close>

definition posmap :: "('i \<Rightarrow> 'k) \<Rightarrow> nat \<Rightarrow> 'i list \<Rightarrow> 'k \<Rightarrow> nat option" where
  "posmap key s L = map_of (zip (map key L) [s..<s + length L])"

lemma posmap_Nil [simp]: "posmap key s [] = (\<lambda>_. None)"
  by (simp add: posmap_def)

lemma posmap_Cons [simp]: "posmap key s (x # L) = (posmap key (Suc s) L)(key x \<mapsto> s)"
  by (simp add: posmap_def upt_conv_Cons del: upt_Suc)

lemma posmap_append: "posmap key s (A @ B) = posmap key (s + length A) B ++ posmap key s A"
  by (induction A arbitrary: s) simp_all

lemma posmap_None [simp]: "posmap key s L k = None \<longleftrightarrow> k \<notin> key ` set L"
  by (induction L arbitrary: s) auto

lemma posmap_out [simp]: "k \<notin> key ` set L \<Longrightarrow> posmap key s L k = None"
  by simp

lemma posmap_nth:
  "distinct (map key L) \<Longrightarrow> posmap key s L k = Some j \<longleftrightarrow> s \<le> j \<and> j < s + length L \<and> key (L ! (j - s)) = k"
proof (induction L arbitrary: s)
  case (Cons x L)
  have nth: "(x # L) ! (j - s) = L ! (j - Suc s)" "j - Suc s < length L" if "s \<le> j" "j \<noteq> s" "j < s + Suc (length L)"
    using that by (simp_all add: nth_Cons')
  show ?case
  proof (cases "k = key x")
    case True
    have "key (L ! i) \<noteq> key x" if "i < length L" for i
      using Cons.prems imageI [OF nth_mem [OF that], of key] by auto
    then show ?thesis using True nth by (cases "j = s") (auto dest: order.antisym simp: not_less_eq_eq)
  next
    case False
    then show ?thesis using Cons nth by (cases "j = s") auto
  qed
qed simp

definition sr_holds :: "('i, 'k, 'w) short_node \<Rightarrow> ('i, 'k) ShortRankList \<Rightarrow> 'i list \<Rightarrow> bool" where
  "sr_holds ops st vs \<longleftrightarrow>
     (\<exists>r. sr_items st = map Some vs @ replicate r None \<and> sr_max_num st = int (length vs + r)) \<and>
     sr_curr_num st = length vs \<and> distinct (map (sr_GetKey ops) vs) \<and>
     keys_map st = posmap (sr_GetKey ops) 0 vs \<and>
     sorted_wrt (\<lambda>a b. \<not> sr_Greater ops b a) vs"

section \<open>The loops\<close>

lemma item_at_Some: "item_at (map Some (A @ x # B) @ R) (length A) = Some x"
  by (simp add: item_at_def nth_append)

lemma move_right_loop:
  assumes "distinct (map (sr_GetKey ops) B)"
  shows "\<exists>w. for_each (move_right ops) (rev [length A..<length A + length B]) (map Some (A @ B) @ z # R, km)
    = Some (map Some A @ w # map Some B @ R, km ++ posmap (sr_GetKey ops) (Suc (length A)) B)"
  using assms
proof (induction B arbitrary: z R km rule: rev_induct)
  case (snoc y B)
  let ?k = "sr_GetKey ops y"
  have at: "item_at (map Some (A @ B @ [y]) @ z # R) (length A + length B) = Some y"
    using item_at_Some [of "A @ B" y "[]" "z # R"] by simp
  have step: "move_right ops (length A + length B) (map Some (A @ B @ [y]) @ z # R, km)
      = Some (map Some (A @ B) @ Some y # Some y # R, km(?k \<mapsto> Suc (length A + length B)))"
    using at by (simp add: move_right_def list_update_append)
  obtain w where "for_each (move_right ops) (rev [length A..<length A + length B])
      (map Some (A @ B) @ Some y # Some y # R, km(?k \<mapsto> Suc (length A + length B)))
    = Some (map Some A @ w # map Some B @ Some y # R,
        km(?k \<mapsto> Suc (length A + length B)) ++ posmap (sr_GetKey ops) (Suc (length A)) B)"
    using snoc by (metis distinct_append map_append)
  moreover have "km(?k \<mapsto> Suc (length A + length B)) ++ posmap (sr_GetKey ops) (Suc (length A)) B
      = km ++ posmap (sr_GetKey ops) (Suc (length A)) (B @ [y])"
    by (simp add: posmap_append)
  ultimately show ?case using step by simp
qed simp

lemma move_left_loop:
  assumes "distinct (map (sr_GetKey ops) B)"
  shows "\<exists>w. for_each (move_left ops) [Suc (length A)..<Suc (length A) + length B]
      (map Some A @ z # map Some B @ R, km)
    = Some (map Some (A @ B) @ w # R, km ++ posmap (sr_GetKey ops) (length A) B)"
  using assms
proof (induction B arbitrary: A z km)
  case (Cons y B)
  let ?k = "sr_GetKey ops y"
  have at: "item_at (map Some A @ z # Some y # map Some B @ R) (Suc (length A)) = Some y"
    by (simp add: item_at_def nth_append)
  have step: "move_left ops (Suc (length A)) (map Some A @ z # map Some (y # B) @ R, km)
      = Some (map Some (A @ [y]) @ Some y # map Some B @ R, km(?k \<mapsto> length A))"
    using at by (simp add: move_left_def list_update_append)
  have d: "distinct (map (sr_GetKey ops) B)" using Cons.prems by simp
  obtain w where w: "for_each (move_left ops) [Suc (length (A @ [y]))..<Suc (length (A @ [y])) + length B]
      (map Some (A @ [y]) @ Some y # map Some B @ R, km(?k \<mapsto> length A))
    = Some (map Some ((A @ [y]) @ B) @ w # R, km(?k \<mapsto> length A) ++ posmap (sr_GetKey ops) (length (A @ [y])) B)"
    using Cons.IH [OF d, of "A @ [y]" "Some y" "km(?k \<mapsto> length A)"] by blast
  have "?k \<notin> dom (posmap (sr_GetKey ops) (Suc (length A)) B)"
    using Cons.prems by (auto simp: dom_def)
  then have "km(?k \<mapsto> length A) ++ posmap (sr_GetKey ops) (Suc (length A)) B
      = km ++ posmap (sr_GetKey ops) (length A) (y # B)"
    by (simp add: map_add_upd_left)
  moreover have "[Suc (length A)..<Suc (length A) + length (y # B)]
      = Suc (length A) # [Suc (length (A @ [y]))..<Suc (length (A @ [y])) + length B]"
    by (simp add: upt_conv_Cons del: upt_Suc)
  ultimately show ?case using step w by (simp del: upt_Suc posmap_Cons)
qed simp

lemma scan_back_split:
  "\<exists>A B. P = A @ B \<and> scan_back ops x (map Some P @ R) (length P) = Some (length A)
    \<and> (\<forall>y \<in> set B. sr_Greater ops x y) \<and> (A \<noteq> [] \<longrightarrow> \<not> sr_Greater ops x (last A))"
proof (induction P arbitrary: R rule: rev_induct)
  case (snoc p P)
  have at: "item_at (map Some (P @ [p]) @ R) (length P) = Some p"
    using item_at_Some [of P p "[]" R] by simp
  show ?case
  proof (cases "sr_Greater ops x p")
    case True
    obtain A B where "P = A @ B" "scan_back ops x (map Some P @ Some p # R) (length P) = Some (length A)"
        "\<forall>y \<in> set B. sr_Greater ops x y" "A \<noteq> [] \<longrightarrow> \<not> sr_Greater ops x (last A)"
      using snoc.IH [of "Some p # R"] by blast
    then show ?thesis using at True by (intro exI [of _ A] exI [of _ "B @ [p]"]) auto
  next
    case False
    then show ?thesis using at by (intro exI [of _ "P @ [p]"] exI [of _ "[]"]) simp
  qed
qed simp

lemma scan_forward_split:
  "\<exists>B C. Q = B @ C \<and> scan_forward ops x (map Some (P @ Q) @ R) (length P) (length Q) = Some (length P + length B)
    \<and> (\<forall>y \<in> set B. \<not> sr_Greater ops x y) \<and> (C \<noteq> [] \<longrightarrow> sr_Greater ops x (hd C))"
proof (induction Q arbitrary: P)
  case (Cons q Q)
  have at: "item_at (map Some (P @ q # Q) @ R) (length P) = Some q" by (rule item_at_Some)
  show ?case
  proof (cases "sr_Greater ops x q")
    case True
    then show ?thesis using at by (intro exI [of _ "[]"] exI [of _ "q # Q"]) simp
  next
    case False
    obtain B C where "Q = B @ C" "scan_forward ops x (map Some ((P @ [q]) @ Q) @ R) (length (P @ [q])) (length Q)
        = Some (length (P @ [q]) + length B)" "\<forall>y \<in> set B. \<not> sr_Greater ops x y"
        "C \<noteq> [] \<longrightarrow> sr_Greater ops x (hd C)"
      using Cons.IH [of "P @ [q]"] by blast
    then show ?thesis using at False by (intro exI [of _ "q # B"] exI [of _ C]) simp
  qed
qed simp

section \<open>The operations\<close>

text \<open>Where an item belongs: after every item it is not greater than.\<close>

definition short_put :: "('i, 'k, 'w) short_node \<Rightarrow> 'i \<Rightarrow> 'i list \<Rightarrow> 'i list" where
  "short_put ops x L = takeWhile (\<lambda>y. \<not> sr_Greater ops x y) L @ x # dropWhile (\<lambda>y. \<not> sr_Greater ops x y) L"

locale short_node_laws =
  fixes ops :: "('i, 'k, 'w) short_node"
  assumes gt_asym: "sr_Greater ops a b \<Longrightarrow> \<not> sr_Greater ops b a"
    and gt_cotrans: "sr_Greater ops a b \<Longrightarrow> sr_Greater ops a c \<or> sr_Greater ops c b"
    and less_gt: "sr_Less ops a b \<longleftrightarrow> sr_Greater ops b a"
    and assign: "sr_Assign ops a b = b"
    and add_key: "sr_GetKey ops (sr_Add ops a b) = sr_GetKey ops a"

context short_node_laws
begin

abbreviation down :: "'i list \<Rightarrow> bool" where
  "down vs \<equiv> sorted_wrt (\<lambda>a b. \<not> sr_Greater ops b a) vs"

lemma put_split:
  assumes s: "down (A @ B)" and A: "A \<noteq> [] \<longrightarrow> \<not> sr_Greater ops x (last A)"
    and B: "B \<noteq> [] \<longrightarrow> sr_Greater ops x (hd B)"
  shows "short_put ops x (A @ B) = A @ x # B" and "down (A @ x # B)"
proof -
  have ge: "\<forall>a \<in> set A. \<not> sr_Greater ops x a"
  proof (cases A rule: rev_cases)
    case (snoc A' l)
    have "\<not> sr_Greater ops l a" if "a \<in> set A'" for a
      using s that unfolding snoc sorted_wrt_append by simp
    then show ?thesis using A gt_cotrans unfolding snoc by fastforce
  qed simp
  have gt: "\<forall>b \<in> set B. sr_Greater ops x b"
  proof (cases B)
    case (Cons h B')
    have "\<not> sr_Greater ops b h" if "b \<in> set B'" for b
      using s that unfolding Cons sorted_wrt_append by simp
    then show ?thesis using B gt_cotrans unfolding Cons by fastforce
  qed simp
  have "takeWhile (\<lambda>y. \<not> sr_Greater ops x y) (A @ B) = A"
    using ge gt by (cases B) (auto simp: takeWhile_append2 takeWhile_tail takeWhile_eq_all_conv)
  moreover have "dropWhile (\<lambda>y. \<not> sr_Greater ops x y) (A @ B) = B"
    using ge gt by (cases B) (auto simp: dropWhile_append2 dropWhile_eq_Nil_conv)
  ultimately show "short_put ops x (A @ B) = A @ x # B" by (simp add: short_put_def)
  show "down (A @ x # B)"
    using s ge gt gt_asym unfolding sorted_wrt_append by auto
qed

end

text \<open>The key map after the moves.\<close>

lemma posmap_SomeD: "posmap key s L k = Some j \<Longrightarrow> k \<in> key ` set L"
  using posmap_None [of key s L k] by (metis option.distinct(1))

text \<open>Two positions for one key in disjoint lists.\<close>

lemma posmap_clash:
  assumes "posmap key s A k = Some i" and "posmap key t B k = Some j" and "key ` set A \<inter> key ` set B = {}"
  shows False
  using posmap_SomeD [OF assms(1)] posmap_SomeD [OF assms(2)] assms(3) by blast

lemma posmap_new:
  assumes "distinct (map key (A @ B))" and "key x \<notin> key ` set (A @ B)"
  shows "((posmap key 0 (A @ B))(key x \<mapsto> c) ++ posmap key (Suc (length A)) B)(key x \<mapsto> length A)
    = posmap key 0 (A @ x # B)"
  using assms
  by (auto simp: posmap_append fun_eq_iff map_add_def  Int_Un_distrib split: option.splits dest: posmap_SomeD posmap_clash)

lemma posmap_up:
  assumes "distinct (map key (A @ B @ old # C))" and "key x = key old"
  shows "(posmap key 0 (A @ B @ old # C) ++ posmap key (Suc (length A)) B)(key x \<mapsto> length A)
    = posmap key 0 (A @ x # B @ C)"
  using assms
  by (auto simp: posmap_append fun_eq_iff map_add_def  Int_Un_distrib split: option.splits dest: posmap_SomeD posmap_clash)

lemma posmap_down:
  assumes "distinct (map key (A @ old # B @ C))" and "key x = key old"
  shows "(posmap key 0 (A @ old # B @ C) ++ posmap key (length A) B)(key x \<mapsto> length A + length B)
    = posmap key 0 (A @ B @ x # C)"
  using assms
  by (auto simp: posmap_append fun_eq_iff map_add_def  Int_Un_distrib split: option.splits dest: posmap_SomeD posmap_clash)

lemma posmap_remove:
  assumes "distinct (map key (A @ old # B))"
  shows "(posmap key 0 (A @ old # B) ++ posmap key (length A) B)(key old := None) = posmap key 0 (A @ B)"
  using assms
  by (auto simp: posmap_append fun_eq_iff map_add_def  Int_Un_distrib split: option.splits dest: posmap_SomeD posmap_clash)

section \<open>What the operations do to the list\<close>

context short_node_laws
begin

lemma update_full:
  assumes "sr_holds ops st vs" and "sr_GetKey ops x \<notin> sr_GetKey ops ` set vs" and "sr_max_num st \<le> int (length vs)"
  shows "sr_Update ops x add st = Some (False, x, st)"
  using assms by (simp add: sr_Update_def sr_holds_def)

lemma update_new:
  assumes h: "sr_holds ops st vs" and new: "sr_GetKey ops x \<notin> sr_GetKey ops ` set vs"
    and room: "int (length vs) < sr_max_num st"
  shows "\<exists>st'. sr_Update ops x add st = Some (True, x, st') \<and> sr_holds ops st' (short_put ops x vs)
    \<and> sr_max_num st' = sr_max_num st"
proof -
  let ?key = "sr_GetKey ops"
  obtain r where st: "sr_items st = map Some vs @ replicate r None" "sr_max_num st = int (length vs + r)"
      "sr_curr_num st = length vs" "distinct (map ?key vs)" "keys_map st = posmap ?key 0 vs" "down vs"
    using h by (auto simp: sr_holds_def)
  obtain r' where r: "r = Suc r'" using room st(2) by (cases r) auto
  let ?R = "replicate r' None"
  have it: "(sr_items st)[length vs := Some x] = map Some vs @ Some x # ?R"
    using st(1) r by (simp add: list_update_append)
  obtain A B where AB: "vs = A @ B" "scan_back ops x (map Some vs @ Some x # ?R) (length vs) = Some (length A)"
      "\<forall>y \<in> set B. sr_Greater ops x y" "A \<noteq> [] \<longrightarrow> \<not> sr_Greater ops x (last A)"
    using scan_back_split [of vs ops x "Some x # ?R"] by blast
  have put: "short_put ops x vs = A @ x # B" "down (A @ x # B)"
    using put_split [of A B x] st(6) AB by (cases B; simp)+
  have dB: "distinct (map ?key B)" "distinct (map ?key (A @ B))" "?key x \<notin> ?key ` set (A @ B)"
    using st(4) new AB(1) by auto
  obtain w where loop: "for_each (move_right ops) (rev [length A..<length A + length B])
      (map Some (A @ B) @ Some x # ?R, (posmap ?key 0 vs)(?key x \<mapsto> length vs))
    = Some (map Some A @ w # map Some B @ ?R, (posmap ?key 0 vs)(?key x \<mapsto> length vs) ++ posmap ?key (Suc (length A)) B)"
    using move_right_loop [OF dB(1), of A "Some x" ?R] by blast
  have km: "((posmap ?key 0 vs)(?key x \<mapsto> length vs) ++ posmap ?key (Suc (length A)) B)(?key x \<mapsto> length A)
      = posmap ?key 0 (A @ x # B)"
    unfolding AB(1) using posmap_new [OF dB(2,3)] .
  let ?st = "st\<lparr>sr_items := map Some (A @ x # B) @ ?R, keys_map := posmap ?key 0 (A @ x # B), sr_curr_num := length vs + 1\<rparr>"
  have run: "sr_Update ops x add st = Some (True, x, ?st)"
  proof (cases "B = []")
    case True
    have "(posmap ?key 0 vs)(?key x \<mapsto> length vs) = posmap ?key 0 (A @ x # B)"
      using km True AB(1) by simp
    then show ?thesis
      using st r new room it AB(1,2) True assign
      by (simp add: sr_Update_def sr_update_new_def Let_def del: posmap_Cons)
  next
    case False
    have "(map Some A @ w # map Some B @ ?R)[length A := Some x] = map Some (A @ x # B) @ ?R"
      by (simp add: list_update_append)
    then show ?thesis
      using st r new room it AB(1,2) False assign loop km
      by (simp add: sr_Update_def sr_update_new_def Let_def del: posmap_Cons upt_Suc)
  qed
  have "sr_holds ops ?st (short_put ops x vs)"
    unfolding sr_holds_def put(1)
    using put(2) dB st(2) r AB(1) by (auto intro!: exI [of _ r'] simp del: posmap_Cons)
  then show ?thesis using run by (intro exI [of _ ?st]) simp
qed

lemma update_old:
  fixes add :: bool
  assumes h: "sr_holds ops st (P @ old # Q)" and key: "sr_GetKey ops old = sr_GetKey ops x"
  defines "y \<equiv> if add then sr_Add ops x old else x"
  shows "\<exists>b st'. sr_Update ops x add st = Some (b, y, st') \<and> (b \<longleftrightarrow> sr_Greater ops y old \<or> sr_Greater ops old y)
    \<and> sr_holds ops st' (if b then short_put ops y (P @ Q) else P @ old # Q) \<and> sr_max_num st' = sr_max_num st"
proof -
  let ?key = "sr_GetKey ops" and ?vs = "P @ old # Q"
  obtain r where st: "sr_items st = map Some ?vs @ replicate r None" "sr_max_num st = int (length ?vs + r)"
      "sr_curr_num st = length ?vs" "distinct (map ?key ?vs)" "keys_map st = posmap ?key 0 ?vs" "down ?vs"
    using h by (auto simp: sr_holds_def)
  let ?R = "replicate r None :: 'i option list"
  have ky: "?key old = ?key y" using key by (simp add: y_def add_key)
  have kd: "?key x \<notin> ?key ` set P" using st(4) key by auto
  have idx: "keys_map st (?key x) = Some (length P)"
    using kd key st(5) by (simp add: posmap_append map_add_def posmap_out)
  have start: "sr_Update ops x add st = (do {
      place \<leftarrow> sr_place ops y old (length P) st;
      (case place of None \<Rightarrow> Some (False, y, st)
       | Some (b, e, pos) \<Rightarrow> do {
           (items, km) \<leftarrow>
             (if pos = length P then Some (sr_items st, keys_map st)
              else if pos < length P then for_each (move_right ops) (rev [b..<e]) (sr_items st, keys_map st)
              else for_each (move_left ops) [b..<e] (sr_items st, keys_map st));
           Some (True, y, st\<lparr>sr_items := items[pos := Some y], keys_map := km(?key y \<mapsto> pos)\<rparr>) }) })"
    using idx st(1) by (simp add: sr_Update_def sr_update_old_def y_def [symmetric] assign nth_append Let_def)
  have dPQ: "down (P @ Q)" using st(6) unfolding sorted_wrt_append by simp
  consider (up) "sr_Greater ops y old" | (dn) "sr_Greater ops old y" "\<not> sr_Greater ops y old"
    | (eq) "\<not> sr_Greater ops y old" "\<not> sr_Greater ops old y" by blast
  then show ?thesis
  proof cases
    case eq
    then have "sr_place ops y old (length P) st = Some None" by (simp add: sr_place_def less_gt)
    then show ?thesis using start h eq by auto
  next
    case up
    obtain A B where AB: "P = A @ B" "scan_back ops y (map Some P @ Some old # map Some Q @ ?R) (length P) = Some (length A)"
        "\<forall>z \<in> set B. sr_Greater ops y z" "A \<noteq> [] \<longrightarrow> \<not> sr_Greater ops y (last A)"
      using scan_back_split [of P ops y "Some old # map Some Q @ ?R"] by blast
    have pl: "sr_place ops y old (length P) st = Some (Some (length A, length P, length A))"
      using up AB(2) st(1) by (simp add: sr_place_def)
    have hd: "B @ Q \<noteq> [] \<longrightarrow> sr_Greater ops y (hd (B @ Q))"
    proof (cases B)
      case Nil
      have "\<not> sr_Greater ops (hd Q) old" if "Q \<noteq> []"
        using st(6) that unfolding sorted_wrt_append by (cases Q) auto
      then show ?thesis using Nil gt_cotrans [OF up] by auto
    qed (use AB(3) in simp)
    have put: "short_put ops y (P @ Q) = A @ y # B @ Q" "down (A @ y # B @ Q)"
      using put_split [of A "B @ Q" y] dPQ AB(1,4) hd by simp_all
    have dB: "distinct (map ?key B)" "distinct (map ?key (A @ B @ old # Q))" using st(4) AB(1) by auto
    obtain w where loop: "for_each (move_right ops) (rev [length A..<length A + length B])
        (map Some (A @ B) @ Some old # map Some Q @ ?R, posmap ?key 0 ?vs)
      = Some (map Some A @ w # map Some B @ map Some Q @ ?R, posmap ?key 0 ?vs ++ posmap ?key (Suc (length A)) B)"
      using move_right_loop [OF dB(1), of A "Some old" "map Some Q @ ?R"] by blast
    have km: "(posmap ?key 0 ?vs ++ posmap ?key (Suc (length A)) B)(?key y \<mapsto> length A) = posmap ?key 0 (A @ y # B @ Q)"
      using posmap_up [OF dB(2) ky [symmetric]] AB(1) by (simp del: posmap_Cons)
    let ?st = "st\<lparr>sr_items := map Some (A @ y # B @ Q) @ ?R, keys_map := posmap ?key 0 (A @ y # B @ Q)\<rparr>"
    have run: "sr_Update ops x add st = Some (True, y, ?st)"
    proof (cases "B = []")
      case True
      then have "(posmap ?key 0 ?vs)(?key y \<mapsto> length A) = posmap ?key 0 (A @ y # B @ Q)" using km by simp
      then show ?thesis unfolding start pl using True AB(1) st(1,5)
        by (simp add: list_update_append Let_def del: posmap_Cons)
    next
      case False
      have "(map Some A @ w # map Some B @ map Some Q @ ?R)[length A := Some y] = map Some (A @ y # B @ Q) @ ?R"
        by (simp add: list_update_append)
      then show ?thesis unfolding start pl using False AB(1) st(1,5) loop km
        by (simp add: Let_def del: posmap_Cons upt_Suc)
    qed
    have "sr_holds ops ?st (A @ y # B @ Q)"
      unfolding sr_holds_def using put(2) dB st(2,3) AB(1) ky
      by (auto intro!: exI [of _ r] simp del: posmap_Cons)
    then show ?thesis using run up put(1) by (intro exI [of _ True] exI [of _ ?st]) simp
  next
    case dn
    obtain B C where BC: "Q = B @ C"
        "scan_forward ops y (map Some ((P @ [old]) @ Q) @ ?R) (length (P @ [old])) (length Q) = Some (length (P @ [old]) + length B)"
        "\<forall>z \<in> set B. \<not> sr_Greater ops y z" "C \<noteq> [] \<longrightarrow> sr_Greater ops y (hd C)"
      using scan_forward_split [of Q ops y "P @ [old]" ?R] by blast
    have pl: "sr_place ops y old (length P) st
        = Some (Some (Suc (length P), Suc (length P) + length B, length P + length B))"
      using dn BC(2) st(1,3) by (simp add: sr_place_def less_gt)
    have lst: "P @ B \<noteq> [] \<longrightarrow> \<not> sr_Greater ops y (last (P @ B))"
    proof (cases B rule: rev_cases)
      case Nil
      have "\<not> sr_Greater ops old (last P)" if "P \<noteq> []"
        using st(6) that unfolding sorted_wrt_append by simp
      then show ?thesis using Nil gt_cotrans [of y "last P" old] gt_asym dn by auto
    qed (use BC(3) in simp)
    have put: "short_put ops y (P @ Q) = P @ B @ y # C" "down (P @ B @ y # C)"
      using put_split [of "P @ B" C y] dPQ BC(1,4) lst by simp_all
    have dB: "distinct (map ?key B)" "distinct (map ?key (P @ old # B @ C))" using st(4) BC(1) by auto
    obtain w where loop: "for_each (move_left ops) [Suc (length P)..<Suc (length P) + length B]
        (map Some P @ Some old # map Some B @ map Some C @ ?R, posmap ?key 0 ?vs)
      = Some (map Some (P @ B) @ w # map Some C @ ?R, posmap ?key 0 ?vs ++ posmap ?key (length P) B)"
      using move_left_loop [OF dB(1), of P "Some old" "map Some C @ ?R"] by blast
    have km: "(posmap ?key 0 ?vs ++ posmap ?key (length P) B)(?key y \<mapsto> length P + length B) = posmap ?key 0 (P @ B @ y # C)"
      using posmap_down [OF dB(2) ky [symmetric]] BC(1) by (simp del: posmap_Cons)
    let ?st = "st\<lparr>sr_items := map Some (P @ B @ y # C) @ ?R, keys_map := posmap ?key 0 (P @ B @ y # C)\<rparr>"
    have run: "sr_Update ops x add st = Some (True, y, ?st)"
    proof (cases "B = []")
      case True
      then have "(posmap ?key 0 ?vs)(?key y \<mapsto> length P) = posmap ?key 0 (P @ B @ y # C)" using km by simp
      then show ?thesis unfolding start pl using True BC(1) st(1,5)
        by (simp add: list_update_append Let_def del: posmap_Cons)
    next
      case False
      have "(map Some (P @ B) @ w # map Some C @ ?R)[length P + length B := Some y] = map Some (P @ B @ y # C) @ ?R"
        by (simp add: list_update_append)
      then show ?thesis unfolding start pl using False BC(1) st(1,5) loop km
        by (simp add: Let_def del: posmap_Cons upt_Suc)
    qed
    have "sr_holds ops ?st (P @ B @ y # C)"
      unfolding sr_holds_def using put(2) dB st(2,3) BC(1) ky
      by (auto intro!: exI [of _ r] simp del: posmap_Cons)
    then show ?thesis using run dn put(1) by (intro exI [of _ True] exI [of _ ?st]) simp
  qed
qed

lemma delete_key:
  assumes h: "sr_holds ops st (P @ old # Q)"
  shows "\<exists>st'. sr_Delete ops (sr_GetKey ops old) st = Some (True, st') \<and> sr_holds ops st' (P @ Q)
    \<and> sr_max_num st' = sr_max_num st"
proof -
  let ?key = "sr_GetKey ops" and ?vs = "P @ old # Q"
  obtain r where st: "sr_items st = map Some ?vs @ replicate r None" "sr_max_num st = int (length ?vs + r)"
      "sr_curr_num st = length ?vs" "distinct (map ?key ?vs)" "keys_map st = posmap ?key 0 ?vs" "down ?vs"
    using h by (auto simp: sr_holds_def)
  let ?R = "replicate r None :: 'i option list"
  have "?key old \<notin> ?key ` set P" using st(4) by auto
  then have idx: "keys_map st (?key old) = Some (length P)"
    using st(5) by (simp add: posmap_append map_add_def posmap_out)
  have dQ: "distinct (map ?key Q)" using st(4) by simp
  obtain w where loop: "for_each (move_left ops) [Suc (length P)..<Suc (length P) + length Q]
      (map Some P @ Some old # map Some Q @ ?R, posmap ?key 0 ?vs)
    = Some (map Some (P @ Q) @ w # ?R, posmap ?key 0 ?vs ++ posmap ?key (length P) Q)"
    using move_left_loop [OF dQ, of P "Some old" ?R] by blast
  have km: "(posmap ?key 0 ?vs ++ posmap ?key (length P) Q)(?key old := None) = posmap ?key 0 (P @ Q)"
    using posmap_remove [OF st(4)] .
  have last: "(map Some (P @ Q) @ w # ?R)[length P + length Q := None] = map Some (P @ Q) @ replicate (Suc r) None"
    by (simp add: list_update_append)
  let ?st = "st\<lparr>sr_items := map Some (P @ Q) @ replicate (Suc r) None, keys_map := posmap ?key 0 (P @ Q),
      sr_curr_num := length (P @ Q)\<rparr>"
  have "sr_Delete ops (?key old) st = Some (True, ?st)"
    using idx st(1,3,5) loop km last by (simp add: sr_Delete_def del: posmap_Cons upt_Suc)
  moreover have "sr_holds ops ?st (P @ Q)"
    unfolding sr_holds_def using st(2,4,6) unfolding sorted_wrt_append
    by (auto intro!: exI [of _ "Suc r"])
  ultimately show ?thesis by (intro exI [of _ ?st]) simp
qed

lemma delete_absent:
  assumes "sr_holds ops st vs" and "k \<notin> sr_GetKey ops ` set vs"
  shows "sr_Delete ops k st = Some (False, st)"
  using assms by (simp add: sr_Delete_def sr_holds_def)

lemma rank_positions:
  assumes "sr_holds ops st vs" and "i < length vs"
  shows "sr_GetRank (sr_GetKey ops (vs ! i)) st = int i + 1"
    and "sr_GetByRank ops (int i + 1) st = Some (Some (sr_GetKey ops (vs ! i), sr_GetValue ops (vs ! i)))"
    and "sr_GetIndex ops (int i + 1) st = Some (int i)"
proof -
  obtain r where st: "sr_items st = map Some vs @ replicate r None" "sr_curr_num st = length vs"
      "distinct (map (sr_GetKey ops) vs)" "keys_map st = posmap (sr_GetKey ops) 0 vs"
    using assms(1) by (auto simp: sr_holds_def)
  have k: "keys_map st (sr_GetKey ops (vs ! i)) = Some i"
    using posmap_nth [OF st(3), of 0 _ i] st(4) assms(2) by simp
  have at: "sr_items st ! i = Some (vs ! i)" using st(1) assms(2) by (simp add: nth_append)
  show "sr_GetRank (sr_GetKey ops (vs ! i)) st = int i + 1" using k by (simp add: sr_GetRank_def)
  have r: "nat (int i + 1 - 1) = i" "\<not> int (length vs) < int i + 1" "\<not> int (length (sr_items st)) < int i + 1"
    using assms(2) st(1) by simp_all
  show "sr_GetByRank ops (int i + 1) st = Some (Some (sr_GetKey ops (vs ! i), sr_GetValue ops (vs ! i)))"
    using st(2) at r by (simp add: sr_GetByRank_def)
  show "sr_GetIndex ops (int i + 1) st = Some (int i)"
    using st(2) at r k by (simp add: sr_GetIndex_def)
qed

lemma init_holds: "0 < n \<Longrightarrow> \<exists>st. ShortRankList_Init n = Some st \<and> sr_holds ops st [] \<and> sr_max_num st = n"
  by (auto simp: ShortRankList_Init_def sr_holds_def)

lemma clear_holds: "sr_holds ops st vs \<Longrightarrow> sr_holds ops (sr_Clear st) []"
  by (auto simp: sr_holds_def sr_Clear_def nat_add_distrib)

end

end
