(* ===== verification/Damage_Ranks.thy ===== *)
theory Damage_Ranks
  imports Short_Ranklist_Correct "HOL-Library.AList"
begin

text \<open>
  The users of the short ranking: the damage ranking of a guild boss (\<open>hall_server/guild_stage.go\<close>)
  and a player's roles by power (\<open>hall_server/player_role_power_rank.go\<close>), with the test item of
  \<open>libs/utils/short_ranklist.go\<close>. A nil argument of an item's method is \<open>None\<close>. The table column
  \<open>DamageLogs\<close> of a guild stage is an association list, in the order \<open>GetAllIndex\<close> enumerates it.
\<close>

section \<open>Items\<close>

record TestShortRankItem =
  ts_Id :: int
  ts_Value :: int

definition TestShortRankItem_Less :: "TestShortRankItem \<Rightarrow> TestShortRankItem option \<Rightarrow> bool" where
  "TestShortRankItem_Less this item = (case item of None \<Rightarrow> False | Some it \<Rightarrow> ts_Value this < ts_Value it)"

definition TestShortRankItem_Greater :: "TestShortRankItem \<Rightarrow> TestShortRankItem option \<Rightarrow> bool" where
  "TestShortRankItem_Greater this item = (case item of None \<Rightarrow> False | Some it \<Rightarrow> ts_Value this > ts_Value it)"

definition TestShortRankItem_Assign :: "TestShortRankItem \<Rightarrow> TestShortRankItem option \<Rightarrow> TestShortRankItem" where
  "TestShortRankItem_Assign this item = (case item of None \<Rightarrow> this
     | Some it \<Rightarrow> this\<lparr>ts_Id := ts_Id it, ts_Value := ts_Value it\<rparr>)"

definition TestShortRankItem_Add :: "TestShortRankItem \<Rightarrow> TestShortRankItem option \<Rightarrow> TestShortRankItem" where
  "TestShortRankItem_Add this item = (case item of None \<Rightarrow> this
     | Some it \<Rightarrow> if ts_Id this = ts_Id it then this\<lparr>ts_Value := i32 (ts_Value this + ts_Value it)\<rparr> else this)"

definition test_item_ops :: "(TestShortRankItem, int, int) short_node" where
  "test_item_ops = \<lparr>sr_Less = (\<lambda>a b. TestShortRankItem_Less a (Some b)),
     sr_Greater = (\<lambda>a b. TestShortRankItem_Greater a (Some b)), sr_GetKey = ts_Id, sr_GetValue = ts_Value,
     sr_Assign = (\<lambda>a b. TestShortRankItem_Assign a (Some b)), sr_Add = (\<lambda>a b. TestShortRankItem_Add a (Some b)),
     sr_New = \<lparr>ts_Id = 0, ts_Value = 0\<rparr>\<rparr>"

interpretation test_items: short_node_laws test_item_ops
  by unfold_locales (auto simp: test_item_ops_def TestShortRankItem_Less_def TestShortRankItem_Greater_def
    TestShortRankItem_Assign_def TestShortRankItem_Add_def)

record GuildStageDamageItem =
  gd_AttackerId :: int
  gd_Damage :: int

definition GuildStageDamageItem_Less :: "GuildStageDamageItem \<Rightarrow> GuildStageDamageItem option \<Rightarrow> bool" where
  "GuildStageDamageItem_Less this item = (case item of None \<Rightarrow> False | Some it \<Rightarrow> gd_Damage this < gd_Damage it)"

definition GuildStageDamageItem_Greater :: "GuildStageDamageItem \<Rightarrow> GuildStageDamageItem option \<Rightarrow> bool" where
  "GuildStageDamageItem_Greater this item = (case item of None \<Rightarrow> False | Some it \<Rightarrow> gd_Damage this > gd_Damage it)"

definition GuildStageDamageItem_Assign :: "GuildStageDamageItem \<Rightarrow> GuildStageDamageItem option \<Rightarrow> GuildStageDamageItem" where
  "GuildStageDamageItem_Assign this item = (case item of None \<Rightarrow> this
     | Some it \<Rightarrow> this\<lparr>gd_AttackerId := gd_AttackerId it, gd_Damage := gd_Damage it\<rparr>)"

definition GuildStageDamageItem_Add :: "GuildStageDamageItem \<Rightarrow> GuildStageDamageItem option \<Rightarrow> GuildStageDamageItem" where
  "GuildStageDamageItem_Add this item = (case item of None \<Rightarrow> this
     | Some it \<Rightarrow> if gd_AttackerId this = gd_AttackerId it
         then this\<lparr>gd_Damage := i32 (gd_Damage this + gd_Damage it)\<rparr> else this)"

definition damage_ops :: "(GuildStageDamageItem, int, int) short_node" where
  "damage_ops = \<lparr>sr_Less = (\<lambda>a b. GuildStageDamageItem_Less a (Some b)),
     sr_Greater = (\<lambda>a b. GuildStageDamageItem_Greater a (Some b)), sr_GetKey = gd_AttackerId,
     sr_GetValue = gd_Damage, sr_Assign = (\<lambda>a b. GuildStageDamageItem_Assign a (Some b)),
     sr_Add = (\<lambda>a b. GuildStageDamageItem_Add a (Some b)), sr_New = \<lparr>gd_AttackerId = 0, gd_Damage = 0\<rparr>\<rparr>"

interpretation damage_items: short_node_laws damage_ops
  by unfold_locales (auto simp: damage_ops_def GuildStageDamageItem_Less_def GuildStageDamageItem_Greater_def
    GuildStageDamageItem_Assign_def GuildStageDamageItem_Add_def)

record RolePowerRankItem =
  rp_Power :: int
  rp_RoleId :: int

definition RolePowerRankItem_Less :: "RolePowerRankItem \<Rightarrow> RolePowerRankItem option \<Rightarrow> bool" where
  "RolePowerRankItem_Less this item = (case item of None \<Rightarrow> False | Some it \<Rightarrow> rp_Power this < rp_Power it)"

definition RolePowerRankItem_Greater :: "RolePowerRankItem \<Rightarrow> RolePowerRankItem option \<Rightarrow> bool" where
  "RolePowerRankItem_Greater this item = (case item of None \<Rightarrow> False | Some it \<Rightarrow> rp_Power this > rp_Power it)"

definition RolePowerRankItem_Assign :: "RolePowerRankItem \<Rightarrow> RolePowerRankItem option \<Rightarrow> RolePowerRankItem" where
  "RolePowerRankItem_Assign this item = (case item of None \<Rightarrow> this
     | Some it \<Rightarrow> this\<lparr>rp_RoleId := rp_RoleId it, rp_Power := rp_Power it\<rparr>)"

definition role_power_ops :: "(RolePowerRankItem, int, int) short_node" where
  "role_power_ops = \<lparr>sr_Less = (\<lambda>a b. RolePowerRankItem_Less a (Some b)),
     sr_Greater = (\<lambda>a b. RolePowerRankItem_Greater a (Some b)), sr_GetKey = rp_RoleId, sr_GetValue = rp_Power,
     sr_Assign = (\<lambda>a b. RolePowerRankItem_Assign a (Some b)), sr_Add = (\<lambda>a b. a),
     sr_New = \<lparr>rp_Power = 0, rp_RoleId = 0\<rparr>\<rparr>"

interpretation role_items: short_node_laws role_power_ops
  by unfold_locales (auto simp: role_power_ops_def RolePowerRankItem_Less_def RolePowerRankItem_Greater_def
    RolePowerRankItem_Assign_def)

section \<open>Damage of a guild boss\<close>

type_synonym damage_list = "(GuildStageDamageItem, int) ShortRankList"

definition SaveDamageLog :: "int \<Rightarrow> int \<Rightarrow> (int \<times> int) list \<Rightarrow> (int \<times> int) list" where
  "SaveDamageLog attacker_id damage logs =
     (if map_of logs attacker_id = None then logs @ [(attacker_id, damage)]
      else AList.update attacker_id damage logs)"

fun LoadDB2RankList :: "(int \<times> int) list \<Rightarrow> damage_list \<Rightarrow> damage_list option" where
  "LoadDB2RankList [] dl = Some dl"
| "LoadDB2RankList ((attacker_id, damage) # logs) dl = do {
     (_, _, dl) \<leftarrow> sr_Update damage_ops \<lparr>gd_AttackerId = attacker_id, gd_Damage = damage\<rparr> False dl;
     LoadDB2RankList logs dl }"

text \<open>The end of \<open>guild_stage_fight\<close>: the damage of the fight is added to the player's entry, and the
  damage of the fight is saved.\<close>

definition sum_i32 :: "int list \<Rightarrow> int" where
  "sum_i32 xs = fold (\<lambda>x s. i32 (s + x)) xs 0"

definition record_fight :: "int \<Rightarrow> int list \<Rightarrow> damage_list \<Rightarrow> (int \<times> int) list
    \<Rightarrow> (damage_list \<times> (int \<times> int) list) option" where
  "record_fight player_id member_damages dl logs =
     (let this_fight_damage = sum_i32 member_damages in do {
        (_, _, dl) \<leftarrow> sr_Update damage_ops \<lparr>gd_AttackerId = player_id, gd_Damage = this_fight_damage\<rparr> True dl;
        Some (dl, SaveDamageLog player_id this_fight_damage logs) })"

text \<open>The rewards of a boss: pairs of a range of ranks and the items, each possibly nil. A panic inside
  (\<open>RankListReward\<close> recovers) ends the loop with the mails sent so far.\<close>

datatype reward_end = Next | Break | Panic

fun reward_ranks :: "damage_list \<Rightarrow> int list option \<Rightarrow> int list \<Rightarrow> (int \<times> int list) list
    \<Rightarrow> reward_end \<times> (int \<times> int list) list" where
  "reward_ranks dl reward [] mails = (Next, mails)"
| "reward_ranks dl reward (r # rs) mails =
     (if r > sr_GetLength dl then (Break, mails)
      else case reward of None \<Rightarrow> reward_ranks dl reward rs mails
        | Some items \<Rightarrow>
           (case sr_GetByRank damage_ops r dl of
              Some (Some (pid, _)) \<Rightarrow>
                if pid \<le> 0 then reward_ranks dl reward rs mails
                else reward_ranks dl reward rs (mails @ [(pid, items)])
            | _ \<Rightarrow> (Panic, mails)))"

fun RankListReward :: "damage_list \<Rightarrow> (int list option \<times> int list option) list \<Rightarrow> (int \<times> int list) list
    \<Rightarrow> (int \<times> int list) list" where
  "RankListReward dl [] mails = mails"
| "RankListReward dl ((None, _) # rest) mails = RankListReward dl rest mails"
| "RankListReward dl ((Some rng, reward) # rest) mails =
     (case rng of
        lo # hi # _ \<Rightarrow>
          (case reward_ranks dl reward [lo..hi] mails of
             (Next, mails) \<Rightarrow> RankListReward dl rest mails
           | (_, mails) \<Rightarrow> mails)
      | _ \<Rightarrow> mails)"

section \<open>A player's roles by power\<close>

type_synonym role_list = "(RolePowerRankItem, int) ShortRankList"

definition MAX_ROLES_POWER_NUM_TO_RANK_ITEM :: int where
  "MAX_ROLES_POWER_NUM_TO_RANK_ITEM = 4"

definition update_role_power_rank_info :: "int \<Rightarrow> int \<Rightarrow> role_list \<Rightarrow> role_list option" where
  "update_role_power_rank_info role_id pw rl = do {
     (_, _, rl) \<leftarrow> sr_Update role_power_ops \<lparr>rp_Power = pw, rp_RoleId = role_id\<rparr> False rl; Some rl }"

text \<open>The power a player is ranked by: the sum over the first four roles. \<open>None\<close> inside: no update.\<close>

fun sum_ranks :: "int list \<Rightarrow> role_list \<Rightarrow> int \<Rightarrow> int option" where
  "sum_ranks [] rl pw = Some pw"
| "sum_ranks (r # rs) rl pw = do {
     item \<leftarrow> sr_GetByRank role_power_ops r rl;
     (case item of None \<Rightarrow> sum_ranks rs rl pw | Some (_, val) \<Rightarrow> sum_ranks rs rl (i32 (pw + val))) }"

definition update_roles_power_rank_info :: "role_list \<Rightarrow> int option option" where
  "update_roles_power_rank_info rl = do {
     pw \<leftarrow> sum_ranks [1..MAX_ROLES_POWER_NUM_TO_RANK_ITEM] rl 0;
     Some (if pw \<le> 0 then None else Some pw) }"

text \<open>\<open>UpdateRolePowerRank\<close> and \<open>DeleteRolePowerRank\<close>: the new list, and the power to enter into the
  server's ranking when one of the first four changed.\<close>

definition UpdateRolePowerRank :: "int \<Rightarrow> int \<Rightarrow> role_list \<Rightarrow> (role_list \<times> int option) option" where
  "UpdateRolePowerRank role_id pw rl =
     (let before_rank = sr_GetRank role_id rl in do {
        rl \<leftarrow> update_role_power_rank_info role_id pw rl;
        let after_rank = sr_GetRank role_id rl;
        (if 1 \<le> before_rank \<and> before_rank \<le> MAX_ROLES_POWER_NUM_TO_RANK_ITEM
            \<or> 1 \<le> after_rank \<and> after_rank \<le> MAX_ROLES_POWER_NUM_TO_RANK_ITEM
         then do { p \<leftarrow> update_roles_power_rank_info rl; Some (rl, p) }
         else Some (rl, None)) })"

definition DeleteRolePowerRank :: "int \<Rightarrow> role_list \<Rightarrow> (role_list \<times> int option) option" where
  "DeleteRolePowerRank role_id rl =
     (let rank = sr_GetRank role_id rl in do {
        (_, rl) \<leftarrow> sr_Delete role_power_ops role_id rl;
        (if 1 \<le> rank \<and> rank \<le> MAX_ROLES_POWER_NUM_TO_RANK_ITEM
         then do { p \<leftarrow> update_roles_power_rank_info rl; Some (rl, p) }
         else Some (rl, None)) })"

fun LoadRolesPowerRankData :: "(int \<times> int) list \<Rightarrow> role_list \<Rightarrow> role_list option" where
  "LoadRolesPowerRankData [] rl = Some rl"
| "LoadRolesPowerRankData ((rid, pw) # roles) rl =
     (if pw > 0 then do { rl \<leftarrow> update_role_power_rank_info rid pw rl; LoadRolesPowerRankData roles rl }
      else LoadRolesPowerRankData roles rl)"

section \<open>Lemmas\<close>

lemma damage_simps [simp]:
  "sr_GetKey damage_ops = gd_AttackerId" "sr_GetValue damage_ops = gd_Damage"
  "sr_Greater damage_ops a b \<longleftrightarrow> gd_Damage a > gd_Damage b"
  by (simp_all add: damage_ops_def GuildStageDamageItem_Greater_def)

lemma role_simps [simp]:
  "sr_GetKey role_power_ops = rp_RoleId" "sr_GetValue role_power_ops = rp_Power"
  "sr_Greater role_power_ops a b \<longleftrightarrow> rp_Power a > rp_Power b"
  by (simp_all add: role_power_ops_def RolePowerRankItem_Greater_def)

lemma short_put_mset: "mset (short_put ops x L) = add_mset x (mset L)"
proof -
  have "mset (takeWhile P L) + mset (dropWhile P L) = mset L" for P
    by (metis mset_append takeWhile_dropWhile_id)
  then show ?thesis by (simp add: short_put_def)
qed

lemma load_logs:
  assumes "sr_holds damage_ops dl vs" and "distinct (map fst logs)"
    and "\<forall>v \<in> set vs. gd_AttackerId v \<notin> fst ` set logs"
    and "int (length vs + length logs) \<le> sr_max_num dl"
  shows "\<exists>dl' vs'. LoadDB2RankList logs dl = Some dl' \<and> sr_holds damage_ops dl' vs'
    \<and> mset vs' = mset vs + mset (map (\<lambda>(a, d). \<lparr>gd_AttackerId = a, gd_Damage = d\<rparr>) logs)"
  using assms
proof (induction logs arbitrary: dl vs)
  case (Cons l logs)
  obtain a d where l: "l = (a, d)" by (cases l)
  let ?x = "\<lparr>gd_AttackerId = a, gd_Damage = d\<rparr>"
  have new: "sr_GetKey damage_ops ?x \<notin> sr_GetKey damage_ops ` set vs" using Cons.prems(3) l by auto
  obtain dl1 where dl1: "sr_Update damage_ops ?x False dl = Some (True, ?x, dl1)"
      "sr_holds damage_ops dl1 (short_put damage_ops ?x vs)" "sr_max_num dl1 = sr_max_num dl"
    using damage_items.update_new [OF Cons.prems(1) new, of False] Cons.prems(4) l by auto
  have m: "mset (short_put damage_ops ?x vs) = add_mset ?x (mset vs)" by (rule short_put_mset)
  then have s: "set (short_put damage_ops ?x vs) = insert ?x (set vs)" "length (short_put damage_ops ?x vs) = Suc (length vs)"
    by (metis set_mset_add_mset_insert set_mset_mset, metis size_add_mset size_mset)
  obtain dl' vs' where "LoadDB2RankList logs dl1 = Some dl' \<and> sr_holds damage_ops dl' vs'
      \<and> mset vs' = mset (short_put damage_ops ?x vs) + mset (map (\<lambda>(a, d). \<lparr>gd_AttackerId = a, gd_Damage = d\<rparr>) logs)"
  proof (atomize_elim, rule Cons.IH [OF dl1(2)])
    show "distinct (map fst logs)" using Cons.prems(2) by simp
    show "\<forall>v \<in> set (short_put damage_ops ?x vs). gd_AttackerId v \<notin> fst ` set logs"
      using Cons.prems(2,3) by (simp add: s l)
    show "int (length (short_put damage_ops ?x vs) + length logs) \<le> sr_max_num dl1"
      using Cons.prems(4) by (simp add: s dl1(3))
  qed
  then show ?case using dl1(1) l m by auto
qed auto

lemma holds_split:
  assumes "sr_holds ops st vs" and "x \<in> set vs"
  obtains P Q where "vs = P @ x # Q"
  using assms(2) by (meson split_list)

section \<open>Properties\<close>

text \<open>C8: the damage ranking read back from the saved logs holds exactly the saved entries, in
  descending order of damage, when they fit.\<close>
theorem load_damage_ranking:
  assumes "ShortRankList_Init n = Some dl" and "distinct (map fst logs)" and "int (length logs) \<le> n"
  shows "\<exists>dl' vs. LoadDB2RankList logs dl = Some dl' \<and> sr_holds damage_ops dl' vs
    \<and> mset (map (\<lambda>v. (gd_AttackerId v, gd_Damage v)) vs) = mset logs
    \<and> sorted_wrt (\<lambda>a b. gd_Damage a \<ge> gd_Damage b) vs"
proof -
  have "0 < n" using assms(1) by (auto simp: ShortRankList_Init_def split: if_splits)
  then have h: "sr_holds damage_ops dl []" "sr_max_num dl = n"
    using damage_items.init_holds [of n] assms(1) \<open>0 < n\<close> by auto
  obtain dl' vs where r: "LoadDB2RankList logs dl = Some dl'" "sr_holds damage_ops dl' vs"
      "mset vs = mset (map (\<lambda>(a, d). \<lparr>gd_AttackerId = a, gd_Damage = d\<rparr>) logs)"
    using load_logs [OF h(1) assms(2)] assms(3) h(2) by auto
  have "mset (map (\<lambda>v. (gd_AttackerId v, gd_Damage v)) vs)
      = mset (map (\<lambda>v. (gd_AttackerId v, gd_Damage v)) (map (\<lambda>(a, d). \<lparr>gd_AttackerId = a, gd_Damage = d\<rparr>) logs))"
    by (simp only: mset_map r(3))
  moreover have "map (\<lambda>v. (gd_AttackerId v, gd_Damage v)) (map (\<lambda>(a, d). \<lparr>gd_AttackerId = a, gd_Damage = d\<rparr>) logs) = logs"
    by (induction logs) auto
  moreover have "sorted_wrt (\<lambda>a b. gd_Damage a \<ge> gd_Damage b) vs"
    using r(2) by (simp add: sr_holds_def not_less)
  ultimately show ?thesis using r(1,2) by metis
qed

theorem load_damage_ranking_witness:
  "\<exists>dl dl' vs. ShortRankList_Init 5 = Some dl \<and> LoadDB2RankList [(1, 30), (2, 50)] dl = Some dl'
    \<and> sr_holds damage_ops dl' vs \<and> mset (map (\<lambda>v. (gd_AttackerId v, gd_Damage v)) vs) = {#(1, 30), (2, 50)#}"
proof -
  obtain dl where dl: "ShortRankList_Init 5 = Some (dl :: damage_list)" by (simp add: ShortRankList_Init_def)
  from load_damage_ranking [OF dl, of "[(1, 30), (2, 50)]"] dl show ?thesis by auto
qed

text \<open>a fight is added to the player's total in the ranking but only the damage of that fight is
  saved: after it the ranking shows the total and the log the last fight, so reading the logs back does
  not give the ranking.\<close>
theorem damage_log_loses_total:
  assumes "sr_holds damage_ops dl vs" and "\<lparr>gd_AttackerId = p, gd_Damage = d0\<rparr> \<in> set vs" and "0 < d0"
    and "sum_i32 dmgs = d" "0 < d" "d0 + d \<le> max_int32"
  shows "\<exists>dl' vs' logs'. record_fight p dmgs dl logs = Some (dl', logs') \<and> sr_holds damage_ops dl' vs'
    \<and> \<lparr>gd_AttackerId = p, gd_Damage = d0 + d\<rparr> \<in> set vs' \<and> map_of logs' p = Some d \<and> d \<noteq> d0 + d"
proof -
  let ?old = "\<lparr>gd_AttackerId = p, gd_Damage = d0\<rparr>" and ?x = "\<lparr>gd_AttackerId = p, gd_Damage = d\<rparr>"
  obtain P Q where PQ: "vs = P @ ?old # Q" using holds_split [OF assms(1,2)] .
  have add: "sr_Add damage_ops ?x ?old = \<lparr>gd_AttackerId = p, gd_Damage = d0 + d\<rparr>"
    using assms(3,5,6) by (simp add: damage_ops_def GuildStageDamageItem_Add_def add.commute)
  obtain dl' where "sr_Update damage_ops ?x True dl = Some (True, \<lparr>gd_AttackerId = p, gd_Damage = d0 + d\<rparr>, dl')"
      "sr_holds damage_ops dl' (short_put damage_ops \<lparr>gd_AttackerId = p, gd_Damage = d0 + d\<rparr> (P @ Q))"
    using damage_items.update_old [of dl P ?old Q ?x True] assms(1,5) PQ by (auto simp: add)
  moreover have "x \<in> set (short_put damage_ops x L)" for x L by (simp add: short_put_def)
  moreover have "map_of (SaveDamageLog p d logs) p = Some d"
    by (auto simp: SaveDamageLog_def map_add_Some_iff update_conv' map_of_eq_None_iff)
  ultimately show ?thesis using assms(3,4) by (auto simp: record_fight_def)
qed

theorem damage_log_loses_total_witness:
  "\<exists>dl dl' logs'. sr_holds damage_ops dl [\<lparr>gd_AttackerId = 4, gd_Damage = 100\<rparr>]
    \<and> record_fight 4 [30, 20] dl [(4, 100)] = Some (dl', logs') \<and> map_of logs' 4 = Some 50"
proof -
  let ?x = "\<lparr>gd_AttackerId = 4, gd_Damage = 100\<rparr>"
  obtain d0 where d0: "sr_holds damage_ops d0 []" "sr_max_num d0 = 5"
    using damage_items.init_holds [of 5] by auto
  obtain dl where "sr_holds damage_ops dl (short_put damage_ops ?x [])"
    using damage_items.update_new [OF d0(1), of ?x False] d0(2) by auto
  then have dl: "sr_holds damage_ops dl [?x]" by (simp add: short_put_def)
  from damage_log_loses_total [OF dl, of 4 100 "[30, 20]" 50 "[(4, 100)]"] dl show ?thesis
    by (auto simp: sum_i32_def)
qed

text \<open>a new power of a role moves the role to its place (after the roles that are not weaker), keeps
  the list sorted with one entry per role, and leaves an unchanged power alone.\<close>
theorem role_power_update:
  assumes "sr_holds role_power_ops rl vs" and "r \<in> set vs" and "rp_RoleId r = role_id"
  shows "\<exists>rl'. update_role_power_rank_info role_id pw rl = Some rl'
    \<and> sr_holds role_power_ops rl' (if pw = rp_Power r then vs
        else short_put role_power_ops \<lparr>rp_Power = pw, rp_RoleId = role_id\<rparr> (filter (\<lambda>v. rp_RoleId v \<noteq> role_id) vs))"
proof -
  obtain P Q where PQ: "vs = P @ r # Q" using holds_split [OF assms(1,2)] .
  have "distinct (map rp_RoleId vs)" using assms(1) by (simp add: sr_holds_def)
  then have "filter (\<lambda>v. rp_RoleId v \<noteq> role_id) vs = P @ Q"
    using assms(3) unfolding PQ by (auto simp: filter_id_conv)
      (metis (mono_tags, lifting) filter_True imageI)
  moreover have "\<exists>b rl'. sr_Update role_power_ops \<lparr>rp_Power = pw, rp_RoleId = role_id\<rparr> False rl
      = Some (b, \<lparr>rp_Power = pw, rp_RoleId = role_id\<rparr>, rl') \<and> (b \<longleftrightarrow> pw \<noteq> rp_Power r)
      \<and> sr_holds role_power_ops rl' (if b then short_put role_power_ops \<lparr>rp_Power = pw, rp_RoleId = role_id\<rparr> (P @ Q) else P @ r # Q)"
    using role_items.update_old [of rl P r Q "\<lparr>rp_Power = pw, rp_RoleId = role_id\<rparr>" False] assms(1,3) PQ
    by (auto simp: neq_iff cong: if_cong)
  ultimately show ?thesis using PQ by (fastforce simp: update_role_power_rank_info_def)
qed

theorem role_power_update_witness:
  "\<exists>rl rl'. sr_holds role_power_ops rl [\<lparr>rp_Power = 8, rp_RoleId = 1\<rparr>]
    \<and> update_role_power_rank_info 1 5 rl = Some rl' \<and> sr_holds role_power_ops rl' [\<lparr>rp_Power = 5, rp_RoleId = 1\<rparr>]"
proof -
  let ?x = "\<lparr>rp_Power = 8, rp_RoleId = 1\<rparr>"
  obtain d0 where d0: "sr_holds role_power_ops d0 []" "sr_max_num d0 = 5"
    using role_items.init_holds [of 5] by auto
  obtain rl where "sr_holds role_power_ops rl (short_put role_power_ops ?x [])"
    using role_items.update_new [OF d0(1), of ?x False] d0(2) by auto
  then have rl: "sr_holds role_power_ops rl [?x]" by (simp add: short_put_def)
  from role_power_update [OF rl, of ?x 1 5] rl show ?thesis by (auto simp: short_put_def)
qed

end
