(* ===== verification/Battle_Data.thy ===== *)
theory Battle_Data
  imports Prelude
begin

text \<open>
  The data of a battle (\<open>hall_server/player_member.go\<close>, \<open>player_skill.go\<close>, \<open>player_battle.go\<close> and the
  items of \<open>table_config\<close>): cards, skills, buffs, members, with the queries and the changes of a
  member's life and attributes. Pointers to members are addresses; a buff list is the list of its buffs
  from head to tail, each with its address. An index outside \<open>attrs\<close> panics (\<open>None\<close>).

  Random numbers are a list of draws, consumed from the front; \<open>rand.Int31n(n)\<close> is the next draw
  reduced to \<open>0..n-1\<close>. When the list is used up every further draw is 0.
\<close>

section \<open>Random draws\<close>

definition Int31n :: "int \<Rightarrow> int list \<Rightarrow> int \<times> int list" where
  "Int31n n rs = (case rs of [] \<Rightarrow> (0, []) | r # rs \<Rightarrow> (r mod n, rs))"

lemma Int31n_range: "0 < n \<Longrightarrow> Int31n n rs = (r, rs') \<Longrightarrow> 0 \<le> r \<and> r < n"
  by (auto simp: Int31n_def split: list.splits)

section \<open>Constants\<close>

abbreviation (input) "SKILL_TYPE_NORMAL \<equiv> 1 :: int"
abbreviation (input) "SKILL_TYPE_SUPER \<equiv> 2 :: int"
abbreviation (input) "SKILL_TYPE_PASSIVE \<equiv> 3 :: int"
abbreviation (input) "SKILL_TYPE_NEXT \<equiv> 4 :: int"
abbreviation (input) "SKILL_TYPE_ARTIFACT \<equiv> 5 :: int"

abbreviation (input) "SKILL_FIGHT_TYPE_NONE \<equiv> 0 :: int"
abbreviation (input) "SKILL_FIGHT_TYPE_MELEE \<equiv> 1 :: int"
abbreviation (input) "SKILL_FIGHT_TYPE_REMOTE \<equiv> 2 :: int"

abbreviation (input) "ATTR_HP_MAX \<equiv> 1 :: nat"
abbreviation (input) "ATTR_HP \<equiv> 2 :: nat"
abbreviation (input) "ATTR_MP \<equiv> 3 :: nat"
abbreviation (input) "ATTR_ATTACK \<equiv> 4 :: nat"
abbreviation (input) "ATTR_DEFENSE \<equiv> 5 :: nat"
abbreviation (input) "ATTR_SHIELD \<equiv> 8 :: nat"
abbreviation (input) "ATTR_CRITICAL \<equiv> 9 :: nat"
abbreviation (input) "ATTR_CRITICAL_MULTI \<equiv> 10 :: nat"
abbreviation (input) "ATTR_ANTI_CRITICAL \<equiv> 11 :: nat"
abbreviation (input) "ATTR_BLOCK_RATE \<equiv> 12 :: nat"
abbreviation (input) "ATTR_BLOCK_DEFENSE_RATE \<equiv> 13 :: nat"
abbreviation (input) "ATTR_BREAK_BLOCK_RATE \<equiv> 14 :: nat"
abbreviation (input) "ATTR_TOTAL_DAMAGE_ADD \<equiv> 15 :: nat"
abbreviation (input) "ATTR_CLOSE_DAMAGE_ADD \<equiv> 16 :: nat"
abbreviation (input) "ATTR_REMOTE_DAMAGE_ADD \<equiv> 17 :: nat"
abbreviation (input) "ATTR_NORMAL_DAMAGE_ADD \<equiv> 18 :: nat"
abbreviation (input) "ATTR_RAGE_DAMAGE_ADD \<equiv> 19 :: nat"
abbreviation (input) "ATTR_TOTAL_DAMAGE_SUB \<equiv> 20 :: nat"
abbreviation (input) "ATTR_CLOSE_DAMAGE_SUB \<equiv> 21 :: nat"
abbreviation (input) "ATTR_REMOTE_DAMAGE_SUB \<equiv> 22 :: nat"
abbreviation (input) "ATTR_NORMAL_DAMAGE_SUB \<equiv> 23 :: nat"
abbreviation (input) "ATTR_RAGE_DAMAGE_SUB \<equiv> 24 :: nat"
abbreviation (input) "ATTR_CLOSE_VAMPIRE \<equiv> 25 :: nat"
abbreviation (input) "ATTR_REMOTE_VAMPIRE \<equiv> 26 :: nat"
abbreviation (input) "ATTR_CURE_RATE_CORRECT \<equiv> 27 :: nat"
abbreviation (input) "ATTR_CURED_RATE_CORRECT \<equiv> 28 :: nat"
abbreviation (input) "ATTR_CLOSE_REFLECT \<equiv> 29 :: nat"
abbreviation (input) "ATTR_REMOTE_REFLECT \<equiv> 30 :: nat"
abbreviation (input) "ATTR_ARMOR_ADD \<equiv> 31 :: nat"
abbreviation (input) "ATTR_BREAK_ARMOR \<equiv> 32 :: nat"
abbreviation (input) "ATTR_HP_PERCENT_BONUS \<equiv> 36 :: nat"
abbreviation (input) "ATTR_ATTACK_PERCENT_BONUS \<equiv> 37 :: nat"
abbreviation (input) "ATTR_DEFENSE_PERCENT_BONUS \<equiv> 38 :: nat"
abbreviation (input) "ATTR_DAMAGE_PERCENT_BONUS \<equiv> 39 :: nat"
abbreviation (input) "ATTR_COUNT_MAX \<equiv> 40 :: nat"

abbreviation (input) "BATTLE_TEAM_MEMBER_INIT_ENERGY \<equiv> 30 :: int"
abbreviation (input) "BATTLE_TEAM_MEMBER_MAX_ENERGY \<equiv> 60 :: int"
abbreviation (input) "BATTLE_TEAM_MEMBER_ADD_ENERGY \<equiv> 20 :: int"
abbreviation (input) "BATTLE_TEAM_ARTIFACT_ADD_ENERGY \<equiv> 20 :: int"
abbreviation (input) "BATTLE_TEAM_ARTIFACT_MAX_ENERGY \<equiv> 60 :: int"
abbreviation (input) "BATTLE_TEAM_MEMBER_MAX_NUM \<equiv> 9 :: nat"
abbreviation (input) "BATTLE_ROUND_MAX_NUM \<equiv> 15 :: int"

abbreviation (input) "BUFF_EFFECT_TYPE_DAMAGE \<equiv> 1 :: int"
abbreviation (input) "BUFF_EFFECT_TYPE_DISABLE_NORMAL_ATTACK \<equiv> 2 :: nat"
abbreviation (input) "BUFF_EFFECT_TYPE_DISABLE_SUPER_ATTACK \<equiv> 3 :: nat"
abbreviation (input) "BUFF_EFFECT_TYPE_DISABLE_ACTION \<equiv> 4 :: nat"
abbreviation (input) "BUFF_EFFECT_TYPE_MODIFY_ATTR \<equiv> 5 :: int"
abbreviation (input) "BUFF_EFFECT_TYPE_TRIGGER_SKILL \<equiv> 7 :: int"
abbreviation (input) "BUFF_EFFECT_TYPE_COUNT \<equiv> 8 :: nat"

section \<open>Items of the tables\<close>

record XmlCardItem =
  card_Id :: int
  card_Type :: int
  card_Camp :: int
  card_Label :: "int list"
  BaseHP :: int
  BaseAttack :: int
  BaseDefence :: int
  GrowthHP :: int
  GrowthAttack :: int
  GrowthDefence :: int
  NormalSkillID :: int
  SuperSkillID :: int
  PassiveSkillIds :: "int list"

record XmlSkillItem =
  skill_Id :: int
  skill_Type :: int
  SkillAttr :: "int list"
  SkillTriggerType :: int
  TriggerCondition1 :: "int list"
  TriggerCondition2 :: "int list"
  StunDisableAction :: int
  TriggerRoundMax :: int
  TriggerBattleMax :: int
  SkillMelee :: int
  SkillEnemy :: int
  RangeType :: int
  SkillTarget :: int
  MaxTarget :: int
  Effects :: "int list list"
  EffectsCond1s :: "int list list"
  EffectsCond2s :: "int list list"
  ComboSkill :: int
  IsDelayLastSkill :: int
  IsCancelReport :: int

record XmlStatusItem =
  status_Id :: int
  status_Effect :: "int list"
  ResistCountMax :: int
  MutexType :: int
  ResistMutexTypes :: "int list"
  CancelMutexTypes :: "int list"
  ResistMutexIDs :: "int list"
  CancelMutexIDs :: "int list"

section \<open>Members\<close>

type_synonym mptr = nat

record PassiveTriggerData =
  pt_skill :: XmlSkillItem
  battle_num :: int
  round_num :: int

record Buff =
  bf_addr :: nat
  bf_buff :: XmlStatusItem
  bf_attacker :: mptr
  bf_attack :: int
  bf_dmg_add :: int
  bf_param :: int
  bf_round_num :: int
  bf_resist_num :: int

record TeamMember =
  tm_side :: nat
  tm_pos :: int
  tm_id :: int
  tm_level :: int
  tm_card :: XmlCardItem
  tm_artifact :: "int option"
  hp :: int
  energy :: int
  tm_attack :: int
  tm_defense :: int
  act_num :: int
  attrs :: "int list"
  bufflist_arr :: "Buff list list option"
  passive_trigger_lists :: "int \<Rightarrow> PassiveTriggerData list option"
  temp_normal_skill :: int
  temp_super_skill :: int
  use_temp_skill :: bool
  temp_changed_attrs :: "(int \<times> int) list"
  temp_changed_attrs_used :: int
  passive_skills :: "int list"
  attacker :: "mptr option"
  attacker_skill_data :: "XmlSkillItem option"
  is_slave :: bool

abbreviation attr_of :: "TeamMember \<Rightarrow> nat \<Rightarrow> int" where
  "attr_of m a \<equiv> attrs m ! a"

abbreviation set_attr :: "nat \<Rightarrow> int \<Rightarrow> TeamMember \<Rightarrow> TeamMember" where
  "set_attr a v m \<equiv> m\<lparr>attrs := (attrs m)[a := v]\<rparr>"

definition is_dead :: "TeamMember \<Rightarrow> bool" where
  "is_dead m \<longleftrightarrow> 0 \<le> tm_pos m \<and> hp m < 0"

definition is_will_dead :: "TeamMember \<Rightarrow> bool" where
  "is_will_dead m \<longleftrightarrow> 0 \<le> tm_pos m \<and> hp m = 0"

definition add_hp :: "int \<Rightarrow> TeamMember \<Rightarrow> TeamMember" where
  "add_hp h m =
     (let cur = attr_of m ATTR_HP;
          new = (if h > 0 then (if i32 (cur + h) > attr_of m ATTR_HP_MAX then attr_of m ATTR_HP_MAX else i32 (cur + h))
                 else if h < 0 then (if i32 (cur + h) < 0 then 0 else i32 (cur + h))
                 else cur) in
      m\<lparr>attrs := (attrs m)[ATTR_HP := new], hp := new\<rparr>)"

definition add_max_hp :: "int \<Rightarrow> TeamMember \<Rightarrow> TeamMember" where
  "add_max_hp add m =
     (let m = (if add < 0 \<and> i32 (attr_of m ATTR_HP_MAX + add) < attr_of m ATTR_HP
               then set_attr ATTR_HP (i32 (attr_of m ATTR_HP_MAX + add)) m else m) in
      set_attr ATTR_HP_MAX (i32 (attr_of m ATTR_HP_MAX + add)) m)"

definition add_attr :: "int \<Rightarrow> int \<Rightarrow> TeamMember \<Rightarrow> TeamMember option" where
  "add_attr a v m =
     (if a < 0 \<or> int (length (attrs m)) \<le> a then None
      else if nat a = ATTR_HP then Some (add_hp v m)
      else if nat a = ATTR_HP_MAX then
        (let m = add_max_hp v m in Some (set_attr ATTR_HP (attr_of m ATTR_HP_MAX) m))
      else
        (let new = i32 (attr_of m (nat a) + v); m = set_attr (nat a) new m in
         Some (if nat a = ATTR_ATTACK then m\<lparr>tm_attack := new\<rparr>
               else if nat a = ATTR_DEFENSE then m\<lparr>tm_defense := new\<rparr> else m)))"

text \<open>\<open>add_attrs\<close>: pairs of an attribute and a value; a last odd element is ignored.\<close>

fun add_attrs :: "int list \<Rightarrow> TeamMember \<Rightarrow> TeamMember option" where
  "add_attrs (a # v # rest) m = do { m \<leftarrow> add_attr a v m; add_attrs rest m }"
| "add_attrs _ m = Some m"

text \<open>\<open>calculate_max_hp\<close>, \<open>calculate_attack\<close> and \<open>calculate_defense\<close>.\<close>

definition grown :: "int \<Rightarrow> int \<Rightarrow> int \<Rightarrow> int \<Rightarrow> int \<Rightarrow> int" where
  "grown cur base level growth percent =
     i32 (go_div (i32 (i32 (cur + base) + go_div (i32 (i32 (level - 1) * growth)) 100) * i32 (10000 + percent)) 10000)"

definition calculate_max_hp :: "TeamMember \<Rightarrow> TeamMember" where
  "calculate_max_hp m =
     (let v = grown (attr_of m ATTR_HP_MAX) (BaseHP (tm_card m)) (tm_level m) (GrowthHP (tm_card m))
                (attr_of m ATTR_HP_PERCENT_BONUS) in
      m\<lparr>attrs := (attrs m)[ATTR_HP_MAX := v, ATTR_HP := v], hp := v\<rparr>)"

definition calculate_attack :: "TeamMember \<Rightarrow> TeamMember" where
  "calculate_attack m =
     (let v = grown (tm_attack m) (BaseAttack (tm_card m)) (tm_level m) (GrowthAttack (tm_card m))
                (attr_of m ATTR_ATTACK_PERCENT_BONUS) in
      m\<lparr>attrs := (attrs m)[ATTR_ATTACK := v], tm_attack := v\<rparr>)"

definition calculate_defense :: "TeamMember \<Rightarrow> TeamMember" where
  "calculate_defense m =
     (let v = grown (tm_defense m) (BaseDefence (tm_card m)) (tm_level m) (GrowthDefence (tm_card m))
                (attr_of m ATTR_DEFENSE_PERCENT_BONUS) in
      m\<lparr>attrs := (attrs m)[ATTR_DEFENSE := v], tm_defense := v\<rparr>)"

definition calculate_hp_attack_defense :: "TeamMember \<Rightarrow> TeamMember" where
  "calculate_hp_attack_defense m = calculate_defense (calculate_attack (calculate_max_hp m))"

section \<open>Energy and actions\<close>

text \<open>The server configuration's energies; 0 stands for the built-in value.\<close>

record battle_config =
  InitEnergy :: int
  MaxEnergy :: int
  EnergyAdd :: int

definition get_use_skill :: "battle_config \<Rightarrow> TeamMember \<Rightarrow> int" where
  "get_use_skill cfg m =
     (if act_num m \<le> 0 then 0
      else let max_energy = (if MaxEnergy cfg = 0 then BATTLE_TEAM_MEMBER_MAX_ENERGY else MaxEnergy cfg) in
        if energy m \<ge> max_energy \<and> SuperSkillID (tm_card m) > 0 then SuperSkillID (tm_card m)
        else NormalSkillID (tm_card m))"

definition act_done :: "TeamMember \<Rightarrow> TeamMember" where
  "act_done m = (if act_num m > 0 then m\<lparr>act_num := act_num m - 1\<rparr> else m)"

definition used_skill :: "battle_config \<Rightarrow> XmlSkillItem \<Rightarrow> TeamMember \<Rightarrow> TeamMember" where
  "used_skill cfg skill m =
     (if skill_Type skill \<noteq> SKILL_TYPE_SUPER then m
      else let max_energy = (if MaxEnergy cfg = 0
                  then if tm_pos m \<ge> 0 then BATTLE_TEAM_MEMBER_MAX_ENERGY else BATTLE_TEAM_ARTIFACT_MAX_ENERGY
                  else MaxEnergy cfg) in
        if energy m \<ge> max_energy then m\<lparr>energy := i32 (energy m - max_energy)\<rparr> else m)"

section \<open>What the buffs forbid\<close>

definition has_buff :: "int \<Rightarrow> TeamMember \<Rightarrow> bool" where
  "has_buff buff_id m = (case bufflist_arr m of None \<Rightarrow> False
     | Some ls \<Rightarrow> list_ex (list_ex (\<lambda>b. status_Id (bf_buff b) = buff_id)) ls)"

definition is_disable_normal_attack :: "TeamMember \<Rightarrow> bool" where
  "is_disable_normal_attack m = (case bufflist_arr m of None \<Rightarrow> False
     | Some ls \<Rightarrow> ls ! BUFF_EFFECT_TYPE_DISABLE_NORMAL_ATTACK \<noteq> [])"

definition is_disable_super_attack :: "TeamMember \<Rightarrow> bool" where
  "is_disable_super_attack m = (case bufflist_arr m of None \<Rightarrow> False
     | Some ls \<Rightarrow> ls ! BUFF_EFFECT_TYPE_DISABLE_SUPER_ATTACK \<noteq> [])"

definition is_disable_attack :: "TeamMember \<Rightarrow> bool" where
  "is_disable_attack m = (if tm_pos m < 0 then False else case bufflist_arr m of None \<Rightarrow> False
     | Some ls \<Rightarrow> ls ! BUFF_EFFECT_TYPE_DISABLE_ACTION \<noteq> [])"

definition can_action :: "TeamMember \<Rightarrow> bool" where
  "can_action m = (if tm_pos m < 0 then False else case bufflist_arr m of None \<Rightarrow> True
     | Some ls \<Rightarrow> ls ! BUFF_EFFECT_TYPE_DISABLE_ACTION = [] \<and> ls ! BUFF_EFFECT_TYPE_DISABLE_SUPER_ATTACK = [])"

end
