(* ===== verification/Battle_Targets.thy ===== *)
theory Battle_Targets
  imports Battle_Data
begin

text \<open>
  The choice of the targets of a skill (\<open>hall_server/player_skill.go\<close>, \<open>FindTargets\<close> of
  \<open>player_battle.go\<close>). A team is the list of its nine slots, three columns of three; position
  \<open>p\<close> is in column \<open>p div 3\<close> and row \<open>p mod 3\<close>. A nil slice of positions is the empty list.
  \<open>None\<close> is a panic: an index outside the slots or the tables of positions.
\<close>

type_synonym slots = "TeamMember option list"

abbreviation (input) "SKILL_RANGE_TYPE_SINGLE \<equiv> 1 :: int"
abbreviation (input) "SKILL_RANGE_TYPE_ROW \<equiv> 2 :: int"
abbreviation (input) "SKILL_RANGE_TYPE_COLUMN \<equiv> 3 :: int"
abbreviation (input) "SKILL_RANGE_TYPE_MULTI \<equiv> 4 :: int"
abbreviation (input) "SKILL_RANGE_TYPE_CROSS \<equiv> 5 :: int"
abbreviation (input) "SKILL_RANGE_TYPE_BIG_CROSS \<equiv> 6 :: int"
abbreviation (input) "SKILL_RANGE_TYPE_ALL \<equiv> 7 :: int"

abbreviation (input) "SKILL_TARGET_TYPE_DEFAULT \<equiv> 1 :: int"
abbreviation (input) "SKILL_TARGET_TYPE_BACK \<equiv> 2 :: int"
abbreviation (input) "SKILL_TARGET_TYPE_HP_MIN \<equiv> 3 :: int"
abbreviation (input) "SKILL_TARGET_TYPE_RANDOM \<equiv> 4 :: int"
abbreviation (input) "SKILL_TARGET_TYPE_SELF \<equiv> 5 :: int"
abbreviation (input) "SKILL_TARGET_TYPE_TRIGGER_OBJECT \<equiv> 6 :: int"
abbreviation (input) "SKILL_TARGET_TYPE_CROPSE \<equiv> 7 :: int"
abbreviation (input) "SKILL_TARGET_TYPE_EMPTY_POS \<equiv> 8 :: int"

abbreviation (input) "SKILL_ENEMY_TYPE_OUR \<equiv> 1 :: int"
abbreviation (input) "SKILL_ENEMY_TYPE_ENEMY \<equiv> 2 :: int"

section \<open>Slots\<close>

text \<open>The test \<open>m != nil && !m.is_dead()\<close> of every selector.\<close>

definition living :: "slots \<Rightarrow> int \<Rightarrow> bool" where
  "living team p = (0 \<le> p \<and> nat p < length team
     \<and> (case team ! nat p of None \<Rightarrow> False | Some m \<Rightarrow> \<not> is_dead m))"

definition get_rows_order :: "int \<Rightarrow> int list" where
  "get_rows_order self_pos =
     (if go_mod self_pos 3 = 0 then [0, 1, 2]
      else if go_mod self_pos 3 = 1 then [1, 0, 2]
      else if go_mod self_pos 3 = 2 then [2, 1, 0]
      else [])"

definition get_row_indexes :: "int list list" where
  "get_row_indexes = [[0, 3, 6], [1, 4, 7], [2, 5, 8]]"

definition get_column_indexes :: "int list list" where
  "get_column_indexes = [[0, 1, 2], [3, 4, 5], [6, 7, 8]]"

definition check_team_row :: "int \<Rightarrow> slots \<Rightarrow> bool \<times> int list" where
  "check_team_row row_index team =
     (let pos = filter (living team) (map (\<lambda>i. row_index + 3 * i) [0, 1, 2]) in (pos = [], pos))"

definition check_team_column :: "int \<Rightarrow> int \<Rightarrow> slots \<Rightarrow> bool \<times> int list" where
  "check_team_column self_pos column_index team =
     (let first_pos = go_mod self_pos 3 + column_index * 3;
          pos = (if living team first_pos then [first_pos] else []) @
            filter (\<lambda>p. p \<noteq> first_pos \<and> living team p) (map (\<lambda>i. column_index * 3 + i) [0, 1, 2]) in
      (pos = [], pos))"

definition get_team_cross_targets :: "int list list" where
  "get_team_cross_targets =
     [[0, 1, 3], [1, 0, 2, 4], [2, 1, 5], [3, 0, 4, 6], [4, 1, 3, 5, 7], [5, 2, 4, 8],
      [6, 3, 7], [7, 4, 6, 8], [8, 5, 7]]"

definition get_team_big_cross_targets :: "int list list" where
  "get_team_big_cross_targets =
     [[0, 1, 2, 3, 6], [1, 0, 2, 4, 7], [2, 1, 0, 5, 8], [3, 0, 6, 4, 5], [4, 1, 3, 5, 7],
      [5, 2, 4, 3, 8], [6, 3, 0, 7, 8], [7, 4, 1, 6, 8], [8, 5, 3, 7, 6]]"

text \<open>A row of such a table, and its living positions.\<close>

definition table_row :: "int list list \<Rightarrow> int \<Rightarrow> int list option" where
  "table_row t p = (if 0 \<le> p \<and> nat p < length t then Some (t ! nat p) else None)"

definition living_of :: "slots \<Rightarrow> int list list \<Rightarrow> int \<Rightarrow> int list option" where
  "living_of team t p = map_option (filter (living team)) (table_row t p)"

section \<open>The default targets\<close>

fun first_living :: "slots \<Rightarrow> int list \<Rightarrow> int" where
  "first_living team [] = - 1"
| "first_living team (p # ps) = (if living team p then p else first_living team ps)"

definition get_single_default_target :: "int \<Rightarrow> slots \<Rightarrow> int" where
  "get_single_default_target self_pos team =
     (if self_pos < 0 then - 1
      else first_living team (concat (map (\<lambda>row. map (\<lambda>i. row + i * 3) [0, 1, 2]) (get_rows_order self_pos))))"

text \<open>The loop over rows or columns that stops at the first that is not empty.\<close>

fun first_nonempty :: "('a \<Rightarrow> bool \<times> int list) \<Rightarrow> 'a list \<Rightarrow> int list" where
  "first_nonempty check [] = []"
| "first_nonempty check (x # xs) =
     (case check x of (is_empty, pos) \<Rightarrow> if \<not> is_empty \<or> xs = [] then pos else first_nonempty check xs)"

definition default_cross :: "int \<Rightarrow> slots \<Rightarrow> int list list \<Rightarrow> int list option" where
  "default_cross self_pos team t =
     (if self_pos < 0 then Some []
      else let p = get_single_default_target self_pos team in
        if p < 0 then Some [] else living_of team t p)"

definition default_all :: "int \<Rightarrow> slots \<Rightarrow> int list option" where
  "default_all self_pos team =
     (if self_pos \<ge> int (length team) then None
      else Some ((if self_pos \<ge> 0 \<and> living team self_pos then [self_pos] else []) @
        filter (\<lambda>i. self_pos \<noteq> i \<and> living team i) [0..8]))"

definition skill_get_default_targets :: "int \<Rightarrow> slots \<Rightarrow> XmlSkillItem \<Rightarrow> int list option" where
  "skill_get_default_targets self_pos team skill_data =
     (if RangeType skill_data = SKILL_RANGE_TYPE_SINGLE then
        Some (if self_pos < 0 then [] else [get_single_default_target self_pos team])
      else if RangeType skill_data = SKILL_RANGE_TYPE_ROW then
        Some (if self_pos < 0 then [] else first_nonempty (\<lambda>r. check_team_row r team) (get_rows_order self_pos))
      else if RangeType skill_data = SKILL_RANGE_TYPE_COLUMN then
        Some (if self_pos < 0 then [] else first_nonempty (\<lambda>c. check_team_column self_pos c team) [0, 1, 2])
      else if RangeType skill_data = SKILL_RANGE_TYPE_MULTI then Some []
      else if RangeType skill_data = SKILL_RANGE_TYPE_CROSS then default_cross self_pos team get_team_cross_targets
      else if RangeType skill_data = SKILL_RANGE_TYPE_BIG_CROSS then default_cross self_pos team get_team_big_cross_targets
      else if RangeType skill_data = SKILL_RANGE_TYPE_ALL then default_all self_pos team
      else Some [])"

section \<open>The other targets\<close>

definition skill_get_back_targets :: "int \<Rightarrow> slots \<Rightarrow> XmlSkillItem \<Rightarrow> int list" where
  "skill_get_back_targets self_pos team skill_data =
     (if self_pos < 0 then []
      else if RangeType skill_data = SKILL_RANGE_TYPE_SINGLE then
        (let p = first_living team (concat (map (\<lambda>i. map (\<lambda>row. i * 3 + row) (get_rows_order self_pos)) [2, 1, 0])) in
         if p < 0 then [] else [p])
      else if RangeType skill_data = SKILL_RANGE_TYPE_COLUMN then
        first_nonempty (\<lambda>c. check_team_column self_pos c team) [2, 1, 0]
      else [])"

text \<open>The least life found so far and its position; 0 stands for none found.\<close>

definition hp_min_step :: "slots \<Rightarrow> int \<Rightarrow> int \<times> int \<Rightarrow> int \<times> int" where
  "hp_min_step team i = (\<lambda>(h, p).
     case team ! nat i of None \<Rightarrow> (h, p)
     | Some m \<Rightarrow> if living team i \<and> (h = 0 \<or> h > hp m) then (hp m, i) else (h, p))"

definition skill_get_hp_min_targets :: "slots \<Rightarrow> XmlSkillItem \<Rightarrow> int list" where
  "skill_get_hp_min_targets team skill_data =
     (if RangeType skill_data = SKILL_RANGE_TYPE_SINGLE
      then [snd (fold (hp_min_step team) [0..8] (0, - 1))] else [])"

text \<open>\<open>_random_one_target\<close>: from the drawn slot on, the first living one that is not excepted; at most
  nine slots are looked at.\<close>

primrec random_scan :: "slots \<Rightarrow> int list \<Rightarrow> nat \<Rightarrow> int \<Rightarrow> int" where
  "random_scan team except_pos 0 r = - 1"
| "random_scan team except_pos (Suc n) r =
     (if r \<notin> set except_pos \<and> living team r then r
      else random_scan team except_pos n (go_mod (r + 1) 9))"

definition random_one_target :: "slots \<Rightarrow> int list \<Rightarrow> int list \<Rightarrow> int \<times> int list" where
  "random_one_target team except_pos rs =
     (let (r, rs) = Int31n 9 rs in (random_scan team except_pos BATTLE_TEAM_MEMBER_MAX_NUM r, rs))"

primrec random_multi :: "slots \<Rightarrow> nat \<Rightarrow> int list \<Rightarrow> int list \<Rightarrow> int list \<times> int list" where
  "random_multi team 0 pos rs = (pos, rs)"
| "random_multi team (Suc n) pos rs =
     (let (p, rs) = random_one_target team pos rs in
      random_multi team n (if p \<ge> 0 then pos @ [p] else pos) rs)"

definition random_cross :: "slots \<Rightarrow> int list list \<Rightarrow> int list \<Rightarrow> (int list \<times> int list) option" where
  "random_cross team t rs =
     (let (p, rs) = random_one_target team [] rs in
      if p < 0 then Some ([], rs) else map_option (\<lambda>ps. (ps, rs)) (living_of team t p))"

definition skill_get_random_targets :: "slots \<Rightarrow> XmlSkillItem \<Rightarrow> int list \<Rightarrow> (int list \<times> int list) option" where
  "skill_get_random_targets team skill_data rs =
     (if RangeType skill_data = SKILL_RANGE_TYPE_SINGLE then
        (let (p, rs) = random_one_target team [] rs in Some (if p < 0 then [] else [p], rs))
      else if RangeType skill_data = SKILL_RANGE_TYPE_MULTI then
        Some (random_multi team (nat (MaxTarget skill_data)) [] rs)
      else if RangeType skill_data = SKILL_RANGE_TYPE_CROSS then random_cross team get_team_cross_targets rs
      else if RangeType skill_data = SKILL_RANGE_TYPE_BIG_CROSS then random_cross team get_team_big_cross_targets rs
      else Some ([], rs))"

definition skill_get_force_self_targets :: "int \<Rightarrow> slots \<Rightarrow> XmlSkillItem \<Rightarrow> int list option" where
  "skill_get_force_self_targets self_pos team skill_data =
     (if self_pos < 0 then Some []
      else if RangeType skill_data = SKILL_RANGE_TYPE_SINGLE then Some [self_pos]
      else if RangeType skill_data = SKILL_RANGE_TYPE_ROW then living_of team get_row_indexes (go_mod self_pos 3)
      else if RangeType skill_data = SKILL_RANGE_TYPE_COLUMN then living_of team get_column_indexes (go_div self_pos 3)
      else if RangeType skill_data = SKILL_RANGE_TYPE_CROSS then living_of team get_team_cross_targets self_pos
      else if RangeType skill_data = SKILL_RANGE_TYPE_BIG_CROSS then living_of team get_team_big_cross_targets self_pos
      else if RangeType skill_data = SKILL_RANGE_TYPE_ALL then Some (filter (living team) [0, 1, 2, 3, 4, 5, 6, 7, 8])
      else Some [])"

text \<open>The loop over the slots; the count is compared only after a slot has been taken.\<close>

fun empty_slots :: "int \<Rightarrow> int \<Rightarrow> int \<Rightarrow> slots \<Rightarrow> int list" where
  "empty_slots max_target c j [] = []"
| "empty_slots max_target c j (m # ms) =
     (case m of Some _ \<Rightarrow> empty_slots max_target c (j + 1) ms
      | None \<Rightarrow> j # (if c + 1 \<ge> max_target then [] else empty_slots max_target (c + 1) (j + 1) ms))"

definition skill_get_empty_pos :: "slots \<Rightarrow> XmlSkillItem \<Rightarrow> int list" where
  "skill_get_empty_pos team skill_data = empty_slots (MaxTarget skill_data) 0 0 team"

section \<open>FindTargets\<close>

text \<open>The positions, and whether they are the enemy's. An unknown skill type or target type finds nothing.\<close>

definition targets_of :: "int \<Rightarrow> slots \<Rightarrow> XmlSkillItem \<Rightarrow> int list \<Rightarrow> int list \<Rightarrow> (int list \<times> int list) option" where
  "targets_of self_pos team skill passive_trigger_pos rs =
     (let t = SkillTarget skill in
      if t = SKILL_TARGET_TYPE_DEFAULT then map_option (\<lambda>p. (p, rs)) (skill_get_default_targets self_pos team skill)
      else if t = SKILL_TARGET_TYPE_BACK then Some (skill_get_back_targets self_pos team skill, rs)
      else if t = SKILL_TARGET_TYPE_HP_MIN then Some (skill_get_hp_min_targets team skill, rs)
      else if t = SKILL_TARGET_TYPE_RANDOM then skill_get_random_targets team skill rs
      else if t = SKILL_TARGET_TYPE_SELF then map_option (\<lambda>p. (p, rs)) (skill_get_force_self_targets self_pos team skill)
      else if t = SKILL_TARGET_TYPE_TRIGGER_OBJECT then Some (passive_trigger_pos, rs)
      else if t = SKILL_TARGET_TYPE_CROPSE then Some ([], rs)
      else if t = SKILL_TARGET_TYPE_EMPTY_POS then Some (skill_get_empty_pos team skill, rs)
      else Some ([], rs))"

definition FindTargets :: "int \<Rightarrow> slots \<Rightarrow> slots \<Rightarrow> XmlSkillItem \<Rightarrow> int list \<Rightarrow> int list
    \<Rightarrow> (int list \<times> bool \<times> int list) option" where
  "FindTargets self_pos own_team target_team skill passive_trigger_pos rs =
     (if skill_Type skill \<notin> {SKILL_TYPE_NORMAL, SKILL_TYPE_SUPER, SKILL_TYPE_PASSIVE, SKILL_TYPE_NEXT, SKILL_TYPE_ARTIFACT}
      then Some ([], False, rs)
      else if SkillEnemy skill = SKILL_ENEMY_TYPE_ENEMY then
        map_option (\<lambda>(p, rs). (p, True, rs)) (targets_of self_pos target_team skill passive_trigger_pos rs)
      else if SkillEnemy skill = SKILL_ENEMY_TYPE_OUR then
        map_option (\<lambda>(p, rs). (p, False, rs)) (targets_of self_pos own_team skill passive_trigger_pos rs)
      else Some ([], False, rs))"

end
