(* ===== verification/Battle_Targets_Props.thy ===== *)
theory Battle_Targets_Props
  imports Battle_Targets "HOL-Library.Multiset"
begin

text \<open>
  What the selectors of targets find: only living members, none twice, and somebody whenever somebody is
  alive; the position tables are the rows, columns and neighbours of the formation.
\<close>

section \<open>Lemmas\<close>

lemma living_bounds: "living team p \<Longrightarrow> length team = 9 \<Longrightarrow> 0 \<le> p \<and> p < 9"
  by (auto simp: living_def)

lemma rows_order:
  assumes "0 \<le> s"
  shows "set (get_rows_order s) = {0, 1, 2}" and "distinct (get_rows_order s)"
proof -
  have "go_mod s 3 = s mod 3" using assms by (simp add: go_mod_nonneg)
  moreover have "s mod 3 \<in> {0, 1, 2}" by (simp; presburger)
  ultimately show "set (get_rows_order s) = {0, 1, 2}" "distinct (get_rows_order s)"
    by (auto simp: get_rows_order_def)
qed

lemma first_living_found: "living team p \<Longrightarrow> p \<in> set ps \<Longrightarrow>
    living team (first_living team ps) \<and> first_living team ps \<in> set ps"
  by (induction ps) auto

lemma first_living_none: "\<forall>p \<in> set ps. \<not> living team p \<Longrightarrow> first_living team ps = - 1"
  by (induction ps) auto

lemma all_slots:
  assumes "living team q" "length team = 9" "set rows = {0, 1, 2}"
  shows "q \<in> set (concat (map (\<lambda>row. map (\<lambda>i. row + i * 3) [0, 1, 2]) rows))"
    and "q \<in> set (concat (map (\<lambda>i. map (\<lambda>row. i * 3 + row) rows) [2, 1, 0]))"
proof -
  have "0 \<le> q \<and> q < 9" using living_bounds assms by blast
  then have "q div 3 = 0 \<or> q div 3 = 1 \<or> q div 3 = 2" "q = q mod 3 + q div 3 * 3" by presburger+
  moreover have "q mod 3 \<in> set rows" unfolding assms(3) by (simp; presburger)
  ultimately obtain r c where rc: "r \<in> set rows" "c = 0 \<or> c = 1 \<or> c = 2" "q = r + c * 3" by metis
  then show "q \<in> set (concat (map (\<lambda>row. map (\<lambda>i. row + i * 3) [0, 1, 2]) rows))" by force
  from rc show "q \<in> set (concat (map (\<lambda>i. map (\<lambda>row. i * 3 + row) rows) [2, 1, 0]))"
    by (force simp: add.commute)
qed

lemma single_default:
  assumes "0 \<le> s" and "living team q" and "length team = 9"
  shows "living team (get_single_default_target s team)"
  using first_living_found [OF assms(2) all_slots(1) [OF assms(2,3) rows_order(1) [OF assms(1)]]] assms(1)
  by (simp add: get_single_default_target_def)

lemma first_nonempty_found:
  assumes "x \<in> set xs" and "\<not> fst (check x)"
  shows "\<exists>y \<in> set xs. first_nonempty check xs = snd (check y) \<and> \<not> fst (check y)"
  using assms
proof (induction xs)
  case (Cons z zs)
  obtain e pos where c: "check z = (e, pos)" by fastforce
  show ?case
  proof (cases e)
    case False
    then show ?thesis using c by auto
  next
    case True
    then have "x \<in> set zs" using Cons.prems c by auto
    then show ?thesis using Cons.IH Cons.prems(2) c True by auto
  qed
qed simp

lemma row_living:
  "snd (check_team_row r team) = filter (living team) [r, r + 3, r + 6]"
  "fst (check_team_row r team) \<longleftrightarrow> snd (check_team_row r team) = []"
  by (simp_all add: check_team_row_def Let_def)

lemma column_living:
  assumes "0 \<le> s"
  shows "set (snd (check_team_column s c team)) = {p. living team p \<and> p \<in> {c * 3, c * 3 + 1, c * 3 + 2}}"
    and "distinct (snd (check_team_column s c team))"
    and "fst (check_team_column s c team) \<longleftrightarrow> snd (check_team_column s c team) = []"
proof -
  have "go_mod s 3 = s mod 3" using assms by (simp add: go_mod_nonneg)
  moreover have "s mod 3 \<in> {0, 1, 2}" by (simp; presburger)
  ultimately have "go_mod s 3 \<in> {0, 1, 2}" by simp
  then show "set (snd (check_team_column s c team)) = {p. living team p \<and> p \<in> {c * 3, c * 3 + 1, c * 3 + 2}}"
    "distinct (snd (check_team_column s c team))"
    by (auto simp: check_team_column_def Let_def add.commute)
  show "fst (check_team_column s c team) \<longleftrightarrow> snd (check_team_column s c team) = []"
    by (simp add: check_team_column_def Let_def)
qed

lemma tables:
  "p \<in> set [0..8] \<Longrightarrow> \<exists>row. table_row get_team_cross_targets p = Some row \<and> distinct row \<and> p \<in> set row"
  "p \<in> set [0..8] \<Longrightarrow> \<exists>row. table_row get_team_big_cross_targets p = Some row \<and> distinct row \<and> p \<in> set row"
proof -
  have "\<forall>p \<in> set [0..8]. (case table_row get_team_cross_targets p of None \<Rightarrow> False
      | Some row \<Rightarrow> distinct row \<and> p \<in> set row)" by code_simp
  then show "p \<in> set [0..8] \<Longrightarrow> \<exists>row. table_row get_team_cross_targets p = Some row \<and> distinct row \<and> p \<in> set row"
    by (fastforce split: option.splits)
  have "\<forall>p \<in> set [0..8]. (case table_row get_team_big_cross_targets p of None \<Rightarrow> False
      | Some row \<Rightarrow> distinct row \<and> p \<in> set row)" by code_simp
  then show "p \<in> set [0..8] \<Longrightarrow> \<exists>row. table_row get_team_big_cross_targets p = Some row \<and> distinct row \<and> p \<in> set row"
    by (fastforce split: option.splits)
qed

text \<open>A good choice: somebody, nobody twice, only living ones.\<close>

definition good_choice :: "slots \<Rightarrow> int list \<Rightarrow> bool" where
  "good_choice team pos \<longleftrightarrow> pos \<noteq> [] \<and> distinct pos \<and> (\<forall>p \<in> set pos. living team p)"

lemma good_row:
  assumes "0 \<le> s" "living team q" "length team = 9"
  shows "good_choice team (first_nonempty (\<lambda>r. check_team_row r team) (get_rows_order s))"
proof -
  have q: "0 \<le> q \<and> q < 9" using living_bounds assms(2,3) by blast
  then have "q mod 3 \<in> {0, 1, 2}" "q \<in> {q mod 3, q mod 3 + 3, q mod 3 + 6}" by (simp; presburger)+
  then have "q mod 3 \<in> set (get_rows_order s)" "\<not> fst (check_team_row (q mod 3) team)"
    using assms(2) rows_order(1) [OF assms(1)] by (auto simp: row_living)
  from first_nonempty_found [of _ _ "\<lambda>r. check_team_row r team", OF this] obtain y where
      "first_nonempty (\<lambda>r. check_team_row r team) (get_rows_order s) = snd (check_team_row y team)"
      "\<not> fst (check_team_row y team)" by auto
  then show ?thesis by (auto simp: good_choice_def row_living split: if_splits)
qed

lemma good_column:
  assumes "0 \<le> s" "living team q" "length team = 9" "set cs = {0, 1, 2}"
  shows "good_choice team (first_nonempty (\<lambda>c. check_team_column s c team) cs)"
proof -
  have q: "0 \<le> q \<and> q < 9" using living_bounds assms(2,3) by blast
  then have "q div 3 \<in> {0, 1, 2}" "q \<in> {q div 3 * 3, q div 3 * 3 + 1, q div 3 * 3 + 2}" by (simp; presburger)+
  then have "q div 3 \<in> set cs" "\<not> fst (check_team_column s (q div 3) team)"
    using assms(2,4) column_living(1) [OF assms(1), of "q div 3" team] column_living(3) [OF assms(1), of "q div 3" team]
    by auto
  from first_nonempty_found [of _ _ "\<lambda>c. check_team_column s c team", OF this] obtain y where
      "first_nonempty (\<lambda>c. check_team_column s c team) cs = snd (check_team_column s y team)"
      "\<not> fst (check_team_column s y team)" by auto
  then show ?thesis
    using column_living [OF assms(1), of y team] by (auto simp: good_choice_def)
qed

lemma good_living_of:
  assumes "living team p" "table_row t p = Some row" "distinct row" "p \<in> set row"
  shows "\<exists>pos. living_of team t p = Some pos \<and> good_choice team pos"
  using assms by (auto simp: living_of_def good_choice_def filter_empty_conv)

lemma random_scan_result:
  "random_scan team ex n r = - 1 \<or> living team (random_scan team ex n r) \<and> random_scan team ex n r \<notin> set ex"
  by (induction n arbitrary: r) auto

text \<open>Nine steps from any slot pass every slot.\<close>

lemma random_scan_hits:
  assumes "living team q" "q \<notin> set ex" "q = (r + int k) mod 9" "k < n" "0 \<le> r" "r < 9"
  shows "random_scan team ex n r \<noteq> - 1"
  using assms
proof (induction n arbitrary: r k)
  case (Suc n)
  show ?case
  proof (cases "r \<notin> set ex \<and> living team r")
    case True
    then show ?thesis using Suc.prems(5) by auto
  next
    case False
    have "k \<noteq> 0" using False Suc.prems by (cases k) auto
    then obtain k' where k': "k = Suc k'" by (cases k) auto
    have "q = (go_mod (r + 1) 9 + int k') mod 9"
      using Suc.prems(3,5) k' by (simp add: go_mod_nonneg mod_simps algebra_simps)
    then show ?thesis
      using False Suc.IH [OF Suc.prems(1,2), of "go_mod (r + 1) 9" k'] Suc.prems(4,5) k'
      by (auto simp: go_mod_nonneg)
  qed
qed simp

lemma random_one:
  assumes "length team = 9" "random_one_target team ex rs = (p, rs')"
  shows "if \<exists>q. living team q \<and> q \<notin> set ex then living team p \<and> p \<notin> set ex else p = - 1"
proof -
  obtain r rs1 where r: "Int31n 9 rs = (r, rs1)" by fastforce
  then have b: "0 \<le> r" "r < 9" using Int31n_range [of 9 rs r rs1] by auto
  have p: "p = random_scan team ex 9 r" using assms(2) r by (simp add: random_one_target_def)
  show ?thesis
  proof (cases "\<exists>q. living team q \<and> q \<notin> set ex")
    case True
    then obtain q where q: "living team q" "q \<notin> set ex" by auto
    have "q = (r + int (nat ((q - r) mod 9))) mod 9"
      using living_bounds [OF q(1) assms(1)] by (simp add: mod_simps)
    moreover have "nat ((q - r) mod 9) < 9" by (simp add: nat_less_iff)
    ultimately have "random_scan team ex 9 r \<noteq> - 1" using random_scan_hits [OF q] b by blast
    then show ?thesis using random_scan_result [of team ex 9 r] p True by auto
  next
    case False
    then show ?thesis using random_scan_result [of team ex 9 r] p by auto
  qed
qed

lemma living_count:
  assumes "length team = 9" "distinct pos" "\<forall>p \<in> set pos. living team p"
  shows "length pos \<le> card {p. living team p}"
proof -
  have "{p. living team p} \<subseteq> {0..<9}" using living_bounds [OF _ assms(1)] by auto
  then have "finite {p. living team p}" by (rule finite_subset) simp
  moreover have "set pos \<subseteq> {p. living team p}" using assms(3) by auto
  ultimately have "card (set pos) \<le> card {p. living team p}" by (rule card_mono)
  then show ?thesis using distinct_card [OF assms(2)] by simp
qed

lemma random_multi_result:
  assumes "length team = 9" "distinct pos" "\<forall>p \<in> set pos. living team p"
    and "random_multi team n pos rs = (pos', rs')"
  shows "distinct pos' \<and> (\<forall>p \<in> set pos'. living team p)
    \<and> length pos' = min (length pos + n) (card {p. living team p})"
  using assms(2-)
proof (induction n arbitrary: pos rs)
  case 0
  then show ?case using living_count [OF assms(1), of pos] by simp
next
  case (Suc n)
  obtain p rs1 where p: "random_one_target team pos rs = (p, rs1)" by fastforce
  show ?case
  proof (cases "\<exists>q. living team q \<and> q \<notin> set pos")
    case True
    then have l: "living team p" "p \<notin> set pos" using random_one [OF assms(1) p] by auto
    then have "random_multi team n (pos @ [p]) rs1 = (pos', rs')"
      using Suc.prems(3) p by (simp add: living_def)
    then show ?thesis using Suc.IH [of "pos @ [p]" rs1] Suc.prems l by auto
  next
    case False
    then have "p = - 1" using random_one [OF assms(1) p] by auto
    then have r: "random_multi team n pos rs1 = (pos', rs')" using Suc.prems(3) p by simp
    have "{p. living team p} = set pos" using False Suc.prems(2) by auto
    then have "card {p. living team p} = length pos" using Suc.prems(1) by (simp add: distinct_card)
    then show ?thesis using Suc.IH [OF Suc.prems(1,2) r] by simp
  qed
qed

lemma empty_slots_take:
  "0 \<le> c \<Longrightarrow> c < max 1 mt \<Longrightarrow> empty_slots mt c (int j) ms
    = take (nat (max 1 mt - c)) (map int (filter (\<lambda>i. ms ! (i - j) = None) [j..<j + length ms]))"
proof (induction ms arbitrary: c j)
  case (Cons m ms)
  have up: "[j..<j + length (m # ms)] = j # [Suc j..<Suc j + length ms]"
    by (subst upt_conv_Cons) simp_all
  have f: "filter (\<lambda>i. (m # ms) ! (i - j) = None) [Suc j..<Suc j + length ms]
      = filter (\<lambda>i. ms ! (i - Suc j) = None) [Suc j..<Suc j + length ms]"
    by (rule filter_cong) (auto simp: nth_Cons' )
  have split: "filter (\<lambda>i. (m # ms) ! (i - j) = None) [j..<j + length (m # ms)]
      = (if m = None then [j] else []) @ filter (\<lambda>i. ms ! (i - Suc j) = None) [Suc j..<Suc j + length ms]"
    by (simp only: up filter.simps f) simp
  have c1: "0 \<le> c + 1" using Cons.prems(1) by simp
  have one: "int j + 1 = int (Suc j)" by simp
  show ?case
  proof (cases m)
    case (Some x)
    then show ?thesis unfolding split empty_slots.simps one using Cons.IH [OF Cons.prems, of "Suc j"]
      by (simp del: upt_Suc of_nat_Suc)
  next
    case None
    show ?thesis
    proof (cases "c + 1 \<ge> mt")
      case True
      then have "nat (max 1 mt - c) = 1" using Cons.prems by (simp add: max_def split: if_splits)
      then show ?thesis unfolding split empty_slots.simps one using None True by (simp del: upt_Suc of_nat_Suc)
    next
      case False
      then have "c + 1 < max 1 mt" "nat (max 1 mt - c) = Suc (nat (max 1 mt - (c + 1)))" by auto
      then show ?thesis unfolding split empty_slots.simps one using None False Cons.IH [OF c1, of "Suc j"]
        by (simp del: upt_Suc of_nat_Suc)
    qed
  qed
qed simp

section \<open>Properties\<close>

text \<open>C9: the default targets of a fighter against a team in which somebody lives are living members,
  nobody twice, and at least one, for every range but the undefined one (several at random).\<close>
theorem default_targets_good:
  assumes "0 \<le> self_pos" "self_pos < 9" and "length team = 9" and "living team q"
    and "RangeType skill \<in> {1, 2, 3, 5, 6, 7}"
  shows "\<exists>pos. skill_get_default_targets self_pos team skill = Some pos \<and> pos \<noteq> [] \<and> distinct pos
    \<and> (\<forall>p \<in> set pos. living team p)"
proof -
  let ?p = "get_single_default_target self_pos team"
  have p: "living team ?p" by (rule single_default [OF assms(1,4,3)])
  then have b: "0 \<le> ?p \<and> ?p < 9" using living_bounds [OF _ assms(3)] by blast
  then have r: "?p \<in> set [0..8]" by simp
  obtain c1 where c1: "living_of team get_team_cross_targets ?p = Some c1" "good_choice team c1"
    using tables(1) [OF r] good_living_of [OF p] by blast
  obtain c2 where c2: "living_of team get_team_big_cross_targets ?p = Some c2" "good_choice team c2"
    using tables(2) [OF r] good_living_of [OF p] by blast
  have all: "\<exists>pos. default_all self_pos team = Some pos \<and> good_choice team pos"
    using assms(1-4) living_bounds [OF assms(4,3)]
    by (auto simp: default_all_def good_choice_def filter_empty_conv intro!: bexI [of _ q])
  have "\<exists>pos. skill_get_default_targets self_pos team skill = Some pos \<and> good_choice team pos"
    using assms(1,5) p b c1 c2 all good_row [OF assms(1,4,3)] good_column [OF assms(1,4,3), of "[0, 1, 2]"]
    by (auto simp: skill_get_default_targets_def default_cross_def good_choice_def [of team "[x]" for x])
  then show ?thesis by (auto simp: good_choice_def)
qed

theorem default_targets_good_witness:
  "\<exists>team :: slots. \<exists>skill pos. living team 7 \<and> skill_get_default_targets 0 team skill = Some pos \<and> pos \<noteq> []
    \<and> (\<forall>p \<in> set pos. living team p)"
proof -
  let ?m = "undefined\<lparr>tm_pos := 7, hp := 100\<rparr> :: TeamMember" and ?skill = "undefined\<lparr>RangeType := 5\<rparr> :: XmlSkillItem"
  let ?team = "[None, None, None, None, None, None, None, Some ?m, None]"
  have l: "living ?team 7" by (simp add: living_def is_dead_def)
  from default_targets_good [of 0 ?team 7 ?skill] l show ?thesis by fastforce
qed

text \<open>C10: a random choice of several targets picks, whatever the draws are, as many different living
  members as asked for, or all of them when there are fewer.\<close>
theorem random_targets_distinct:
  assumes "length team = 9" and "RangeType skill = SKILL_RANGE_TYPE_MULTI"
  shows "\<exists>pos rs'. skill_get_random_targets team skill rs = Some (pos, rs') \<and> distinct pos
    \<and> (\<forall>p \<in> set pos. living team p) \<and> length pos = min (nat (MaxTarget skill)) (card {p. living team p})"
proof -
  obtain pos rs' where r: "random_multi team (nat (MaxTarget skill)) [] rs = (pos, rs')" by fastforce
  then show ?thesis using random_multi_result [OF assms(1) _ _ r] assms(2)
    by (simp add: skill_get_random_targets_def)
qed

theorem random_targets_distinct_witness:
  "\<exists>skill pos rs'. skill_get_random_targets (replicate 9 None) skill [4, 7] = Some (pos, rs') \<and> length pos = 0"
proof -
  let ?skill = "undefined\<lparr>RangeType := 4, MaxTarget := 3\<rparr> :: XmlSkillItem"
  have "{p. living (replicate 9 None) p} = {}" by (auto simp: living_def)
  with random_targets_distinct [of "replicate 9 None" ?skill "[4, 7]"] show ?thesis by auto
qed

text \<open>the position tables: a cross is the position and its neighbours in the formation, a big cross
  its row and column, except at the last position, where the table has position 3 for position 2.\<close>
theorem cross_tables:
  "(\<forall>p \<in> {0..8}. set (get_team_cross_targets ! nat p)
      = {q. 0 \<le> q \<and> q < 9 \<and> \<bar>q div 3 - p div 3\<bar> + \<bar>q mod 3 - p mod 3\<bar> \<le> 1})
   \<and> (\<forall>p \<in> {0..7}. set (get_team_big_cross_targets ! nat p)
      = {q. 0 \<le> q \<and> q < 9 \<and> (q div 3 = p div 3 \<or> q mod 3 = p mod 3)})
   \<and> set (get_team_big_cross_targets ! 8) = {3, 5, 6, 7, 8}
   \<and> {q :: int. 0 \<le> q \<and> q < 9 \<and> (q div 3 = 8 div 3 \<or> q mod 3 = 8 mod 3)} = {2, 5, 6, 7, 8}"
proof -
  have a: "\<forall>p \<in> set [0..8]. set (get_team_cross_targets ! nat p)
      = set (filter (\<lambda>q. \<bar>q div 3 - p div 3\<bar> + \<bar>q mod 3 - p mod 3\<bar> \<le> 1) [0..8])" by code_simp
  have b: "\<forall>p \<in> set [0..7]. set (get_team_big_cross_targets ! nat p)
      = set (filter (\<lambda>q. q div 3 = p div 3 \<or> q mod 3 = p mod 3) [0..8])" by code_simp
  have c: "set (get_team_big_cross_targets ! 8) = {3, 5, 6, 7, 8}"
    "set (filter (\<lambda>q. q div 3 = 8 div 3 \<or> q mod 3 = 8 mod 3) [0..8]) = {2, 5, 6, 7, 8 :: int}" by code_simp+
  have s: "set (filter P [0..8]) = {q. 0 \<le> q \<and> q < 9 \<and> P q}" for P
    by (simp only: set_filter set_upto) auto
  show ?thesis using a b c unfolding s set_upto by blast
qed

theorem cross_tables_witness:
  "set (get_team_cross_targets ! nat 4) = {q. 0 \<le> q \<and> q < 9 \<and> \<bar>q div 3 - 4 div 3\<bar> + \<bar>q mod 3 - 4 mod 3\<bar> \<le> 1}
   \<and> set (get_team_big_cross_targets ! nat 0) = {q. 0 \<le> q \<and> q < 9 \<and> (q div 3 = 0 div 3 \<or> q mod 3 = 0 mod 3)}"
  using bspec [OF conjunct1 [OF cross_tables], of 4] bspec [OF conjunct1 [OF conjunct2 [OF cross_tables]], of 0]
  by simp

text \<open>the search for empty positions takes the first \<open>MaxTarget\<close> empty slots, and one when
  \<open>MaxTarget\<close> is not positive.\<close>
theorem empty_pos_first:
  "skill_get_empty_pos team skill
    = take (nat (max 1 (MaxTarget skill))) (map int (filter (\<lambda>i. team ! i = None) [0..<length team]))"
  using empty_slots_take [of 0 "MaxTarget skill" 0 team] by (simp add: skill_get_empty_pos_def)

end
