(* ===== verification/Battle_Cond.thy ===== *)
theory Battle_Cond
  imports Battle_Targets
begin

text \<open>
  The conditions of skills (\<open>_skill_check_cond\<close>, \<open>skill_check_cond\<close> and \<open>skill_effect_cond_check\<close> of
  \<open>hall_server/player_skill.go\<close>) with the queries of a team they use (\<open>player_battle.go\<close>). A condition
  is a list: its code, then its value. A nil member, team or list of positions is \<open>None\<close> or \<open>[]\<close>.
\<close>

abbreviation (input) "SKILL_COND_TYPE_NONE \<equiv> 0 :: int"
abbreviation (input) "SKILL_COND_TYPE_HAS_LABEL \<equiv> 1 :: int"
abbreviation (input) "SKILL_COND_TYPE_HAS_BUFF \<equiv> 2 :: int"
abbreviation (input) "SKILL_COND_TYPE_HP_NOT_LESS \<equiv> 3 :: int"
abbreviation (input) "SKILL_COND_TYPE_HP_GREATER \<equiv> 4 :: int"
abbreviation (input) "SKILL_COND_TYPE_HP_NOT_GREATER \<equiv> 5 :: int"
abbreviation (input) "SKILL_COND_TYPE_HP_LESS \<equiv> 6 :: int"
abbreviation (input) "SKILL_COND_TYPE_MP_NOT_LESS \<equiv> 7 :: int"
abbreviation (input) "SKILL_COND_TYPE_MP_NOT_GREATER \<equiv> 8 :: int"
abbreviation (input) "SKILL_COND_TYPE_TEAM_HAS_ROLE \<equiv> 9 :: int"
abbreviation (input) "SKILL_COND_TYPE_IS_TYPE \<equiv> 10 :: int"
abbreviation (input) "SKILL_COND_TYPE_IS_CAMP \<equiv> 11 :: int"
abbreviation (input) "SKILL_COND_TYPE_NO_LABEL \<equiv> 12 :: int"
abbreviation (input) "SKILL_COND_TYPE_NO_BUFF \<equiv> 13 :: int"
abbreviation (input) "SKILL_COND_TYPE_NO_NPC_ID \<equiv> 14 :: int"
abbreviation (input) "SKILL_COND_TYPE_IS_NO_TYPE \<equiv> 15 :: int"
abbreviation (input) "SKILL_COND_TYPE_IS_NO_CAMP \<equiv> 16 :: int"
abbreviation (input) "SKILL_COND_TYPE_IN_COLUMN \<equiv> 17 :: int"
abbreviation (input) "SKILL_COND_TYPE_HAS_SHIELD \<equiv> 18 :: int"
abbreviation (input) "SKILL_COND_TYPE_NO_SHIELD \<equiv> 19 :: int"
abbreviation (input) "SKILL_COND_TYPE_SELF_TEAM_MEMBERS_GREATER \<equiv> 20 :: int"
abbreviation (input) "SKILL_COND_TYPE_SELF_TEAM_MEMBERS_LESS \<equiv> 21 :: int"
abbreviation (input) "SKILL_COND_TYPE_TARGET_TEAM_MEMBERS_GREATER \<equiv> 22 :: int"
abbreviation (input) "SKILL_COND_TYPE_TARGET_TEAM_MEMBERS_LESS \<equiv> 23 :: int"
abbreviation (input) "SKILL_COND_TYPE_ROUND_GREATER \<equiv> 24 :: int"
abbreviation (input) "SKILL_COND_TYPE_ROUND_LESS \<equiv> 25 :: int"

section \<open>Queries of a team\<close>

definition alive :: "TeamMember option \<Rightarrow> bool" where
  "alive slot = (case slot of None \<Rightarrow> False | Some m \<Rightarrow> \<not> is_dead m)"

definition MembersNum :: "slots \<Rightarrow> int" where
  "MembersNum team = int (length (filter alive team))"

definition IsAllDead :: "slots \<Rightarrow> bool" where
  "IsAllDead team = list_all (\<lambda>slot. \<not> alive slot) team"

definition HasRole :: "int \<Rightarrow> slots \<Rightarrow> bool" where
  "HasRole role_id team = list_ex (\<lambda>slot. case slot of None \<Rightarrow> False | Some m \<Rightarrow> card_Id (tm_card m) = role_id) team"

section \<open>Conditions of a member\<close>

text \<open>A condition with a value: \<open>team\<close> is the member's team, \<open>round\<close> the number of the round.\<close>

definition cond_value :: "slots \<Rightarrow> int \<Rightarrow> TeamMember \<Rightarrow> int \<Rightarrow> int \<Rightarrow> bool" where
  "cond_value team round mem code v =
     (if code = SKILL_COND_TYPE_HAS_LABEL then v \<in> set (card_Label (tm_card mem))
      else if code = SKILL_COND_TYPE_HAS_BUFF then has_buff v mem
      else if code = SKILL_COND_TYPE_HP_NOT_LESS then attr_of mem ATTR_HP * 10000 \<ge> attr_of mem ATTR_HP_MAX * v
      else if code = SKILL_COND_TYPE_HP_GREATER then attr_of mem ATTR_HP * 10000 > attr_of mem ATTR_HP_MAX * v
      else if code = SKILL_COND_TYPE_HP_NOT_GREATER then attr_of mem ATTR_HP * 10000 \<le> attr_of mem ATTR_HP_MAX * v
      else if code = SKILL_COND_TYPE_HP_LESS then attr_of mem ATTR_HP * 10000 < attr_of mem ATTR_HP_MAX * v
      else if code = SKILL_COND_TYPE_MP_NOT_LESS then attr_of mem ATTR_MP \<ge> v
      else if code = SKILL_COND_TYPE_MP_NOT_GREATER then attr_of mem ATTR_MP \<le> v
      else if code = SKILL_COND_TYPE_TEAM_HAS_ROLE then HasRole v team
      else if code = SKILL_COND_TYPE_IS_TYPE then card_Type (tm_card mem) = v
      else if code = SKILL_COND_TYPE_IS_CAMP then card_Camp (tm_card mem) = v
      else if code = SKILL_COND_TYPE_NO_LABEL then v \<notin> set (card_Label (tm_card mem))
      else if code = SKILL_COND_TYPE_NO_BUFF then \<not> has_buff v mem
      else if code = SKILL_COND_TYPE_NO_NPC_ID then
        \<not> list_ex (\<lambda>slot. alive slot \<and> card_Id (tm_card (the slot)) = v) team
      else if code = SKILL_COND_TYPE_IS_NO_TYPE then card_Type (tm_card mem) \<noteq> v
      else if code = SKILL_COND_TYPE_IS_NO_CAMP then card_Camp (tm_card mem) \<noteq> v
      else if code = SKILL_COND_TYPE_SELF_TEAM_MEMBERS_LESS then MembersNum team < v
      else if code = SKILL_COND_TYPE_SELF_TEAM_MEMBERS_GREATER then MembersNum team > v
      else if code = SKILL_COND_TYPE_ROUND_GREATER then round > v
      else if code = SKILL_COND_TYPE_ROUND_LESS then round < v
      else if code = SKILL_COND_TYPE_IN_COLUMN then go_div (tm_pos mem) 3 = i32 (v - 1)
      else False)"

definition cond_plain :: "TeamMember \<Rightarrow> int \<Rightarrow> bool" where
  "cond_plain mem code =
     (if code = SKILL_COND_TYPE_HAS_SHIELD then attr_of mem ATTR_SHIELD > 0
      else if code = SKILL_COND_TYPE_NO_SHIELD then attr_of mem ATTR_SHIELD \<le> 0
      else False)"

definition check_cond :: "slots \<Rightarrow> int \<Rightarrow> TeamMember option \<Rightarrow> int list \<Rightarrow> bool" where
  "check_cond team round mem effect_cond =
     (case mem of None \<Rightarrow> True
      | Some m \<Rightarrow> (case effect_cond of [] \<Rightarrow> True
          | code # rest \<Rightarrow>
              if code = SKILL_COND_TYPE_NONE then True
              else (case rest of v # _ \<Rightarrow> cond_value team round m code v | [] \<Rightarrow> cond_plain m code)))"

section \<open>Conditions of a skill\<close>

text \<open>The loop over the targets: the first slot that is not nil decides.\<close>

fun check_targets :: "slots \<Rightarrow> int \<Rightarrow> int list \<Rightarrow> int list \<Rightarrow> bool option" where
  "check_targets target_team round cond [] = Some True"
| "check_targets target_team round cond (p # ps) =
     (if p < 0 \<or> int (length target_team) \<le> p then None
      else case target_team ! nat p of None \<Rightarrow> check_targets target_team round cond ps
        | Some target \<Rightarrow> Some (check_cond target_team round (Some target) cond))"

definition skill_check_cond :: "slots \<Rightarrow> int \<Rightarrow> TeamMember option \<Rightarrow> slots option \<Rightarrow> int list \<Rightarrow> int list \<Rightarrow> int list
    \<Rightarrow> bool option" where
  "skill_check_cond team round self target_team target_pos effect_cond1 effect_cond2 =
     (if effect_cond1 = [] \<and> effect_cond2 = [] then Some True
      else if self \<noteq> None \<and> \<not> check_cond team round self effect_cond1 then Some False
      else if effect_cond2 = [] then Some True
      else case target_team of None \<Rightarrow> Some True
        | Some tt \<Rightarrow> check_targets tt round effect_cond2 (if target_pos = [] then [0..8] else target_pos))"

definition skill_effect_cond_check :: "slots \<Rightarrow> slots \<Rightarrow> int \<Rightarrow> TeamMember option \<Rightarrow> TeamMember option \<Rightarrow> int list \<Rightarrow> int list
    \<Rightarrow> bool" where
  "skill_effect_cond_check team target_team round self target effect_cond1 effect_cond2 =
     (if effect_cond1 = [] \<and> effect_cond2 = [] then True
      else if self \<noteq> None \<and> \<not> check_cond team round self effect_cond1 then False
      else if target \<noteq> None \<and> \<not> check_cond target_team round target effect_cond2 then False
      else True)"

section \<open>Properties\<close>

text \<open>conditions come in pairs that exclude each other: label, buff, life at least and below, life
  above and at most, type, camp, and shield; a condition on the size of the other team (codes 22 and 23)
  never holds.\<close>
theorem cond_pairs:
  "check_cond team round (Some m) [12, v] = (\<not> check_cond team round (Some m) [1, v])
   \<and> check_cond team round (Some m) [13, v] = (\<not> check_cond team round (Some m) [2, v])
   \<and> check_cond team round (Some m) [6, v] = (\<not> check_cond team round (Some m) [3, v])
   \<and> check_cond team round (Some m) [5, v] = (\<not> check_cond team round (Some m) [4, v])
   \<and> check_cond team round (Some m) [15, v] = (\<not> check_cond team round (Some m) [10, v])
   \<and> check_cond team round (Some m) [16, v] = (\<not> check_cond team round (Some m) [11, v])
   \<and> check_cond team round (Some m) [19] = (\<not> check_cond team round (Some m) [18])
   \<and> \<not> check_cond team round (Some m) [22, v] \<and> \<not> check_cond team round (Some m) [23, v]"
  by (auto simp: check_cond_def cond_value_def cond_plain_def not_less not_le)

lemma check_targets_first:
  assumes "\<forall>p \<in> set ps. 0 \<le> p \<and> p < int (length tt)"
  shows "check_targets tt round cond ps = Some (check_cond tt round
    (case filter (\<lambda>p. tt ! nat p \<noteq> None) ps of [] \<Rightarrow> None | p # _ \<Rightarrow> tt ! nat p) cond)"
  using assms by (induction ps) (auto simp: check_cond_def not_less)

text \<open>the second condition of a skill is asked of the first target that exists and of no other, and a
  position outside the team (the position -1 of an artifact) panics.\<close>
theorem skill_cond_first_target:
  assumes "check_cond team round self c1" and "c2 \<noteq> []" and "pos \<noteq> []"
  shows "((\<forall>p \<in> set pos. 0 \<le> p \<and> p < int (length tt)) \<longrightarrow>
      skill_check_cond team round self (Some tt) pos c1 c2
        = Some (check_cond tt round (case filter (\<lambda>p. tt ! nat p \<noteq> None) pos of [] \<Rightarrow> None | p # _ \<Rightarrow> tt ! nat p) c2))
    \<and> (hd pos = - 1 \<longrightarrow> skill_check_cond team round self (Some tt) pos c1 c2 = None)"
  using assms check_targets_first [of pos tt round c2]
  by (auto simp: skill_check_cond_def neq_Nil_conv)

theorem skill_cond_first_target_witness:
  "\<exists>m. skill_check_cond [] 1 None (Some [None, None, Some m]) [1, 2] [] [10, 3] = Some True
    \<and> skill_check_cond [] 1 None (Some [None, None, Some m]) [- 1] [] [10, 3] = None"
proof -
  let ?m = "undefined\<lparr>tm_card := undefined\<lparr>card_Type := 3\<rparr>\<rparr> :: TeamMember"
  let ?tt = "[None, None, Some ?m]"
  have "check_cond ?tt 1 (Some ?m) [10, 3]" by (simp add: check_cond_def cond_value_def)
  then show ?thesis
    using skill_cond_first_target [of "[]" 1 None "[]" "[10, 3]" "[1, 2]" ?tt]
      skill_cond_first_target [of "[]" 1 None "[]" "[10, 3]" "[- 1]" ?tt]
    by (intro exI [of _ ?m]) (simp add: check_cond_def [of "[]"])
qed

end
