(* ===== verification/Go_Float.thy ===== *)
theory Go_Float
  imports Prelude "HOL-Library.Log_Nat"
begin

text \<open>
  Go's \<open>float64\<close> and \<open>float32\<close> arithmetic on the values the server uses: finite numbers far from the
  ends of the exponent range, as rationals, every operation followed by rounding to 53 or 24 significant
  bits, ties to even.
  The conversion to \<open>int32\<close> truncates; of a value outside the range it yields the least integer, as on
  the amd64 servers.
\<close>

definition round_half_even :: "rat \<Rightarrow> int" where
  "round_half_even x =
     (let f = \<lfloor>x\<rfloor>; d = x - of_int f in
      if d < 1 / 2 then f else if d > 1 / 2 then f + 1 else if even f then f else f + 1)"

text \<open>The exponent: \<open>2 ^ e \<le> x < 2 ^ (e + 1)\<close>.\<close>

definition exponent_of :: "rat \<Rightarrow> int" where
  "exponent_of x =
     (let (p, q) = quotient_of x; k = bitlen p - bitlen q in if 2 powi k \<le> x then k else k - 1)"

definition fl_pos :: "nat \<Rightarrow> rat \<Rightarrow> rat" where
  "fl_pos b x = (let u = 2 powi (exponent_of x - int b) in of_int (round_half_even (x / u)) * u)"

definition fl :: "nat \<Rightarrow> rat \<Rightarrow> rat" where
  "fl b x = (if x = 0 then 0 else if x < 0 then - fl_pos b (- x) else fl_pos b x)"

definition f64 :: "rat \<Rightarrow> rat" where
  "f64 x = fl 52 x"

definition f32 :: "rat \<Rightarrow> rat" where
  "f32 x = fl 23 x"

definition f64_trunc :: "rat \<Rightarrow> int" where
  "f64_trunc x = (if x < 0 then - \<lfloor>- x\<rfloor> else \<lfloor>x\<rfloor>)"

definition int32_of :: "rat \<Rightarrow> int" where
  "int32_of x = (if is_i32 (f64_trunc x) then f64_trunc x else - 2147483648)"

section \<open>Lemmas\<close>

lemma round_half_even_bounds: "of_int \<lfloor>x\<rfloor> \<le> x \<Longrightarrow> \<lfloor>x\<rfloor> \<le> round_half_even x \<and> round_half_even x \<le> \<lfloor>x\<rfloor> + 1"
  by (simp add: round_half_even_def Let_def)

lemma round_half_even_int [simp]: "round_half_even (of_int n) = n"
  by (simp add: round_half_even_def)

lemma round_half_even_ge: "of_int n \<le> x \<Longrightarrow> n \<le> round_half_even x"
  using round_half_even_bounds [of x] by (simp add: le_floor_iff) (meson le_floor_iff order_trans)

lemma round_half_even_le:
  assumes "x \<le> of_int n"
  shows "round_half_even x \<le> n"
proof (cases "x = of_int n")
  case False
  then have "\<lfloor>x\<rfloor> < n" using assms by (simp add: floor_less_iff)
  then show ?thesis using round_half_even_bounds [of x] by simp
qed simp

lemma exponent_of:
  assumes "0 < x"
  shows "2 powi exponent_of x \<le> x" and "x < 2 powi (exponent_of x + 1)"
proof -
  obtain p q where pq: "quotient_of x = (p, q)" by fastforce
  then have q: "0 < q" and x: "x = of_int p / of_int q"
    using quotient_of_denom_pos quotient_of_div by blast+
  then have p: "0 < p" using assms by (simp add: zero_less_divide_iff)
  have bp: "2 ^ nat (bitlen p - 1) \<le> p" "p < 2 ^ nat (bitlen p)" using bitlen_bounds [OF p] by auto
  have bq: "2 ^ nat (bitlen q - 1) \<le> q" "q < 2 ^ nat (bitlen q)" using bitlen_bounds [OF q] by auto
  have pos: "0 < bitlen p" "0 < bitlen q" using p q
    by (metis bitlen_eq_zero_iff bitlen_nonneg less_le not_less)+
  have rp: "2 powi (bitlen p - 1) \<le> (of_int p :: rat)" "(of_int p :: rat) < 2 powi bitlen p"
    using bp pos(1) by (simp_all add: power_int_def flip: of_int_power_le_of_int_cancel_iff)
  have rq: "2 powi (bitlen q - 1) \<le> (of_int q :: rat)" "(of_int q :: rat) < 2 powi bitlen q"
    using bq pos(2) by (simp_all add: power_int_def)
  let ?k = "bitlen p - bitlen q"
  have "(2 :: rat) powi (?k - 1) * of_int q \<le> 2 powi (?k - 1) * 2 powi bitlen q" using rq(2) by simp
  also have "\<dots> = (2 :: rat) powi (bitlen p - 1)" by (simp flip: power_int_add)
  finally have lo: "2 powi (?k - 1) \<le> x" using rp(1) q by (simp add: x pos_le_divide_eq)
  have "of_int p < (2 :: rat) powi bitlen p" by (rule rp(2))
  also have "(2 :: rat) powi bitlen p = 2 powi (?k + 1) * 2 powi (bitlen q - 1)" by (simp flip: power_int_add)
  also have "\<dots> \<le> 2 powi (?k + 1) * of_int q" using rq(1) by simp
  finally have hi: "x < 2 powi (?k + 1)" using q by (simp add: x pos_divide_less_eq)
  show "2 powi exponent_of x \<le> x" "x < 2 powi (exponent_of x + 1)"
    using lo hi by (simp_all add: exponent_of_def pq Let_def split: if_splits)
qed

lemma fl_pos_bounds:
  assumes "0 < x"
  shows "2 powi exponent_of x \<le> fl_pos b x" and "fl_pos b x \<le> 2 powi (exponent_of x + 1)"
proof -
  let ?e = "exponent_of x" let ?u = "2 powi (?e - int b) :: rat"
  have u: "0 < ?u" by simp
  have e: "of_int (2 ^ b) * ?u = 2 powi ?e" "of_int (2 ^ Suc b) * ?u = 2 powi (?e + 1)"
    by (simp_all add: power_int_diff power_int_add)
  have "of_int (2 ^ b) \<le> x / ?u" using exponent_of(1) [OF assms] u e(1) by (simp add: pos_le_divide_eq)
  then have "2 ^ b \<le> round_half_even (x / ?u)" by (rule round_half_even_ge)
  then have "of_int (2 ^ b) * ?u \<le> of_int (round_half_even (x / ?u)) * ?u"
    using u by (meson mult_right_mono of_int_le_iff less_imp_le)
  then show "2 powi ?e \<le> fl_pos b x" unfolding e by (simp add: fl_pos_def Let_def)
  have "x / ?u \<le> of_int (2 ^ Suc b)" using exponent_of(2) [OF assms] u e(2) by (simp add: pos_divide_le_eq)
  then have "round_half_even (x / ?u) \<le> 2 ^ Suc b" by (rule round_half_even_le)
  then have "of_int (round_half_even (x / ?u)) * ?u \<le> of_int (2 ^ Suc b) * ?u"
    using u by (meson mult_right_mono of_int_le_iff less_imp_le)
  then show "fl_pos b x \<le> 2 powi (?e + 1)" unfolding e by (simp add: fl_pos_def Let_def)
qed

text \<open>Rounding does not cross a power of two.\<close>

lemma fl_ge_power:
  assumes "2 powi k \<le> x"
  shows "2 powi k \<le> fl b x"
proof -
  have x: "0 < x" using assms by (meson less_le_trans zero_less_power_int zero_less_numeral)
  have "k \<le> exponent_of x"
  proof (rule ccontr)
    assume "\<not> k \<le> exponent_of x"
    then have "(2 :: rat) powi (exponent_of x + 1) \<le> 2 powi k" by (intro power_int_increasing) simp_all
    then show False using assms exponent_of(2) [OF x] by simp
  qed
  then have "(2 :: rat) powi k \<le> 2 powi exponent_of x" by (simp add: power_int_increasing)
  also have "\<dots> \<le> fl_pos b x" by (rule fl_pos_bounds(1) [OF x])
  finally show ?thesis using x by (simp add: fl_def)
qed

lemma fl_le_power:
  assumes "0 \<le> x" "x \<le> 2 powi k"
  shows "0 \<le> fl b x" and "fl b x \<le> 2 powi k"
proof -
  have "0 \<le> fl b x \<and> fl b x \<le> 2 powi k"
  proof (cases "x = 0")
    case False
    then have x: "0 < x" using assms(1) by simp
    have lo: "0 \<le> fl_pos b x" using fl_pos_bounds(1) [OF x] by (rule order_trans [rotated]) simp
    have hi: "fl_pos b x \<le> 2 powi k"
    proof (cases "exponent_of x + 1 \<le> k")
      case True
      then have "(2 :: rat) powi (exponent_of x + 1) \<le> 2 powi k" by (intro power_int_increasing) simp_all
      then show ?thesis using fl_pos_bounds(2) [OF x, of b] by simp
    next
      case False
      then have "(2 :: rat) powi k \<le> 2 powi exponent_of x" by (intro power_int_increasing) simp_all
      then have eq: "x = 2 powi exponent_of x" "(2 :: rat) powi k = 2 powi exponent_of x"
        using assms(2) exponent_of(1) [OF x] by simp_all
      let ?e = "exponent_of x"
      have "x / 2 powi (?e - int b) = of_int (2 ^ b)"
        by (subst eq(1)) (simp flip: power_int_diff)
      then have "fl_pos b x = of_int (2 ^ b) * 2 powi (?e - int b)" by (simp only: fl_pos_def Let_def round_half_even_int)
      then show ?thesis by (simp add: eq(2) power_int_diff)
    qed
    show ?thesis using x lo hi by (simp add: fl_def)
  qed (simp add: fl_def)
  then show "0 \<le> fl b x" "fl b x \<le> 2 powi k" by auto
qed

lemmas f64_ge_power = fl_ge_power [of _ _ 52, folded f64_def]
lemmas f64_le_power = fl_le_power [of _ _ 52, folded f64_def]
lemmas f32_le_power = fl_le_power [of _ _ 23, folded f32_def]

lemma f64_0 [simp]: "f64 0 = 0"
  by (simp add: f64_def fl_def)

lemma f64_ge_1: "1 \<le> x \<Longrightarrow> 1 \<le> f64 x"
  using f64_ge_power [of 0 x] by simp

lemma f64_nonneg: "0 \<le> x \<Longrightarrow> 0 \<le> f64 x"
proof -
  assume "0 \<le> x"
  moreover obtain k where "x \<le> 2 powi k"
  proof (cases "x = 0")
    case True
    then show ?thesis using that [of 0] by simp
  next
    case False
    then show ?thesis using that [of "exponent_of x + 1"] exponent_of(2) [of x] \<open>0 \<le> x\<close> by simp
  qed
  ultimately show "0 \<le> f64 x" by (rule f64_le_power(1))
qed

lemma int32_of_ge_1:
  assumes "1 \<le> x" "x \<le> 2147483647"
  shows "1 \<le> int32_of x"
  using assms by (auto simp: int32_of_def f64_trunc_def is_i32_def le_floor_iff floor_le_iff)

lemma int32_of_range: "is_i32 (int32_of x)"
  by (simp add: int32_of_def is_i32_def)

end
