(* ===== verification/Battle_Damage.thy ===== *)
theory Battle_Damage
  imports Battle_Data Go_Float
begin

text \<open>
  The numbers of a fight (\<open>hall_server/player_skill.go\<close>): direct injury, cure, shield, artifact damage
  and the damage of a buff. The products of the source are taken in \<open>int64\<close>, where they cannot leave
  the range for \<open>int32\<close> operands; sums and differences wrap at 32 bits. A division of integers by zero
  and an index beyond the effect list panic (\<open>None\<close>).
\<close>

abbreviation (input) "CARD_ROLE_TYPE_ATTACK \<equiv> 1 :: int"
abbreviation (input) "CARD_ROLE_TYPE_DEFENSE \<equiv> 2 :: int"
abbreviation (input) "CARD_ROLE_TYPE_SKILL \<equiv> 3 :: int"

section \<open>Direct injury\<close>

text \<open>The sums of the increases and decreases of damage by the types of the skill; \<open>None\<close> for an
  invalid type.\<close>

definition type_bonus :: "TeamMember \<Rightarrow> TeamMember \<Rightarrow> int \<Rightarrow> int \<times> int \<Rightarrow> (int \<times> int) option" where
  "type_bonus self target skill_type = (\<lambda>(add, sub).
     if skill_type = SKILL_TYPE_NORMAL then
       Some (i32 (add + attr_of self ATTR_NORMAL_DAMAGE_ADD), i32 (sub + attr_of target ATTR_NORMAL_DAMAGE_SUB))
     else if skill_type = SKILL_TYPE_SUPER then
       Some (i32 (add + attr_of self ATTR_RAGE_DAMAGE_ADD), i32 (sub + attr_of target ATTR_RAGE_DAMAGE_SUB))
     else if skill_type = SKILL_TYPE_PASSIVE then Some (add, sub)
     else None)"

definition fight_bonus :: "TeamMember \<Rightarrow> TeamMember \<Rightarrow> int \<Rightarrow> int \<times> int \<Rightarrow> (int \<times> int) option" where
  "fight_bonus self target fight_type = (\<lambda>(add, sub).
     if fight_type = SKILL_FIGHT_TYPE_MELEE then
       Some (i32 (add + attr_of self ATTR_CLOSE_DAMAGE_ADD), i32 (sub + attr_of target ATTR_CLOSE_DAMAGE_SUB))
     else if fight_type = SKILL_FIGHT_TYPE_REMOTE then
       Some (i32 (add + attr_of self ATTR_REMOTE_DAMAGE_ADD), i32 (sub + attr_of target ATTR_REMOTE_DAMAGE_SUB))
     else if fight_type = SKILL_FIGHT_TYPE_NONE then Some (add, sub)
     else None)"

text \<open>The advantage of role types: 1, -1 or 0.\<close>

definition anti_of :: "int \<Rightarrow> int \<Rightarrow> int" where
  "anti_of a b =
     (if a = CARD_ROLE_TYPE_ATTACK \<and> b = CARD_ROLE_TYPE_SKILL then 1
      else if a = CARD_ROLE_TYPE_SKILL \<and> b = CARD_ROLE_TYPE_DEFENSE then 1
      else if a = CARD_ROLE_TYPE_DEFENSE \<and> b = CARD_ROLE_TYPE_ATTACK then 1
      else if a = CARD_ROLE_TYPE_ATTACK \<and> b = CARD_ROLE_TYPE_DEFENSE then - 1
      else if a = CARD_ROLE_TYPE_SKILL \<and> b = CARD_ROLE_TYPE_ATTACK then - 1
      else if a = CARD_ROLE_TYPE_DEFENSE \<and> b = CARD_ROLE_TYPE_SKILL then - 1
      else 0)"

definition anti_bonus :: "int \<Rightarrow> int \<times> int \<Rightarrow> int \<times> int" where
  "anti_bonus anti_type = (\<lambda>(add, sub).
     if anti_type = 1 then (i32 (add + 1500), sub)
     else if anti_type = - 1 then (add, i32 (sub + 1500)) else (add, sub))"

definition reflected :: "TeamMember \<Rightarrow> TeamMember \<Rightarrow> int \<Rightarrow> int" where
  "reflected self target fight_type =
     (let r = (if fight_type = SKILL_FIGHT_TYPE_MELEE
               then i32 (go_div (attr_of target ATTR_ATTACK * attr_of target ATTR_CLOSE_REFLECT) 10000)
               else if fight_type = SKILL_FIGHT_TYPE_REMOTE
               then i32 (go_div (attr_of target ATTR_ATTACK * attr_of target ATTR_REMOTE_REFLECT) 10000)
               else 0);
          r = (if r \<ge> hp self then i32 (hp self - 1) else r) in
      if r > 0 then r else 0)"

definition defense_of :: "TeamMember \<Rightarrow> TeamMember \<Rightarrow> int" where
  "defense_of self target =
     (let d = i32 (go_div (attr_of target ATTR_DEFENSE
            * i32 (i32 (10000 - attr_of self ATTR_BREAK_ARMOR) + attr_of target ATTR_ARMOR_ADD)) 10000) in
      if d < 0 then 0 else d)"

definition attack_of :: "TeamMember \<Rightarrow> int \<Rightarrow> int option" where
  "attack_of self defense =
     (let a = attr_of self ATTR_ATTACK; s = i32 (a + defense) in
      if s = 0 then None
      else let attack = i32 (a - defense);
               attack1 = i32 (go_div (go_div (a * a) s) 2);
               attack = (if attack < attack1 then attack1 else attack) in
        Some (if attack < 1 then 1 else attack))"

text \<open>The factor of the increases and decreases; \<open>None\<close> is the infinity of a division by zero, whose
  product converts to the least integer.\<close>

definition delta_damage :: "int \<Rightarrow> int \<Rightarrow> rat option" where
  "delta_damage damage_add damage_sub =
     (if i32 (damage_add - damage_sub) < 0 then
        (let d = i32 (10000 + i32 (damage_sub - damage_add)) in
         if d = 0 then None else Some (f64 (10000 / of_int d)))
      else Some (f64 (of_int (i32 (i32 (10000 + damage_add) - damage_sub)) / 10000)))"

definition skill_damage :: "TeamMember \<Rightarrow> int \<Rightarrow> int \<Rightarrow> int \<Rightarrow> int \<Rightarrow> int" where
  "skill_damage self attack coefficient damage_add damage_sub =
     (let base_skill_damage = i32 (go_div (attack * coefficient) 10000);
          bonus = of_int (i32 (10000 + attr_of self ATTR_DAMAGE_PERCENT_BONUS));
          d = (case delta_damage damage_add damage_sub of None \<Rightarrow> - 2147483648
               | Some delta \<Rightarrow>
                   int32_of (f64 (f64 (f64 (of_int base_skill_damage * max (f64 (1 / 10)) delta) * bonus) / 10000))) in
      if d < 1 then 1 else d)"

definition critical_damage :: "TeamMember \<Rightarrow> int \<Rightarrow> int" where
  "critical_damage self d =
     int32_of (f64 (of_int d * max (3 / 2) (f64 (of_int (i32 (20000 + attr_of self ATTR_CRITICAL_MULTI)) / 10000))))"

text \<open>A divisor of zero gives infinity, which \<open>math.Min\<close> brings down to 0.9.\<close>

definition block_damage :: "TeamMember \<Rightarrow> int \<Rightarrow> int" where
  "block_damage target d =
     (let b = i32 (10000 + attr_of target ATTR_BLOCK_DEFENSE_RATE);
          factor = (if b = 0 then f64 (9 / 10) else min (f64 (9 / 10)) (f64 (5000 / of_int b))) in
      int32_of (max 1 (f64 (of_int d * max (f64 (1 / 10)) factor))))"

text \<open>Critical hit and block: the damage, whether blocked, whether critical, and the draws left. A
  negative critical rate draws nothing.\<close>

definition roll_damage :: "TeamMember \<Rightarrow> TeamMember \<Rightarrow> int \<Rightarrow> int list \<Rightarrow> int \<times> bool \<times> bool \<times> int list" where
  "roll_damage self target d rs =
     (let critical = i32 (i32 (attr_of self ATTR_CRITICAL - attr_of target ATTR_ANTI_CRITICAL) + 1000);
          block = i32 (i32 (attr_of target ATTR_BLOCK_RATE - attr_of self ATTR_BREAK_BLOCK_RATE) + 600);
          (is_critical, rs) =
            (if critical < 0 then (False, rs)
             else let (r, rs) = Int31n 10000 rs in
               (f64 (f64 (of_int critical * 10000) / f64 (10000 + max 0 (of_int block))) > of_int r, rs)) in
      if is_critical then (critical_damage self d, False, True, rs)
      else let (r, rs) = Int31n 10000 rs in
        if block > r then (block_damage target d, True, False, rs) else (d, False, False, rs))"

definition drained :: "TeamMember \<Rightarrow> int \<Rightarrow> int \<Rightarrow> int" where
  "drained self fight_type d =
     (let h = (if fight_type = SKILL_FIGHT_TYPE_MELEE then i32 (go_div (d * attr_of self ATTR_CLOSE_VAMPIRE) 10000)
               else if fight_type = SKILL_FIGHT_TYPE_REMOTE then i32 (go_div (d * attr_of self ATTR_REMOTE_VAMPIRE) 10000)
               else 0) in
      if h > 0 then h else 0)"

text \<open>The shield: the damage that is left, the shield, and whether all was absorbed.\<close>

definition shield_damage :: "bool \<Rightarrow> int \<Rightarrow> int \<Rightarrow> int \<times> int \<times> bool" where
  "shield_damage pierce shield d =
     (if pierce then (d, if shield < d then 0 else i32 (shield - d), False)
      else let (d, shield) = (if shield < d then (i32 (d - shield), 0) else (0, i32 (shield - d))) in
        (d, shield, d = 0))"

record injury =
  target_damage :: int
  self_damage :: int
  is_block :: bool
  is_critical :: bool
  is_absorb :: bool
  anti_type :: int

definition no_injury :: injury where
  "no_injury = \<lparr>target_damage = 0, self_damage = 0, is_block = False, is_critical = False, is_absorb = False,
     anti_type = 0\<rparr>"

text \<open>The injury, the new shield of the target, and the draws left.\<close>

definition skill_effect_direct_injury :: "TeamMember \<Rightarrow> TeamMember \<Rightarrow> int \<Rightarrow> int \<Rightarrow> int list \<Rightarrow> int list
    \<Rightarrow> (injury \<times> int \<times> int list) option" where
  "skill_effect_direct_injury self target skill_type skill_fight_type effect rs =
     (if length effect < 4 then Some (no_injury, attr_of target ATTR_SHIELD, rs)
      else case type_bonus self target skill_type
            (attr_of self ATTR_TOTAL_DAMAGE_ADD, attr_of target ATTR_TOTAL_DAMAGE_SUB) of
        None \<Rightarrow> Some (no_injury, attr_of target ATTR_SHIELD, rs)
      | Some acc \<Rightarrow> (case fight_bonus self target skill_fight_type acc of
          None \<Rightarrow> Some (no_injury, attr_of target ATTR_SHIELD, rs)
        | Some acc \<Rightarrow>
            (let anti = anti_of (card_Type (tm_card self)) (card_Type (tm_card target));
                 (damage_add, damage_sub) = anti_bonus anti acc;
                 reflect = reflected self target skill_fight_type in do {
               attack \<leftarrow> attack_of self (defense_of self target);
               let d = skill_damage self attack (effect ! 1) damage_add damage_sub;
               let (d, block, critical, rs) = roll_damage self target d rs;
               let (dealt, shield, absorb) = shield_damage (effect ! 3 > 0) (attr_of target ATTR_SHIELD) d;
               Some (\<lparr>target_damage = dealt, self_damage = i32 (reflect - drained self skill_fight_type d),
                      is_block = block, is_critical = critical, is_absorb = absorb, anti_type = anti\<rparr>,
                     shield, rs) })))"

section \<open>Cure, shield, artifact and buff\<close>

definition skill_effect_cure :: "TeamMember \<Rightarrow> TeamMember \<Rightarrow> int list \<Rightarrow> int" where
  "skill_effect_cure self target effect =
     (if length effect < 4 then 0
      else let cure = i32 (go_div (attr_of self ATTR_ATTACK * effect ! 1) 10000
                       + go_div (attr_of target ATTR_HP_MAX * effect ! 2) 10000);
               rate = i32 (i32 (10000 + attr_of self ATTR_CURE_RATE_CORRECT) + attr_of target ATTR_CURED_RATE_CORRECT) in
        int32_of (max 0 (f64 (of_int (go_div (cure * rate) 10000)))))"

definition skill_effect_add_shield :: "TeamMember \<Rightarrow> TeamMember \<Rightarrow> int list \<Rightarrow> int option" where
  "skill_effect_add_shield self target effect =
     (if length effect < 2 then Some 0
      else if length effect = 2 then None
      else let shield = i32 (go_div (attr_of self ATTR_ATTACK * effect ! 1) 10000
                         + go_div (attr_of target ATTR_HP_MAX * effect ! 2) 10000) in
        Some (if shield < 0 then 0 else shield))"

definition skill_effect_artifact_damage :: "TeamMember \<Rightarrow> int list \<Rightarrow> int \<times> int \<times> bool" where
  "skill_effect_artifact_damage target effect =
     (if length effect < 3 then (0, attr_of target ATTR_SHIELD, False)
      else shield_damage (effect ! 2 > 0) (attr_of target ATTR_SHIELD) (effect ! 1))"

text \<open>The product of attack and coefficient is taken in \<open>int32\<close> here.\<close>

definition buff_effect_damage :: "int \<Rightarrow> int \<Rightarrow> nat \<Rightarrow> TeamMember \<Rightarrow> int" where
  "buff_effect_damage user_attack skill_damage_coeff a target =
     (let base_damage = go_div (i32 (user_attack * skill_damage_coeff)) 10000;
          f = of_int (i32 (10000 - attr_of target a)) in
      int32_of (max 1 (f64 (f64 (of_int base_damage * max (f64 (1 / 10)) f) / 10000))))"

end
