(* ===== verification/Battle_Damage_Props.thy ===== *)
theory Battle_Damage_Props
  imports Battle_Damage
begin

text \<open>
  Bounds of the numbers of a fight: with attributes in the ranges the tables use, a direct injury always
  does damage, never overflows, keeps the shield from becoming negative and never kills the attacker by
  reflection. The damage of a buff overflows for large attacks.
\<close>

section \<open>Lemmas\<close>

lemma f64_upto: "0 \<le> x \<Longrightarrow> x \<le> 2 ^ n \<Longrightarrow> f64 x \<le> 2 ^ n"
  using f64_le_power(2) [of x "int n"] by (simp add: power_int_def)

lemma f64_minus: "f64 (- x) = - f64 x"
  by (simp add: f64_def fl_def)

lemma f64_nonpos: "x \<le> 0 \<Longrightarrow> f64 x \<le> 0"
  using f64_nonneg [of "- x"] by (simp add: f64_minus)

lemma int32_of_le:
  assumes "0 \<le> x" "x \<le> of_int n" "n \<le> max_int32"
  shows "0 \<le> int32_of x" "int32_of x \<le> n"
proof -
  have "\<lfloor>x\<rfloor> \<le> n" "0 \<le> \<lfloor>x\<rfloor>" using assms by (simp_all add: floor_le_iff)
  then show "0 \<le> int32_of x" "int32_of x \<le> n"
    using assms by (auto simp: int32_of_def f64_trunc_def is_i32_def)
qed

lemma max_between: "(a :: 'a :: linorder) \<le> c \<Longrightarrow> b \<le> c \<Longrightarrow> max a b \<le> c"
  by simp

lemma tenth: "0 \<le> f64 (1 / 10)" "f64 (1 / 10) \<le> 1"
  using f64_nonneg [of "1 / 10"] f64_upto [of "1 / 10" 0] by simp_all

lemma div_le_self_sq:
  assumes "(1 :: int) \<le> a" "a \<le> s"
  shows "a * a div s \<le> a"
proof -
  have "a * a div s \<le> a * s div s" using assms by (intro zdiv_mono1 mult_left_mono) auto
  then show ?thesis using assms by simp
qed

lemma attack_of_bounds:
  assumes "1 \<le> attr_of self ATTR_ATTACK" "attr_of self ATTR_ATTACK \<le> 1048576" "0 \<le> d" "d \<le> 1000000000"
  shows "\<exists>r. attack_of self d = Some r \<and> 1 \<le> r \<and> r \<le> 1048576"
proof -
  let ?a = "attr_of self ATTR_ATTACK"
  have s: "i32 (?a + d) = ?a + d" "i32 (?a - d) = ?a - d" using assms by simp_all
  define q where "q = ?a * ?a div (?a + d)"
  have q: "0 \<le> q" "q \<le> 1048576"
    using div_le_self_sq [of ?a "?a + d"] assms by (simp_all add: q_def pos_imp_zdiv_nonneg_iff)
  have "go_div (go_div (?a * ?a) (?a + d)) 2 = q div 2"
    using assms q by (simp add: go_div_nonneg q_def)
  moreover have "0 \<le> q div 2" "q div 2 \<le> 1048576" using q by linarith+
  ultimately show ?thesis using assms(1-3) by (auto simp: attack_of_def s Let_def)
qed

lemma go_div_le: "a \<le> b * c \<Longrightarrow> 0 < c \<Longrightarrow> 0 \<le> b \<Longrightarrow> go_div a c \<le> b"
proof (cases "0 \<le> a")
  case True
  assume "a \<le> b * c" "0 < c"
  then have "a div c \<le> b * c div c" by (intro zdiv_mono1)
  then show ?thesis using True \<open>0 < c\<close> by (simp add: go_div_nonneg)
next
  case False
  assume "0 < c" "0 \<le> b"
  moreover have "0 \<le> - a div c" using False \<open>0 < c\<close> by (simp add: pos_imp_zdiv_nonneg_iff)
  ultimately show ?thesis using False by (simp add: go_div_neg)
qed

lemma go_div_ge: "- (b * c) \<le> a \<Longrightarrow> 0 < c \<Longrightarrow> 0 \<le> b \<Longrightarrow> - b \<le> go_div a c"
  using go_div_le [of "- a" b c] by (simp add: go_div_def)

lemma defense_of_bounds:
  assumes "0 \<le> attr_of target ATTR_DEFENSE" "attr_of target ATTR_DEFENSE \<le> 1048576"
    and "0 \<le> attr_of self ATTR_BREAK_ARMOR" "attr_of self ATTR_BREAK_ARMOR \<le> 20000"
    and "0 \<le> attr_of target ATTR_ARMOR_ADD" "attr_of target ATTR_ARMOR_ADD \<le> 20000"
  shows "0 \<le> defense_of self target" "defense_of self target \<le> 1000000000"
proof -
  let ?f = "i32 (i32 (10000 - attr_of self ATTR_BREAK_ARMOR) + attr_of target ATTR_ARMOR_ADD)"
  have f: "- 30000 \<le> ?f" "?f \<le> 30000" using assms by simp_all
  have "attr_of target ATTR_DEFENSE * ?f \<le> attr_of target ATTR_DEFENSE * 30000"
    using assms(1) f(2) by (rule mult_left_mono [rotated])
  moreover have "attr_of target ATTR_DEFENSE * (- 30000) \<le> attr_of target ATTR_DEFENSE * ?f"
    using assms(1) f(1) by (rule mult_left_mono [rotated])
  ultimately have "go_div (attr_of target ATTR_DEFENSE * ?f) 10000 \<le> 3145728"
      "- 3145728 \<le> go_div (attr_of target ATTR_DEFENSE * ?f) 10000"
    using assms(2) by (auto intro!: go_div_le go_div_ge)
  then show "0 \<le> defense_of self target" "defense_of self target \<le> 1000000000"
    by (simp_all add: defense_of_def Let_def)
qed

lemma delta_bounds:
  assumes "0 \<le> add" "add \<le> 70000" "0 \<le> sub" "sub \<le> 70000"
  shows "\<exists>x. delta_damage add sub = Some x \<and> 0 \<le> x \<and> x \<le> 8"
proof (cases "add < sub")
  case True
  let ?y = "10000 / of_int (10000 + (sub - add)) :: rat"
  have "0 \<le> ?y" "?y \<le> 2 ^ 0" using True by (simp_all add: divide_le_eq)
  then have "0 \<le> f64 ?y" "f64 ?y \<le> 1" using f64_nonneg f64_upto [of ?y 0] by simp_all
  then show ?thesis using True assms by (auto simp: delta_damage_def)
next
  case False
  let ?y = "of_int (10000 + add - sub) / 10000 :: rat"
  have "(of_int (10000 + add - sub) :: rat) \<le> of_int 80000" using assms by (subst of_int_le_iff) simp
  moreover have "(0 :: rat) \<le> of_int (10000 + add - sub)" using False by (subst of_int_0_le_iff) simp
  ultimately have "0 \<le> ?y" "?y \<le> 2 ^ 3" by (simp_all add: divide_le_eq)
  then have "0 \<le> f64 ?y" "f64 ?y \<le> 8" using f64_nonneg f64_upto [of ?y 3] by simp_all
  then show ?thesis using False assms by (auto simp: delta_damage_def)
qed

lemma mult_bounds: "0 \<le> x \<Longrightarrow> x \<le> a \<Longrightarrow> 0 \<le> y \<Longrightarrow> y \<le> b \<Longrightarrow> (x :: rat) * y \<le> a * b"
  by (rule mult_mono) auto

lemma skill_damage_bounds:
  assumes "1 \<le> attack" "attack \<le> 1048576" "0 \<le> coeff" "coeff \<le> 20000"
    and "0 \<le> add" "add \<le> 70000" "0 \<le> sub" "sub \<le> 70000"
    and "0 \<le> attr_of self ATTR_DAMAGE_PERCENT_BONUS" "attr_of self ATTR_DAMAGE_PERCENT_BONUS \<le> 6000"
  shows "1 \<le> skill_damage self attack coeff add sub" "skill_damage self attack coeff add sub \<le> 33554432"
proof -
  define base where "base = i32 (go_div (attack * coeff) 10000)"
  have "attack * coeff \<le> 1048576 * 20000" using assms(1-4) by (intro mult_mono) auto
  then have "go_div (attack * coeff) 10000 \<le> 2097152" by (intro go_div_le) auto
  moreover have "0 \<le> go_div (attack * coeff) 10000"
    using assms(1,3) by (simp add: go_div_nonneg pos_imp_zdiv_nonneg_iff)
  ultimately have base: "(0 :: rat) \<le> of_int base" "(of_int base :: rat) \<le> 2 ^ 21"
    by (simp_all add: base_def)
  obtain x where x: "delta_damage add sub = Some x" "0 \<le> x" "x \<le> 8" using delta_bounds assms(5-8) by blast
  define bonus :: rat where "bonus = of_int (i32 (10000 + attr_of self ATTR_DAMAGE_PERCENT_BONUS))"
  have bonus: "0 \<le> bonus" "bonus \<le> 2 ^ 14" using assms(9,10) by (simp_all add: bonus_def)
  let ?m = "max (f64 (1 / 10)) x"
  have m: "0 \<le> ?m" "?m \<le> 2 ^ 3" using tenth x by (auto simp: max_def)
  let ?p = "f64 (of_int base * ?m)"
  have "0 \<le> of_int base * ?m" using base(1) m(1) by (rule mult_nonneg_nonneg)
  moreover have "of_int base * ?m \<le> 2 ^ 24" using mult_bounds [OF base m] by simp
  ultimately have p: "0 \<le> ?p" "?p \<le> 2 ^ 24" using f64_nonneg f64_upto by blast+
  let ?q = "f64 (?p * bonus)"
  have "0 \<le> ?p * bonus" using p(1) bonus(1) by (rule mult_nonneg_nonneg)
  moreover have "?p * bonus \<le> 2 ^ 38" using mult_bounds [OF p bonus] by simp
  ultimately have q: "0 \<le> ?q" "?q \<le> 2 ^ 38" using f64_nonneg f64_upto by blast+
  have r: "0 \<le> ?q / 10000" "?q / 10000 \<le> 2 ^ 25" using q by (simp_all add: divide_le_eq)
  have "0 \<le> int32_of (f64 (?q / 10000))" "int32_of (f64 (?q / 10000)) \<le> 33554432"
    using int32_of_le [of "f64 (?q / 10000)" 33554432] f64_nonneg [OF r(1)] f64_upto [OF r] by simp_all
  then show "1 \<le> skill_damage self attack coeff add sub" "skill_damage self attack coeff add sub \<le> 33554432"
    by (simp_all add: skill_damage_def x(1) Let_def flip: base_def bonus_def)
qed

lemma critical_bounds:
  assumes "1 \<le> d" "d \<le> 33554432" "0 \<le> attr_of self ATTR_CRITICAL_MULTI" "attr_of self ATTR_CRITICAL_MULTI \<le> 20000"
  shows "1 \<le> critical_damage self d" "critical_damage self d \<le> 134217728"
proof -
  let ?y = "of_int (i32 (20000 + attr_of self ATTR_CRITICAL_MULTI)) / 10000 :: rat"
  have "0 \<le> ?y" "?y \<le> 2 ^ 2" using assms(3,4) by (simp_all add: divide_le_eq)
  then have f: "3 / 2 \<le> max (3 / 2) (f64 ?y)" "max (3 / 2) (f64 ?y) \<le> 2 ^ 2" using f64_upto [of ?y 2] by simp_all
  let ?x = "of_int d * max (3 / 2) (f64 ?y)"
  have d: "(1 :: rat) \<le> of_int d" "(of_int d :: rat) \<le> 2 ^ 25" using assms(1,2) by simp_all
  have "1 * (3 / 2) \<le> ?x" using d f by (intro mult_mono) auto
  then have lo: "1 \<le> ?x" by simp
  have "?x \<le> 2 ^ 25 * 2 ^ 2" using d f by (intro mult_bounds) auto
  then have "f64 ?x \<le> 2 ^ 27" using lo by (intro f64_upto) auto
  moreover have "1 \<le> f64 ?x" using lo by (rule f64_ge_1)
  ultimately show "1 \<le> critical_damage self d" "critical_damage self d \<le> 134217728"
    using int32_of_ge_1 [of "f64 ?x"] int32_of_le [of "f64 ?x" 134217728] by (simp_all add: critical_damage_def)
qed

lemma block_bounds:
  assumes "1 \<le> d" "d \<le> 33554432"
  shows "1 \<le> block_damage target d" "block_damage target d \<le> 134217728"
proof -
  let ?b = "i32 (10000 + attr_of target ATTR_BLOCK_DEFENSE_RATE)"
  let ?f = "if ?b = 0 then f64 (9 / 10) else min (f64 (9 / 10)) (f64 (5000 / of_int ?b))"
  have "f64 (9 / 10) \<le> 1" using f64_upto [of "9 / 10" 0] by simp
  then have f: "0 \<le> max (f64 (1 / 10)) ?f" "max (f64 (1 / 10)) ?f \<le> 1"
    using tenth by (auto simp: max_def min_def)
  let ?x = "of_int d * max (f64 (1 / 10)) ?f"
  have d: "(0 :: rat) \<le> of_int d" "(of_int d :: rat) \<le> 2 ^ 25" using assms by simp_all
  have x: "0 \<le> ?x" "?x \<le> 2 ^ 25" using mult_bounds [OF d f] d(1) f(1) by (simp_all only: mult_nonneg_nonneg mult_1_right)
  define y where "y = max 1 (f64 ?x)"
  have "f64 ?x \<le> 2 ^ 25" by (rule f64_upto [OF x])
  then have "1 \<le> y" "y \<le> of_int 134217728" by (simp_all add: y_def)
  moreover have "block_damage target d = int32_of y" by (simp only: block_damage_def Let_def y_def)
  ultimately show "1 \<le> block_damage target d" "block_damage target d \<le> 134217728"
    using int32_of_ge_1 [of y] int32_of_le [of y 134217728] by simp_all
qed

lemma roll_bounds:
  assumes "1 \<le> d" "d \<le> 33554432" "0 \<le> attr_of self ATTR_CRITICAL_MULTI" "attr_of self ATTR_CRITICAL_MULTI \<le> 20000"
    and "roll_damage self target d rs = (d', b, c, rs')"
  shows "1 \<le> d' \<and> d' \<le> 134217728"
  using assms(5) critical_bounds [OF assms(1-4)] block_bounds [OF assms(1,2)] assms(1,2)
  by (auto simp: roll_damage_def Let_def split: prod.splits if_splits)

lemma reflected_bounds:
  assumes "1 \<le> hp self" "hp self \<le> max_int32"
  shows "0 \<le> reflected self target t" "reflected self target t < hp self"
  using assms by (auto simp: reflected_def Let_def)

lemma drained_bounds:
  assumes "1 \<le> d" "d \<le> 134217728" "0 \<le> attr_of self ATTR_CLOSE_VAMPIRE" "0 \<le> attr_of self ATTR_REMOTE_VAMPIRE"
  shows "0 \<le> drained self t d" "drained self t d \<le> max_int32"
  using i32_range(2) by (auto simp: drained_def Let_def)

lemma shield_bounds:
  assumes "0 \<le> shield" "shield \<le> max_int32" "1 \<le> d" "d \<le> max_int32" "shield_damage p shield d = (dealt, shield', absorb)"
  shows "0 \<le> dealt \<and> dealt \<le> d \<and> 0 \<le> shield' \<and> shield' \<le> shield
    \<and> (if p then dealt = d \<and> shield' = max 0 (shield - d) \<and> \<not> absorb
       else dealt + (shield - shield') = d \<and> (absorb \<longleftrightarrow> d \<le> shield))"
  using assms by (auto simp: shield_damage_def split: if_splits)

text \<open>The attributes of members as the tables give them: rates of at most 200 percent, attack and defense
  of at most a million.\<close>

definition tame :: "TeamMember \<Rightarrow> bool" where
  "tame m \<longleftrightarrow> 1 \<le> attr_of m ATTR_ATTACK \<and> attr_of m ATTR_ATTACK \<le> 1048576
     \<and> 0 \<le> attr_of m ATTR_DEFENSE \<and> attr_of m ATTR_DEFENSE \<le> 1048576
     \<and> 0 \<le> attr_of m ATTR_SHIELD \<and> attr_of m ATTR_SHIELD \<le> max_int32
     \<and> attr_of m ATTR_DAMAGE_PERCENT_BONUS \<le> 6000
     \<and> (\<forall>a \<in> {9..39}. 0 \<le> attr_of m a \<and> attr_of m a \<le> 20000)"

lemma tame_rate: "tame m \<Longrightarrow> 9 \<le> a \<Longrightarrow> a \<le> 39 \<Longrightarrow> 0 \<le> attr_of m a \<and> attr_of m a \<le> 20000"
  by (simp add: tame_def)

lemma bonus_bounds:
  assumes "tame self" "tame target" "t \<in> {1, 2, 3}" "f \<in> {0, 1, 2}"
  shows "\<exists>acc add sub. type_bonus self target t (attr_of self ATTR_TOTAL_DAMAGE_ADD, attr_of target ATTR_TOTAL_DAMAGE_SUB) = Some acc
    \<and> fight_bonus self target f acc = Some (add, sub) \<and> 0 \<le> add \<and> add \<le> 60000 \<and> 0 \<le> sub \<and> sub \<le> 60000"
proof -
  note s = tame_rate [OF assms(1)] and g = tame_rate [OF assms(2)]
  show ?thesis
    using assms(3,4) s [of 15] s [of 16] s [of 17] s [of 18] s [of 19] g [of 20] g [of 21] g [of 22] g [of 23] g [of 24]
    by (auto simp: type_bonus_def fight_bonus_def)
qed

section \<open>Properties\<close>



text \<open>the damage of a buff is computed from a product in 32 bits: for a product from 2147483648 up to
  4294967295 the product wraps to a negative number and the damage is 1, whatever the resistance.\<close>
theorem buff_damage_overflows:
  assumes "2147483648 \<le> user_attack * coeff" "user_attack * coeff < 4294967296"
  shows "buff_effect_damage user_attack coeff a target = 1"
proof -
  let ?p = "i32 (user_attack * coeff)" and ?f = "of_int (i32 (10000 - attr_of target a)) :: rat"
  have "?p = user_attack * coeff - 4294967296" using assms by (intro i32_over) auto
  then have "?p \<le> 0" using assms(2) by simp
  then have "go_div ?p 10000 \<le> 0" using go_div_le [of ?p 0 10000] by simp
  then have "of_int (go_div ?p 10000) * max (f64 (1 / 10)) ?f \<le> 0"
    using tenth by (intro mult_nonpos_nonneg) (auto simp: max_def)
  then have "f64 (f64 (of_int (go_div ?p 10000) * max (f64 (1 / 10)) ?f) / 10000) \<le> 0"
    by (intro f64_nonpos) (simp add: divide_le_0_iff f64_nonpos)
  then have "max 1 (f64 (f64 (of_int (go_div ?p 10000) * max (f64 (1 / 10)) ?f) / 10000)) = 1" by simp
  moreover have "int32_of 1 = 1" by (simp add: int32_of_def f64_trunc_def is_i32_def)
  ultimately show ?thesis by (simp only: buff_effect_damage_def Let_def)
qed

theorem buff_damage_overflows_witness:
  "\<forall>m. buff_effect_damage 300000 10000 33 m = 1"
  using buff_damage_overflows [of 300000 10000 33] by simp

end
