(* ===== verification/Battle_Passive.thy ===== *)
theory Battle_Passive
  imports Battle_Data
begin

text \<open>
  The passive skills of a member and how often they may trigger (\<open>PassiveTriggerDataList\<close> and the
  passive part of \<open>TeamMember\<close> in \<open>hall_server/player_member.go\<close>). A trigger list is the list of its
  data from head to tail; \<open>USE_PASSIVE_LIST\<close> is false, so the other representation is dead code. A nil
  map of lists is the empty map. \<open>tbl\<close> is the skill table.
\<close>

type_synonym trigger_list = "PassiveTriggerData list"
type_synonym skill_table = "int \<Rightarrow> XmlSkillItem option"

section \<open>Trigger lists\<close>

definition trigger_push_back :: "trigger_list \<Rightarrow> PassiveTriggerData \<Rightarrow> trigger_list" where
  "trigger_push_back ts d = ts @ [d]"

fun remove_by_skill :: "int \<Rightarrow> trigger_list \<Rightarrow> bool \<times> trigger_list" where
  "remove_by_skill skill_id [] = (False, [])"
| "remove_by_skill skill_id (d # ts) =
     (if skill_Id (pt_skill d) = skill_id then (True, ts)
      else let (b, ts) = remove_by_skill skill_id ts in (b, d # ts))"

definition ready :: "PassiveTriggerData \<Rightarrow> bool" where
  "ready d \<longleftrightarrow> battle_num d \<noteq> 0 \<and> round_num d \<noteq> 0"

definition event_num :: "trigger_list \<Rightarrow> int" where
  "event_num ts = (if list_ex ready ts then 1 else 0)"

definition can_trigger :: "int \<Rightarrow> trigger_list \<Rightarrow> bool" where
  "can_trigger skill_id ts = list_ex (\<lambda>d. skill_Id (pt_skill d) = skill_id \<and> ready d) ts"

definition use_once :: "PassiveTriggerData \<Rightarrow> PassiveTriggerData" where
  "use_once d = d\<lparr>battle_num := (if battle_num d > 0 then battle_num d - 1 else battle_num d),
                 round_num := (if round_num d > 0 then round_num d - 1 else round_num d)\<rparr>"

fun trigger_used :: "int \<Rightarrow> trigger_list \<Rightarrow> trigger_list" where
  "trigger_used skill_id [] = []"
| "trigger_used skill_id (d # ts) =
     (if skill_Id (pt_skill d) = skill_id then use_once d # ts else d # trigger_used skill_id ts)"

definition new_round :: "PassiveTriggerData \<Rightarrow> PassiveTriggerData" where
  "new_round d = (if TriggerRoundMax (pt_skill d) > 0 then d\<lparr>round_num := TriggerRoundMax (pt_skill d)\<rparr> else d)"

section \<open>The member's passive skills\<close>

definition add_skill_attr :: "skill_table \<Rightarrow> int \<Rightarrow> TeamMember \<Rightarrow> TeamMember option" where
  "add_skill_attr tbl skill_id m = (case tbl skill_id of None \<Rightarrow> Some m | Some skill \<Rightarrow> add_attrs (SkillAttr skill) m)"

definition new_trigger :: "XmlSkillItem \<Rightarrow> PassiveTriggerData" where
  "new_trigger skill = \<lparr>pt_skill = skill,
     battle_num = (if TriggerBattleMax skill = 0 then - 1 else TriggerBattleMax skill),
     round_num = (if TriggerRoundMax skill = 0 then - 1 else TriggerRoundMax skill)\<rparr>"

definition lists_of :: "TeamMember \<Rightarrow> int \<Rightarrow> trigger_list" where
  "lists_of m e = (case passive_trigger_lists m e of None \<Rightarrow> [] | Some ts \<Rightarrow> ts)"

definition add_passive_trigger :: "skill_table \<Rightarrow> int \<Rightarrow> TeamMember \<Rightarrow> bool \<times> TeamMember" where
  "add_passive_trigger tbl skill_id m =
     (case tbl skill_id of None \<Rightarrow> (False, m)
      | Some skill \<Rightarrow>
          if skill_Type skill \<noteq> SKILL_TYPE_PASSIVE then (False, m)
          else if skill_id \<in> set (passive_skills m) then (False, m)
          else (True, m\<lparr>passive_trigger_lists := (passive_trigger_lists m)
                          (SkillTriggerType skill \<mapsto> trigger_push_back (lists_of m (SkillTriggerType skill)) (new_trigger skill)),
                        passive_skills := passive_skills m @ [skill_id]\<rparr>))"

definition delete_passive_trigger :: "skill_table \<Rightarrow> int \<Rightarrow> TeamMember \<Rightarrow> bool \<times> TeamMember" where
  "delete_passive_trigger tbl skill_id m =
     (case tbl skill_id of None \<Rightarrow> (False, m)
      | Some skill \<Rightarrow>
          if skill_Type skill \<noteq> SKILL_TYPE_PASSIVE then (False, m)
          else if skill_id \<notin> set (passive_skills m) then (False, m)
          else (case passive_trigger_lists m (SkillTriggerType skill) of None \<Rightarrow> (False, m)
            | Some ts \<Rightarrow>
                (let (b, ts) = remove_by_skill (skill_Id skill) ts;
                     m = m\<lparr>passive_trigger_lists := (passive_trigger_lists m)(SkillTriggerType skill \<mapsto> ts)\<rparr> in
                 (True, if b then m\<lparr>passive_skills := removeAll skill_id (passive_skills m)\<rparr> else m))))"

definition can_passive_trigger :: "int \<Rightarrow> int \<Rightarrow> TeamMember \<Rightarrow> bool" where
  "can_passive_trigger trigger_event skill_id m =
     (case passive_trigger_lists m trigger_event of None \<Rightarrow> False | Some ts \<Rightarrow> can_trigger skill_id ts)"

definition used_passive_trigger_count :: "int \<Rightarrow> int \<Rightarrow> TeamMember \<Rightarrow> TeamMember" where
  "used_passive_trigger_count trigger_event skill_id m =
     (case passive_trigger_lists m trigger_event of None \<Rightarrow> m
      | Some ts \<Rightarrow> m\<lparr>passive_trigger_lists := (passive_trigger_lists m)(trigger_event \<mapsto> trigger_used skill_id ts)\<rparr>)"

text \<open>The loop over the events ends at the first without a list.\<close>

fun count_events :: "TeamMember \<Rightarrow> int list \<Rightarrow> int" where
  "count_events m [] = 0"
| "count_events m (e # es) =
     (case passive_trigger_lists m e of None \<Rightarrow> 0 | Some ts \<Rightarrow> event_num ts + count_events m es)"

definition has_trigger_event :: "int list \<Rightarrow> TeamMember \<Rightarrow> bool" where
  "has_trigger_event trigger_events m = (count_events m trigger_events = int (length trigger_events))"

definition init_passive_round_num :: "TeamMember \<Rightarrow> TeamMember" where
  "init_passive_round_num m = m\<lparr>passive_trigger_lists := map_option (map new_round) \<circ> passive_trigger_lists m\<rparr>"

definition round_start :: "TeamMember \<Rightarrow> TeamMember" where
  "round_start m = init_passive_round_num (m\<lparr>act_num := i32 (act_num m + 1)\<rparr>)"

definition init_passive_data :: "skill_table \<Rightarrow> int list \<Rightarrow> TeamMember \<Rightarrow> TeamMember" where
  "init_passive_data tbl skills m = fold (\<lambda>s m. snd (add_passive_trigger tbl s m)) skills m"

definition add_passive_skill :: "skill_table \<Rightarrow> int \<Rightarrow> TeamMember \<Rightarrow> TeamMember option" where
  "add_passive_skill tbl skill_id m = add_skill_attr tbl skill_id (snd (add_passive_trigger tbl skill_id m))"

text \<open>\<open>init_equip\<close>: the skills and attributes of an equipment; \<open>items\<close> gives both by the item's id.\<close>

fun add_skill_attrs :: "skill_table \<Rightarrow> int list \<Rightarrow> TeamMember \<Rightarrow> TeamMember option" where
  "add_skill_attrs tbl [] m = Some m"
| "add_skill_attrs tbl (s # ss) m = do { m \<leftarrow> add_skill_attr tbl s m; add_skill_attrs tbl ss m }"

definition init_equip :: "skill_table \<Rightarrow> (int \<Rightarrow> (int list \<times> int list) option) \<Rightarrow> int \<Rightarrow> TeamMember \<Rightarrow> TeamMember option" where
  "init_equip tbl items equip_id m =
     (case items equip_id of None \<Rightarrow> Some m
      | Some (equip_skill, equip_attr) \<Rightarrow> do {
          m \<leftarrow> add_skill_attrs tbl equip_skill (init_passive_data tbl equip_skill m);
          add_attrs equip_attr m })"

fun init_equips :: "skill_table \<Rightarrow> (int \<Rightarrow> (int list \<times> int list) option) \<Rightarrow> int list \<Rightarrow> TeamMember \<Rightarrow> TeamMember option" where
  "init_equips tbl items [] m = Some m"
| "init_equips tbl items (e # es) m = do { m \<leftarrow> init_equip tbl items e m; init_equips tbl items es m }"

definition init_attrs_equips_skills :: "skill_table \<Rightarrow> (int \<Rightarrow> (int list \<times> int list) option) \<Rightarrow> int \<Rightarrow> XmlCardItem
    \<Rightarrow> int list \<Rightarrow> int list \<Rightarrow> TeamMember \<Rightarrow> TeamMember option" where
  "init_attrs_equips_skills tbl items level role_card equips extra_equips m =
     (let m = m\<lparr>attrs := replicate ATTR_COUNT_MAX 0, passive_skills := [], tm_level := level, tm_card := role_card\<rparr>;
          ids = (if NormalSkillID role_card > 0 then [NormalSkillID role_card] else []) @
                (if SuperSkillID role_card > 0 then [SuperSkillID role_card] else []) @ PassiveSkillIds role_card in do {
        m \<leftarrow> add_skill_attrs tbl ids m;
        m \<leftarrow> init_equips tbl items equips (init_passive_data tbl (PassiveSkillIds role_card) m);
        init_equips tbl items extra_equips m })"

section \<open>Invariant\<close>

text \<open>Every passive skill of the member has exactly one datum, in the list of its event, and no other data
  are in the lists.\<close>

definition table_ok :: "skill_table \<Rightarrow> bool" where
  "table_ok tbl \<longleftrightarrow> (\<forall>i s. tbl i = Some s \<longrightarrow> skill_Id s = i)"

definition passive_inv :: "skill_table \<Rightarrow> TeamMember \<Rightarrow> bool" where
  "passive_inv tbl m \<longleftrightarrow> distinct (passive_skills m)
     \<and> (\<forall>e. distinct (map (\<lambda>d. skill_Id (pt_skill d)) (lists_of m e)))
     \<and> (\<forall>i. i \<in> set (passive_skills m) \<longleftrightarrow> (\<exists>e. i \<in> (\<lambda>d. skill_Id (pt_skill d)) ` set (lists_of m e)))
     \<and> (\<forall>e. \<forall>d \<in> set (lists_of m e). tbl (skill_Id (pt_skill d)) = Some (pt_skill d) \<and> SkillTriggerType (pt_skill d) = e)"

abbreviation trig_ids :: "trigger_list \<Rightarrow> int list" where
  "trig_ids ts \<equiv> map (\<lambda>d. skill_Id (pt_skill d)) ts"

lemma remove_by_skill_spec:
  "distinct (trig_ids ts) \<Longrightarrow> remove_by_skill i ts = (i \<in> set (trig_ids ts), filter (\<lambda>d. skill_Id (pt_skill d) \<noteq> i) ts)"
proof (induction ts)
  case (Cons d ts)
  show ?case
  proof (cases "skill_Id (pt_skill d) = i")
    case True
    have "i \<notin> set (trig_ids ts)" using Cons.prems unfolding True [symmetric] by simp
    then have "\<forall>x \<in> set ts. skill_Id (pt_skill x) \<noteq> i" by auto
    then have "filter (\<lambda>d. skill_Id (pt_skill d) \<noteq> i) ts = ts" by (rule filter_True)
    then show ?thesis using True by simp
  next
    case False
    then show ?thesis using Cons.IH Cons.prems by simp
  qed
qed simp

lemma ids_filter: "trig_ids (filter (\<lambda>d. skill_Id (pt_skill d) \<noteq> i) ts) = filter (\<lambda>j. j \<noteq> i) (trig_ids ts)"
  by (induction ts) auto

lemma trigger_used_ids [simp]: "trig_ids (trigger_used i ts) = trig_ids ts"
  by (induction ts) (auto simp: use_once_def)

lemma new_trigger_skill [simp]: "pt_skill (new_trigger s) = s"
  by (simp add: new_trigger_def)

lemma add_passive_trigger_inv:
  assumes "passive_inv tbl m" and "table_ok tbl"
  shows "passive_inv tbl (snd (add_passive_trigger tbl i m))"
proof (cases "fst (add_passive_trigger tbl i m)")
  case False
  then show ?thesis using assms(1) by (auto simp: add_passive_trigger_def split: option.splits if_splits)
next
  case True
  then obtain s where s: "tbl i = Some s" "skill_Type s = SKILL_TYPE_PASSIVE" "i \<notin> set (passive_skills m)"
    by (auto simp: add_passive_trigger_def split: option.splits if_splits)
  let ?m = "snd (add_passive_trigger tbl i m)" and ?e = "SkillTriggerType s"
  have l: "lists_of ?m e = (if e = ?e then lists_of m e @ [new_trigger s] else lists_of m e)" for e
    using s by (simp add: add_passive_trigger_def trigger_push_back_def lists_of_def)
  have p: "passive_skills ?m = passive_skills m @ [i]" using s by (simp add: add_passive_trigger_def)
  have i: "skill_Id s = i" using assms(2) s(1) by (simp add: table_ok_def)
  have new: "i \<notin> (\<lambda>d. skill_Id (pt_skill d)) ` set (lists_of m e)" for e
    using assms(1) s(3) unfolding passive_inv_def by blast
  have "distinct (trig_ids (lists_of ?m e))" for e
    using assms(1) new [of e] new [of ?e] by (simp add: l i passive_inv_def)
  moreover have "j \<in> set (passive_skills ?m) \<longleftrightarrow> (\<exists>e. j \<in> (\<lambda>d. skill_Id (pt_skill d)) ` set (lists_of ?m e))" for j
  proof (cases "j = i")
    case True
    have "i \<in> (\<lambda>d. skill_Id (pt_skill d)) ` set (lists_of ?m ?e)" by (simp add: l i)
    then show ?thesis unfolding True p by auto
  next
    case False
    then have "(j \<in> (\<lambda>d. skill_Id (pt_skill d)) ` set (lists_of ?m e))
        = (j \<in> (\<lambda>d. skill_Id (pt_skill d)) ` set (lists_of m e))" for e by (auto simp: l i)
    moreover have "j \<in> set (passive_skills ?m) \<longleftrightarrow> j \<in> set (passive_skills m)" using False by (simp add: p)
    ultimately show ?thesis using assms(1) by (simp add: passive_inv_def)
  qed
  moreover have "\<forall>d \<in> set (lists_of ?m e). tbl (skill_Id (pt_skill d)) = Some (pt_skill d) \<and> SkillTriggerType (pt_skill d) = e" for e
    using assms(1) s(1) by (auto simp: l i passive_inv_def)
  moreover have "distinct (passive_skills ?m)" using assms(1) s(3) by (simp add: p passive_inv_def)
  ultimately show ?thesis by (simp add: passive_inv_def)
qed

lemma delete_passive_trigger_inv:
  assumes "passive_inv tbl m" and "table_ok tbl"
  shows "passive_inv tbl (snd (delete_passive_trigger tbl i m))"
proof (cases "fst (delete_passive_trigger tbl i m)")
  case False
  then show ?thesis using assms(1)
    by (auto simp: delete_passive_trigger_def Let_def split: option.splits if_splits prod.splits)
next
  case True
  then obtain s ts where s: "tbl i = Some s" "skill_Type s = SKILL_TYPE_PASSIVE" "i \<in> set (passive_skills m)"
      "passive_trigger_lists m (SkillTriggerType s) = Some ts"
    by (auto simp: delete_passive_trigger_def Let_def split: option.splits if_splits prod.splits)
  let ?m = "snd (delete_passive_trigger tbl i m)" and ?e = "SkillTriggerType s"
  have i: "skill_Id s = i" using assms(2) s(1) by (simp add: table_ok_def)
  have d: "distinct (trig_ids ts)" using assms(1) s(4) unfolding passive_inv_def lists_of_def by (metis option.simps(5))
  have home: "e = ?e" if "x \<in> set (lists_of m e)" "skill_Id (pt_skill x) = i" for e x
    using assms(1) that s(1) unfolding passive_inv_def by fastforce
  have lts: "lists_of m ?e = ts" using s(4) by (simp add: lists_of_def)
  obtain e where "i \<in> (\<lambda>d. skill_Id (pt_skill d)) ` set (lists_of m e)"
    using assms(1) s(3) unfolding passive_inv_def by blast
  then obtain x where x: "x \<in> set (lists_of m e)" "skill_Id (pt_skill x) = i" by auto
  then have mem: "i \<in> set (trig_ids ts)" using home [OF x] lts by auto
  have l: "lists_of ?m e = filter (\<lambda>d. skill_Id (pt_skill d) \<noteq> i) (lists_of m e)" for e
  proof (cases "e = ?e")
    case True
    then show ?thesis using s remove_by_skill_spec [OF d, of i] mem lts
      by (simp add: delete_passive_trigger_def i lists_of_def)
  next
    case False
    then have "\<forall>x \<in> set (lists_of m e). skill_Id (pt_skill x) \<noteq> i" using home by blast
    then have "filter (\<lambda>d. skill_Id (pt_skill d) \<noteq> i) (lists_of m e) = lists_of m e" by (rule filter_True)
    moreover have "lists_of ?m e = lists_of m e"
      using s remove_by_skill_spec [OF d, of i] mem False by (simp add: delete_passive_trigger_def i lists_of_def)
    ultimately show ?thesis by simp
  qed
  have p: "passive_skills ?m = removeAll i (passive_skills m)"
    using s remove_by_skill_spec [OF d, of i] mem by (simp add: delete_passive_trigger_def i)
  have "distinct (trig_ids (lists_of ?m e))" for e
    unfolding l ids_filter using assms(1) by (simp add: passive_inv_def)
  moreover have "j \<in> set (passive_skills ?m) \<longleftrightarrow> (\<exists>e. j \<in> (\<lambda>d. skill_Id (pt_skill d)) ` set (lists_of ?m e))" for j
    using assms(1) unfolding l p passive_inv_def by fastforce
  moreover have "\<forall>d \<in> set (lists_of ?m e). tbl (skill_Id (pt_skill d)) = Some (pt_skill d) \<and> SkillTriggerType (pt_skill d) = e" for e
    using assms(1) unfolding l passive_inv_def set_filter by blast
  moreover have "distinct (passive_skills ?m)"
    using assms(1) unfolding p by (simp add: passive_inv_def distinct_removeAll)
  ultimately show ?thesis by (simp add: passive_inv_def)
qed

lemma passive_inv_cong:
  "passive_skills m' = passive_skills m \<Longrightarrow> passive_trigger_lists m' = passive_trigger_lists m
    \<Longrightarrow> passive_inv tbl m' = passive_inv tbl m"
  by (simp add: passive_inv_def lists_of_def)

lemma new_round_skill [simp]: "pt_skill (new_round d) = pt_skill d" "pt_skill (use_once d) = pt_skill d"
  by (simp_all add: new_round_def use_once_def)

lemma round_start_inv:
  assumes "passive_inv tbl m"
  shows "passive_inv tbl (round_start m)"
proof -
  have "lists_of (round_start m) e = map new_round (lists_of m e)" for e
    by (simp add: round_start_def init_passive_round_num_def lists_of_def split: option.splits)
  moreover have "passive_skills (round_start m) = passive_skills m"
    by (simp add: round_start_def init_passive_round_num_def)
  ultimately show ?thesis using assms by (simp add: passive_inv_def comp_def image_image)
qed

lemma used_inv:
  assumes "passive_inv tbl m"
  shows "passive_inv tbl (used_passive_trigger_count e i m)"
proof -
  have b: "lists_of (used_passive_trigger_count e i m) e' = (if e' = e then trigger_used i (lists_of m e) else lists_of m e')" for e'
    by (auto simp: used_passive_trigger_count_def lists_of_def split: option.splits)
  have p: "passive_skills (used_passive_trigger_count e i m) = passive_skills m"
    by (simp add: used_passive_trigger_count_def split: option.splits)
  have u: "pt_skill ` set (trigger_used i ts) = pt_skill ` set ts" for ts by (induction ts) auto
  have u2: "(\<lambda>d. skill_Id (pt_skill d)) ` set (trigger_used i ts) = (\<lambda>d. skill_Id (pt_skill d)) ` set ts" for ts
    using arg_cong [OF u [of ts], of "\<lambda>S. skill_Id ` S"] by (simp add: image_image)
  have "\<forall>d \<in> set (trigger_used i ts). Q (pt_skill d)" if "\<forall>d \<in> set ts. Q (pt_skill d)" for Q ts
    using that u [of ts] by (metis imageE imageI)
  from this [of "lists_of m e" "\<lambda>s. tbl (skill_Id s) = Some s \<and> SkillTriggerType s = e"]
  have "\<forall>d \<in> set (trigger_used i (lists_of m e)). tbl (skill_Id (pt_skill d)) = Some (pt_skill d) \<and> SkillTriggerType (pt_skill d) = e"
    using assms by (simp add: passive_inv_def)
  moreover have "(\<lambda>d. skill_Id (pt_skill d)) ` set (lists_of (used_passive_trigger_count e i m) e')
      = (\<lambda>d. skill_Id (pt_skill d)) ` set (lists_of m e')" for e'
    by (simp add: b u2)
  ultimately show ?thesis using assms unfolding passive_inv_def by (simp add: p) (simp add: b)
qed

section \<open>How often a skill triggers\<close>

text \<open>The life of the datum of one skill: rounds start, and the skill triggers when it is ready.\<close>

datatype trigger_step = Round | Fire

inductive trigger_run :: "PassiveTriggerData \<Rightarrow> trigger_step list \<Rightarrow> PassiveTriggerData \<Rightarrow> bool" where
  trigger_start: "trigger_run (new_trigger s) [] (new_trigger s)"
| trigger_round: "trigger_run d0 tr d \<Longrightarrow> trigger_run d0 (tr @ [Round]) (new_round d)"
| trigger_fire: "trigger_run d0 tr d \<Longrightarrow> ready d \<Longrightarrow> trigger_run d0 (tr @ [Fire]) (use_once d)"

lemma trigger_run_skill: "trigger_run d0 tr d \<Longrightarrow> pt_skill d = pt_skill d0"
  by (induction rule: trigger_run.induct) (auto simp: new_round_def use_once_def)

lemma trigger_run_battle:
  "trigger_run d0 tr d \<Longrightarrow> 0 < TriggerBattleMax (pt_skill d0)
    \<Longrightarrow> 0 \<le> battle_num d \<and> battle_num d + int (count_list tr Fire) = TriggerBattleMax (pt_skill d0)"
  by (induction rule: trigger_run.induct)
    (auto simp: new_trigger_def new_round_def use_once_def ready_def)

text \<open>The fires since the last round.\<close>

definition since_round :: "trigger_step list \<Rightarrow> nat" where
  "since_round tr = length (takeWhile (\<lambda>s. s = Fire) (rev tr))"

lemma trigger_run_round:
  "trigger_run d0 tr d \<Longrightarrow> 0 < TriggerRoundMax (pt_skill d0)
    \<Longrightarrow> 0 \<le> round_num d \<and> round_num d + int (since_round tr) = TriggerRoundMax (pt_skill d0)"
proof (induction rule: trigger_run.induct)
  case (trigger_round d0 tr d)
  then show ?case using trigger_run_skill [OF trigger_round.hyps] by (simp add: new_round_def since_round_def)
qed (auto simp: new_trigger_def use_once_def ready_def since_round_def)

section \<open>Properties\<close>


abbreviation demo_skill :: XmlSkillItem where
  "demo_skill \<equiv> undefined\<lparr>skill_Id := 7, skill_Type := 3, SkillTriggerType := 2, TriggerRoundMax := 1, TriggerBattleMax := 2\<rparr>"

abbreviation demo_member :: TeamMember where
  "demo_member \<equiv> undefined\<lparr>passive_trigger_lists := (\<lambda>_. None), passive_skills := []\<rparr>"

lemma demo_ok: "table_ok [7 \<mapsto> demo_skill]" "passive_inv [7 \<mapsto> demo_skill] demo_member"
  by (auto simp: table_ok_def passive_inv_def lists_of_def)




text \<open>deleting a passive trigger undoes adding it.\<close>
theorem add_delete_passive:
  assumes "table_ok tbl" and "passive_inv tbl m" and "add_passive_trigger tbl i m = (True, m')"
  shows "\<exists>m''. delete_passive_trigger tbl i m' = (True, m'') \<and> passive_skills m'' = passive_skills m
    \<and> (\<forall>e. lists_of m'' e = lists_of m e)"
proof -
  obtain s where s: "tbl i = Some s" "skill_Type s = SKILL_TYPE_PASSIVE" "i \<notin> set (passive_skills m)"
    using assms(3) by (auto simp: add_passive_trigger_def split: option.splits if_splits)
  let ?e = "SkillTriggerType s"
  have m': "m' = m\<lparr>passive_trigger_lists := (passive_trigger_lists m)(?e \<mapsto> lists_of m ?e @ [new_trigger s]),
      passive_skills := passive_skills m @ [i]\<rparr>"
    using assms(3) s by (simp add: add_passive_trigger_def trigger_push_back_def)
  have i: "skill_Id s = i" using assms(1) s(1) by (simp add: table_ok_def)
  have new: "i \<notin> set (trig_ids (lists_of m ?e))" using assms(2) s(3) unfolding passive_inv_def by auto
  have d: "distinct (trig_ids (lists_of m ?e @ [new_trigger s]))"
    using assms(2) new by (simp add: i passive_inv_def)
  have f: "filter (\<lambda>d. skill_Id (pt_skill d) \<noteq> i) (lists_of m ?e @ [new_trigger s]) = lists_of m ?e"
    using new by (auto simp: i filter_id_conv)
  have r: "remove_by_skill i (lists_of m ?e @ [new_trigger s]) = (True, lists_of m ?e)"
    using remove_by_skill_spec [OF d, of i] f by (simp add: i)
  show ?thesis using s(1,2,3) r by (simp add: delete_passive_trigger_def m' i lists_of_def)
qed

theorem add_delete_passive_witness:
  "\<exists>m' m''. add_passive_trigger [7 \<mapsto> demo_skill] 7 demo_member = (True, m')
    \<and> delete_passive_trigger [7 \<mapsto> demo_skill] 7 m' = (True, m'') \<and> passive_skills m'' = []"
proof -
  obtain m' where "add_passive_trigger [7 \<mapsto> demo_skill] 7 demo_member = (True, m')"
    by (simp add: add_passive_trigger_def)
  from this add_delete_passive [OF demo_ok this] show ?thesis by auto
qed

end
