(* ===== verification/Battle_Buff.thy ===== *)
theory Battle_Buff
  imports Battle_Passive
begin

text \<open>
  The buffs of a member (\<open>Buff\<close> and \<open>BuffList\<close> in \<open>hall_server/player_skill.go\<close>, the buff part of
  \<open>TeamMember\<close> in \<open>player_member.go\<close>). A member has one list for each type of effect; a list is
  modelled by its buffs from head to tail, and the map \<open>buffs\<close> by the addresses of the list. The owner
  is the member itself, which every operation returns. \<open>None\<close> is an index that panics. The battle
  report is not modelled. \<open>tbl\<close> is the skill table, \<open>btbl\<close> the table of buffs.
\<close>

type_synonym buff_table = "int \<Rightarrow> XmlStatusItem option"

definition has_addr :: "nat \<Rightarrow> Buff list \<Rightarrow> bool" where
  "has_addr a bs = list_ex (\<lambda>b. bf_addr b = a) bs"

definition the_lists :: "TeamMember \<Rightarrow> Buff list list" where
  "the_lists m = (case bufflist_arr m of None \<Rightarrow> [] | Some ls \<Rightarrow> ls)"

definition set_list :: "nat \<Rightarrow> Buff list \<Rightarrow> TeamMember \<Rightarrow> TeamMember" where
  "set_list i bs m = m\<lparr>bufflist_arr := Some ((the_lists m)[i := bs])\<rparr>"

section \<open>Effects of a buff on its owner\<close>

definition add_buff_effect :: "skill_table \<Rightarrow> Buff \<Rightarrow> int list \<Rightarrow> TeamMember \<Rightarrow> TeamMember option" where
  "add_buff_effect tbl buff skill_effects m =
     (case status_Effect (bf_buff buff) of
        ty # v # _ \<Rightarrow>
          if ty = BUFF_EFFECT_TYPE_MODIFY_ATTR then
            (if length skill_effects \<le> 3 then None else add_attr v (skill_effects ! 3) m)
          else if ty = BUFF_EFFECT_TYPE_TRIGGER_SKILL then Some (snd (add_passive_trigger tbl v m))
          else Some m
      | _ \<Rightarrow> Some m)"

definition remove_buff_effect :: "skill_table \<Rightarrow> Buff \<Rightarrow> TeamMember \<Rightarrow> TeamMember option" where
  "remove_buff_effect tbl buff m =
     (case status_Effect (bf_buff buff) of
        ty # v # _ \<Rightarrow>
          if ty = BUFF_EFFECT_TYPE_MODIFY_ATTR then add_attr v (i32 (- bf_param buff)) m
          else if ty = BUFF_EFFECT_TYPE_TRIGGER_SKILL then Some (snd (delete_passive_trigger tbl v m))
          else Some m
      | _ \<Rightarrow> Some m)"

section \<open>One list\<close>

definition remove_buff :: "skill_table \<Rightarrow> nat \<Rightarrow> Buff \<Rightarrow> TeamMember \<Rightarrow> (bool \<times> TeamMember) option" where
  "remove_buff tbl i buff m =
     (let bs = the_lists m ! i in
      if \<not> has_addr (bf_addr buff) bs then Some (False, m)
      else do {
        m \<leftarrow> remove_buff_effect tbl buff (set_list i (filter (\<lambda>b. bf_addr b \<noteq> bf_addr buff) bs) m);
        Some (True, m) })"

definition cost_resist_num :: "skill_table \<Rightarrow> nat \<Rightarrow> Buff \<Rightarrow> TeamMember \<Rightarrow> TeamMember option" where
  "cost_resist_num tbl i buff m =
     (if bf_resist_num buff > 1 then
        Some (set_list i (map (\<lambda>b. if bf_addr b = bf_addr buff then b\<lparr>bf_resist_num := bf_resist_num b - 1\<rparr> else b)
          (the_lists m ! i)) m)
      else if bf_resist_num buff > 0 then do { (_, m) \<leftarrow> remove_buff tbl i buff m; Some m }
      else Some m)"

text \<open>A buff \<open>hh\<close> of the list resists the new buff \<open>b\<close>; the new buff dispels \<open>hh\<close>.\<close>

definition resists :: "XmlStatusItem \<Rightarrow> XmlStatusItem \<Rightarrow> bool" where
  "resists hh b \<longleftrightarrow> MutexType b > 0 \<and> (MutexType b \<in> set (ResistMutexTypes hh) \<or> status_Id b \<in> set (ResistMutexIDs hh))"

definition dispels :: "XmlStatusItem \<Rightarrow> XmlStatusItem \<Rightarrow> bool" where
  "dispels b hh \<longleftrightarrow> MutexType hh > 0 \<and> (MutexType hh \<in> set (CancelMutexTypes b) \<or> status_Id hh \<in> set (CancelMutexIDs b))"

text \<open>The loop from the head; the next buff is taken before this one is removed. A second removal of the
  same buff, by type and by id, changes nothing.\<close>

fun check_mutex_loop :: "skill_table \<Rightarrow> nat \<Rightarrow> XmlStatusItem \<Rightarrow> Buff list \<Rightarrow> TeamMember \<Rightarrow> (bool \<times> TeamMember) option" where
  "check_mutex_loop tbl i b [] m = Some (False, m)"
| "check_mutex_loop tbl i b (hh # rest) m =
     (if resists (bf_buff hh) b then do { m \<leftarrow> cost_resist_num tbl i hh m; Some (True, m) }
      else if dispels b (bf_buff hh) then do { (_, m) \<leftarrow> remove_buff tbl i hh m; check_mutex_loop tbl i b rest m }
      else check_mutex_loop tbl i b rest m)"

definition check_buff_mutex :: "skill_table \<Rightarrow> nat \<Rightarrow> XmlStatusItem \<Rightarrow> TeamMember \<Rightarrow> (bool \<times> TeamMember) option" where
  "check_buff_mutex tbl i b m = check_mutex_loop tbl i b (the_lists m ! i) m"

text \<open>\<open>BuffList.add_buff\<close>: \<open>addr\<close> is what the pool gives; the attributes of the attacker are read
  at this moment (\<open>attm\<close> is \<open>None\<close> when the member is the attacker itself).\<close>

definition list_add_buff :: "skill_table \<Rightarrow> nat \<Rightarrow> nat \<Rightarrow> mptr \<Rightarrow> TeamMember option \<Rightarrow> XmlStatusItem \<Rightarrow> int list \<Rightarrow> TeamMember
    \<Rightarrow> (int \<times> TeamMember) option" where
  "list_add_buff tbl i addr att attm b skill_effect m =
     (let bs = the_lists m ! i; a = (case attm of None \<Rightarrow> m | Some a \<Rightarrow> a) in
      if has_addr addr bs then Some (0, m)
      else if length skill_effect \<le> 4 then None
      else let buff = \<lparr>bf_addr = addr, bf_buff = b, bf_attacker = att, bf_attack = attr_of a ATTR_ATTACK,
             bf_dmg_add = attr_of a ATTR_TOTAL_DAMAGE_ADD, bf_param = skill_effect ! 3,
             bf_round_num = skill_effect ! 4, bf_resist_num = ResistCountMax b\<rparr> in do {
        m \<leftarrow> add_buff_effect tbl buff skill_effect (set_list i (bs @ [buff]) m);
        Some (status_Id b, m) })"

section \<open>The member\<close>

fun check_all_mutex :: "skill_table \<Rightarrow> XmlStatusItem \<Rightarrow> nat list \<Rightarrow> TeamMember \<Rightarrow> (bool \<times> TeamMember) option" where
  "check_all_mutex tbl b [] m = Some (False, m)"
| "check_all_mutex tbl b (i # is) m = do {
     (hit, m) \<leftarrow> check_buff_mutex tbl i b m;
     (if hit then Some (True, m) else check_all_mutex tbl b is m) }"

definition add_buff :: "skill_table \<Rightarrow> buff_table \<Rightarrow> nat \<Rightarrow> mptr \<Rightarrow> TeamMember option \<Rightarrow> int list \<Rightarrow> TeamMember \<Rightarrow> int list
    \<Rightarrow> (int \<times> TeamMember \<times> int list) option" where
  "add_buff tbl btbl addr att attm skill_effect m rs =
     (if length skill_effect \<le> 2 then None
      else case btbl (skill_effect ! 1) of None \<Rightarrow> Some (0, m, rs)
      | Some b \<Rightarrow>
          (let m = (if bufflist_arr m = None then m\<lparr>bufflist_arr := Some (replicate BUFF_EFFECT_TYPE_COUNT [])\<rparr> else m) in do {
             (hit, m) \<leftarrow> check_all_mutex tbl b [0..<length (the_lists m)] m;
             (if hit then Some (0, m, rs)
              else let (r, rs) = Int31n 10000 rs in
                if r \<ge> skill_effect ! 2 then Some (0, m, rs)
                else (case status_Effect b of [] \<Rightarrow> None
                  | ty # _ \<Rightarrow>
                      if ty < 0 \<or> int (length (the_lists m)) \<le> ty then None
                      else do {
                        (buff_id, m) \<leftarrow> list_add_buff tbl (nat ty) addr att attm b skill_effect m;
                        Some (buff_id, m, rs) })) }))"

definition skill_effect_add_buff :: "skill_table \<Rightarrow> buff_table \<Rightarrow> nat \<Rightarrow> mptr \<Rightarrow> TeamMember option \<Rightarrow> int list \<Rightarrow> TeamMember \<Rightarrow> int list
    \<Rightarrow> (int \<times> TeamMember \<times> int list) option" where
  "skill_effect_add_buff tbl btbl addr att attm skill_effect m rs =
     (if length skill_effect < 5 then Some (0, m, rs) else add_buff tbl btbl addr att attm skill_effect m rs)"

section \<open>Lemmas\<close>

lemma lists_set_list [simp]: "the_lists (set_list i bs m) = (the_lists m)[i := bs]"
  by (simp add: set_list_def the_lists_def)

lemma add_attr_lists: "add_attr a v m = Some m' \<Longrightarrow> the_lists m' = the_lists m"
  by (auto simp: add_attr_def add_hp_def add_max_hp_def the_lists_def Let_def split: if_splits)

lemma add_passive_lists: "the_lists (snd (add_passive_trigger tbl v m)) = the_lists m"
  by (simp add: add_passive_trigger_def the_lists_def split: option.splits)

lemma delete_passive_lists: "the_lists (snd (delete_passive_trigger tbl v m)) = the_lists m"
  by (simp add: delete_passive_trigger_def the_lists_def Let_def split: option.splits prod.splits)

lemma effect_lists:
  "remove_buff_effect tbl b m = Some m' \<Longrightarrow> the_lists m' = the_lists m"
  "add_buff_effect tbl b eff m = Some m' \<Longrightarrow> the_lists m' = the_lists m"
  by (auto simp: remove_buff_effect_def add_buff_effect_def delete_passive_lists add_passive_lists
    split: list.splits if_splits dest: add_attr_lists)

definition buffs_inv :: "TeamMember \<Rightarrow> bool" where
  "buffs_inv m \<longleftrightarrow> (\<forall>bs \<in> set (the_lists m). distinct (map bf_addr bs))"

lemma remove_buff_lists:
  assumes "remove_buff tbl i hh m = Some (x, m')" and "the_lists m ! i = kept @ hh # rest"
    and "distinct (map bf_addr (kept @ hh # rest))"
  shows "the_lists m' = (the_lists m)[i := kept @ rest]"
proof -
  have "filter (\<lambda>b. bf_addr b \<noteq> bf_addr hh) (kept @ hh # rest) = kept @ rest"
    using assms(3) by (auto simp: filter_id_conv) (metis (mono_tags, lifting) filter_True imageI)
  moreover have "has_addr (bf_addr hh) (the_lists m ! i)" by (simp add: has_addr_def assms(2))
  ultimately show ?thesis using assms(1,2)
    by (auto simp: remove_buff_def dest: effect_lists(1) split: Option.bind_splits)
qed

lemma mutex_loop_no_resist:
  assumes "check_mutex_loop tbl i b rest m = Some (hit, m')" and "the_lists m ! i = kept @ rest"
    and "distinct (map bf_addr (kept @ rest))" and "i < length (the_lists m)"
    and "\<forall>hh \<in> set rest. \<not> resists (bf_buff hh) b"
  shows "\<not> hit \<and> the_lists m' = (the_lists m)[i := kept @ filter (\<lambda>hh. \<not> dispels b (bf_buff hh)) rest]"
  using assms
proof (induction rest arbitrary: kept m)
  case Nil
  then show ?case by (auto simp: list_update_id)
next
  case (Cons hh rest)
  show ?case
  proof (cases "dispels b (bf_buff hh)")
    case True
    then obtain x m1 where r: "remove_buff tbl i hh m = Some (x, m1)" "check_mutex_loop tbl i b rest m1 = Some (hit, m')"
      using Cons.prems(1,5) by (auto split: Option.bind_splits)
    have l: "the_lists m1 = (the_lists m)[i := kept @ rest]" by (rule remove_buff_lists [OF r(1) Cons.prems(2,3)])
    show ?thesis using Cons.IH [OF r(2), of kept] Cons.prems(3-5) True by (simp add: l)
  next
    case False
    then have r: "check_mutex_loop tbl i b rest m = Some (hit, m')" using Cons.prems(1,5) by simp
    show ?thesis using Cons.IH [OF r, of "kept @ [hh]"] Cons.prems(2-5) False by simp
  qed
qed

text \<open>Checking only removes buffs, or lowers a resist number.\<close>

definition addrs_le :: "TeamMember \<Rightarrow> TeamMember \<Rightarrow> bool" where
  "addrs_le m' m \<longleftrightarrow> length (the_lists m') = length (the_lists m)
     \<and> (\<forall>i < length (the_lists m). bf_addr ` set (the_lists m' ! i) \<subseteq> bf_addr ` set (the_lists m ! i))"

lemma addrs_le_refl [simp]: "addrs_le m m"
  by (simp add: addrs_le_def)

lemma addrs_le_trans: "addrs_le a b \<Longrightarrow> addrs_le b c \<Longrightarrow> addrs_le a c"
  by (simp add: addrs_le_def) (meson order_trans)

lemma addrs_le_update:
  "the_lists m' = (the_lists m)[i := bs] \<Longrightarrow> i < length (the_lists m) \<Longrightarrow> bf_addr ` set bs \<subseteq> bf_addr ` set (the_lists m ! i)
    \<Longrightarrow> addrs_le m' m"
  by (simp add: addrs_le_def nth_list_update)

lemma remove_buff_le:
  assumes "remove_buff tbl i hh m = Some (x, m')" "i < length (the_lists m)"
  shows "addrs_le m' m"
proof (cases "has_addr (bf_addr hh) (the_lists m ! i)")
  case True
  then have "the_lists m' = (the_lists m)[i := filter (\<lambda>b. bf_addr b \<noteq> bf_addr hh) (the_lists m ! i)]"
    using assms(1) by (auto simp: remove_buff_def dest: effect_lists(1) split: Option.bind_splits)
  then show ?thesis using assms(2) by (rule addrs_le_update) auto
next
  case False
  then show ?thesis using assms by (simp add: remove_buff_def)
qed

lemma cost_resist_le:
  assumes "cost_resist_num tbl i hh m = Some m'" "i < length (the_lists m)"
  shows "addrs_le m' m"
proof (cases "bf_resist_num hh > 1")
  case True
  then have "the_lists m' = (the_lists m)[i := map (\<lambda>b. if bf_addr b = bf_addr hh then b\<lparr>bf_resist_num := bf_resist_num b - 1\<rparr> else b) (the_lists m ! i)]"
    using assms(1) by (auto simp: cost_resist_num_def)
  then show ?thesis using assms(2) by (rule addrs_le_update) (auto intro: rev_image_eqI)
next
  case False
  then show ?thesis using assms
    by (auto simp: cost_resist_num_def split: if_splits Option.bind_splits intro: remove_buff_le)
qed

lemma mutex_loop_le:
  assumes "check_mutex_loop tbl i b rest m = Some (hit, m')" "i < length (the_lists m)"
  shows "addrs_le m' m \<and> (hit \<longleftrightarrow> (\<exists>hh \<in> set rest. resists (bf_buff hh) b))"
  using assms
proof (induction rest arbitrary: m)
  case (Cons hh rest)
  consider "resists (bf_buff hh) b" | "\<not> resists (bf_buff hh) b" "dispels b (bf_buff hh)"
    | "\<not> resists (bf_buff hh) b" "\<not> dispels b (bf_buff hh)" by blast
  then show ?case
  proof cases
    case 1
    then show ?thesis using Cons.prems cost_resist_le by (auto split: Option.bind_splits)
  next
    case 2
    then obtain x m1 where r: "remove_buff tbl i hh m = Some (x, m1)" "check_mutex_loop tbl i b rest m1 = Some (hit, m')"
      using Cons.prems(1) by (auto split: Option.bind_splits)
    have le: "addrs_le m1 m" by (rule remove_buff_le [OF r(1) Cons.prems(2)])
    then have "i < length (the_lists m1)" using Cons.prems(2) by (simp add: addrs_le_def)
    from Cons.IH [OF r(2) this] show ?thesis using le 2 addrs_le_trans by auto
  next
    case 3
    then show ?thesis using Cons.IH [of m] Cons.prems by auto
  qed
qed simp

lemma all_mutex_immune:
  assumes "check_all_mutex tbl b is m = Some (hit, m')" "\<forall>i \<in> set is. i < length (the_lists m)" "distinct is"
    and "\<exists>i \<in> set is. \<exists>hh \<in> set (the_lists m ! i). resists (bf_buff hh) b" and "buffs_inv m"
  shows "hit \<and> addrs_le m' m"
  using assms
proof (induction "is" arbitrary: m)
  case (Cons i "is")
  obtain h1 m1 where c: "check_mutex_loop tbl i b (the_lists m ! i) m = Some (h1, m1)"
      "(if h1 then Some (True, m1) else check_all_mutex tbl b is m1) = Some (hit, m')"
    using Cons.prems(1) by (auto simp: check_buff_mutex_def split: Option.bind_splits)
  have i: "i < length (the_lists m)" using Cons.prems(2) by simp
  have le: "addrs_le m1 m" "h1 \<longleftrightarrow> (\<exists>hh \<in> set (the_lists m ! i). resists (bf_buff hh) b)"
    using mutex_loop_le [OF c(1) i] by auto
  show ?case
  proof (cases h1)
    case True
    then show ?thesis using c(2) le by simp
  next
    case False
    have d: "distinct (map bf_addr (the_lists m ! i))" using Cons.prems(5) i by (simp add: buffs_inv_def)
    have l: "the_lists m1 = (the_lists m)[i := filter (\<lambda>hh. \<not> dispels b (bf_buff hh)) (the_lists m ! i)]"
      using mutex_loop_no_resist [OF c(1), of "[]"] d i False le(2) by auto
    have inv: "buffs_inv m1"
      using Cons.prems(5) d unfolding buffs_inv_def l
      by (auto dest!: subsetD [OF set_update_subset_insert] simp: distinct_map_filter)
    have "\<forall>j \<in> set is. the_lists m1 ! j = the_lists m ! j"
      using Cons.prems(3) by (simp add: l) (metis nth_list_update_neq)
    moreover have "\<exists>j \<in> set is. \<exists>hh \<in> set (the_lists m ! j). resists (bf_buff hh) b"
      using Cons.prems(4) False le(2) by auto
    ultimately have "\<exists>j \<in> set is. \<exists>hh \<in> set (the_lists m1 ! j). resists (bf_buff hh) b" by simp
    then have "hit \<and> addrs_le m' m1"
      using Cons.IH [of m1] c(2) False Cons.prems(2,3) inv by (simp add: l)
    then show ?thesis using le(1) addrs_le_trans by blast
  qed
qed simp

lemma all_mutex_dispel:
  assumes "check_all_mutex tbl b is m = Some (hit, m')" "\<forall>i \<in> set is. i < length (the_lists m)" "distinct is"
    and "\<forall>i \<in> set is. \<forall>hh \<in> set (the_lists m ! i). \<not> resists (bf_buff hh) b" and "buffs_inv m"
  shows "\<not> hit \<and> length (the_lists m') = length (the_lists m) \<and> (\<forall>j < length (the_lists m). the_lists m' ! j
    = (if j \<in> set is then filter (\<lambda>hh. \<not> dispels b (bf_buff hh)) (the_lists m ! j) else the_lists m ! j))"
  using assms
proof (induction "is" arbitrary: m)
  case (Cons i "is")
  obtain h1 m1 where c: "check_mutex_loop tbl i b (the_lists m ! i) m = Some (h1, m1)"
      "(if h1 then Some (True, m1) else check_all_mutex tbl b is m1) = Some (hit, m')"
    using Cons.prems(1) by (auto simp: check_buff_mutex_def split: Option.bind_splits)
  have i: "i < length (the_lists m)" using Cons.prems(2) by simp
  have d: "distinct (map bf_addr (the_lists m ! i))" using Cons.prems(5) i by (simp add: buffs_inv_def)
  have l: "\<not> h1" "the_lists m1 = (the_lists m)[i := filter (\<lambda>hh. \<not> dispels b (bf_buff hh)) (the_lists m ! i)]"
    using mutex_loop_no_resist [OF c(1), of "[]"] d i Cons.prems(4) by auto
  have inv: "buffs_inv m1"
    using Cons.prems(5) d unfolding buffs_inv_def l(2)
    by (auto dest!: subsetD [OF set_update_subset_insert] simp: distinct_map_filter)
  have "\<not> hit \<and> length (the_lists m') = length (the_lists m1) \<and> (\<forall>j < length (the_lists m1). the_lists m' ! j
    = (if j \<in> set is then filter (\<lambda>hh. \<not> dispels b (bf_buff hh)) (the_lists m1 ! j) else the_lists m1 ! j))"
    using Cons.prems(2-4) c(2) l inv by (intro Cons.IH) (auto simp: nth_list_update)
  moreover have "\<forall>j \<in> set is. the_lists m1 ! j = the_lists m ! j"
      using Cons.prems(3) by (simp add: l) (metis nth_list_update_neq)
  ultimately show ?case using Cons.prems(3) i by (auto simp: l(2) nth_list_update)
qed simp

section \<open>Adding and taking back an attribute\<close>

lemma i32_add_left: "i32 (i32 x + y) = i32 (x + y)"
proof -
  have "i32 x + y + 2147483648 = (x + 2147483648) mod 4294967296 + y" by (simp add: i32_def)
  then have "i32 (i32 x + y) = ((x + 2147483648) mod 4294967296 + y) mod 4294967296 - 2147483648"
    by (simp only: i32_def [of "i32 x + y"])
  also have "\<dots> = (x + 2147483648 + y) mod 4294967296 - 2147483648" by (simp only: mod_add_left_eq)
  finally show ?thesis by (simp add: i32_def [of "x + y"] algebra_simps)
qed

lemma i32_diff_left: "i32 (i32 x - y) = i32 (x - y)"
  using i32_add_left [of x "- y"] by simp

lemma i32_add_right: "i32 (x + i32 y) = i32 (x + y)"
  using i32_add_left [of y x] by (simp add: add.commute)

text \<open>The attributes other than life: adding a value and taking it back.\<close>

lemma add_attr_back:
  assumes "add_attr a v m = Some m1" and "add_attr a (i32 (- v)) m1 = Some m2" and "is_i32 (attr_of m (nat a))"
    and "nat a \<noteq> ATTR_HP" "nat a \<noteq> ATTR_HP_MAX"
  shows "attrs m2 = attrs m"
proof -
  have a: "0 \<le> a" "nat a < length (attrs m)" using assms(1) by (auto simp: add_attr_def split: if_splits)
  have m1: "attrs m1 = (attrs m)[nat a := i32 (attr_of m (nat a) + v)]"
    using assms(1,4,5) by (auto simp: add_attr_def Let_def split: if_splits)
  have "attrs m2 = (attrs m1)[nat a := i32 (attr_of m1 (nat a) + i32 (- v))]"
    using assms(2,4,5) by (auto simp: add_attr_def Let_def split: if_splits)
  also have "i32 (attr_of m1 (nat a) + i32 (- v)) = attr_of m (nat a)"
    using assms(3) a(2) by (simp add: m1 i32_add_left i32_diff_left i32_add_right is_i32_def)
  finally show ?thesis by (simp add: m1)
qed

section \<open>Properties\<close>

text \<open>C15: a buff that some buff of the member resists is not added: the result is 0, nothing is drawn, and
  no buff appears in any list.\<close>
theorem buff_immunity:
  assumes "add_buff tbl btbl addr att attm eff m rs = Some (buff_id, m', rs')" and "buffs_inv m"
    and "btbl (eff ! 1) = Some b" and "bs \<in> set (the_lists m)" "hh \<in> set bs" "resists (bf_buff hh) b"
  shows "buff_id = 0 \<and> rs' = rs \<and> (\<forall>i < length (the_lists m). bf_addr ` set (the_lists m' ! i) \<subseteq> bf_addr ` set (the_lists m ! i))"
proof -
  obtain j where j: "j < length (the_lists m)" "the_lists m ! j = bs" using assms(4) by (meson in_set_conv_nth)
  have some: "bufflist_arr m \<noteq> None" using assms(4) by (cases "bufflist_arr m") (simp_all add: the_lists_def)
  then obtain hit m1 where c: "check_all_mutex tbl b [0..<length (the_lists m)] m = Some (hit, m1)"
    using assms(1,3) by (auto simp: add_buff_def Let_def split: if_splits Option.bind_splits)
  have ex: "\<exists>i \<in> set [0..<length (the_lists m)]. \<exists>hh \<in> set (the_lists m ! i). resists (bf_buff hh) b"
    using j assms(5,6) by (intro bexI [of _ j] bexI [of _ hh]) simp_all
  have "hit \<and> addrs_le m1 m" using all_mutex_immune [OF c _ _ ex assms(2)] by simp
  then show ?thesis using assms(1,3) some c
    by (auto simp: add_buff_def addrs_le_def Let_def split: if_splits)
qed

abbreviation demo_buff :: "nat \<Rightarrow> XmlStatusItem \<Rightarrow> Buff" where
  "demo_buff a s \<equiv> \<lparr>bf_addr = a, bf_buff = s, bf_attacker = 0, bf_attack = 0, bf_dmg_add = 0, bf_param = 0,
     bf_round_num = 2, bf_resist_num = 2\<rparr>"

abbreviation demo_status :: "int \<Rightarrow> int \<Rightarrow> int list \<Rightarrow> int list \<Rightarrow> XmlStatusItem" where
  "demo_status i ty resist cancel \<equiv> \<lparr>status_Id = i, status_Effect = [5, 9], ResistCountMax = 0, MutexType = ty,
     ResistMutexTypes = resist, CancelMutexTypes = cancel, ResistMutexIDs = [], CancelMutexIDs = []\<rparr>"

abbreviation demo_owner :: "Buff list \<Rightarrow> TeamMember" where
  "demo_owner bs \<equiv> undefined\<lparr>bufflist_arr := Some (bs # replicate 7 []), attrs := replicate 40 0\<rparr>"

lemma demo_lists [simp]: "the_lists (demo_owner bs) = bs # replicate 7 []"
  by (simp add: the_lists_def)

lemma demo_eight: "[0..<8] = [0, 1, 2, 3, 4, 5, 6, 7 :: nat]"
  by (simp add: upt_rec)

theorem buff_immunity_witness:
  "\<exists>m'. add_buff (\<lambda>_. None) [8 \<mapsto> demo_status 8 3 [] []] 5 0 None [3, 8, 10000, 1, 2]
      (demo_owner [demo_buff 1 (demo_status 4 1 [3] [])]) [7] = Some (0, m', [7])
    \<and> bf_addr ` set (the_lists m' ! 5) \<subseteq> {}"
proof -
  let ?hh = "demo_buff 1 (demo_status 4 1 [3] [])" and ?b = "demo_status 8 3 [] []"
  let ?add = "add_buff (\<lambda>_. None) [8 \<mapsto> ?b] 5 0 None [3, 8, 10000, 1, 2] (demo_owner [?hh]) [7]"
  have r: "resists (bf_buff ?hh) ?b" by (simp add: resists_def)
  obtain m1 where "check_all_mutex (\<lambda>_. None) ?b [0..<8] (demo_owner [?hh]) = Some (True, m1)"
    using r by (simp add: demo_eight check_buff_mutex_def cost_resist_num_def)
  then obtain i m' rs' where a: "?add = Some (i, m', rs')" by (simp add: add_buff_def)
  have "buffs_inv (demo_owner [?hh])" by (simp add: buffs_inv_def)
  then have "i = 0 \<and> rs' = [7] \<and> bf_addr ` set (the_lists m' ! 5) \<subseteq> {}"
    using buff_immunity [OF a _ _ _ _ r, of "[?hh]"] by (auto dest!: spec [of _ 5])
  with a show ?thesis by auto
qed

text \<open>C14: a buff nobody resists, whose draw is below its rate, is appended to the list of its effect, with
  the attacker's attack, its rounds and its resist number, after the buffs it dispels have been removed from
  every list.\<close>
theorem buff_added:
  assumes "add_buff tbl btbl addr att attm eff m (r # rs) = Some (buff_id, m', rs')" and "buffs_inv m"
    and "bufflist_arr m \<noteq> None" and "btbl (eff ! 1) = Some b" and "status_Effect b = ty # v # e"
    and "\<forall>bs \<in> set (the_lists m). \<forall>hh \<in> set bs. \<not> resists (bf_buff hh) b"
    and "r mod 10000 < eff ! 2" and "\<forall>bs \<in> set (the_lists m). addr \<notin> bf_addr ` set bs"
  shows "buff_id = status_Id b \<and> rs' = rs \<and> (\<exists>buff. bf_addr buff = addr \<and> bf_buff buff = b \<and> bf_attacker buff = att
    \<and> bf_param buff = eff ! 3 \<and> bf_round_num buff = eff ! 4 \<and> bf_resist_num buff = ResistCountMax b
    \<and> the_lists m' = (let ls = map (filter (\<lambda>hh. \<not> dispels b (bf_buff hh))) (the_lists m) in
        ls[nat ty := ls ! nat ty @ [buff]]))"
proof -
  obtain hit m1 where c: "check_all_mutex tbl b [0..<length (the_lists m)] m = Some (hit, m1)"
    using assms(1,3,4) by (auto simp: add_buff_def Let_def split: if_splits Option.bind_splits)
  have m1: "\<not> hit" "length (the_lists m1) = length (the_lists m)"
      "\<forall>j < length (the_lists m). the_lists m1 ! j = filter (\<lambda>hh. \<not> dispels b (bf_buff hh)) (the_lists m ! j)"
  proof -
    have "\<forall>i \<in> set [0..<length (the_lists m)]. \<forall>hh \<in> set (the_lists m ! i). \<not> resists (bf_buff hh) b" using assms(6) by (auto dest: nth_mem)
    from all_mutex_dispel [OF c _ _ this assms(2)] show "\<not> hit" "length (the_lists m1) = length (the_lists m)"
      "\<forall>j < length (the_lists m). the_lists m1 ! j = filter (\<lambda>hh. \<not> dispels b (bf_buff hh)) (the_lists m ! j)"
      by simp_all
  qed
  then have l: "the_lists m1 = map (filter (\<lambda>hh. \<not> dispels b (bf_buff hh))) (the_lists m)"
    by (intro nth_equalityI) simp_all
  have ty: "0 \<le> ty" "nat ty < length (the_lists m1)"
    and add: "list_add_buff tbl (nat ty) addr att attm b eff m1 = Some (buff_id, m')" and rs: "rs' = rs"
    using assms(1,3,4,5,7) c m1(1)
    by (auto simp: add_buff_def Int31n_def Let_def split: if_splits Option.bind_splits)
  have fresh: "\<not> has_addr addr (the_lists m1 ! nat ty)"
    using assms(8) ty(2) m1(2,3) by (auto simp: has_addr_def list_ex_iff)
  define a where "a = (case attm of None \<Rightarrow> m1 | Some a \<Rightarrow> a)"
  define buff where "buff = \<lparr>bf_addr = addr, bf_buff = b, bf_attacker = att, bf_attack = attr_of a ATTR_ATTACK,
      bf_dmg_add = attr_of a ATTR_TOTAL_DAMAGE_ADD, bf_param = eff ! 3, bf_round_num = eff ! 4, bf_resist_num = ResistCountMax b\<rparr>"
  obtain m2 where m2: "add_buff_effect tbl buff eff (set_list (nat ty) (the_lists m1 ! nat ty @ [buff]) m1) = Some m2"
      "buff_id = status_Id b" "m' = m2"
    using add fresh by (auto simp: list_add_buff_def Let_def buff_def a_def split: if_splits Option.bind_splits)
  have "the_lists m' = (the_lists m1)[nat ty := the_lists m1 ! nat ty @ [buff]]"
    using effect_lists(2) [OF m2(1)] m2(3) by simp
  then show ?thesis using m2(2) rs by (intro conjI exI [of _ buff]) (simp_all add: l buff_def Let_def)
qed

theorem buff_added_witness:
  "\<exists>m' buff. add_buff (\<lambda>_. None) [8 \<mapsto> demo_status 8 3 [] [1]] 5 0 None [3, 8, 10000, 1, 2]
      (demo_owner [demo_buff 1 (demo_status 4 1 [] [])]) [7] = Some (8, m', []) \<and> bf_addr buff = 5
    \<and> the_lists m' ! 0 = [] \<and> the_lists m' ! 5 = [buff]"
proof -
  let ?hh = "demo_buff 1 (demo_status 4 1 [] [])" and ?b = "demo_status 8 3 [] [1]"
  let ?add = "add_buff (\<lambda>_. None) [8 \<mapsto> ?b] 5 0 None [3, 8, 10000, 1, 2] (demo_owner [?hh]) [7]"
  have r: "\<not> resists (bf_buff ?hh) ?b" "dispels ?b (bf_buff ?hh)" by (simp_all add: resists_def dispels_def)
  obtain m0 where m0: "remove_buff (\<lambda>_. None) 0 ?hh (demo_owner [?hh]) = Some (True, m0)"
      "the_lists m0 = replicate 8 []" "length (attrs m0) = 40"
    by (simp add: remove_buff_def has_addr_def remove_buff_effect_def add_attr_def Let_def set_list_def the_lists_def
      numeral_eq_Suc)
  then obtain m1 where m1: "check_all_mutex (\<lambda>_. None) ?b [0..<8] (demo_owner [?hh]) = Some (False, m1)"
      "the_lists m1 = replicate 8 []" "length (attrs m1) = 40"
    using r by (simp add: demo_eight check_buff_mutex_def)
  then obtain i m' rs' where a: "?add = Some (i, m', rs')"
    by (simp add: add_buff_def Int31n_def list_add_buff_def has_addr_def add_buff_effect_def add_attr_def Let_def set_list_def)
  have "buffs_inv (demo_owner [?hh])" by (simp add: buffs_inv_def)
  from buff_added [OF a this, of ?b 5 9 "[]"] a r show ?thesis by (auto simp: Let_def)
qed

text \<open>C16: taking a buff off gives an attribute its value back, except for the maximal life: there the life
  is set to the maximum both when the buff comes and when it goes.\<close>
theorem attr_buff_roundtrip:
  assumes "status_Effect (bf_buff buff) = [BUFF_EFFECT_TYPE_MODIFY_ATTR, a]" and "4 \<le> length eff" and "bf_param buff = eff ! 3"
    and "add_buff_effect tbl buff eff m = Some m1" and "remove_buff_effect tbl buff m1 = Some m2"
    and "is_i32 (attr_of m (nat a))" and "3 \<le> length (attrs m)"
  shows "(nat a \<noteq> ATTR_HP \<and> nat a \<noteq> ATTR_HP_MAX \<longrightarrow> attrs m2 = attrs m)
    \<and> (nat a = ATTR_HP_MAX \<longrightarrow> attr_of m1 ATTR_HP = attr_of m1 ATTR_HP_MAX \<and> attr_of m2 ATTR_HP = attr_of m2 ATTR_HP_MAX
        \<and> attr_of m2 ATTR_HP_MAX = attr_of m ATTR_HP_MAX \<and> hp m2 = hp m)"
proof -
  have m1: "add_attr a (eff ! 3) m = Some m1" using assms(1,2,4) by (simp add: add_buff_effect_def)
  have m2: "add_attr a (i32 (- (eff ! 3))) m1 = Some m2" using assms(1,3,5) by (simp add: remove_buff_effect_def)
  have "attr_of m1 ATTR_HP = attr_of m1 ATTR_HP_MAX \<and> attr_of m1 ATTR_HP_MAX = i32 (attr_of m ATTR_HP_MAX + eff ! 3)
      \<and> length (attrs m1) = length (attrs m) \<and> hp m1 = hp m" if "nat a = ATTR_HP_MAX"
    using m1 that assms(7) by (auto simp: add_attr_def add_max_hp_def Let_def split: if_splits)
  moreover have "attr_of m2 ATTR_HP = attr_of m2 ATTR_HP_MAX \<and> attr_of m2 ATTR_HP_MAX = i32 (attr_of m1 ATTR_HP_MAX + i32 (- (eff ! 3)))
      \<and> hp m2 = hp m1" if "nat a = ATTR_HP_MAX" "length (attrs m1) = length (attrs m)"
    using m2 that assms(7) by (auto simp: add_attr_def add_max_hp_def Let_def split: if_splits)
  ultimately show ?thesis using add_attr_back [OF m1 m2 assms(6)] assms(6)
    by (auto simp: i32_add_left i32_diff_left i32_add_right is_i32_def)
qed

theorem attr_buff_roundtrip_witness:
  "\<exists>m1 m2. add_buff_effect (\<lambda>_. None) (demo_buff 1 (demo_status 4 1 [] [])\<lparr>bf_param := 70\<rparr>) [3, 4, 10000, 70, 2] (demo_owner []) = Some m1
    \<and> remove_buff_effect (\<lambda>_. None) (demo_buff 1 (demo_status 4 1 [] [])\<lparr>bf_param := 70\<rparr>) m1 = Some m2
    \<and> attr_of m1 9 = 70 \<and> attrs m2 = replicate 40 0"
proof -
  let ?buff = "demo_buff 1 (demo_status 4 1 [] [])\<lparr>bf_param := 70\<rparr>"
  obtain m1 where m1: "add_buff_effect (\<lambda>_. None) ?buff [3, 4, 10000, 70, 2] (demo_owner []) = Some m1" "attr_of m1 9 = 70"
      "length (attrs m1) = 40"
    by (simp add: add_buff_effect_def add_attr_def Let_def)
  obtain m2 where m2: "remove_buff_effect (\<lambda>_. None) ?buff m1 = Some m2"
    using m1(3) by (simp add: remove_buff_effect_def add_attr_def Let_def)
  show ?thesis using attr_buff_roundtrip [OF _ _ _ m1(1) m2, of 9] m1 m2 by (auto simp: is_i32_def)
qed

end
