(* ===== verification/Battle_State.thy ===== *)
theory Battle_State
  imports Battle_Buff Battle_Cond Battle_Damage
begin

text \<open>
  The state of a battle (\<open>BattleTeam\<close> and \<open>BattleCommonData\<close> of \<open>hall_server/player_battle.go\<close>): the
  members in a heap, two teams of nine slots with an artifact each, the delayed skills, the totals of damage
  and cure, and the draws of the random generator. Teams are numbered by their side. Of the battle report
  only the totals are kept. An operation that panics, or needs more fuel than it is given, is \<open>None\<close>.

  Skills call each other through passive skills. The operations take that call as an argument \<open>psv\<close>,
  which is tied together in \<open>Battle_Skill\<close>.
\<close>

section \<open>State\<close>

record DelaySkill =
  ds_event :: int
  ds_skill :: XmlSkillItem
  ds_user :: mptr
  ds_target_team :: "nat option"
  ds_trigger_pos :: "int list"

record BattleTeam =
  bt_members :: "mptr option list"
  bt_artifact :: "mptr option"
  bt_has_player :: bool
  bt_is_sweeping :: bool
  bt_temp_curr_id :: int
  bt_first_hand :: int

record battle =
  bs_mem :: "mptr \<Rightarrow> TeamMember option"
  bs_next :: nat
  bs_team :: "nat \<Rightarrow> BattleTeam"
  bs_pool :: "TeamMember list"
  bs_delay :: "DelaySkill list"
  bs_round :: int
  members_damage :: "nat \<Rightarrow> int \<Rightarrow> int"
  members_cure :: "nat \<Rightarrow> int \<Rightarrow> int"
  bs_rand :: "int list"

text \<open>The tables, and the items of the talents and artifacts the players of the two teams have (levels are
  looked up already; items that are missing in the tables are left out).\<close>

record XmlTalentItem =
  TalentEffectCond :: "int list"
  TalentAttr :: "int list"
  TalentSkillList :: "int list"

record battle_env =
  env_skills :: skill_table
  env_buffs :: buff_table
  env_cards :: "int \<Rightarrow> XmlCardItem option"
  env_config :: battle_config
  env_talents :: "nat \<Rightarrow> XmlTalentItem list"
  env_artifacts :: "nat \<Rightarrow> int list list"

text \<open>\<open>psv event team position target_team trigger_positions\<close> is \<open>passive_skill_effect_with_self_pos\<close>.\<close>

type_synonym passive_call = "int \<Rightarrow> nat \<Rightarrow> int \<Rightarrow> nat option \<Rightarrow> int list \<Rightarrow> battle \<Rightarrow> (bool \<times> battle) option"

abbreviation (input) "EVENT_ENTER_BATTLE \<equiv> 1 :: int"
abbreviation (input) "EVENT_AFTER_USE_SUPER_SKILL \<equiv> 2 :: int"
abbreviation (input) "EVENT_AFTER_USE_NORMAL_SKILL \<equiv> 3 :: int"
abbreviation (input) "EVENT_BEFORE_DAMAGE_ON_ATTACK \<equiv> 4 :: int"
abbreviation (input) "EVENT_BEFORE_DAMAGE_ON_BE_ATTACK \<equiv> 5 :: int"
abbreviation (input) "EVENT_AFTER_DAMAGE_ON_ATTACK \<equiv> 6 :: int"
abbreviation (input) "EVENT_AFTER_DAMAGE_ON_BE_ATTACK \<equiv> 7 :: int"
abbreviation (input) "EVENT_BE_BLOCK \<equiv> 8 :: int"
abbreviation (input) "EVENT_BE_CRITICAL \<equiv> 9 :: int"
abbreviation (input) "EVENT_CRITICAL \<equiv> 10 :: int"
abbreviation (input) "EVENT_BLOCK \<equiv> 11 :: int"
abbreviation (input) "EVENT_BEFORE_ROUND \<equiv> 12 :: int"
abbreviation (input) "EVENT_AFTER_TARGET_DEAD \<equiv> 13 :: int"
abbreviation (input) "EVENT_AFTER_TEAMMATE_DEAD \<equiv> 14 :: int"
abbreviation (input) "EVENT_AFTER_ENEMY_DEAD \<equiv> 15 :: int"
abbreviation (input) "EVENT_ON_CURE \<equiv> 16 :: int"
abbreviation (input) "EVENT_BEFORE_NORMAL_ATTACK \<equiv> 17 :: int"
abbreviation (input) "EVENT_BEFORE_RAGE_ATTACK \<equiv> 18 :: int"
abbreviation (input) "EVENT_KILL_ENEMY \<equiv> 19 :: int"
abbreviation (input) "EVENT_BEFORE_TARGET_DEAD \<equiv> 20 :: int"
abbreviation (input) "EVENT_HP_CHANGED \<equiv> 21 :: int"

section \<open>Access\<close>

definition slots_of :: "battle \<Rightarrow> nat \<Rightarrow> slots" where
  "slots_of st t = map (\<lambda>p. Option.bind p (bs_mem st)) (bt_members (bs_team st t))"

definition slot :: "battle \<Rightarrow> nat \<Rightarrow> int \<Rightarrow> mptr option option" where
  "slot st t p = (if p < 0 \<or> int (length (bt_members (bs_team st t))) \<le> p then None
     else Some (bt_members (bs_team st t) ! nat p))"

definition update :: "mptr \<Rightarrow> (TeamMember \<Rightarrow> TeamMember) \<Rightarrow> battle \<Rightarrow> battle option" where
  "update a f st = (case bs_mem st a of None \<Rightarrow> None | Some m \<Rightarrow> Some (st\<lparr>bs_mem := (bs_mem st)(a \<mapsto> f m)\<rparr>))"

definition update_opt :: "mptr \<Rightarrow> (TeamMember \<Rightarrow> TeamMember option) \<Rightarrow> battle \<Rightarrow> battle option" where
  "update_opt a f st = do { m \<leftarrow> bs_mem st a; m \<leftarrow> f m; Some (st\<lparr>bs_mem := (bs_mem st)(a \<mapsto> m)\<rparr>) }"

definition update_team :: "nat \<Rightarrow> (BattleTeam \<Rightarrow> BattleTeam) \<Rightarrow> battle \<Rightarrow> battle" where
  "update_team t f st = st\<lparr>bs_team := (bs_team st)(t := f (bs_team st t))\<rparr>"

text \<open>A call of a passive skill whose result is not used.\<close>

definition call :: "passive_call \<Rightarrow> int \<Rightarrow> nat \<Rightarrow> int \<Rightarrow> nat option \<Rightarrow> int list \<Rightarrow> battle \<Rightarrow> battle option" where
  "call psv e t p tt tps st = map_option snd (psv e t p tt tps st)"

definition call_if :: "bool \<Rightarrow> passive_call \<Rightarrow> int \<Rightarrow> nat \<Rightarrow> int \<Rightarrow> nat option \<Rightarrow> int list \<Rightarrow> battle \<Rightarrow> battle option" where
  "call_if c psv e t p tt tps st = (if c then call psv e t p tt tps st else Some st)"

section \<open>Death\<close>

definition on_will_dead :: "passive_call \<Rightarrow> mptr \<Rightarrow> battle \<Rightarrow> battle option" where
  "on_will_dead psv a st = do {
     m \<leftarrow> bs_mem st a;
     call_if (tm_pos m \<ge> 0) psv EVENT_BEFORE_TARGET_DEAD (tm_side m) (tm_pos m) None [] st }"

definition on_after_will_dead :: "passive_call \<Rightarrow> mptr \<Rightarrow> mptr \<Rightarrow> battle \<Rightarrow> battle option" where
  "on_after_will_dead psv a att st = do {
     m \<leftarrow> bs_mem st a;
     am \<leftarrow> bs_mem st att;
     call_if (tm_pos m \<ge> 0) psv EVENT_AFTER_TARGET_DEAD (tm_side m) (tm_pos m) (Some (tm_side am)) [] st }"

text \<open>One slot of the loops of \<open>on_dead\<close>: the member there, unless nil or dead, is told the event.\<close>

definition notify :: "passive_call \<Rightarrow> int \<Rightarrow> nat \<Rightarrow> nat \<Rightarrow> int \<Rightarrow> bool \<Rightarrow> int \<Rightarrow> battle \<Rightarrow> battle option" where
  "notify psv e t dead_team dead_pos except_dead p st = do {
     q \<leftarrow> slot st t p;
     (case Option.bind q (bs_mem st) of None \<Rightarrow> Some st
      | Some m \<Rightarrow> call_if (\<not> is_dead m \<and> \<not> (except_dead \<and> p = dead_pos)) psv e t p (Some dead_team) [dead_pos] st) }"

definition on_dead :: "passive_call \<Rightarrow> mptr \<Rightarrow> mptr option \<Rightarrow> XmlSkillItem option \<Rightarrow> battle \<Rightarrow> battle option" where
  "on_dead psv a att skill st = do {
     m \<leftarrow> bs_mem st a;
     (if tm_pos m < 0 then Some st
      else do {
        am \<leftarrow> Option.bind att (bs_mem st);
        st \<leftarrow> call_if (case skill of None \<Rightarrow> False
                 | Some s \<Rightarrow> skill_Type s = SKILL_TYPE_NORMAL \<or> skill_Type s = SKILL_TYPE_SUPER)
               psv EVENT_KILL_ENEMY (tm_side am) (tm_pos am) (Some (tm_side m)) [tm_pos m] st;
        st \<leftarrow> for_each (notify psv EVENT_AFTER_TEAMMATE_DEAD (tm_side m) (tm_side m) (tm_pos m) True) [0..8] st;
        for_each (notify psv EVENT_AFTER_ENEMY_DEAD (tm_side am) (tm_side m) (tm_pos m) False) [0..8] st }) }"

definition set_dead :: "passive_call \<Rightarrow> mptr \<Rightarrow> mptr option \<Rightarrow> XmlSkillItem option \<Rightarrow> battle \<Rightarrow> battle option" where
  "set_dead psv a att skill st = do {
     m \<leftarrow> bs_mem st a;
     (if tm_pos m < 0 then Some st
      else do {
        st \<leftarrow> update a (\<lambda>m. m\<lparr>hp := - 1\<rparr>) st;
        on_dead psv a att skill st }) }"

section \<open>Delayed skills\<close>

definition PushDelaySkill :: "int \<Rightarrow> XmlSkillItem \<Rightarrow> mptr \<Rightarrow> nat option \<Rightarrow> int list \<Rightarrow> battle \<Rightarrow> battle" where
  "PushDelaySkill e skill user tt tps st = st\<lparr>bs_delay := bs_delay st @
     [\<lparr>ds_event = e, ds_skill = skill, ds_user = user, ds_target_team = tt, ds_trigger_pos = tps\<rparr>]\<rparr>"

definition HasDelayTriggerEventSkill :: "int \<Rightarrow> mptr \<Rightarrow> battle \<Rightarrow> bool" where
  "HasDelayTriggerEventSkill e behiter st = list_ex (\<lambda>d. ds_event d = e \<and> ds_user d = behiter) (bs_delay st)"

section \<open>After damage\<close>

text \<open>A condition on a member now.\<close>

definition test :: "(TeamMember \<Rightarrow> bool) \<Rightarrow> mptr \<Rightarrow> battle \<Rightarrow> bool option" where
  "test P a st = map_option P (bs_mem st a)"

definition after_passives :: "passive_call \<Rightarrow> XmlSkillItem \<Rightarrow> mptr \<Rightarrow> mptr \<Rightarrow> bool \<Rightarrow> bool \<Rightarrow> battle \<Rightarrow> battle option" where
  "after_passives psv skill self target block critical st = do {
     s \<leftarrow> bs_mem st self;
     t \<leftarrow> bs_mem st target;
     let ss = tm_side s; let sp = tm_pos s; let ts = tm_side t; let tp = tm_pos t;
     (if skill_Type skill = SKILL_TYPE_PASSIVE then Some st
      else do {
        d \<leftarrow> test is_will_dead self st;
        st \<leftarrow> call_if (block \<and> \<not> d) psv EVENT_BE_BLOCK ss sp (Some ts) [tp] st;
        d \<leftarrow> test is_will_dead target st;
        st \<leftarrow> call_if (block \<and> \<not> d) psv EVENT_BLOCK ts tp (Some ss) [sp] st;
        d \<leftarrow> test is_will_dead self st;
        st \<leftarrow> call_if (critical \<and> \<not> d) psv EVENT_CRITICAL ss sp (Some ts) [tp] st;
        d \<leftarrow> test is_will_dead target st;
        st \<leftarrow> call_if (critical \<and> \<not> d) psv EVENT_BE_CRITICAL ts tp (Some ss) [sp] st;
        d \<leftarrow> test is_will_dead target st;
        call_if (\<not> d) psv EVENT_AFTER_DAMAGE_ON_BE_ATTACK ts tp (Some ss) [sp] st }) }"

text \<open>The target that is about to die: triggers before and after, and its death unless a delayed skill
  of its own waits for it.\<close>

definition settle_death :: "passive_call \<Rightarrow> mptr \<Rightarrow> mptr \<Rightarrow> XmlSkillItem option \<Rightarrow> battle \<Rightarrow> battle option" where
  "settle_death psv target att skill st = do {
     d \<leftarrow> test is_will_dead target st;
     st \<leftarrow> (if d then on_will_dead psv target st else Some st);
     d \<leftarrow> test is_will_dead target st;
     (if \<not> d then Some st
      else do {
        e \<leftarrow> test (has_trigger_event [EVENT_AFTER_TARGET_DEAD]) target st;
        st \<leftarrow> (if e then on_after_will_dead psv target att st else Some st);
        d \<leftarrow> test is_will_dead target st;
        (if d \<and> \<not> HasDelayTriggerEventSkill EVENT_AFTER_TARGET_DEAD target st
         then set_dead psv target (Some att) skill st else Some st) }) }"

definition after_skill_damage :: "passive_call \<Rightarrow> XmlSkillItem \<Rightarrow> mptr \<Rightarrow> mptr \<Rightarrow> int \<Rightarrow> int \<Rightarrow> bool \<Rightarrow> bool
    \<Rightarrow> battle \<Rightarrow> battle option" where
  "after_skill_damage psv skill self target self_dmg target_dmg block critical st = do {
     t \<leftarrow> bs_mem st target;
     st \<leftarrow> call_if (\<not> is_dead t \<and> \<not> is_will_dead t \<and> target_dmg \<noteq> 0) psv EVENT_HP_CHANGED (tm_side t) (tm_pos t) None [] st;
     s \<leftarrow> bs_mem st self;
     st \<leftarrow> call_if (\<not> is_will_dead s \<and> self_dmg \<noteq> 0) psv EVENT_HP_CHANGED (tm_side s) (tm_pos s) None [] st;
     st \<leftarrow> after_passives psv skill self target block critical st;
     settle_death psv target self (Some skill) st }"

section \<open>Totals\<close>

text \<open>The part of \<open>_get_battle_report\<close> that adds to the totals.\<close>

definition add_total :: "nat \<Rightarrow> int \<Rightarrow> int \<Rightarrow> battle \<Rightarrow> battle" where
  "add_total t p dmg st =
     (if dmg > 0 then st\<lparr>members_damage := (members_damage st)(t := (members_damage st t)(p := i32 (members_damage st t p + dmg)))\<rparr>
      else if dmg < 0 then st\<lparr>members_cure := (members_cure st)(t := (members_cure st t)(p := i32 (members_cure st t p + dmg)))\<rparr>
      else st)"

definition record_totals :: "bool \<Rightarrow> nat \<Rightarrow> int \<Rightarrow> int \<Rightarrow> nat \<Rightarrow> int \<Rightarrow> int \<Rightarrow> battle \<Rightarrow> battle" where
  "record_totals is_report ss sp self_dmg ts tp target_dmg st =
     (if is_report \<and> sp \<ge> 0 then add_total ts tp self_dmg (add_total ss sp target_dmg st) else st)"

section \<open>Temporary attributes\<close>

fun add_temp :: "int \<Rightarrow> int \<Rightarrow> (int \<times> int) list \<Rightarrow> (int \<times> int) list" where
  "add_temp a v [] = [(a, v)]"
| "add_temp a v ((b, w) # ts) = (if a = b then (b, i32 (w + v)) # ts else (b, w) # add_temp a v ts)"

fun temp_attrs :: "int list \<Rightarrow> TeamMember \<Rightarrow> TeamMember option" where
  "temp_attrs (a # v # rest) m = do {
     m \<leftarrow> add_attr a v m;
     temp_attrs rest (m\<lparr>temp_changed_attrs := add_temp a v (temp_changed_attrs m)\<rparr>) }"
| "temp_attrs _ m = Some m"

definition skill_effect_temp_attrs :: "int list \<Rightarrow> TeamMember \<Rightarrow> TeamMember option" where
  "skill_effect_temp_attrs effect m =
     (if tm_pos m < 0 then Some m
      else do { m \<leftarrow> temp_attrs (tl effect) m; Some (m\<lparr>temp_changed_attrs_used := 1\<rparr>) })"

definition skill_effect_temp_attrs_used :: "TeamMember \<Rightarrow> TeamMember" where
  "skill_effect_temp_attrs_used m =
     (if tm_pos m < 0 then m else if temp_changed_attrs_used m = 1 then m\<lparr>temp_changed_attrs_used := 2\<rparr> else m)"

fun take_temp :: "(int \<times> int) list \<Rightarrow> TeamMember \<Rightarrow> TeamMember option" where
  "take_temp [] m = Some m"
| "take_temp ((a, v) # ts) m = do { m \<leftarrow> add_attr a (i32 (- v)) m; take_temp ts m }"

definition skill_effect_clear_temp_attrs :: "TeamMember \<Rightarrow> TeamMember option" where
  "skill_effect_clear_temp_attrs m =
     (if tm_pos m < 0 then Some m
      else if temp_changed_attrs_used m = 2 then do {
        m \<leftarrow> take_temp (temp_changed_attrs m) m;
        Some (m\<lparr>temp_changed_attrs_used := 0, temp_changed_attrs := []\<rparr>) }
      else Some m)"

end
