(* ===== verification/Battle_Skill.thy ===== *)
theory Battle_Skill
  imports Battle_State
begin

text \<open>
  The effects of a skill and the passive skills they trigger (\<open>skill_effect\<close>, \<open>one_passive_skill_effect\<close>,
  \<open>passive_skill_effect\<close> of \<open>hall_server/player_skill.go\<close>), one definition for each kind of effect.
  A passive skill may trigger passive skills; the depth of such calls is bounded by the fuel of
  \<open>passive_fx\<close>, and \<open>None\<close> is the result when it does not suffice.

  A passive skill goes through the map \<open>passive_skills\<close>, whose order Go does not define; here the order is
  that of adding, and a skill deleted on the way is not visited any more.
\<close>

section \<open>One effect on one target\<close>

text \<open>What does not change while a skill works: user, teams, target and the skill.\<close>

record cast =
  c_self :: mptr
  c_side :: nat
  c_pos :: int
  c_tside :: nat
  c_tpos :: int
  c_target :: "mptr option"
  c_skill :: XmlSkillItem
  c_report :: bool

definition target_gone :: "cast \<Rightarrow> battle \<Rightarrow> bool" where
  "target_gone c st = (case Option.bind (c_target c) (bs_mem st) of None \<Rightarrow> True | Some m \<Rightarrow> is_dead m)"

text \<open>Every effect yields whether the skill counts as used by it.\<close>

definition fx_injury :: "passive_call \<Rightarrow> cast \<Rightarrow> int list \<Rightarrow> battle \<Rightarrow> (bool \<times> battle) option" where
  "fx_injury psv c eff st = (case c_target c of None \<Rightarrow> Some (False, st) | Some t \<Rightarrow> do {
     d \<leftarrow> test (\<lambda>m. is_dead m \<or> is_will_dead m) t st;
     (if d then Some (False, st)
      else do {
        let active = skill_Type (c_skill c) \<noteq> SKILL_TYPE_PASSIVE;
        st \<leftarrow> call_if active psv EVENT_BEFORE_DAMAGE_ON_ATTACK (c_side c) (c_pos c) (Some (c_tside c)) [c_tpos c] st;
        st \<leftarrow> call_if active psv EVENT_BEFORE_DAMAGE_ON_BE_ATTACK (c_tside c) (c_tpos c) (Some (c_side c)) [c_pos c] st;
        self \<leftarrow> bs_mem st (c_self c);
        target \<leftarrow> bs_mem st t;
        (inj, shield, rs) \<leftarrow> skill_effect_direct_injury self target (skill_Type (c_skill c)) (SkillMelee (c_skill c)) eff (bs_rand st);
        st \<leftarrow> update t (set_attr ATTR_SHIELD shield) (st\<lparr>bs_rand := rs\<rparr>);
        st \<leftarrow> (if target_damage inj \<noteq> 0 then update t (add_hp (i32 (- target_damage inj))) st else Some st);
        st \<leftarrow> (if self_damage inj \<noteq> 0 then update (c_self c) (add_hp (i32 (- self_damage inj))) st else Some st);
        let st = record_totals (c_report c) (c_side c) (c_pos c) (self_damage inj) (c_tside c) (c_tpos c) (target_damage inj) st;
        st \<leftarrow> update (c_self c) skill_effect_temp_attrs_used st;
        st \<leftarrow> update t skill_effect_temp_attrs_used st;
        st \<leftarrow> update_opt (c_self c) skill_effect_clear_temp_attrs st;
        st \<leftarrow> update_opt t skill_effect_clear_temp_attrs st;
        st \<leftarrow> after_skill_damage psv (c_skill c) (c_self c) t (self_damage inj) (target_damage inj) (is_block inj) (is_critical inj) st;
        Some (True, st) }) })"

definition fx_cure :: "passive_call \<Rightarrow> cast \<Rightarrow> int list \<Rightarrow> battle \<Rightarrow> (bool \<times> battle) option" where
  "fx_cure psv c eff st = (case c_target c of None \<Rightarrow> Some (False, st) | Some t \<Rightarrow>
     if target_gone c st then Some (False, st)
     else do {
       self \<leftarrow> bs_mem st (c_self c);
       target \<leftarrow> bs_mem st t;
       let cure = skill_effect_cure self target eff;
       (if cure = 0 then Some (True, st)
        else do {
          st \<leftarrow> update t (add_hp cure) st;
          let st = record_totals (c_report c) (c_side c) (c_pos c) 0 (c_tside c) (c_tpos c) (i32 (- cure)) st;
          st \<leftarrow> call psv EVENT_ON_CURE (c_tside c) (c_tpos c) (Some (c_side c)) [c_pos c] st;
          Some (True, st) }) })"

definition fx_add_buff :: "battle_env \<Rightarrow> cast \<Rightarrow> int list \<Rightarrow> battle \<Rightarrow> (bool \<times> battle) option" where
  "fx_add_buff env c eff st = (case c_target c of None \<Rightarrow> Some (False, st) | Some t \<Rightarrow>
     if target_gone c st then Some (False, st)
     else do {
       self \<leftarrow> bs_mem st (c_self c);
       target \<leftarrow> bs_mem st t;
       (buff_id, target, rs) \<leftarrow> skill_effect_add_buff (env_skills env) (env_buffs env) (bs_next st) (c_self c)
          (if c_self c = t then None else Some self) eff target (bs_rand st);
       st \<leftarrow> update t (\<lambda>_. target) (st\<lparr>bs_rand := rs, bs_next := Suc (bs_next st)\<rparr>);
       Some (buff_id > 0, st) })"

text \<open>\<open>team_member_pool.Get\<close>: a member that was put back, with everything it still holds, or a new one.\<close>

definition blank_member :: TeamMember where
  "blank_member = \<lparr>tm_side = 0, tm_pos = 0, tm_id = 0, tm_level = 0,
     tm_card = \<lparr>card_Id = 0, card_Type = 0, card_Camp = 0, card_Label = [], BaseHP = 0, BaseAttack = 0, BaseDefence = 0,
       GrowthHP = 0, GrowthAttack = 0, GrowthDefence = 0, NormalSkillID = 0, SuperSkillID = 0, PassiveSkillIds = []\<rparr>,
     tm_artifact = None, hp = 0, energy = 0, tm_attack = 0, tm_defense = 0, act_num = 0, attrs = [],
     bufflist_arr = None, passive_trigger_lists = (\<lambda>_. None), temp_normal_skill = 0, temp_super_skill = 0,
     use_temp_skill = False, temp_changed_attrs = [], temp_changed_attrs_used = 0, passive_skills = [],
     attacker = None, attacker_skill_data = None, is_slave = False\<rparr>"

definition take_member :: "battle \<Rightarrow> TeamMember \<times> battle" where
  "take_member st = (case bs_pool st of [] \<Rightarrow> (blank_member, st) | m # ms \<Rightarrow> (m, st\<lparr>bs_pool := ms\<rparr>))"

text \<open>\<open>Player.add_talent_attr\<close> and \<open>artifact_add_member_attrs\<close>.\<close>

definition one_talent :: "skill_table \<Rightarrow> slots \<Rightarrow> int \<Rightarrow> XmlTalentItem \<Rightarrow> TeamMember \<Rightarrow> TeamMember option" where
  "one_talent tbl team rd t m =
     (if is_dead m \<or> \<not> check_cond team rd (Some m) (TalentEffectCond t) then Some m
      else do {
        m \<leftarrow> add_attrs (TalentAttr t) m;
        for_each (add_passive_skill tbl) (TalentSkillList t) m })"

definition add_talent_attr :: "skill_table \<Rightarrow> slots \<Rightarrow> int \<Rightarrow> XmlTalentItem list \<Rightarrow> TeamMember \<Rightarrow> TeamMember option" where
  "add_talent_attr tbl team rd ts m = for_each (one_talent tbl team rd) ts m"

definition artifact_add_member_attrs :: "int list list \<Rightarrow> TeamMember \<Rightarrow> TeamMember option" where
  "artifact_add_member_attrs as m = for_each (\<lambda>a m. if is_dead m then Some m else add_attrs a m) as m"

text \<open>\<open>init_with_team\<close>, \<open>init_all_no_calc\<close> for a summoned member (an id above 0, no equipment), and
  \<open>init_for_summon\<close>.\<close>

definition init_with_team :: "battle_config \<Rightarrow> nat \<Rightarrow> int \<Rightarrow> int \<Rightarrow> TeamMember \<Rightarrow> TeamMember" where
  "init_with_team cfg team i pos m = m\<lparr>tm_side := team, tm_id := i, tm_pos := pos,
     energy := (if InitEnergy cfg = 0 then BATTLE_TEAM_MEMBER_INIT_ENERGY else InitEnergy cfg),
     act_num := 0, is_slave := False\<rparr>"

definition init_all_no_calc :: "battle_env \<Rightarrow> nat \<Rightarrow> bool \<Rightarrow> slots \<Rightarrow> int \<Rightarrow> int \<Rightarrow> int \<Rightarrow> XmlCardItem \<Rightarrow> int \<Rightarrow> TeamMember \<Rightarrow> TeamMember option" where
  "init_all_no_calc env team has_player members rd i level role_card pos m =
     (let m = init_with_team (env_config env) team i pos m;
          m = m\<lparr>bufflist_arr := map_option (map (\<lambda>_. [])) (bufflist_arr m), hp := 0, tm_attack := 0, tm_defense := 0\<rparr> in do {
        m \<leftarrow> init_attrs_equips_skills (env_skills env) (\<lambda>_. None) level role_card [] [] m;
        (if has_player then do {
           m \<leftarrow> add_talent_attr (env_skills env) members rd (env_talents env team) m;
           artifact_add_member_attrs (env_artifacts env team) m }
         else Some m) })"

definition init_for_summon :: "battle_env \<Rightarrow> TeamMember \<Rightarrow> nat \<Rightarrow> bool \<Rightarrow> slots \<Rightarrow> int \<Rightarrow> int \<Rightarrow> int \<Rightarrow> XmlCardItem \<Rightarrow> int \<Rightarrow> TeamMember \<Rightarrow> TeamMember option" where
  "init_for_summon env user team has_player members rd i level role_card pos m = do {
     m \<leftarrow> init_all_no_calc env team has_player members rd i level role_card pos m;
     m \<leftarrow> add_skill_attrs (env_skills env)
           ((if NormalSkillID role_card > 0 then [NormalSkillID role_card] else []) @
            (if SuperSkillID role_card > 0 then [SuperSkillID role_card] else []) @ PassiveSkillIds role_card)
           (m\<lparr>attrs := attrs user\<rparr>);
     Some (calculate_hp_attack_defense m) }"

text \<open>\<open>skill_effect_summon\<close>: the new member takes over the user's attributes and a share of the user's life.\<close>

definition summoned :: "TeamMember \<Rightarrow> int list \<Rightarrow> TeamMember \<Rightarrow> TeamMember" where
  "summoned self eff m =
     (let h = i32 (go_div (hp self * (eff ! 2)) 10000) in
      m\<lparr>is_slave := True, hp := h, tm_attack := tm_attack self,
        attrs := (attrs m)[ATTR_HP := h, ATTR_HP_MAX := h, ATTR_ATTACK := tm_attack self,
          ATTR_DAMAGE_PERCENT_BONUS := i32 (attr_of m ATTR_DAMAGE_PERCENT_BONUS + eff ! 3)]\<rparr>)"

definition fx_summon :: "battle_env \<Rightarrow> cast \<Rightarrow> int list \<Rightarrow> battle \<Rightarrow> (bool \<times> battle) option" where
  "fx_summon env c eff st =
     (if length eff < 4 then Some (False, st)
      else do {
        self \<leftarrow> bs_mem st (c_self c);
        (if tm_pos self < 0 then Some (False, st)
         else case env_cards env (eff ! 1) of None \<Rightarrow> Some (False, st)
         | Some role_card \<Rightarrow> do {
             let (m, st) = take_member st;
             m \<leftarrow> init_for_summon env self (c_tside c) (bt_has_player (bs_team st (c_tside c))) (slots_of st (c_tside c))
                   (bs_round st) (bt_temp_curr_id (bs_team st (tm_side self))) (tm_level self) role_card (c_tpos c) m;
             let a = bs_next st;
             let st = update_team (tm_side self) (\<lambda>t. t\<lparr>bt_temp_curr_id := i32 (bt_temp_curr_id t + 1)\<rparr>) st;
             let st = update_team (c_tside c) (\<lambda>t. t\<lparr>bt_members := (bt_members t)[nat (c_tpos c) := Some a]\<rparr>) st;
             Some (True, st\<lparr>bs_mem := (bs_mem st)(a \<mapsto> summoned self eff m), bs_next := Suc a\<rparr>) }) })"

definition fx_modify_attr :: "cast \<Rightarrow> int list \<Rightarrow> battle \<Rightarrow> (bool \<times> battle) option" where
  "fx_modify_attr c eff st =
     (if target_gone c st then Some (False, st)
      else do { st \<leftarrow> update_opt (c_self c) (skill_effect_temp_attrs eff) st; Some (True, st) })"

definition fx_modify_skill :: "bool \<Rightarrow> cast \<Rightarrow> int list \<Rightarrow> battle \<Rightarrow> (bool \<times> battle) option" where
  "fx_modify_skill super c eff st =
     (if length eff < 2 then None
      else if eff ! 1 > 0 then do {
        st \<leftarrow> update (c_self c) (\<lambda>m. if super then m\<lparr>temp_super_skill := eff ! 1\<rparr> else m\<lparr>temp_normal_skill := eff ! 1\<rparr>) st;
        Some (True, st) }
      else Some (False, st))"

definition add_energy :: "int \<Rightarrow> TeamMember \<Rightarrow> TeamMember" where
  "add_energy e m = (let new = i32 (energy m + e) in m\<lparr>energy := (if new < 0 then 0 else new)\<rparr>)"

definition fx_modify_rage :: "cast \<Rightarrow> int list \<Rightarrow> battle \<Rightarrow> (bool \<times> battle) option" where
  "fx_modify_rage c eff st =
     (if length eff < 4 then None
      else if eff ! 3 \<le> 0 then Some (False, st)
      else let (r, rs) = Int31n 10000 (bs_rand st); st = st\<lparr>bs_rand := rs\<rparr> in
        if \<not> r < eff ! 3 then Some (False, st)
        else do {
          st \<leftarrow> (case c_target c of Some t \<Rightarrow> if eff ! 1 > 0 then update t (add_energy (eff ! 1)) st else Some st
                | None \<Rightarrow> Some st);
          st \<leftarrow> (if eff ! 2 > 0 then update (c_self c) (add_energy (eff ! 2)) st else Some st);
          Some (True, st) })"

definition fx_act_num :: "cast \<Rightarrow> int list \<Rightarrow> battle \<Rightarrow> (bool \<times> battle) option" where
  "fx_act_num c eff st = (case c_target c of None \<Rightarrow> Some (False, st) | Some t \<Rightarrow>
     if target_gone c st then Some (False, st)
     else if length eff < 2 then None
     else do { st \<leftarrow> update t (\<lambda>m. m\<lparr>act_num := i32 (act_num m + eff ! 1)\<rparr>) st; Some (True, st) })"

definition fx_shield :: "cast \<Rightarrow> int list \<Rightarrow> battle \<Rightarrow> (bool \<times> battle) option" where
  "fx_shield c eff st = (case c_target c of None \<Rightarrow> Some (False, st) | Some t \<Rightarrow>
     if target_gone c st then Some (False, st)
     else do {
       self \<leftarrow> bs_mem st (c_self c);
       target \<leftarrow> bs_mem st t;
       shield \<leftarrow> skill_effect_add_shield self target eff;
       (if shield = 0 then Some (False, st)
        else do { st \<leftarrow> update_opt t (add_attr (int ATTR_SHIELD) shield) st; Some (True, st) }) })"

definition fx_artifact :: "passive_call \<Rightarrow> cast \<Rightarrow> int list \<Rightarrow> battle \<Rightarrow> (bool \<times> battle) option" where
  "fx_artifact psv c eff st = (case c_target c of None \<Rightarrow> Some (False, st) | Some t \<Rightarrow>
     if target_gone c st then Some (False, st)
     else do {
       target \<leftarrow> bs_mem st t;
       let (dmg, shield, absorb) = skill_effect_artifact_damage target eff;
       st \<leftarrow> update t (set_attr ATTR_SHIELD shield) st;
       st \<leftarrow> (if dmg \<noteq> 0 then update t (add_hp (i32 (- dmg))) st else Some st);
       let st = record_totals (c_report c) (c_side c) (c_pos c) 0 (c_tside c) (c_tpos c) dmg st;
       st \<leftarrow> after_skill_damage psv (c_skill c) (c_self c) t 0 dmg False False st;
       Some (True, st) })"

definition effect_of_type :: "battle_env \<Rightarrow> passive_call \<Rightarrow> cast \<Rightarrow> int list \<Rightarrow> battle \<Rightarrow> (bool \<times> battle) option" where
  "effect_of_type env psv c eff st =
     (let ty = hd eff in
      if ty = 1 then fx_injury psv c eff st
      else if ty = 2 then fx_cure psv c eff st
      else if ty = 3 then fx_add_buff env c eff st
      else if ty = 4 then fx_summon env c eff st
      else if ty = 5 then fx_modify_attr c eff st
      else if ty = 6 then fx_modify_skill False c eff st
      else if ty = 7 then fx_modify_skill True c eff st
      else if ty = 9 then fx_modify_rage c eff st
      else if ty = 8 then fx_act_num c eff st
      else if ty = 10 then fx_shield c eff st
      else if ty = 11 then fx_artifact psv c eff st
      else Some (False, st))"

section \<open>A skill\<close>

text \<open>The loop over the effects. An effect without conditions in the parallel lists panics.\<close>

definition one_effect :: "battle_env \<Rightarrow> passive_call \<Rightarrow> cast \<Rightarrow> nat \<Rightarrow> bool \<times> battle \<Rightarrow> (bool \<times> battle) option" where
  "one_effect env psv c i = (\<lambda>(used, st).
     (let skill = c_skill c; eff = Effects skill ! i in
      if eff = [] then Some (used, st)
      else do {
        self \<leftarrow> bs_mem st (c_self c);
        ok \<leftarrow> (if SkillTarget skill = SKILL_TARGET_TYPE_EMPTY_POS then Some True
              else if length (EffectsCond1s skill) \<le> i \<or> length (EffectsCond2s skill) \<le> i then None
              else Some (skill_effect_cond_check (slots_of st (c_side c)) (slots_of st (c_tside c)) (bs_round st) (Some self)
                     (Option.bind (c_target c) (bs_mem st)) (EffectsCond1s skill ! i) (EffectsCond2s skill ! i)));
        (if \<not> ok then Some (used, st)
         else do { (u, st) \<leftarrow> effect_of_type env psv c eff st; Some (used \<or> u, st) }) }))"

definition one_target :: "battle_env \<Rightarrow> passive_call \<Rightarrow> cast \<Rightarrow> int \<Rightarrow> bool \<times> battle \<Rightarrow> (bool \<times> battle) option" where
  "one_target env psv c p = (\<lambda>(used, st).
     case slot st (c_tside c) p of None \<Rightarrow> Some (used, st)
     | Some t \<Rightarrow>
         if t = None \<and> SkillTarget (c_skill c) \<noteq> SKILL_TARGET_TYPE_EMPTY_POS then Some (used, st)
         else do {
           st \<leftarrow> (case t of None \<Rightarrow> Some st
                 | Some a \<Rightarrow> update a (\<lambda>m. m\<lparr>attacker := Some (c_self c), attacker_skill_data := Some (c_skill c)\<rparr>) st);
           for_each (one_effect env psv (c\<lparr>c_tpos := p, c_target := t\<rparr>)) [0..<length (Effects (c_skill c))] (used, st) })"

text \<open>The passive skills after the skill, and the death of a user that is about to die.\<close>

definition after_skill :: "passive_call \<Rightarrow> cast \<Rightarrow> int list \<Rightarrow> battle \<Rightarrow> battle option" where
  "after_skill psv c target_pos st = do {
     d \<leftarrow> test is_will_dead (c_self c) st;
     let ty = skill_Type (c_skill c);
     st \<leftarrow> call_if (\<not> d \<and> ty = SKILL_TYPE_NORMAL) psv EVENT_AFTER_USE_NORMAL_SKILL (c_side c) (c_pos c) (Some (c_tside c)) target_pos st;
     st \<leftarrow> call_if (\<not> d \<and> ty = SKILL_TYPE_SUPER) psv EVENT_AFTER_USE_SUPER_SKILL (c_side c) (c_pos c) (Some (c_tside c)) target_pos st;
     st \<leftarrow> call_if (\<not> d \<and> ty \<noteq> SKILL_TYPE_PASSIVE) psv EVENT_AFTER_DAMAGE_ON_ATTACK (c_side c) (c_pos c) (Some (c_tside c)) target_pos st;
     self \<leftarrow> bs_mem st (c_self c);
     (if is_will_dead self then set_dead psv (c_self c) (attacker self) (attacker_skill_data self) st else Some st) }"

text \<open>The user of a skill: the member of the slot unless dead, or the artifact.\<close>

definition skill_user :: "nat \<Rightarrow> int \<Rightarrow> nat option \<Rightarrow> battle \<Rightarrow> mptr option option" where
  "skill_user t p tt st =
     (if p < 0 then Some (bt_artifact (bs_team st t))
      else do {
        q \<leftarrow> slot st t p;
        Some (if tt = None then None
              else Option.bind q (\<lambda>a. Option.bind (bs_mem st a) (\<lambda>m. if is_dead m then None else Some a))) })"

definition skill_effect :: "battle_env \<Rightarrow> passive_call \<Rightarrow> nat \<Rightarrow> int \<Rightarrow> nat option \<Rightarrow> int list \<Rightarrow> XmlSkillItem \<Rightarrow> battle
    \<Rightarrow> (bool \<times> battle) option" where
  "skill_effect env psv t p tt target_pos skill st = do {
     user \<leftarrow> skill_user t p tt st;
     (case user of None \<Rightarrow> Some (False, st)
      | Some self \<Rightarrow> do {
          ts \<leftarrow> tt;
          let c = \<lparr>c_self = self, c_side = t, c_pos = p, c_tside = ts, c_tpos = 0, c_target = None, c_skill = skill,
            c_report = (\<not> bt_is_sweeping (bs_team st t) \<and> \<not> bt_is_sweeping (bs_team st ts) \<and> IsCancelReport skill = 0)\<rparr>;
          (used, st) \<leftarrow> for_each (one_target env psv c) target_pos (False, st);
          st \<leftarrow> after_skill psv c target_pos st;
          Some (used, st) }) }"

section \<open>Passive skills\<close>

text \<open>\<open>FindTargets\<close> with a target team that may be nil: looking at its members panics.\<close>

definition looks_at_members :: "XmlSkillItem \<Rightarrow> bool" where
  "looks_at_members skill =
     (let t = SkillTarget skill; r = RangeType skill in
      t = SKILL_TARGET_TYPE_DEFAULT \<and> r \<in> {1, 2, 3, 5, 6, 7}
      \<or> t = SKILL_TARGET_TYPE_BACK \<and> r \<in> {1, 3}
      \<or> t = SKILL_TARGET_TYPE_HP_MIN \<and> r = 1
      \<or> t = SKILL_TARGET_TYPE_RANDOM \<and> (r \<in> {1, 5, 6} \<or> r = 4 \<and> MaxTarget skill > 0)
      \<or> t = SKILL_TARGET_TYPE_SELF \<and> r \<in> {2, 3, 5, 6, 7}
      \<or> t = SKILL_TARGET_TYPE_EMPTY_POS)"

definition find_targets :: "mptr \<Rightarrow> nat option \<Rightarrow> XmlSkillItem \<Rightarrow> int list \<Rightarrow> battle \<Rightarrow> (int list \<times> bool \<times> battle) option" where
  "find_targets self tt skill tps st = do {
     m \<leftarrow> bs_mem st self;
     (if tt = None \<and> SkillEnemy skill = SKILL_ENEMY_TYPE_ENEMY \<and> looks_at_members skill then None
      else do {
        (pos, is_enemy, rs) \<leftarrow> FindTargets (tm_pos m) (slots_of st (tm_side m))
            (case tt of None \<Rightarrow> [] | Some t \<Rightarrow> slots_of st t) skill tps (bs_rand st);
        Some (pos, is_enemy, st\<lparr>bs_rand := rs\<rparr>) }) }"

definition one_passive_skill_effect :: "battle_env \<Rightarrow> passive_call \<Rightarrow> int \<Rightarrow> XmlSkillItem \<Rightarrow> mptr \<Rightarrow> nat option \<Rightarrow> int list
    \<Rightarrow> battle \<Rightarrow> (bool \<times> battle) option" where
  "one_passive_skill_effect env psv e skill self tt tps st =
     (if SkillTriggerType skill \<noteq> e then Some (False, st)
      else do {
        m \<leftarrow> bs_mem st self;
        (if \<not> can_passive_trigger e (skill_Id skill) m then Some (False, st)
         else do {
           ok \<leftarrow> skill_check_cond (slots_of st (tm_side m)) (bs_round st) (Some m) (map_option (slots_of st) tt) tps
                  (TriggerCondition1 skill) (TriggerCondition2 skill);
           (if \<not> ok then Some (False, st)
            else if is_disable_attack m \<and> StunDisableAction skill > 0 then Some (False, st)
            else do {
              (pos, is_enemy, st) \<leftarrow> find_targets self tt skill tps st;
              (if pos = [] then Some (False, st)
               else do {
                 (used, st) \<leftarrow> skill_effect env psv (tm_side m) (tm_pos m) (if is_enemy then tt else Some (tm_side m)) pos skill st;
                 st \<leftarrow> update self (used_passive_trigger_count e (skill_Id skill)) st;
                 Some (True, st) }) }) }) })"

definition one_passive :: "battle_env \<Rightarrow> passive_call \<Rightarrow> int \<Rightarrow> mptr \<Rightarrow> nat option \<Rightarrow> int list \<Rightarrow> int \<Rightarrow> bool \<times> battle
    \<Rightarrow> (bool \<times> battle) option" where
  "one_passive env psv e user tt tps skill_id = (\<lambda>(effected, st). do {
     m \<leftarrow> bs_mem st user;
     (if skill_id \<notin> set (passive_skills m) then Some (effected, st)
      else case env_skills env skill_id of None \<Rightarrow> Some (effected, st)
      | Some skill \<Rightarrow>
          if skill_Type skill \<noteq> SKILL_TYPE_PASSIVE then Some (effected, st)
          else if IsDelayLastSkill skill > 0 \<and> e = SkillTriggerType skill
          then Some (effected, PushDelaySkill e skill user tt tps st)
          else do {
            (tr, st) \<leftarrow> one_passive_skill_effect env psv e skill user tt tps st;
            Some (effected \<or> tr, st) }) })"

definition passive_skill_effect :: "battle_env \<Rightarrow> passive_call \<Rightarrow> int \<Rightarrow> mptr \<Rightarrow> nat option \<Rightarrow> int list \<Rightarrow> battle
    \<Rightarrow> (bool \<times> battle) option" where
  "passive_skill_effect env psv e user tt tps st = do {
     m \<leftarrow> bs_mem st user;
     for_each (one_passive env psv e user tt tps) (passive_skills m) (False, st) }"

definition passive_with_self_pos :: "battle_env \<Rightarrow> passive_call \<Rightarrow> passive_call" where
  "passive_with_self_pos env psv e t p tt tps st =
     (if p < 0 then Some (False, st)
      else do {
        q \<leftarrow> slot st t p;
        (case q of None \<Rightarrow> Some (False, st) | Some user \<Rightarrow> passive_skill_effect env psv e user tt tps st) })"

primrec passive_fx :: "battle_env \<Rightarrow> nat \<Rightarrow> passive_call" where
  "passive_fx env 0 = (\<lambda>e t p tt tps st. None)"
| "passive_fx env (Suc n) = passive_with_self_pos env (passive_fx env n)"

end
