(* ===== verification/Battle_Round.thy ===== *)
theory Battle_Round
  imports Battle_Skill
begin

text \<open>
  The rounds of a battle (\<open>hall_server/player_battle.go\<close>): choosing and using skills, the artifacts, the
  order of the fighters, the end of a round with the buffs, and \<open>Fight\<close>. Loops that nothing bounds (a
  member's actions, the delayed skills, the buffs of a list) take fuel, as do the passive skills; one number
  \<open>n\<close> is used for all. The report of the rounds is left out, as is what \<open>Fight\<close> writes to the database
  for bosses and expeditions. \<open>t\<close> is the side of the team that acts, \<open>tt\<close> of the other.
\<close>

section \<open>Choosing a skill\<close>

definition the_skill_id :: "TeamMember \<Rightarrow> int \<Rightarrow> (int \<times> bool) option" where
  "the_skill_id self trigger_skill =
     (if trigger_skill \<noteq> 0 then Some (trigger_skill, False)
      else if tm_pos self < 0 then
        Some (case tm_artifact self of None \<Rightarrow> 0
              | Some skill \<Rightarrow> if energy self \<ge> BATTLE_TEAM_ARTIFACT_MAX_ENERGY then skill else 0, False)
      else if energy self < BATTLE_TEAM_MEMBER_MAX_ENERGY \<and> is_disable_normal_attack self then None
      else if energy self \<ge> BATTLE_TEAM_MEMBER_MAX_ENERGY \<and> \<not> is_disable_super_attack self then
        (if temp_super_skill self > 0 then Some (temp_super_skill self, True)
         else Some (if SuperSkillID (tm_card self) = 0 then NormalSkillID (tm_card self) else SuperSkillID (tm_card self), False))
      else
        (if temp_normal_skill self > 0 then Some (temp_normal_skill self, True)
         else Some (if NormalSkillID (tm_card self) = 0 then SuperSkillID (tm_card self) else NormalSkillID (tm_card self), False)))"

text \<open>The skill, or nil, and whether a temporary skill has been chosen.\<close>

definition GetTheUseSkill :: "battle_env \<Rightarrow> TeamMember \<Rightarrow> int \<Rightarrow> XmlSkillItem option \<times> bool" where
  "GetTheUseSkill env self trigger_skill =
     (case the_skill_id self trigger_skill of None \<Rightarrow> (None, False)
      | Some (skill_id, temp) \<Rightarrow>
          (case env_skills env skill_id of None \<Rightarrow> (None, temp)
           | Some skill \<Rightarrow>
               (if tm_pos self \<ge> 0 \<and> trigger_skill > 0 \<and> is_disable_attack self \<and> skill_Type skill \<noteq> SKILL_TYPE_PASSIVE
                then None else Some skill, temp)))"

definition get_member :: "nat \<Rightarrow> int \<Rightarrow> battle \<Rightarrow> mptr option option" where
  "get_member t index st =
     (if index < 0 then Some (bt_artifact (bs_team st t))
      else do {
        q \<leftarrow> slot st t index;
        Some (Option.bind q (\<lambda>a. Option.bind (bs_mem st a) (\<lambda>m. if is_dead m then None else Some a))) })"

definition clear_temp_skill :: "TeamMember \<Rightarrow> TeamMember" where
  "clear_temp_skill m =
     (if use_temp_skill m then
        (if temp_normal_skill m > 0 then m\<lparr>temp_normal_skill := 0, use_temp_skill := False\<rparr>
         else if temp_super_skill m > 0 then m\<lparr>temp_super_skill := 0, use_temp_skill := False\<rparr>
         else m\<lparr>use_temp_skill := False\<rparr>)
      else m)"

definition UseSkillOnce :: "battle_env \<Rightarrow> passive_call \<Rightarrow> nat \<Rightarrow> int \<Rightarrow> nat \<Rightarrow> int \<Rightarrow> battle
    \<Rightarrow> (XmlSkillItem option \<times> battle) option" where
  "UseSkillOnce env psv t index tt trigger_skill st = do {
     user \<leftarrow> get_member t index st;
     (case user of None \<Rightarrow> Some (None, st)
      | Some self \<Rightarrow> do {
          m \<leftarrow> bs_mem st self;
          let (sk, temp) = GetTheUseSkill env m trigger_skill;
          st \<leftarrow> update self (\<lambda>m. if temp then m\<lparr>use_temp_skill := True\<rparr> else m) st;
          (case sk of None \<Rightarrow> Some (None, st)
           | Some skill \<Rightarrow> do {
               (pos, is_enemy, st) \<leftarrow> find_targets self (Some tt) skill [] st;
               (if pos = [] then Some (None, st)
                else do {
                  st \<leftarrow> update self (used_skill (env_config env) skill) st;
                  (used, st) \<leftarrow> skill_effect env psv t index (Some (if is_enemy then tt else t)) pos skill st;
                  st \<leftarrow> (if index \<ge> 0 then update self clear_temp_skill st else Some st);
                  Some (Some skill, st) }) }) }) }"

section \<open>Delayed skills\<close>

text \<open>The queue is worked off from its head; skills pushed meanwhile are at its end. It is emptied only
  when all are done.\<close>

primrec delay_loop :: "battle_env \<Rightarrow> passive_call \<Rightarrow> nat \<Rightarrow> nat \<Rightarrow> battle \<Rightarrow> battle option" where
  "delay_loop env psv 0 i st = None"
| "delay_loop env psv (Suc k) i st =
     (if length (bs_delay st) \<le> i then Some (st\<lparr>bs_delay := []\<rparr>)
      else let d = bs_delay st ! i in do {
        (_, st) \<leftarrow> one_passive_skill_effect env psv (ds_event d) (ds_skill d) (ds_user d) (ds_target_team d) (ds_trigger_pos d) st;
        delay_loop env psv k (Suc i) st })"

definition DelaySkillEffect :: "battle_env \<Rightarrow> nat \<Rightarrow> battle \<Rightarrow> battle option" where
  "DelaySkillEffect env n st = delay_loop env (passive_fx env n) n 0 st"

section \<open>A member's turn\<close>

definition use_skills :: "battle_env \<Rightarrow> nat \<Rightarrow> nat \<Rightarrow> int \<Rightarrow> nat \<Rightarrow> battle \<Rightarrow> (bool \<times> battle) option" where
  "use_skills env n t index tt st = do {
     (sk, st) \<leftarrow> UseSkillOnce env (passive_fx env n) t index tt 0 st;
     (case sk of None \<Rightarrow> Some (False, st)
      | Some skill \<Rightarrow> do {
          (_, st) \<leftarrow> (if ComboSkill skill > 0 then UseSkillOnce env (passive_fx env n) t index tt (ComboSkill skill) st
                     else Some (None, st));
          st \<leftarrow> DelaySkillEffect env n st;
          Some (True, st) }) }"

text \<open>The loop of \<open>UseSkill\<close>: the result of the function, 0 or 1.\<close>

primrec turn_loop :: "battle_env \<Rightarrow> nat \<Rightarrow> nat \<Rightarrow> mptr \<Rightarrow> nat \<Rightarrow> int \<Rightarrow> nat \<Rightarrow> battle \<Rightarrow> (int \<times> battle) option" where
  "turn_loop env n 0 a t index tt st = None"
| "turn_loop env n (Suc k) a t index tt st = do {
     m \<leftarrow> bs_mem st a;
     (if get_use_skill (env_config env) m \<le> 0 then Some (1, st)
      else if IsAllDead (slots_of st tt) then Some (0, st)
      else do {
        st \<leftarrow> update a act_done st;
        m \<leftarrow> bs_mem st a;
        (if is_disable_attack m then Some (0, st)
         else do {
           let rage = energy m \<ge> BATTLE_TEAM_MEMBER_MAX_ENERGY;
           st \<leftarrow> call_if (rage \<and> temp_super_skill m = 0) (passive_fx env n) EVENT_BEFORE_RAGE_ATTACK t index (Some tt) [] st;
           st \<leftarrow> call_if (\<not> rage \<and> temp_normal_skill m = 0) (passive_fx env n) EVENT_BEFORE_NORMAL_ATTACK t index (Some tt) [] st;
           (go, st) \<leftarrow> use_skills env n t index tt st;
           (if go then turn_loop env n k a t index tt st else Some (1, st)) }) }) }"

definition UseSkill :: "battle_env \<Rightarrow> nat \<Rightarrow> nat \<Rightarrow> int \<Rightarrow> nat \<Rightarrow> battle \<Rightarrow> (int \<times> battle) option" where
  "UseSkill env n t index tt st = do {
     q \<leftarrow> slot st t index;
     (case q of None \<Rightarrow> Some (- 1, st)
      | Some a \<Rightarrow> do {
          m \<leftarrow> bs_mem st a;
          (if is_dead m \<or> is_will_dead m then Some (- 1, st) else turn_loop env n n a t index tt st) }) }"

definition CheckAndUseArtifactEveryRound :: "battle_env \<Rightarrow> nat \<Rightarrow> nat \<Rightarrow> nat \<Rightarrow> battle \<Rightarrow> battle option" where
  "CheckAndUseArtifactEveryRound env n t tt st =
     (case bt_artifact (bs_team st t) of None \<Rightarrow> Some st
      | Some a \<Rightarrow>
          if \<not> bt_has_player (bs_team st t) then Some st
          else do {
            m \<leftarrow> bs_mem st a;
            (if tm_artifact m = None then Some st
             else do {
               (sk, st) \<leftarrow> UseSkillOnce env (passive_fx env n) t (- 1) tt 0 st;
               (case sk of None \<Rightarrow> Some st
                | Some skill \<Rightarrow> do {
                    (_, st) \<leftarrow> (if ComboSkill skill > 0
                      then UseSkillOnce env (passive_fx env n) t (- 1) tt (ComboSkill skill) st else Some (None, st));
                    update a (\<lambda>m. if energy m \<ge> BATTLE_TEAM_ARTIFACT_MAX_ENERGY
                      then m\<lparr>energy := energy m - BATTLE_TEAM_ARTIFACT_MAX_ENERGY\<rparr> else m) st }) }) })"

section \<open>The order of the fighters\<close>

definition slave_at :: "nat \<Rightarrow> int \<Rightarrow> battle \<Rightarrow> bool" where
  "slave_at t index st = (case Option.bind (slot st t index) (\<lambda>q. Option.bind q (bs_mem st)) of None \<Rightarrow> False
     | Some m \<Rightarrow> is_slave m)"

text \<open>The next member of a team that acts, with the summoned ones before it; \<open>k\<close> slots are left.\<close>

primrec act_from :: "battle_env \<Rightarrow> nat \<Rightarrow> nat \<Rightarrow> nat \<Rightarrow> nat \<Rightarrow> battle \<Rightarrow> (nat \<times> battle) option" where
  "act_from env n t tt 0 st = Some (BATTLE_TEAM_MEMBER_MAX_NUM, st)"
| "act_from env n t tt (Suc k) st =
     (let index = BATTLE_TEAM_MEMBER_MAX_NUM - Suc k in do {
        (r, st) \<leftarrow> UseSkill env n t (int index) tt st;
        (if r \<ge> 0 \<and> \<not> slave_at t (int index) st then Some (Suc index, st) else act_from env n t tt k st) })"

definition fight_pair :: "battle_env \<Rightarrow> nat \<Rightarrow> nat \<Rightarrow> nat \<Rightarrow> nat \<Rightarrow> nat \<Rightarrow> battle \<Rightarrow> (nat \<times> nat \<times> battle) option" where
  "fight_pair env n t tt self_index target_index st = do {
     (i, st) \<leftarrow> (if self_index < 9 then act_from env n t tt (9 - self_index) st else Some (self_index, st));
     (j, st) \<leftarrow> (if target_index < 9 then act_from env n tt t (9 - target_index) st else Some (target_index, st));
     Some (i, j, st) }"

primrec pair_loop :: "battle_env \<Rightarrow> nat \<Rightarrow> nat \<Rightarrow> nat \<Rightarrow> nat \<Rightarrow> battle \<Rightarrow> battle option" where
  "pair_loop env n 0 i j st = (if i < 9 \<or> j < 9 then None else Some st)"
| "pair_loop env n (Suc k) i j st =
     (if i < 9 \<or> j < 9 then
        (if bt_first_hand (bs_team st 0) \<ge> bt_first_hand (bs_team st 1)
         then do { (i, j, st) \<leftarrow> fight_pair env n 0 1 i j st; pair_loop env n k i j st }
         else do { (j, i, st) \<leftarrow> fight_pair env n 1 0 j i st; pair_loop env n k i j st })
      else Some st)"

section \<open>Start and end of a round\<close>

definition each_member :: "(mptr \<Rightarrow> battle \<Rightarrow> battle option) \<Rightarrow> nat \<Rightarrow> battle \<Rightarrow> battle option" where
  "each_member f t = for_each (\<lambda>p st. do {
     q \<leftarrow> slot st t p;
     (case q of None \<Rightarrow> Some st | Some a \<Rightarrow> f a st) }) [0..8]"

definition check_artifact_energy_add :: "TeamMember \<Rightarrow> TeamMember" where
  "check_artifact_energy_add m =
     (if energy m < BATTLE_TEAM_ARTIFACT_MAX_ENERGY then m\<lparr>energy := i32 (energy m + BATTLE_TEAM_ARTIFACT_ADD_ENERGY)\<rparr> else m)"

definition RoundStart :: "nat \<Rightarrow> battle \<Rightarrow> battle option" where
  "RoundStart t st = do {
     st \<leftarrow> each_member (\<lambda>a. update a round_start) t st;
     (case bt_artifact (bs_team st t) of None \<Rightarrow> Some st | Some a \<Rightarrow> update a check_artifact_energy_add st) }"

text \<open>\<open>BuffList.on_round_end\<close>: one buff, then the buff after it. A next buff that was removed meanwhile is
  not followed (\<open>None\<close>).\<close>

fun next_addr :: "nat \<Rightarrow> Buff list \<Rightarrow> nat option" where
  "next_addr a [] = None"
| "next_addr a (b # bs) = (if bf_addr b = a then map_option bf_addr (case bs of [] \<Rightarrow> None | c # _ \<Rightarrow> Some c) else next_addr a bs)"

text \<open>The totals after the damage of a buff; the position -1 of an artifact panics.\<close>

definition buff_total :: "nat \<Rightarrow> int \<Rightarrow> int \<Rightarrow> battle \<Rightarrow> battle" where
  "buff_total t p dmg st =
     (if dmg > 0 then st\<lparr>members_damage := (members_damage st)(t := (members_damage st t)(p := i32 (members_damage st t p + dmg)))\<rparr>
      else st\<lparr>members_cure := (members_cure st)(t := (members_cure st t)(p := i32 (members_cure st t p - dmg)))\<rparr>)"

definition buff_damage :: "battle_env \<Rightarrow> passive_call \<Rightarrow> mptr \<Rightarrow> Buff \<Rightarrow> battle \<Rightarrow> battle option" where
  "buff_damage env psv owner bf st = do {
     m \<leftarrow> bs_mem st owner;
     (case status_Effect (bf_buff bf) of [] \<Rightarrow> None
      | ty # rest \<Rightarrow>
          if ty \<noteq> BUFF_EFFECT_TYPE_DAMAGE then Some st
          else (case rest of [] \<Rightarrow> None
            | a # _ \<Rightarrow>
                if a < 0 \<or> int (length (attrs m)) \<le> a then None
                else let dmg = buff_effect_damage (bf_attack bf) (bf_param bf) (nat a) m in
                  if dmg = 0 then Some st
                  else do {
                    st \<leftarrow> update owner (add_hp (i32 (- dmg))) st;
                    am \<leftarrow> bs_mem st (bf_attacker bf);
                    st \<leftarrow> settle_death psv owner (bf_attacker bf) None st;
                    (if bt_is_sweeping (bs_team st (tm_side m)) then Some st
                     else if tm_pos am < 0 then None
                     else Some (buff_total (tm_side am) (tm_pos am) dmg st)) })) }"

definition buff_round_end :: "battle_env \<Rightarrow> passive_call \<Rightarrow> mptr \<Rightarrow> nat \<Rightarrow> Buff \<Rightarrow> battle \<Rightarrow> battle option" where
  "buff_round_end env psv owner i bf st =
     (if bf_round_num bf \<le> 0 then Some st
      else do {
        st \<leftarrow> buff_damage env psv owner bf st;
        m \<leftarrow> bs_mem st owner;
        bf \<leftarrow> find (\<lambda>b. bf_addr b = bf_addr bf) (the_lists m ! i);
        let left = bf_round_num bf - 1;
        let m = set_list i (map (\<lambda>b. if bf_addr b = bf_addr bf then b\<lparr>bf_round_num := left\<rparr> else b) (the_lists m ! i)) m;
        (_, m) \<leftarrow> (if left \<le> 0 then remove_buff (env_skills env) i bf m else Some (True, m));
        update owner (\<lambda>_. m) st })"

primrec buffs_round_end :: "battle_env \<Rightarrow> passive_call \<Rightarrow> mptr \<Rightarrow> nat \<Rightarrow> nat \<Rightarrow> nat option \<Rightarrow> battle \<Rightarrow> battle option" where
  "buffs_round_end env psv owner i 0 cur st = None"
| "buffs_round_end env psv owner i (Suc k) cur st = (case cur of None \<Rightarrow> Some st
     | Some a \<Rightarrow> do {
         m \<leftarrow> bs_mem st owner;
         bf \<leftarrow> find (\<lambda>b. bf_addr b = a) (the_lists m ! i);
         st' \<leftarrow> buff_round_end env psv owner i bf st;
         buffs_round_end env psv owner i k (next_addr a (the_lists m ! i)) st' })"

definition on_round_end :: "battle_env \<Rightarrow> nat \<Rightarrow> mptr \<Rightarrow> nat \<Rightarrow> battle \<Rightarrow> battle option" where
  "on_round_end env n owner i st = do {
     m \<leftarrow> bs_mem st owner;
     (if is_will_dead m \<or> is_dead m then Some st
      else do {
        st \<leftarrow> buffs_round_end env (passive_fx env n) owner i n
               (case the_lists m ! i of [] \<Rightarrow> None | b # _ \<Rightarrow> Some (bf_addr b)) st;
        DelaySkillEffect env n st }) }"

definition member_round_end :: "battle_env \<Rightarrow> nat \<Rightarrow> mptr \<Rightarrow> battle \<Rightarrow> battle option" where
  "member_round_end env n a st = do {
     m \<leftarrow> bs_mem st a;
     (if is_dead m then Some st
      else do {
        st \<leftarrow> update a (\<lambda>m. if can_action m then m\<lparr>energy := i32 (energy m +
               (if EnergyAdd (env_config env) = 0 then BATTLE_TEAM_MEMBER_ADD_ENERGY else EnergyAdd (env_config env)))\<rparr> else m) st;
        m \<leftarrow> bs_mem st a;
        for_each (on_round_end env n a) [0..<length (the_lists m)] st }) }"

definition RoundEnd :: "battle_env \<Rightarrow> nat \<Rightarrow> nat \<Rightarrow> battle \<Rightarrow> battle option" where
  "RoundEnd env n t = each_member (member_round_end env n) t"

section \<open>The fight\<close>

definition both_passives :: "battle_env \<Rightarrow> nat \<Rightarrow> int \<Rightarrow> int \<Rightarrow> battle \<Rightarrow> battle option" where
  "both_passives env n e p st = do {
     st \<leftarrow> call (passive_fx env n) e 0 p (Some 1) [] st;
     call (passive_fx env n) e 1 p (Some 0) [] st }"

definition DoRound :: "battle_env \<Rightarrow> nat \<Rightarrow> battle \<Rightarrow> battle option" where
  "DoRound env n st = do {
     st \<leftarrow> RoundStart 0 st;
     st \<leftarrow> RoundStart 1 st;
     st \<leftarrow> for_each (both_passives env n EVENT_BEFORE_ROUND) [0..8] st;
     st \<leftarrow> CheckAndUseArtifactEveryRound env n 0 1 st;
     let is_end = IsAllDead (slots_of st 1);
     st \<leftarrow> (if is_end then Some st else CheckAndUseArtifactEveryRound env n 1 0 st);
     let is_end = (is_end \<or> IsAllDead (slots_of st 0));
     st \<leftarrow> (if is_end then Some st else pair_loop env n 18 0 0 st);
     st \<leftarrow> RoundEnd env n 0 st;
     RoundEnd env n 1 st }"

text \<open>The loop of \<open>Fight\<close> over the rounds that are left: who wins.\<close>

primrec round_loop :: "battle_env \<Rightarrow> nat \<Rightarrow> nat \<Rightarrow> battle \<Rightarrow> (bool \<times> battle) option" where
  "round_loop env n 0 st = Some (False, st)"
| "round_loop env n (Suc c) st = do {
     st \<leftarrow> DoRound env n (st\<lparr>bs_round := i32 (bs_round st + 1)\<rparr>);
     (if IsAllDead (slots_of st 0) then Some (False, st)
      else if IsAllDead (slots_of st 1) then Some (True, st)
      else round_loop env n c st) }"

definition on_battle_finish :: "TeamMember \<Rightarrow> TeamMember" where
  "on_battle_finish m = m\<lparr>passive_trigger_lists := map_option (\<lambda>_. []) \<circ> passive_trigger_lists m, passive_skills := []\<rparr>"

text \<open>\<open>OnFinish\<close>: the members go back to the pool and the slots are emptied.\<close>

definition OnFinish :: "nat \<Rightarrow> battle \<Rightarrow> battle" where
  "OnFinish t st =
     (let ms = List.map_filter (\<lambda>s. s) (slots_of st t) in
      update_team t (\<lambda>bt. bt\<lparr>bt_members := map (\<lambda>_. None) (bt_members bt)\<rparr>)
        (st\<lparr>bs_pool := rev (map on_battle_finish ms) @ bs_pool st\<rparr>))"

definition BATTLE_END_BY_ALL_DEAD :: int where
  "BATTLE_END_BY_ALL_DEAD = 1"

text \<open>\<open>sweep\<close>: a later fight of a sweep, which keeps the totals.\<close>

definition Fight :: "battle_env \<Rightarrow> nat \<Rightarrow> bool \<Rightarrow> int \<Rightarrow> int \<Rightarrow> battle \<Rightarrow> (bool \<times> battle) option" where
  "Fight env n sweep end_type end_param st =
     (let round_max = (if end_type = BATTLE_END_BY_ALL_DEAD then BATTLE_ROUND_MAX_NUM else end_param) in do {
        st \<leftarrow> for_each (both_passives env n EVENT_ENTER_BATTLE) [0..8]
               (if sweep then st\<lparr>bs_round := 0\<rparr>
                else st\<lparr>bs_round := 0, members_damage := (\<lambda>_ _. 0), members_cure := (\<lambda>_ _. 0)\<rparr>);
        (is_win, st) \<leftarrow> round_loop env n (nat round_max) st;
        Some (is_win, OnFinish 1 (OnFinish 0 st)) })"

end
