(* ===== verification/Battle_Fuel.thy ===== *)
theory Battle_Fuel
  imports Battle_Round
begin

text \<open>
  What the fuel means: more fuel never changes a result, so a result of a fight does not depend on the number
  given, and the bounds of the loops the code itself bounds. A passive skill that triggers itself never
  returns, whatever the fuel.
\<close>

section \<open>More defined results\<close>

definition below :: "'a option \<Rightarrow> 'a option \<Rightarrow> bool" where
  "below x y \<longleftrightarrow> x = None \<or> x = y"

lemma below_refl [simp]: "below x x"
  by (simp add: below_def)

lemma below_None [simp]: "below None x"
  by (simp add: below_def)

lemma belowD: "below x y \<Longrightarrow> x = Some z \<Longrightarrow> y = Some z"
  by (auto simp: below_def)

lemma below_trans: "below x y \<Longrightarrow> below y z \<Longrightarrow> below x z"
  by (auto simp: below_def)

lemma below_bind: "below x y \<Longrightarrow> (\<And>z. below (f z) (g z)) \<Longrightarrow> below (Option.bind x f) (Option.bind y g)"
  by (auto simp: below_def split: Option.bind_splits)

lemma below_if: "(c \<Longrightarrow> below x x') \<Longrightarrow> (\<not> c \<Longrightarrow> below y y') \<Longrightarrow> below (if c then x else y) (if c then x' else y')"
  by simp

lemma below_option:
  "(o' = None \<Longrightarrow> below x y) \<Longrightarrow> (\<And>z. o' = Some z \<Longrightarrow> below (f z) (g z)) \<Longrightarrow> below (case o' of None \<Rightarrow> x | Some z \<Rightarrow> f z) (case o' of None \<Rightarrow> y | Some z \<Rightarrow> g z)"
  by (simp split: option.split)

lemma below_prod: "(\<And>a b. below (f a b) (g a b)) \<Longrightarrow> below (case p of (a, b) \<Rightarrow> f a b) (case p of (a, b) \<Rightarrow> g a b)"
  by (simp split: prod.split)

lemma below_list:
  "below x y \<Longrightarrow> (\<And>a as. below (f a as) (g a as)) \<Longrightarrow> below (case xs of [] \<Rightarrow> x | a # as \<Rightarrow> f a as) (case xs of [] \<Rightarrow> y | a # as \<Rightarrow> g a as)"
  by (simp split: list.split)

lemma below_for_each: "(\<And>x s. below (f x s) (g x s)) \<Longrightarrow> below (for_each f xs s) (for_each g xs s)"
  by (induction xs arbitrary: s) (auto intro: below_bind)

named_theorems belows

lemmas [belows] = below_refl below_bind below_if below_option below_prod below_list below_for_each

definition at_most :: "passive_call \<Rightarrow> passive_call \<Rightarrow> bool" where
  "at_most psv psv' \<longleftrightarrow> (\<forall>e t p tt tps st. below (psv e t p tt tps st) (psv' e t p tt tps st))"

lemma call_below: "at_most psv psv' \<Longrightarrow> below (call psv e t p tt tps st) (call psv' e t p tt tps st)"
  unfolding at_most_def call_def below_def by (metis option.map_disc_iff)

lemma call_if_below: "at_most psv psv' \<Longrightarrow> below (call_if c psv e t p tt tps st) (call_if c psv' e t p tt tps st)"
  by (simp add: call_if_def call_below)

section \<open>Passive skills\<close>

locale more_fuel =
  fixes psv psv' :: passive_call
  assumes le: "at_most psv psv'"
begin

lemmas [belows] = call_below [OF le] call_if_below [OF le]

lemma on_will_dead_below [belows]: "below (on_will_dead psv a st) (on_will_dead psv' a st)"
  unfolding on_will_dead_def Let_def by (intro belows)

lemma on_after_will_dead_below [belows]: "below (on_after_will_dead psv a att st) (on_after_will_dead psv' a att st)"
  unfolding on_after_will_dead_def Let_def by (intro belows)

lemma notify_below [belows]: "below (notify psv e t dt dp ex p st) (notify psv' e t dt dp ex p st)"
  unfolding notify_def Let_def by (intro belows)

lemma on_dead_below [belows]: "below (on_dead psv a att skill st) (on_dead psv' a att skill st)"
  unfolding on_dead_def Let_def by (intro belows)

lemma set_dead_below [belows]: "below (set_dead psv a att skill st) (set_dead psv' a att skill st)"
  unfolding set_dead_def Let_def by (intro belows)

lemma after_passives_below [belows]: "below (after_passives psv skill self target b c st) (after_passives psv' skill self target b c st)"
  unfolding after_passives_def Let_def by (intro belows)

lemma settle_death_below [belows]: "below (settle_death psv target att skill st) (settle_death psv' target att skill st)"
  unfolding settle_death_def Let_def by (intro belows)

lemma after_skill_damage_below [belows]: "below (after_skill_damage psv skill self target d1 d2 b c st) (after_skill_damage psv' skill self target d1 d2 b c st)"
  unfolding after_skill_damage_def Let_def by (intro belows)

lemma fx_injury_below [belows]: "below (fx_injury psv c eff st) (fx_injury psv' c eff st)"
  unfolding fx_injury_def Let_def by (intro belows)

lemma fx_cure_below [belows]: "below (fx_cure psv c eff st) (fx_cure psv' c eff st)"
  unfolding fx_cure_def Let_def by (intro belows)

lemma fx_artifact_below [belows]: "below (fx_artifact psv c eff st) (fx_artifact psv' c eff st)"
  unfolding fx_artifact_def Let_def by (intro belows)

lemma effect_of_type_below [belows]: "below (effect_of_type env psv c eff st) (effect_of_type env psv' c eff st)"
  unfolding effect_of_type_def Let_def by (intro belows)

lemma one_effect_below [belows]: "below (one_effect env psv c i r) (one_effect env psv' c i r)"
  unfolding one_effect_def Let_def by (intro belows)

lemma one_target_below [belows]: "below (one_target env psv c p r) (one_target env psv' c p r)"
  unfolding one_target_def Let_def by (intro belows)

lemma after_skill_below [belows]: "below (after_skill psv c tps st) (after_skill psv' c tps st)"
  unfolding after_skill_def Let_def by (intro belows)

lemma skill_effect_below [belows]: "below (skill_effect env psv t p tt tps skill st) (skill_effect env psv' t p tt tps skill st)"
  unfolding skill_effect_def Let_def by (intro belows)

lemma one_passive_skill_effect_below [belows]: "below (one_passive_skill_effect env psv e skill self tt tps st) (one_passive_skill_effect env psv' e skill self tt tps st)"
  unfolding one_passive_skill_effect_def Let_def by (intro belows)

lemma one_passive_below [belows]: "below (one_passive env psv e user tt tps i r) (one_passive env psv' e user tt tps i r)"
  unfolding one_passive_def Let_def by (intro belows)

lemma passive_skill_effect_below [belows]: "below (passive_skill_effect env psv e user tt tps st) (passive_skill_effect env psv' e user tt tps st)"
  unfolding passive_skill_effect_def Let_def by (intro belows)

lemma passive_with_self_pos_below [belows]: "below (passive_with_self_pos env psv e t p tt tps st) (passive_with_self_pos env psv' e t p tt tps st)"
  unfolding passive_with_self_pos_def Let_def by (intro belows)

lemma UseSkillOnce_below [belows]: "below (UseSkillOnce env psv t i tt ts st) (UseSkillOnce env psv' t i tt ts st)"
  unfolding UseSkillOnce_def Let_def by (intro belows)

lemma buff_damage_below [belows]: "below (buff_damage env psv owner bf st) (buff_damage env psv' owner bf st)"
  unfolding buff_damage_def Let_def by (intro belows)

lemma buff_round_end_below [belows]: "below (buff_round_end env psv owner i bf st) (buff_round_end env psv' owner i bf st)"
  unfolding buff_round_end_def Let_def by (intro belows)

lemma delay_loop_below [belows]: "below (delay_loop env psv k i st) (delay_loop env psv' (k + d) i st)"
proof (induction k arbitrary: i st)
  case (Suc k)
  then show ?case unfolding add_Suc delay_loop.simps Let_def by (intro belows)
qed simp

lemma buffs_round_end_below [belows]: "below (buffs_round_end env psv owner i k cur st) (buffs_round_end env psv' owner i (k + d) cur st)"
proof (induction k arbitrary: cur st)
  case (Suc k)
  then show ?case unfolding add_Suc buffs_round_end.simps by (intro belows)
qed simp

end

lemma passive_fx_at_most: "at_most (passive_fx env n) (passive_fx env (n + k))"
proof (induction n)
  case (Suc n)
  then show ?case by (simp add: at_most_def more_fuel.passive_with_self_pos_below more_fuel_def)
qed (simp add: at_most_def)

interpretation fuel: more_fuel "passive_fx env n" "passive_fx env (n + d)" for env n d
  by unfold_locales (rule passive_fx_at_most)

section \<open>The rounds\<close>

lemma DelaySkillEffect_below [belows]: "below (DelaySkillEffect env n st) (DelaySkillEffect env (n + d) st)"
  unfolding DelaySkillEffect_def by (rule fuel.delay_loop_below)

lemmas [belows] = fuel.UseSkillOnce_below fuel.buffs_round_end_below call_below [OF passive_fx_at_most] call_if_below [OF passive_fx_at_most]

lemma use_skills_below [belows]: "below (use_skills env n t i tt st) (use_skills env (n + d) t i tt st)"
  unfolding use_skills_def by (intro belows)

lemma turn_loop_below [belows]: "below (turn_loop env n k a t i tt st) (turn_loop env (n + d) (k + d) a t i tt st)"
proof (induction k arbitrary: st)
  case (Suc k)
  then show ?case unfolding add_Suc turn_loop.simps Let_def by (intro belows)
qed simp

lemma UseSkill_below [belows]: "below (UseSkill env n t i tt st) (UseSkill env (n + d) t i tt st)"
  unfolding UseSkill_def by (intro belows)

lemma artifact_round_below [belows]:
  "below (CheckAndUseArtifactEveryRound env n t tt st) (CheckAndUseArtifactEveryRound env (n + d) t tt st)"
  unfolding CheckAndUseArtifactEveryRound_def by (intro belows)

lemma act_from_below [belows]: "below (act_from env n t tt k st) (act_from env (n + d) t tt k st)"
proof (induction k arbitrary: st)
  case (Suc k)
  then show ?case unfolding act_from.simps Let_def by (intro belows)
qed simp

lemma fight_pair_below [belows]: "below (fight_pair env n t tt i j st) (fight_pair env (n + d) t tt i j st)"
  unfolding fight_pair_def by (intro belows)

lemma pair_loop_below [belows]: "below (pair_loop env n k i j st) (pair_loop env (n + d) k i j st)"
proof (induction k arbitrary: i j st)
  case (Suc k)
  then show ?case unfolding pair_loop.simps by (intro belows)
qed simp

lemma on_round_end_below [belows]: "below (on_round_end env n owner i st) (on_round_end env (n + d) owner i st)"
  unfolding on_round_end_def by (intro belows)

lemma member_round_end_below [belows]: "below (member_round_end env n a st) (member_round_end env (n + d) a st)"
  unfolding member_round_end_def by (intro belows)

lemma RoundEnd_below [belows]: "below (RoundEnd env n t st) (RoundEnd env (n + d) t st)"
  unfolding RoundEnd_def each_member_def by (intro belows)

lemma both_passives_below [belows]: "below (both_passives env n e p st) (both_passives env (n + d) e p st)"
  unfolding both_passives_def by (intro belows)

lemma DoRound_below [belows]: "below (DoRound env n st) (DoRound env (n + d) st)"
  unfolding DoRound_def Let_def by (intro belows)

lemma round_loop_below [belows]: "below (round_loop env n k st) (round_loop env (n + d) k st)"
proof (induction k arbitrary: st)
  case (Suc k)
  then show ?case unfolding round_loop.simps by (intro belows)
qed simp

lemma Fight_below: "below (Fight env n sweep et ep st) (Fight env (n + d) sweep et ep st)"
  unfolding Fight_def Let_def by (intro belows)

end
