(* ===== verification/Battle_Members.thy ===== *)
theory Battle_Members
  imports Battle_State
begin

text \<open>
  What every member of a battle satisfies at every moment: 40 attributes, eight buff lists whose buffs are
  distinct and known, consistent passive skills, and an attacker that exists. The lemmas show that the
  operations on one member keep this, as well as the member's place.
\<close>

section \<open>Partial correctness\<close>

definition post :: "('a \<Rightarrow> bool) \<Rightarrow> 'a option \<Rightarrow> bool" where
  "post P x \<longleftrightarrow> (\<forall>y. x = Some y \<longrightarrow> P y)"

lemma post_simps [simp]: "post P None" "post P (Some y) = P y" "post (\<lambda>_. True) x"
  by (simp_all add: post_def)

lemma postD: "post P x \<Longrightarrow> x = Some y \<Longrightarrow> P y"
  by (simp add: post_def)

lemma post_bind: "post R x \<Longrightarrow> (\<And>y. R y \<Longrightarrow> post P (f y)) \<Longrightarrow> post P (Option.bind x f)"
  by (auto simp: post_def split: Option.bind_splits)

lemma post_bind_eq: "(\<And>y. x = Some y \<Longrightarrow> post P (f y)) \<Longrightarrow> post P (Option.bind x f)"
  by (auto simp: post_def split: Option.bind_splits)

lemma post_mono: "post R x \<Longrightarrow> (\<And>y. R y \<Longrightarrow> P y) \<Longrightarrow> post P x"
  by (simp add: post_def)

lemma post_for_each:
  "Q s \<Longrightarrow> (\<And>x s. x \<in> set xs \<Longrightarrow> Q s \<Longrightarrow> post Q (f x s)) \<Longrightarrow> post Q (for_each f xs s)"
proof (induction xs arbitrary: s)
  case (Cons x xs)
  have "post Q (f x s)" using Cons.prems by simp
  then show ?case unfolding for_each.simps by (rule post_bind) (use Cons in auto)
qed simp

section \<open>Members\<close>

definition lists_ok :: "nat set \<Rightarrow> nat \<Rightarrow> Buff list list \<Rightarrow> bool" where
  "lists_ok D n ls \<longleftrightarrow> length ls = 8
     \<and> (\<forall>bs \<in> set ls. distinct (map bf_addr bs) \<and> (\<forall>b \<in> set bs. bf_addr b < n \<and> bf_attacker b \<in> D))"

definition pool_ok :: "skill_table \<Rightarrow> nat set \<Rightarrow> nat \<Rightarrow> TeamMember \<Rightarrow> bool" where
  "pool_ok tbl D n m \<longleftrightarrow> passive_inv tbl m
     \<and> (\<forall>ls. bufflist_arr m = Some ls \<longrightarrow> lists_ok D n ls) \<and> (\<forall>a. attacker m = Some a \<longrightarrow> a \<in> D)"

definition member_ok :: "skill_table \<Rightarrow> nat set \<Rightarrow> nat \<Rightarrow> TeamMember \<Rightarrow> bool" where
  "member_ok tbl D n m \<longleftrightarrow> length (attrs m) = ATTR_COUNT_MAX \<and> pool_ok tbl D n m"

text \<open>Its position and team do not change, and its buff lists, once made, stay.\<close>

definition same_place :: "TeamMember \<Rightarrow> TeamMember \<Rightarrow> bool" where
  "same_place m m' \<longleftrightarrow> tm_pos m' = tm_pos m \<and> tm_side m' = tm_side m \<and> (bufflist_arr m \<noteq> None \<longrightarrow> bufflist_arr m' \<noteq> None)"

definition mstep :: "skill_table \<Rightarrow> nat set \<Rightarrow> nat \<Rightarrow> TeamMember \<Rightarrow> TeamMember \<Rightarrow> bool" where
  "mstep tbl D n m m' \<longleftrightarrow> same_place m m' \<and> (member_ok tbl D n m \<longrightarrow> member_ok tbl D n m')"

lemma same_place_trans: "same_place a b \<Longrightarrow> same_place b c \<Longrightarrow> same_place a c"
  by (simp add: same_place_def)

lemma mstep_refl [simp]: "mstep tbl D n m m"
  by (simp add: mstep_def same_place_def)

lemma mstep_trans: "mstep tbl D n a b \<Longrightarrow> mstep tbl D n b c \<Longrightarrow> mstep tbl D n a c"
  by (auto simp: mstep_def same_place_def)

lemma lists_ok_mono: "lists_ok D n ls \<Longrightarrow> D \<subseteq> D' \<Longrightarrow> n \<le> n' \<Longrightarrow> lists_ok D' n' ls"
  by (auto simp: lists_ok_def) (meson order_less_le_trans)

lemma pool_ok_mono: "pool_ok tbl D n m \<Longrightarrow> D \<subseteq> D' \<Longrightarrow> n \<le> n' \<Longrightarrow> pool_ok tbl D' n' m"
  by (auto simp: pool_ok_def intro: lists_ok_mono)

lemma member_ok_mono: "member_ok tbl D n m \<Longrightarrow> D \<subseteq> D' \<Longrightarrow> n \<le> n' \<Longrightarrow> member_ok tbl D' n' m"
  by (auto simp: member_ok_def intro: pool_ok_mono)

text \<open>Most operations change other fields only.\<close>

definition framed :: "TeamMember \<Rightarrow> TeamMember \<Rightarrow> bool" where
  "framed m m' \<longleftrightarrow> same_place m m' \<and> length (attrs m') = length (attrs m) \<and> passive_skills m' = passive_skills m
     \<and> passive_trigger_lists m' = passive_trigger_lists m \<and> bufflist_arr m' = bufflist_arr m \<and> attacker m' = attacker m"

lemma framed_step: "framed m m' \<Longrightarrow> mstep tbl D n m m'"
  using passive_inv_cong [of m' m tbl] by (simp add: framed_def mstep_def member_ok_def pool_ok_def)

lemma framed_trans: "framed a b \<Longrightarrow> framed b c \<Longrightarrow> framed a c"
  by (simp add: framed_def same_place_def)

lemma framed_refl [simp]: "framed m m"
  by (simp add: framed_def same_place_def)

lemma framed_update [simp]:
  "framed m (y\<lparr>temp_changed_attrs_used := u\<rparr>) = framed m y" "framed m (y\<lparr>temp_changed_attrs := c\<rparr>) = framed m y"
  "framed m (y\<lparr>energy := e\<rparr>) = framed m y" "framed m (y\<lparr>act_num := k\<rparr>) = framed m y"
  "framed m (y\<lparr>temp_normal_skill := k\<rparr>) = framed m y" "framed m (y\<lparr>temp_super_skill := k\<rparr>) = framed m y"
  "framed m (y\<lparr>use_temp_skill := b\<rparr>) = framed m y" "framed m (y\<lparr>hp := k\<rparr>) = framed m y"
  "framed m (y\<lparr>tm_attack := k\<rparr>) = framed m y" "framed m (y\<lparr>is_slave := b\<rparr>) = framed m y"
  "framed m (y\<lparr>attacker_skill_data := d\<rparr>) = framed m y" "framed m (set_attr a v y) = framed m y"
  by (simp_all add: framed_def same_place_def)

lemma framed_add_hp [simp]: "framed m (add_hp h m)"
  by (simp add: framed_def same_place_def add_hp_def Let_def)

lemma framed_add_attr: "post (framed m) (add_attr a v m)"
  by (auto simp: post_def framed_def same_place_def add_attr_def add_hp_def add_max_hp_def Let_def split: if_splits)

lemma framed_add_attrs: "post (framed m) (add_attrs as m)"
proof (induction as m rule: add_attrs.induct)
  case (1 a v rest m)
  then show ?case unfolding add_attrs.simps
    by (intro post_bind_eq) (metis framed_add_attr framed_trans post_def)
qed simp_all

lemma framed_calc [simp]: "framed m (calculate_hp_attack_defense m)"
  by (simp add: framed_def same_place_def calculate_hp_attack_defense_def calculate_max_hp_def calculate_attack_def
    calculate_defense_def Let_def)

lemma framed_energy [simp]:
  "framed m (act_done m)" "framed m (used_skill cfg s m)"
  by (simp_all add: act_done_def used_skill_def Let_def)

lemma framed_temp: "post (framed m) (skill_effect_temp_attrs eff m)"
proof -
  have t: "post (framed m) (temp_attrs as m)" for as
  proof (induction as m rule: temp_attrs.induct)
    case (1 a v rest m)
    show ?case unfolding temp_attrs.simps
    proof (rule post_bind_eq)
      fix m1 assume m1: "add_attr a v m = Some m1"
      have "framed m (m1\<lparr>temp_changed_attrs := add_temp a v (temp_changed_attrs m1)\<rparr>)"
        using postD [OF framed_add_attr m1] by simp
      then show "post (framed m) (temp_attrs rest (m1\<lparr>temp_changed_attrs := add_temp a v (temp_changed_attrs m1)\<rparr>))"
        using 1 [OF m1] framed_trans post_mono by blast
    qed
  qed simp_all
  show ?thesis unfolding skill_effect_temp_attrs_def
    by (auto intro!: post_bind [OF t])
qed

lemma framed_temp_used [simp]: "framed m (skill_effect_temp_attrs_used m)"
  by (simp add: skill_effect_temp_attrs_used_def framed_def same_place_def)

lemma framed_clear_temp: "post (framed m) (skill_effect_clear_temp_attrs m)"
proof -
  have t: "post (framed m) (take_temp ts m)" for ts
  proof (induction ts m rule: take_temp.induct)
    case (2 a v ts m)
    show ?case unfolding take_temp.simps
    proof (rule post_bind_eq)
      fix m1 assume m1: "add_attr a (i32 (- v)) m = Some m1"
      show "post (framed m) (take_temp ts m1)"
        using 2 [OF m1] postD [OF framed_add_attr m1] framed_trans post_mono by blast
    qed
  qed simp
  show ?thesis unfolding skill_effect_clear_temp_attrs_def
    by (auto intro!: post_bind [OF t])
qed

section \<open>Passive skills\<close>

lemma member_ok_passive:
  "passive_inv tbl m' \<Longrightarrow> length (attrs m') = length (attrs m) \<Longrightarrow> bufflist_arr m' = bufflist_arr m
    \<Longrightarrow> attacker m' = attacker m \<Longrightarrow> member_ok tbl D n m \<Longrightarrow> member_ok tbl D n m'"
  by (simp add: member_ok_def pool_ok_def)

text \<open>The operations on passive skills leave everything else.\<close>

definition but_passive :: "TeamMember \<Rightarrow> TeamMember \<Rightarrow> bool" where
  "but_passive m m' \<longleftrightarrow> same_place m m' \<and> attrs m' = attrs m \<and> bufflist_arr m' = bufflist_arr m \<and> attacker m' = attacker m"

lemma but_passive_ops:
  "but_passive m (snd (add_passive_trigger tbl i m))" "but_passive m (snd (delete_passive_trigger tbl i m))"
  "but_passive m (used_passive_trigger_count e i m)" "but_passive m (round_start m)"
  by (auto simp: but_passive_def same_place_def add_passive_trigger_def delete_passive_trigger_def
    used_passive_trigger_count_def round_start_def init_passive_round_num_def Let_def split: option.splits prod.splits)

lemma mstep_but_passive:
  "but_passive m m' \<Longrightarrow> (passive_inv tbl m \<Longrightarrow> passive_inv tbl m') \<Longrightarrow> mstep tbl D n m m'"
  by (simp add: mstep_def but_passive_def member_ok_def pool_ok_def)

lemma mstep_passive:
  "table_ok tbl \<Longrightarrow> mstep tbl D n m (snd (add_passive_trigger tbl i m))"
  "table_ok tbl \<Longrightarrow> mstep tbl D n m (snd (delete_passive_trigger tbl i m))"
  "mstep tbl D n m (used_passive_trigger_count e i m)" "mstep tbl D n m (round_start m)"
  by (auto intro!: mstep_but_passive but_passive_ops add_passive_trigger_inv delete_passive_trigger_inv used_inv round_start_inv)

lemma post_framed_step: "post (framed m) x \<Longrightarrow> post (mstep tbl D n m) x"
  by (simp add: post_def framed_step)

section \<open>Buffs\<close>

lemma mstep_effect:
  assumes "table_ok tbl"
  shows "post (mstep tbl D n m) (add_buff_effect tbl b eff m)" "post (mstep tbl D n m) (remove_buff_effect tbl b m)"
  using assms
  by (auto simp: add_buff_effect_def remove_buff_effect_def mstep_passive post_framed_step framed_add_attr split: list.splits)

lemma mstep_set_list:
  assumes "i < length (the_lists m)"
    and "lists_ok D n (the_lists m) \<Longrightarrow> distinct (map bf_addr bs) \<and> (\<forall>b \<in> set bs. bf_addr b < n' \<and> bf_attacker b \<in> D)"
    and "member_ok tbl D n m" "n \<le> n'"
  shows "member_ok tbl D n' (set_list i bs m)"
proof -
  obtain ls where ls: "bufflist_arr m = Some ls" "the_lists m = ls"
    using assms(1) by (auto simp: the_lists_def split: option.splits)
  have ok: "lists_ok D n ls" using assms(3) ls by (simp add: member_ok_def pool_ok_def)
  moreover from this have "lists_ok D n' ls" by (rule lists_ok_mono) (simp_all add: assms(4))
  ultimately have "lists_ok D n' (ls[i := bs])"
    using assms(2) ls(2) unfolding lists_ok_def by (auto dest!: subsetD [OF set_update_subset_insert])
  moreover have "passive_inv tbl (set_list i bs m) = passive_inv tbl m"
    by (rule passive_inv_cong) (simp_all add: set_list_def)
  ultimately show ?thesis using assms(3) ls
    by (simp add: member_ok_def pool_ok_def set_list_def the_lists_def)
qed

lemma same_set_list [simp]: "same_place m (set_list i bs m)"
  by (simp add: same_place_def set_list_def)

lemma mstep_remove_buff:
  assumes "table_ok tbl" "i < length (the_lists m)"
  shows "post (\<lambda>r. mstep tbl D n m (snd r)) (remove_buff tbl i b m)"
proof -
  let ?m = "set_list i (filter (\<lambda>hh. bf_addr hh \<noteq> bf_addr b) (the_lists m ! i)) m"
  have "member_ok tbl D n ?m" if ok: "member_ok tbl D n m"
  proof (rule mstep_set_list [OF assms(2) _ ok])
    assume "lists_ok D n (the_lists m)"
    then show "distinct (map bf_addr (filter (\<lambda>hh. bf_addr hh \<noteq> bf_addr b) (the_lists m ! i)))
        \<and> (\<forall>b \<in> set (filter (\<lambda>hh. bf_addr hh \<noteq> bf_addr b) (the_lists m ! i)). bf_addr b < n \<and> bf_attacker b \<in> D)"
      using nth_mem [OF assms(2)] by (simp add: lists_ok_def distinct_map_filter)
  qed simp
  then have s: "mstep tbl D n m ?m" by (simp add: mstep_def)
  show ?thesis unfolding remove_buff_def Let_def
    by (auto intro!: post_bind [OF mstep_effect(2) [OF assms(1)]] mstep_trans [OF s])
qed

lemma mstep_cost_resist:
  assumes "table_ok tbl" "i < length (the_lists m)"
  shows "post (mstep tbl D n m) (cost_resist_num tbl i b m)"
proof -
  define g where "g = (\<lambda>x :: Buff. if bf_addr x = bf_addr b then x\<lparr>bf_resist_num := bf_resist_num x - 1\<rparr> else x)"
  have g: "bf_addr (g x) = bf_addr x" "bf_attacker (g x) = bf_attacker x" for x by (simp_all add: g_def)
  have "member_ok tbl D n (set_list i (map g (the_lists m ! i)) m)" if ok: "member_ok tbl D n m"
  proof (rule mstep_set_list [OF assms(2) _ ok])
    assume "lists_ok D n (the_lists m)"
    then show "distinct (map bf_addr (map g (the_lists m ! i)))
        \<and> (\<forall>b \<in> set (map g (the_lists m ! i)). bf_addr b < n \<and> bf_attacker b \<in> D)"
      using nth_mem [OF assms(2)] by (simp add: lists_ok_def g comp_def)
  qed simp
  then have s: "mstep tbl D n m (set_list i (map g (the_lists m ! i)) m)" by (simp add: mstep_def)
  show ?thesis using s unfolding cost_resist_num_def g_def
    by (auto intro!: post_bind [OF mstep_remove_buff [OF assms]])
qed

lemma mstep_mutex_loop:
  assumes "table_ok tbl" "i < length (the_lists m)"
  shows "post (\<lambda>r. mstep tbl D n m (snd r)) (check_mutex_loop tbl i b bs m)"
  using assms(2)
proof (induction bs arbitrary: m)
  case (Cons hh rest)
  show ?case
  proof (cases "resists (bf_buff hh) b \<or> \<not> dispels b (bf_buff hh)")
    case True
    then show ?thesis using Cons by (auto intro!: post_bind [OF mstep_cost_resist [OF assms(1) Cons.prems]])
  next
    case False
    have "post (\<lambda>r. mstep tbl D n m (snd r)) (do { (_, m) \<leftarrow> remove_buff tbl i hh m; check_mutex_loop tbl i b rest m })"
    proof (rule post_bind_eq, clarsimp)
      fix x m1 assume r: "remove_buff tbl i hh m = Some (x, m1)"
      have "i < length (the_lists m1)" using remove_buff_le [OF r Cons.prems] Cons.prems by (simp add: addrs_le_def)
      then have "post (\<lambda>r. mstep tbl D n m1 (snd r)) (check_mutex_loop tbl i b rest m1)" by (rule Cons.IH)
      moreover have "mstep tbl D n m m1" using postD [OF mstep_remove_buff [OF assms(1) Cons.prems] r] by simp
      ultimately show "post (\<lambda>r. mstep tbl D n m (snd r)) (check_mutex_loop tbl i b rest m1)"
        by (auto intro: post_mono mstep_trans)
    qed
    then show ?thesis using False by simp
  qed
qed simp

lemma mstep_all_mutex:
  assumes "table_ok tbl" "\<forall>i \<in> set is. i < length (the_lists m)"
  shows "post (\<lambda>r. mstep tbl D n m (snd r) \<and> length (the_lists (snd r)) = length (the_lists m)) (check_all_mutex tbl b is m)"
  using assms(2)
proof (induction "is" arbitrary: m)
  case (Cons i "is")
  have i: "i < length (the_lists m)" using Cons.prems by simp
  show ?case unfolding check_all_mutex.simps check_buff_mutex_def
  proof (rule post_bind_eq, clarify)
    fix hit m1 assume r: "check_mutex_loop tbl i b (the_lists m ! i) m = Some (hit, m1)"
    have l: "length (the_lists m1) = length (the_lists m)" using mutex_loop_le [OF r i] by (simp add: addrs_le_def)
    have s: "mstep tbl D n m m1" using postD [OF mstep_mutex_loop [OF assms(1) i] r] by simp
    have "post (\<lambda>r. mstep tbl D n m1 (snd r) \<and> length (the_lists (snd r)) = length (the_lists m1)) (check_all_mutex tbl b is m1)"
      using Cons.prems l by (intro Cons.IH) simp
    then have "post (\<lambda>r. mstep tbl D n m (snd r) \<and> length (the_lists (snd r)) = length (the_lists m)) (check_all_mutex tbl b is m1)"
      by (rule post_mono) (use l mstep_trans [OF s] in auto)
    then show "post (\<lambda>r. mstep tbl D n m (snd r) \<and> length (the_lists (snd r)) = length (the_lists m))
        (if hit then Some (True, m1) else check_all_mutex tbl b is m1)" using s l by simp
  qed
qed simp

lemma mstep_add_buff:
  assumes "table_ok tbl" "att \<in> D"
  shows "post (\<lambda>(x, m', rs'). same_place m m' \<and> (member_ok tbl D n m \<longrightarrow> member_ok tbl D (Suc n) m'))
    (skill_effect_add_buff tbl btbl n att attm eff m rs)"
proof -
  define P where "P = (\<lambda>m m'. same_place m m' \<and> (member_ok tbl D n m \<longrightarrow> member_ok tbl D (Suc n) m'))"
  have weak: "P m m'" if "mstep tbl D n m m'" for m m'
    using that member_ok_mono [of tbl D n m' D "Suc n"] by (simp add: mstep_def P_def)
  have trans: "mstep tbl D n a b \<Longrightarrow> P b c \<Longrightarrow> P a c" for a b c by (auto simp: mstep_def same_place_def P_def)
  have list: "post (\<lambda>r. P m (snd r)) (list_add_buff tbl i n att attm b eff m)" if i: "i < length (the_lists m)" for m i b
  proof (cases "has_addr n (the_lists m ! i)")
    case False
    define a where "a = (case attm of None \<Rightarrow> m | Some a \<Rightarrow> a)"
    define buff where "buff = \<lparr>bf_addr = n, bf_buff = b, bf_attacker = att, bf_attack = attr_of a ATTR_ATTACK,
      bf_dmg_add = attr_of a ATTR_TOTAL_DAMAGE_ADD, bf_param = eff ! 3, bf_round_num = eff ! 4, bf_resist_num = ResistCountMax b\<rparr>"
    let ?m = "set_list i (the_lists m ! i @ [buff]) m"
    have ok: "member_ok tbl D (Suc n) ?m" if "member_ok tbl D n m"
    proof (rule mstep_set_list [OF i _ that])
      assume "lists_ok D n (the_lists m)"
      then show "distinct (map bf_addr (the_lists m ! i @ [buff])) \<and> (\<forall>b \<in> set (the_lists m ! i @ [buff]). bf_addr b < Suc n \<and> bf_attacker b \<in> D)"
        using nth_mem [OF i] assms(2) by (auto simp: lists_ok_def buff_def less_Suc_eq)
    qed simp
    have "post (mstep tbl D (Suc n) ?m) (add_buff_effect tbl buff eff ?m)" by (rule mstep_effect(1) [OF assms(1)])
    then have "post (\<lambda>m'. P m m') (add_buff_effect tbl buff eff ?m)"
      by (rule post_mono) (use ok in \<open>auto simp: mstep_def same_place_def set_list_def P_def\<close>)
    then show ?thesis using False
      by (auto simp: list_add_buff_def Let_def buff_def a_def intro!: post_bind)
  qed (use weak [of m m] in \<open>simp add: list_add_buff_def\<close>)
  have add: "post (\<lambda>(x, m', rs'). P m m') (add_buff tbl btbl n att attm eff m rs)"
  proof -
    define m0 where "m0 = (if bufflist_arr m = None then m\<lparr>bufflist_arr := Some (replicate BUFF_EFFECT_TYPE_COUNT [])\<rparr> else m)"
    have "passive_inv tbl m0 = passive_inv tbl m" by (rule passive_inv_cong) (simp_all add: m0_def)
    then have s0: "mstep tbl D n m m0"
      by (auto simp: m0_def mstep_def same_place_def member_ok_def pool_ok_def lists_ok_def)
    define rest where "rest = (\<lambda>b (hit, m).
       (if hit then Some (0, m, rs)
        else let (r, rs) = Int31n 10000 rs in
          if r \<ge> eff ! 2 then Some (0, m, rs)
          else (case status_Effect b of [] \<Rightarrow> None
            | ty # _ \<Rightarrow>
                if ty < 0 \<or> int (length (the_lists m)) \<le> ty then None
                else do {
                  (buff_id, m) \<leftarrow> list_add_buff tbl (nat ty) n att attm b eff m;
                  Some (buff_id, m, rs) })))"
    have tail: "post (\<lambda>(x, m', rs'). P m m') (rest b (hit, m1))" if "mstep tbl D n m0 m1" for b hit m1
    proof -
      have s: "mstep tbl D n m m1" by (rule mstep_trans [OF s0 that])
      have l: "post (\<lambda>(x, m', rs'). P m m') (do { (buff_id, m) \<leftarrow> list_add_buff tbl i n att attm b eff m1; Some (buff_id, m, rs) })"
        if "i < length (the_lists m1)" for i rs
        by (rule post_bind [OF list [OF that]]) (use trans [OF s] in auto)
      show ?thesis using weak [OF s]
        by (cases "Int31n 10000 rs") (auto simp: rest_def split: list.splits intro!: l)
    qed
    have "post (\<lambda>(x, m', rs'). P m m') (Option.bind (check_all_mutex tbl b [0..<length (the_lists m0)] m0) (rest b))" for b
      by (rule post_bind [OF mstep_all_mutex [OF assms(1), of _ _ D n]]) (auto intro: tail)
    moreover have "add_buff tbl btbl n att attm eff m rs = (if length eff \<le> 2 then None
        else case btbl (eff ! 1) of None \<Rightarrow> Some (0, m, rs)
          | Some b \<Rightarrow> Option.bind (check_all_mutex tbl b [0..<length (the_lists m0)] m0) (rest b))"
      unfolding add_buff_def rest_def m0_def Let_def ..
    ultimately show ?thesis using weak [of m m] by (simp split: option.splits)
  qed
  then show ?thesis using weak [of m m] unfolding P_def by (simp add: skill_effect_add_buff_def)
qed

section \<open>Creating a member\<close>

lemma framed_add_skill_attr: "post (framed m) (add_skill_attr tbl i m)"
  by (simp add: add_skill_attr_def framed_add_attrs split: option.splits)

lemma framed_add_skill_attrs: "post (framed m) (add_skill_attrs tbl is m)"
proof (induction "is" arbitrary: m)
  case (Cons i "is")
  show ?case unfolding add_skill_attrs.simps
    by (rule post_bind [OF framed_add_skill_attr], rule post_mono [OF Cons.IH]) (rule framed_trans)
qed simp

lemma mstep_add_passive_skill:
  "table_ok tbl \<Longrightarrow> post (mstep tbl D n m) (add_passive_skill tbl i m)"
  unfolding add_passive_skill_def
  by (rule post_mono [OF framed_add_skill_attr]) (meson framed_step mstep_passive(1) mstep_trans)

lemma mstep_init_passive_data: "table_ok tbl \<Longrightarrow> mstep tbl D n m (init_passive_data tbl is m)"
proof (induction "is" arbitrary: m)
  case (Cons i "is")
  show ?case using mstep_trans [OF mstep_passive(1) Cons.IH] Cons.prems by (simp add: init_passive_data_def)
qed (simp add: init_passive_data_def)

text \<open>A member from the pool has no passive skills.\<close>

lemma init_attrs_equips_skills_ok:
  assumes "table_ok tbl" "pool_ok tbl D n m" "passive_skills m = []"
  shows "post (\<lambda>m'. same_place m m' \<and> member_ok tbl D n m') (init_attrs_equips_skills tbl items level role_card [] [] m)"
proof -
  let ?m = "m\<lparr>attrs := replicate ATTR_COUNT_MAX 0, passive_skills := [], tm_level := level, tm_card := role_card\<rparr>"
  have "passive_inv tbl ?m = passive_inv tbl m" using assms(3) by (intro passive_inv_cong) simp_all
  then have "member_ok tbl D n ?m" using assms(2) by (simp add: member_ok_def pool_ok_def)
  moreover have "same_place m ?m" by (simp add: same_place_def)
  moreover have "mstep tbl D n ?m (init_passive_data tbl is m1)" if "framed ?m m1" for m1 "is"
    by (rule mstep_trans [OF framed_step [OF that] mstep_init_passive_data [OF assms(1)]])
  ultimately show ?thesis unfolding init_attrs_equips_skills_def Let_def
    by (intro post_bind [OF framed_add_skill_attrs]) (simp add: mstep_def same_place_def)
qed

end
