(* ===== verification/Battle_Inv.thy ===== *)
theory Battle_Inv
  imports Battle_Members Battle_Round
begin

text \<open>
  The state of a battle stays well formed: both teams have nine slots, the member in a slot exists, knows its
  team and its position, every member satisfies \<open>member_ok\<close>, and all pointers (attackers of members and
  buffs, users of delayed skills) lead to members. The locale \<open>passive_caller\<close> is the contract between the
  effects of a skill and the passive skills they trigger; \<open>passive_fx\<close> meets it.
\<close>

section \<open>The invariant\<close>

abbreviation mem_ok :: "battle_env \<Rightarrow> battle \<Rightarrow> TeamMember \<Rightarrow> bool" where
  "mem_ok env st \<equiv> member_ok (env_skills env) (dom (bs_mem st)) (bs_next st)"

definition team_ok :: "battle \<Rightarrow> nat \<Rightarrow> bool" where
  "team_ok st t \<longleftrightarrow> length (bt_members (bs_team st t)) = BATTLE_TEAM_MEMBER_MAX_NUM
     \<and> (\<forall>p < BATTLE_TEAM_MEMBER_MAX_NUM. \<forall>a. bt_members (bs_team st t) ! p = Some a \<longrightarrow>
          (\<exists>m. bs_mem st a = Some m \<and> tm_pos m = int p \<and> tm_side m = t))
     \<and> (\<forall>a. bt_artifact (bs_team st t) = Some a \<longrightarrow> (\<exists>m. bs_mem st a = Some m \<and> tm_pos m < 0 \<and> tm_side m = t))"

definition good :: "battle_env \<Rightarrow> battle \<Rightarrow> bool" where
  "good env st \<longleftrightarrow> (\<forall>t. team_ok st t)
     \<and> (\<forall>a m. bs_mem st a = Some m \<longrightarrow> a < bs_next st \<and> mem_ok env st m)
     \<and> (\<forall>m \<in> set (bs_pool st). pool_ok (env_skills env) (dom (bs_mem st)) (bs_next st) m \<and> passive_skills m = [])
     \<and> (\<forall>d \<in> set (bs_delay st). ds_user d \<in> dom (bs_mem st))"

lemma goodI:
  assumes "\<And>t. team_ok st t" and "\<And>a m. bs_mem st a = Some m \<Longrightarrow> a < bs_next st \<and> mem_ok env st m"
    and "\<And>m. m \<in> set (bs_pool st) \<Longrightarrow> pool_ok (env_skills env) (dom (bs_mem st)) (bs_next st) m \<and> passive_skills m = []"
    and "\<And>d. d \<in> set (bs_delay st) \<Longrightarrow> ds_user d \<in> dom (bs_mem st)"
  shows "good env st"
  using assms by (simp add: good_def)

text \<open>What a member is called may change, its place does not; no member disappears.\<close>

definition evolves :: "battle \<Rightarrow> battle \<Rightarrow> bool" where
  "evolves base st \<longleftrightarrow> (\<forall>a m. bs_mem base a = Some m \<longrightarrow> (\<exists>m'. bs_mem st a = Some m' \<and> same_place m m'))"

definition safe :: "battle_env \<Rightarrow> battle \<Rightarrow> battle \<Rightarrow> bool" where
  "safe env base st \<longleftrightarrow> table_ok (env_skills env) \<and> good env st \<and> evolves base st"

lemma evolves_trans: "evolves a b \<Longrightarrow> evolves b c \<Longrightarrow> evolves a c"
  unfolding evolves_def by (meson same_place_trans)

lemma evolves_refl [simp]: "evolves st st"
  by (simp add: evolves_def same_place_def)

lemma evolves_dom: "evolves a b \<Longrightarrow> x \<in> dom (bs_mem a) \<Longrightarrow> x \<in> dom (bs_mem b)"
  by (auto simp: evolves_def)

lemma safe_trans: "safe env a b \<Longrightarrow> safe env b c \<Longrightarrow> safe env a c"
  unfolding safe_def by (blast intro: evolves_trans)

lemma safe_self: "safe env a b \<Longrightarrow> safe env b b"
  by (simp add: safe_def)

lemma safe_mem: "safe env base st \<Longrightarrow> bs_mem st a = Some m \<Longrightarrow> mem_ok env st m"
  by (simp add: safe_def good_def)

text \<open>Parts of the state the invariant does not look at.\<close>

lemma good_cong:
  assumes "bs_mem st' = bs_mem st" "bs_next st' = bs_next st" "bs_team st' = bs_team st" "bs_pool st' = bs_pool st"
    and "set (bs_delay st') \<subseteq> set (bs_delay st)" "good env st"
  shows "good env st'"
  using assms by (auto simp: good_def team_ok_def)

lemma safe_cong:
  "bs_mem st' = bs_mem st \<Longrightarrow> bs_next st' = bs_next st \<Longrightarrow> bs_team st' = bs_team st \<Longrightarrow> bs_pool st' = bs_pool st
    \<Longrightarrow> set (bs_delay st') \<subseteq> set (bs_delay st) \<Longrightarrow> safe env base st \<Longrightarrow> safe env base st'"
  using good_cong by (auto simp: safe_def evolves_def)

lemma totals_frame [simp]:
  "bs_mem (add_total t p d st) = bs_mem st" "bs_next (add_total t p d st) = bs_next st" "bs_team (add_total t p d st) = bs_team st"
  "bs_pool (add_total t p d st) = bs_pool st" "bs_delay (add_total t p d st) = bs_delay st"
  "bs_mem (buff_total t p d st) = bs_mem st" "bs_next (buff_total t p d st) = bs_next st" "bs_team (buff_total t p d st) = bs_team st"
  "bs_pool (buff_total t p d st) = bs_pool st" "bs_delay (buff_total t p d st) = bs_delay st"
  by (simp_all add: add_total_def buff_total_def)

lemma safe_add_total [simp]: "safe env base st \<Longrightarrow> safe env base (add_total t p d st)"
  by (rule safe_cong [of _ st]) simp_all

lemma safe_buff_total [simp]: "safe env base st \<Longrightarrow> safe env base (buff_total t p d st)"
  by (rule safe_cong [of _ st]) simp_all

lemma safe_record_totals [simp]: "safe env base st \<Longrightarrow> safe env base (record_totals b ss sp d1 ts tp d2 st)"
  by (simp add: record_totals_def)

lemma safe_rand [simp]: "safe env base st \<Longrightarrow> safe env base (st\<lparr>bs_rand := r\<rparr>)"
  by (rule safe_cong [of _ st]) simp_all

lemma safe_round [simp]: "safe env base st \<Longrightarrow> safe env base (st\<lparr>bs_round := k\<rparr>)"
  by (rule safe_cong [of _ st]) simp_all

lemma safe_no_delay [simp]: "safe env base st \<Longrightarrow> safe env base (st\<lparr>bs_delay := []\<rparr>)"
  by (rule safe_cong [of _ st]) simp_all

lemma safe_totals [simp]: "safe env base st \<Longrightarrow> safe env base (st\<lparr>members_damage := f, members_cure := g\<rparr>)"
  by (rule safe_cong [of _ st]) simp_all

section \<open>Changing a member\<close>

lemma team_ok_evolves:
  assumes "team_ok st t" "evolves st st'" "bs_team st' t = bs_team st t"
  shows "team_ok st' t"
proof -
  have "\<exists>m'. bs_mem st' a = Some m' \<and> tm_pos m' = tm_pos m \<and> tm_side m' = tm_side m" if "bs_mem st a = Some m" for a m
    using assms(2) that unfolding evolves_def same_place_def by blast
  then show ?thesis using assms(1,3) unfolding team_ok_def by metis
qed

lemma good_write:
  assumes "good env st" "bs_mem st a = Some m" "same_place m m'" "n = bs_next st \<or> n = Suc (bs_next st)"
    and "member_ok (env_skills env) (dom (bs_mem st)) n m'"
  shows "good env (st\<lparr>bs_mem := (bs_mem st)(a \<mapsto> m'), bs_next := n\<rparr>)"
proof -
  have d: "dom ((bs_mem st)(a \<mapsto> m')) = dom (bs_mem st)" using assms(2) by auto
  have n: "bs_next st \<le> n" using assms(4) by auto
  have "evolves st (st\<lparr>bs_mem := (bs_mem st)(a \<mapsto> m'), bs_next := n\<rparr>)"
    using assms(2,3) by (simp add: evolves_def same_place_def)
  then have "team_ok (st\<lparr>bs_mem := (bs_mem st)(a \<mapsto> m'), bs_next := n\<rparr>) t" for t
    using assms(1) by (rule_tac team_ok_evolves [of st]) (simp_all add: good_def)
  moreover have m: "x < n \<and> member_ok (env_skills env) (dom (bs_mem st)) n mx" if "((bs_mem st)(a \<mapsto> m')) x = Some mx" for x mx
  proof (cases "x = a")
    case True
    then show ?thesis using that assms(1,2,5) n by (auto simp: good_def dest: order_less_le_trans)
  next
    case False
    then have "x < bs_next st \<and> mem_ok env st mx" using that assms(1) by (simp add: good_def)
    then show ?thesis using n member_ok_mono [OF _ subset_refl n] by simp
  qed
  moreover have "pool_ok (env_skills env) (dom (bs_mem st)) n m \<and> passive_skills m = []" if "m \<in> set (bs_pool st)" for m
    using assms(1) that pool_ok_mono [OF _ subset_refl n] by (auto simp: good_def)
  moreover have "ds_user x \<in> dom (bs_mem st)" if "x \<in> set (bs_delay st)" for x
    using assms(1) that by (simp add: good_def)
  ultimately show ?thesis by (intro goodI) (simp_all add: d del: fun_upd_apply dom_fun_upd)
qed

lemma safe_write:
  assumes "safe env base st" "bs_mem st a = Some m" "mstep (env_skills env) (dom (bs_mem st)) (bs_next st) m m'"
  shows "safe env base (st\<lparr>bs_mem := (bs_mem st)(a \<mapsto> m')\<rparr>)"
proof -
  have m: "mem_ok env st m'" "same_place m m'" using assms safe_mem by (auto simp: mstep_def)
  have "good env (st\<lparr>bs_mem := (bs_mem st)(a \<mapsto> m'), bs_next := bs_next st\<rparr>)"
    by (rule good_write) (use assms m in \<open>auto simp: safe_def\<close>)
  moreover have "evolves st (st\<lparr>bs_mem := (bs_mem st)(a \<mapsto> m')\<rparr>)"
    using assms(2) m(2) by (simp add: evolves_def same_place_def)
  ultimately show ?thesis using assms(1) by (auto simp: safe_def intro: evolves_trans)
qed

lemma safe_update:
  assumes "safe env base st" "\<And>m. bs_mem st a = Some m \<Longrightarrow> mstep (env_skills env) (dom (bs_mem st)) (bs_next st) m (f m)"
  shows "post (safe env base) (update a f st)"
  using assms safe_write by (simp add: update_def split: option.splits)

lemma safe_update_opt:
  assumes "safe env base st" "\<And>m. post (mstep (env_skills env) (dom (bs_mem st)) (bs_next st) m) (f m)"
  shows "post (safe env base) (update_opt a f st)"
  unfolding update_opt_def
  by (intro post_bind_eq post_bind [OF assms(2)]) (simp add: safe_write [OF assms(1)])

lemma safe_framed: "safe env base st \<Longrightarrow> (\<And>m. framed m (f m)) \<Longrightarrow> post (safe env base) (update a f st)"
  by (rule safe_update) (simp_all add: framed_step)

lemma safe_framed_opt: "safe env base st \<Longrightarrow> (\<And>m. post (framed m) (f m)) \<Longrightarrow> post (safe env base) (update_opt a f st)"
  by (rule safe_update_opt) (simp_all add: post_framed_step)

lemma safe_write_next:
  assumes "safe env base st" "bs_mem st a = Some m" "same_place m m'"
    and "member_ok (env_skills env) (dom (bs_mem st)) (Suc (bs_next st)) m'"
  shows "safe env base (st\<lparr>bs_mem := (bs_mem st)(a \<mapsto> m'), bs_next := Suc (bs_next st)\<rparr>)"
proof -
  have "good env (st\<lparr>bs_mem := (bs_mem st)(a \<mapsto> m'), bs_next := Suc (bs_next st)\<rparr>)"
    by (rule good_write) (use assms in \<open>auto simp: safe_def\<close>)
  moreover have "evolves st (st\<lparr>bs_mem := (bs_mem st)(a \<mapsto> m'), bs_next := Suc (bs_next st)\<rparr>)"
    using assms(2,3) by (simp add: evolves_def same_place_def)
  ultimately show ?thesis using assms(1) by (auto simp: safe_def intro: evolves_trans)
qed

section \<open>A new member\<close>

lemma update_team_frame [simp]:
  "bs_mem (update_team t f st) = bs_mem st" "bs_next (update_team t f st) = bs_next st" "bs_pool (update_team t f st) = bs_pool st"
  "bs_delay (update_team t f st) = bs_delay st" "bs_team (update_team t f st) = (bs_team st)(t := f (bs_team st t))"
  by (simp_all add: update_team_def)

lemma safe_team:
  assumes "safe env base st" "\<And>t. bt_members (f t) = bt_members t \<and> bt_artifact (f t) = bt_artifact t"
  shows "safe env base (update_team t f st)"
proof -
  have "team_ok (update_team t f st) u" for u
    using assms by (simp add: team_ok_def safe_def good_def)
  then have "good env (update_team t f st)" using assms(1) by (auto simp: safe_def good_def)
  then show ?thesis using assms(1) by (simp add: safe_def evolves_def)
qed

lemma safe_new_member:
  assumes "safe env base st" "0 \<le> p" "p < int BATTLE_TEAM_MEMBER_MAX_NUM" "tm_pos m = p" "tm_side m = t" "mem_ok env st m"
  shows "safe env base ((update_team t (\<lambda>bt. bt\<lparr>bt_members := (bt_members bt)[nat p := Some (bs_next st)]\<rparr>) st)
    \<lparr>bs_mem := (bs_mem st)(bs_next st \<mapsto> m), bs_next := Suc (bs_next st)\<rparr>)"
proof -
  define st' where "st' = (update_team t (\<lambda>bt. bt\<lparr>bt_members := (bt_members bt)[nat p := Some (bs_next st)]\<rparr>) st)
    \<lparr>bs_mem := (bs_mem st)(bs_next st \<mapsto> m), bs_next := Suc (bs_next st)\<rparr>"
  have sel: "bs_mem st' = (bs_mem st)(bs_next st \<mapsto> m)" "bs_next st' = Suc (bs_next st)" "bs_pool st' = bs_pool st"
      "bs_delay st' = bs_delay st" "\<And>u. bs_team st' u = (if u = t then bs_team st t\<lparr>bt_members := (bt_members (bs_team st t))[nat p := Some (bs_next st)]\<rparr> else bs_team st u)"
    by (simp_all add: st'_def)
  have g: "good env st" using assms(1) by (simp add: safe_def)
  have D: "dom (bs_mem st) \<subseteq> dom (bs_mem st')" by (auto simp: sel)
  have n: "bs_next st \<le> bs_next st'" by (simp add: sel)
  have "bs_mem st (bs_next st) = None" using g by (cases "bs_mem st (bs_next st)") (auto simp: good_def)
  then have ev: "evolves st st'" unfolding evolves_def sel by (auto simp: same_place_def)
  have "team_ok st' u" for u
  proof (cases "u = t")
    case False
    then show ?thesis using g ev by (intro team_ok_evolves [of st u st']) (simp_all only: good_def sel if_False)
  next
    case True
    have old: "team_ok (st\<lparr>bs_mem := bs_mem st'\<rparr>) t"
    proof (rule team_ok_evolves)
      show "team_ok st t" using g by (simp only: good_def)
      show "evolves st (st\<lparr>bs_mem := bs_mem st'\<rparr>)" using ev by (simp add: evolves_def)
    qed simp
    show ?thesis unfolding team_ok_def True
    proof (intro conjI allI impI)
      show "length (bt_members (bs_team st' t)) = BATTLE_TEAM_MEMBER_MAX_NUM"
        using old by (simp add: team_ok_def sel)
      fix q a assume q: "q < BATTLE_TEAM_MEMBER_MAX_NUM" and a: "bt_members (bs_team st' t) ! q = Some a"
      show "\<exists>m. bs_mem st' a = Some m \<and> tm_pos m = int q \<and> tm_side m = t"
      proof (cases "q = nat p")
        case True
        then have "a = bs_next st" using a q old by (simp add: team_ok_def sel)
        then show ?thesis using True assms(2,4,5) by (simp add: sel)
      next
        case False
        then have "bt_members (bs_team st t) ! q = Some a" using a by (simp add: sel)
        then show ?thesis using old q by (simp add: team_ok_def)
      qed
    next
      fix a assume "bt_artifact (bs_team st' t) = Some a"
      then show "\<exists>m. bs_mem st' a = Some m \<and> tm_pos m < 0 \<and> tm_side m = t"
        using old by (simp add: team_ok_def sel)
    qed
  qed
  moreover have "a < bs_next st' \<and> mem_ok env st' ma" if "bs_mem st' a = Some ma" for a ma
  proof (cases "a = bs_next st")
    case True
    then show ?thesis using that assms(6) member_ok_mono [OF _ D n] by (simp add: sel(1,2) del: dom_fun_upd)
  next
    case False
    then have "a < bs_next st \<and> mem_ok env st ma" using that g by (simp add: good_def sel(1))
    then show ?thesis using member_ok_mono [OF _ D n] n by (meson order_less_le_trans)
  qed
  moreover have "pool_ok (env_skills env) (dom (bs_mem st')) (bs_next st') x \<and> passive_skills x = []" if "x \<in> set (bs_pool st')" for x
    using g that pool_ok_mono [OF _ D n] by (simp add: good_def sel(3))
  moreover have "ds_user d \<in> dom (bs_mem st')" if "d \<in> set (bs_delay st')" for d
    using g that subsetD [OF D] by (simp only: good_def sel(4))
  ultimately have "good env st'" by (rule goodI)
  then show ?thesis unfolding st'_def [symmetric] using assms(1) ev evolves_trans [of base st st'] by (simp add: safe_def)
qed

lemma safe_take_member:
  assumes "safe env base st" "take_member st = (m, st')"
  shows "safe env base st' \<and> pool_ok (env_skills env) (dom (bs_mem st')) (bs_next st') m \<and> passive_skills m = []
    \<and> bs_mem st' = bs_mem st \<and> bs_next st' = bs_next st \<and> bs_team st' = bs_team st"
proof (cases "bs_pool st")
  case Nil
  then show ?thesis using assms
    by (auto simp: take_member_def blank_member_def pool_ok_def passive_inv_def lists_of_def)
next
  case (Cons x xs)
  then have e: "m = x" "st' = st\<lparr>bs_pool := xs\<rparr>" using assms(2) by (simp_all add: take_member_def)
  have "good env st'" using assms(1) Cons unfolding e by (intro goodI) (auto simp: safe_def good_def team_ok_def)
  then show ?thesis using assms(1) Cons by (simp add: e safe_def good_def evolves_def)
qed

lemma one_talent_step:
  assumes "table_ok tbl"
  shows "post (mstep tbl D n m) (one_talent tbl team rd t m)"
proof -
  have fe: "post (mstep tbl D n x) (for_each (add_passive_skill tbl) is x)" for x "is"
    by (rule post_for_each) (auto intro: post_mono [OF mstep_add_passive_skill [OF assms]] mstep_trans)
  show ?thesis unfolding one_talent_def
    by (auto intro!: post_bind [OF framed_add_attrs] post_mono [OF fe] intro: mstep_trans framed_step)
qed

lemma init_for_summon_ok:
  assumes "table_ok (env_skills env)" "pool_ok (env_skills env) D n m" "passive_skills m = []" "length (attrs user) = ATTR_COUNT_MAX"
  shows "post (\<lambda>m'. tm_pos m' = pos \<and> tm_side m' = team \<and> member_ok (env_skills env) D n m')
    (init_for_summon env user team hpl members rd i level rc pos m)"
proof -
  let ?ok = "\<lambda>m'. tm_pos m' = pos \<and> tm_side m' = team \<and> member_ok (env_skills env) D n m'"
  have step: "mstep (env_skills env) D n a b \<Longrightarrow> ?ok a \<Longrightarrow> ?ok b" for a b by (simp add: mstep_def same_place_def)
  define ok where "ok = ?ok"
  define m1 where "m1 = init_with_team (env_config env) team i pos m
     \<lparr>bufflist_arr := map_option (map (\<lambda>_. [])) (bufflist_arr (init_with_team (env_config env) team i pos m)),
       hp := 0, tm_attack := 0, tm_defense := 0\<rparr>"
  have "passive_inv (env_skills env) m1 = passive_inv (env_skills env) m"
    by (rule passive_inv_cong) (simp_all add: m1_def init_with_team_def)
  then have m1: "pool_ok (env_skills env) D n m1" "passive_skills m1 = []" "tm_pos m1 = pos" "tm_side m1 = team"
    using assms(2,3) by (auto simp: pool_ok_def m1_def init_with_team_def lists_ok_def)
  have sok: "mstep (env_skills env) D n a b \<Longrightarrow> ok a \<Longrightarrow> ok b" for a b by (auto simp: ok_def dest: step)
  have tal: "post ok (add_talent_attr (env_skills env) members rd ts x)" if "ok x" for ts x
    unfolding add_talent_attr_def
    by (rule post_for_each [of ok x, OF that], rule post_mono [OF one_talent_step [OF assms(1)]], erule sok)
  have "post ok (if is_dead m then Some m else add_attrs a m)" if "ok m" for a m
    using that by (auto intro!: post_mono [OF framed_add_attrs] intro: sok framed_step)
  then have art: "post ok (artifact_add_member_attrs as x)" if "ok x" for as x
    unfolding artifact_add_member_attrs_def by (rule post_for_each [of ok x, OF that])
  have "post ok (init_attrs_equips_skills (env_skills env) (\<lambda>_. None) level rc [] [] m1)"
    by (rule post_mono [OF init_attrs_equips_skills_ok [OF assms(1) m1(1,2)]]) (use m1 in \<open>simp add: ok_def same_place_def\<close>)
  then have init: "post ok (init_all_no_calc env team hpl members rd i level rc pos m)"
    unfolding init_all_no_calc_def Let_def m1_def [symmetric]
    by (rule post_bind) (auto intro!: post_bind [OF tal] art)
  have user: "ok (x\<lparr>attrs := attrs user\<rparr>)" if "ok x" for x
  proof -
    have "passive_inv (env_skills env) (x\<lparr>attrs := attrs user\<rparr>) = passive_inv (env_skills env) x"
      by (rule passive_inv_cong) simp_all
    then show ?thesis using that assms(4) by (simp add: ok_def member_ok_def pool_ok_def)
  qed
  have "post ok (init_for_summon env user team hpl members rd i level rc pos m)" unfolding init_for_summon_def
    by (intro post_bind [OF init] post_bind [OF framed_add_skill_attrs])
      (auto intro!: sok [OF framed_step [OF framed_trans [OF _ framed_calc]] user])
  then show ?thesis by (simp only: ok_def)
qed

section \<open>Skills and the passive skills they trigger\<close>

text \<open>Rules for reading the state, and for branches in a sequence; \<open>ops\<close> collects the rules of the operations.\<close>

named_theorems ops

lemma bind_if:
  "(c \<Longrightarrow> post P (Option.bind x k)) \<Longrightarrow> (\<not> c \<Longrightarrow> post P (Option.bind y k)) \<Longrightarrow> post P (Option.bind (if c then x else y) k)"
  by simp

lemma if_intro: "(c \<Longrightarrow> post P x) \<Longrightarrow> (\<not> c \<Longrightarrow> post P y) \<Longrightarrow> post P (if c then x else y)"
  by simp

lemma option_intro: "(x = None \<Longrightarrow> post P y) \<Longrightarrow> (\<And>z. x = Some z \<Longrightarrow> post P (f z)) \<Longrightarrow> post P (case x of None \<Rightarrow> y | Some z \<Rightarrow> f z)"
  by (simp split: option.splits)

lemma bind_option:
  "(x = None \<Longrightarrow> post P (Option.bind y k)) \<Longrightarrow> (\<And>z. x = Some z \<Longrightarrow> post P (Option.bind (f z) k))
    \<Longrightarrow> post P (Option.bind (case x of None \<Rightarrow> y | Some z \<Rightarrow> f z) k)"
  by (simp split: option.splits)

lemma bind_Some: "post P (k x) \<Longrightarrow> post P (Option.bind (Some x) k)"
  by simp

lemmas reads = post_bind_eq [of "bs_mem st a" for st a] post_bind_eq [of "slot st t p" for st t p]
  post_bind_eq [of "test Q a st" for Q a st] post_bind_eq [of "Option.bind q (bs_mem st)" for q st]
  bind_if if_intro option_intro bind_option bind_Some

locale passive_caller =
  fixes env :: battle_env and psv :: passive_call
  assumes psv_safe: "safe env base st \<Longrightarrow> post (\<lambda>r. safe env base (snd r)) (psv e t p tt tps st)"
begin

lemma call_safe: "safe env base st \<Longrightarrow> post (safe env base) (call psv e t p tt tps st)"
  using psv_safe [of base st e t p tt tps] by (auto simp: call_def post_def)

lemma call_if_safe: "safe env base st \<Longrightarrow> post (safe env base) (call_if b psv e t p tt tps st)"
  by (simp add: call_if_def call_safe)

lemmas [ops] = call_safe call_if_safe post_bind [OF call_safe] post_bind [OF call_if_safe]

lemma on_will_dead_safe: "safe env base st \<Longrightarrow> post (safe env base) (on_will_dead psv a st)"
  unfolding on_will_dead_def by (auto intro!: reads ops)

lemma on_after_will_dead_safe: "safe env base st \<Longrightarrow> post (safe env base) (on_after_will_dead psv a att st)"
  unfolding on_after_will_dead_def by (auto intro!: reads ops)

lemma notify_safe: "safe env base st \<Longrightarrow> post (safe env base) (notify psv e t dt dp ex p st)"
  unfolding notify_def by (auto intro!: reads ops)

lemma notify_all_safe: "safe env base st \<Longrightarrow> post (safe env base) (for_each (notify psv e t dt dp ex) ps st)"
  by (rule post_for_each) (simp_all add: notify_safe)

lemmas [ops] = on_will_dead_safe on_after_will_dead_safe notify_all_safe
  post_bind [OF on_will_dead_safe] post_bind [OF on_after_will_dead_safe] post_bind [OF notify_all_safe]

lemma on_dead_safe: "safe env base st \<Longrightarrow> post (safe env base) (on_dead psv a att skill st)"
  unfolding on_dead_def by (auto intro!: reads ops [where base = base])

lemma set_dead_safe: "safe env base st \<Longrightarrow> post (safe env base) (set_dead psv a att skill st)"
  unfolding set_dead_def by (auto intro!: reads post_bind [OF safe_framed] on_dead_safe)

lemmas [ops] = set_dead_safe post_bind [OF set_dead_safe]

lemma settle_death_safe: "safe env base st \<Longrightarrow> post (safe env base) (settle_death psv target att skill st)"
  unfolding settle_death_def by (auto intro!: reads ops [where base = base])

lemma after_passives_safe: "safe env base st \<Longrightarrow> post (safe env base) (after_passives psv skill self target b c st)"
  unfolding after_passives_def Let_def by (auto intro!: reads ops [where base = base])

lemmas [ops] = settle_death_safe after_passives_safe post_bind [OF settle_death_safe] post_bind [OF after_passives_safe]

lemma after_skill_damage_safe:
  "safe env base st \<Longrightarrow> post (safe env base) (after_skill_damage psv skill self target d1 d2 b c st)"
  unfolding after_skill_damage_def by (auto intro!: reads ops [where base = base])

lemmas [ops] = after_skill_damage_safe post_bind [OF after_skill_damage_safe]

text \<open>The effects.\<close>

lemma fx_injury_safe: "safe env base st \<Longrightarrow> post (\<lambda>r. safe env base (snd r)) (fx_injury psv c eff st)"
  unfolding fx_injury_def Let_def
  by (auto intro!: reads ops [where base = base] post_bind [OF safe_framed [where env = env and base = base]]
      post_bind [OF safe_framed_opt [where env = env and base = base]] post_bind_eq [of "skill_effect_direct_injury a b ty f e rs" for a b ty f e rs]
      simp: framed_clear_temp)

lemma fx_cure_safe: "safe env base st \<Longrightarrow> post (\<lambda>r. safe env base (snd r)) (fx_cure psv c eff st)"
  unfolding fx_cure_def Let_def
  by (auto intro!: reads ops [where base = base] post_bind [OF safe_framed [where env = env and base = base]])

lemma fx_modify_attr_safe: "safe env base st \<Longrightarrow> post (\<lambda>r. safe env base (snd r)) (fx_modify_attr c eff st)"
  unfolding fx_modify_attr_def by (auto intro!: reads post_bind [OF safe_framed_opt [where env = env and base = base]] simp: framed_temp)

lemma fx_modify_skill_safe: "safe env base st \<Longrightarrow> post (\<lambda>r. safe env base (snd r)) (fx_modify_skill b c eff st)"
  unfolding fx_modify_skill_def by (auto intro!: reads post_bind [OF safe_framed [where env = env and base = base]])

lemma fx_modify_rage_safe: "safe env base st \<Longrightarrow> post (\<lambda>r. safe env base (snd r)) (fx_modify_rage c eff st)"
  unfolding fx_modify_rage_def Let_def
  by (auto intro!: reads post_bind [OF safe_framed [where env = env and base = base]] simp: add_energy_def Let_def split: prod.splits)

lemma fx_act_num_safe: "safe env base st \<Longrightarrow> post (\<lambda>r. safe env base (snd r)) (fx_act_num c eff st)"
  unfolding fx_act_num_def by (auto intro!: reads post_bind [OF safe_framed [where env = env and base = base]])

lemma fx_shield_safe: "safe env base st \<Longrightarrow> post (\<lambda>r. safe env base (snd r)) (fx_shield c eff st)"
  unfolding fx_shield_def
  by (auto intro!: reads post_bind [OF safe_framed_opt [where env = env and base = base]] post_bind_eq [of "skill_effect_add_shield a b e" for a b e]
    simp: framed_add_attr)

lemma fx_artifact_safe: "safe env base st \<Longrightarrow> post (\<lambda>r. safe env base (snd r)) (fx_artifact psv c eff st)"
  unfolding fx_artifact_def Let_def
  by (auto intro!: reads ops [where base = base] post_bind [OF safe_framed [where env = env and base = base]] split: prod.splits)

lemma fx_add_buff_safe: "safe env base st \<Longrightarrow> post (\<lambda>r. safe env base (snd r)) (fx_add_buff env c eff st)"
proof -
  assume s: "safe env base st"
  then have tbl: "table_ok (env_skills env)" by (simp add: safe_def)
  have k: "post (\<lambda>r. safe env base (snd r)) (do {
       st \<leftarrow> update t (\<lambda>_. m') (st\<lparr>bs_rand := rs, bs_next := Suc (bs_next st)\<rparr>);
       Some (b, st) })"
    if "bs_mem st t = Some m" and m': "same_place m m' \<and> (mem_ok env st m \<longrightarrow> member_ok (env_skills env) (dom (bs_mem st)) (Suc (bs_next st)) m')"
    for t m m' rs b
  proof -
    have "safe env base (st\<lparr>bs_rand := rs\<rparr>)" using s by simp
    from safe_write_next [OF this, of t m m'] m' safe_mem [OF s that(1)] that(1)
    have "safe env base (st\<lparr>bs_rand := rs, bs_mem := (bs_mem st)(t \<mapsto> m'), bs_next := Suc (bs_next st)\<rparr>)" by simp
    moreover have "update t (\<lambda>_. m') (st\<lparr>bs_rand := rs, bs_next := Suc (bs_next st)\<rparr>)
        = Some (st\<lparr>bs_rand := rs, bs_mem := (bs_mem st)(t \<mapsto> m'), bs_next := Suc (bs_next st)\<rparr>)"
      using that(1) by (auto simp: update_def intro: battle.equality)
    ultimately show ?thesis by simp
  qed
  have "post (\<lambda>r. safe env base (snd r)) (do {
       (buff_id, target, rs) \<leftarrow> skill_effect_add_buff (env_skills env) (env_buffs env) (bs_next st) (c_self c) am eff m (bs_rand st);
       st \<leftarrow> update t (\<lambda>_. target) (st\<lparr>bs_rand := rs, bs_next := Suc (bs_next st)\<rparr>);
       Some (buff_id > 0, st) })"
    if "c_self c \<in> dom (bs_mem st)" "bs_mem st t = Some m" for am t m
  proof (rule post_bind [OF mstep_add_buff [OF tbl that(1)]])
    fix r :: "int \<times> TeamMember \<times> int list"
    assume "case r of (x, m', rs') \<Rightarrow> same_place m m' \<and> (mem_ok env st m \<longrightarrow> member_ok (env_skills env) (dom (bs_mem st)) (Suc (bs_next st)) m')"
    then show "post (\<lambda>r. safe env base (snd r)) (case r of (buff_id, target, rs) \<Rightarrow> do {
       st \<leftarrow> update t (\<lambda>_. target) (st\<lparr>bs_rand := rs, bs_next := Suc (bs_next st)\<rparr>);
       Some (buff_id > 0, st) })"
      by (cases r) (simp only: prod.case, rule k [OF that(2)])
  qed
  with s show ?thesis unfolding fx_add_buff_def by (auto intro!: reads)
qed

lemma fx_summon_safe:
  assumes s: "safe env base st" and p: "0 \<le> c_tpos c" "c_tpos c < int BATTLE_TEAM_MEMBER_MAX_NUM"
  shows "post (\<lambda>r. safe env base (snd r)) (fx_summon env c eff st)"
proof -
  obtain m st' where tk: "take_member st = (m, st')" by fastforce
  note tm = safe_take_member [OF s tk]
  have "post (\<lambda>r. safe env base (snd r))
     (init_for_summon env self (c_tside c) (bt_has_player (bs_team st' (c_tside c))) (slots_of st' (c_tside c))
       (bs_round st') (bt_temp_curr_id (bs_team st' (tm_side self))) (tm_level self) rc (c_tpos c) m \<bind>
      (\<lambda>m. Some (True, update_team (c_tside c) (\<lambda>t. t\<lparr>bt_members := (bt_members t)[nat (c_tpos c) := Some (bs_next st')]\<rparr>)
         (update_team (tm_side self) (\<lambda>t. t\<lparr>bt_temp_curr_id := i32 (bt_temp_curr_id t + 1)\<rparr>) st')
         \<lparr>bs_mem := (bs_mem st')(bs_next st' \<mapsto> summoned self eff m), bs_next := Suc (bs_next st')\<rparr>)))"
    if self: "bs_mem st (c_self c) = Some self" for self rc
  proof -
    let ?st = "update_team (tm_side self) (\<lambda>t. t\<lparr>bt_temp_curr_id := i32 (bt_temp_curr_id t + 1)\<rparr>) st'"
    have l: "length (attrs self) = ATTR_COUNT_MAX" using safe_mem [OF s self] by (simp add: member_ok_def)
    have t: "table_ok (env_skills env)" using s by (simp add: safe_def)
    have st: "safe env base ?st" by (rule safe_team) (simp_all add: tm)
    have f: "framed x (summoned self eff x)" for x by (simp add: summoned_def Let_def framed_def same_place_def)
    show ?thesis
    proof (rule post_bind [OF init_for_summon_ok [OF t _ _ l]])
      show "pool_ok (env_skills env) (dom (bs_mem st')) (bs_next st') m" using tm by blast
      show "passive_skills m = []" using tm by blast
      fix x assume x: "tm_pos x = c_tpos c \<and> tm_side x = c_tside c \<and> member_ok (env_skills env) (dom (bs_mem st')) (bs_next st') x"
      have "mem_ok env ?st (summoned self eff x) \<and> tm_pos (summoned self eff x) = c_tpos c \<and> tm_side (summoned self eff x) = c_tside c"
        using framed_step [OF f, of "env_skills env" "dom (bs_mem st')" "bs_next st'" x] x by (simp add: mstep_def same_place_def)
      then show "post (\<lambda>r. safe env base (snd r)) (Some (True, update_team (c_tside c)
          (\<lambda>t. t\<lparr>bt_members := (bt_members t)[nat (c_tpos c) := Some (bs_next st')]\<rparr>) ?st
          \<lparr>bs_mem := (bs_mem st')(bs_next st' \<mapsto> summoned self eff x), bs_next := Suc (bs_next st')\<rparr>))"
        using safe_new_member [OF st p, of "summoned self eff x" "c_tside c"] by simp
    qed
  qed
  then show ?thesis unfolding fx_summon_def Let_def by (auto intro!: reads simp: s tk)
qed

text \<open>A skill.\<close>

lemma effect_of_type_safe:
  assumes "safe env base st" "0 \<le> c_tpos c" "c_tpos c < int BATTLE_TEAM_MEMBER_MAX_NUM"
  shows "post (\<lambda>r. safe env base (snd r)) (effect_of_type env psv c eff st)"
  using assms unfolding effect_of_type_def Let_def
  by (simp add: fx_injury_safe fx_cure_safe fx_add_buff_safe fx_summon_safe fx_modify_attr_safe fx_modify_skill_safe
    fx_modify_rage_safe fx_act_num_safe fx_shield_safe fx_artifact_safe)

lemma one_effect_safe:
  assumes "safe env base (snd r)" "0 \<le> c_tpos c" "c_tpos c < int BATTLE_TEAM_MEMBER_MAX_NUM"
  shows "post (\<lambda>r. safe env base (snd r)) (one_effect env psv c i r)"
  using assms unfolding one_effect_def Let_def
  by (cases r) (auto intro!: reads post_bind [OF effect_of_type_safe [where base = base]])

lemma slot_pos:
  assumes "safe env base st" "slot st t p = Some q"
  shows "0 \<le> p \<and> p < int BATTLE_TEAM_MEMBER_MAX_NUM \<and> (\<forall>a. q = Some a \<longrightarrow> (\<exists>m. bs_mem st a = Some m \<and> tm_pos m = p \<and> tm_side m = t))"
proof -
  have "team_ok st t" using assms(1) by (simp add: safe_def good_def)
  moreover from this have "0 \<le> p" "nat p < BATTLE_TEAM_MEMBER_MAX_NUM" "q = bt_members (bs_team st t) ! nat p"
    using assms(2) by (auto simp: slot_def team_ok_def split: if_splits)
  ultimately show ?thesis by (auto simp: team_ok_def)
qed

lemma one_target_safe:
  assumes "safe env base (snd r)" "c_self c \<in> dom (bs_mem base)"
  shows "post (\<lambda>r. safe env base (snd r)) (one_target env psv c p r)"
proof -
  obtain used st where r: "r = (used, st)" by fastforce
  have s: "safe env base st" using assms(1) r by simp
  have self: "c_self c \<in> dom (bs_mem st)" using evolves_dom [OF _ assms(2), of st] s by (simp add: safe_def)
  have attack: "post (safe env base) (update a (\<lambda>m. m\<lparr>attacker := Some (c_self c), attacker_skill_data := Some (c_skill c)\<rparr>) st)" for a
  proof (rule safe_update [OF s])
    fix m :: TeamMember
    let ?m = "m\<lparr>attacker := Some (c_self c), attacker_skill_data := Some (c_skill c)\<rparr>"
    have "passive_inv (env_skills env) ?m = passive_inv (env_skills env) m" by (rule passive_inv_cong) simp_all
    then show "mstep (env_skills env) (dom (bs_mem st)) (bs_next st) m ?m"
      using self by (auto simp: mstep_def same_place_def member_ok_def pool_ok_def)
  qed
  have loop: "post (\<lambda>r. safe env base (snd r)) (for_each (one_effect env psv (c\<lparr>c_tpos := p, c_target := t\<rparr>)) is (used, x))"
    if "slot st (c_tside c) p = Some q" "safe env base x" for x q t "is"
    by (rule post_for_each) (use slot_pos [OF s that(1)] that(2) in \<open>auto intro: one_effect_safe\<close>)
  show ?thesis unfolding r one_target_def prod.case
    by (auto intro!: reads post_bind [OF attack] loop s)
qed

lemma after_skill_safe: "safe env base st \<Longrightarrow> post (safe env base) (after_skill psv c tps st)"
  unfolding after_skill_def Let_def by (auto intro!: reads ops [where base = base])

lemma skill_user_dom:
  assumes "safe env base st" "skill_user t p tt st = Some (Some self)"
  shows "\<exists>m. bs_mem st self = Some m"
proof (cases "p < 0")
  case True
  then have "bt_artifact (bs_team st t) = Some self" using assms(2) by (simp add: skill_user_def)
  moreover have "team_ok st t" using assms(1) by (simp add: safe_def good_def)
  ultimately show ?thesis by (auto simp: team_ok_def)
next
  case False
  then show ?thesis using assms(2) by (auto simp: skill_user_def split: if_splits Option.bind_splits)
qed

lemma skill_effect_safe:
  assumes s: "safe env base st"
  shows "post (\<lambda>r. safe env base (snd r)) (skill_effect env psv t p tt tps skill st)"
proof -
  have main: "post (\<lambda>r. safe env st (snd r)) (do {
          (used, st) \<leftarrow> for_each (one_target env psv c) tps (False, st);
          st \<leftarrow> after_skill psv c tps st;
          Some (used, st) })" if "\<exists>m. bs_mem st (c_self c) = Some m" for c
  proof (rule post_bind)
    show "post (\<lambda>r. safe env st (snd r)) (for_each (one_target env psv c) tps (False, st))"
      by (rule post_for_each) (use safe_self [OF s] that in \<open>auto intro!: one_target_safe\<close>)
  qed (auto intro!: post_bind [OF after_skill_safe [where base = st]])
  have "post (\<lambda>r. safe env st (snd r)) (skill_effect env psv t p tt tps skill st)"
    unfolding skill_effect_def Let_def using safe_self [OF s]
    by (auto intro!: post_bind_eq [of "skill_user t p tt st"] post_bind_eq [of tt] option_intro main dest: skill_user_dom [OF s])
  then show ?thesis by (rule post_mono) (rule safe_trans [OF s])
qed

text \<open>Passive skills.\<close>

lemma find_targets_safe: "safe env base st \<Longrightarrow> post (\<lambda>(ps, e, st'). safe env base st') (find_targets self tt skill tps st)"
  unfolding find_targets_def
  by (auto intro!: reads post_bind_eq [of "FindTargets a b c d e f" for a b c d e f])

lemma one_passive_skill_effect_safe:
  "safe env base st \<Longrightarrow> post (\<lambda>r. safe env base (snd r)) (one_passive_skill_effect env psv e skill self tt tps st)"
  unfolding one_passive_skill_effect_def
  by (auto intro!: reads post_bind_eq [of "skill_check_cond a b c d e f g" for a b c d e f g]
      post_bind [OF find_targets_safe [where base = base]] post_bind [OF skill_effect_safe [where base = base]]
      post_bind [OF safe_update [where env = env and base = base]] mstep_passive)

lemma one_passive_safe:
  assumes "safe env base (snd r)"
  shows "post (\<lambda>r. safe env base (snd r)) (one_passive env psv e user tt tps i r)"
proof -
  obtain b st where r: "r = (b, st)" by fastforce
  have "safe env base (PushDelaySkill e skill user tt tps st)" if "bs_mem st user = Some m" for skill m
    using assms r that by (auto simp: safe_def good_def team_ok_def evolves_def PushDelaySkill_def)
  then show ?thesis using assms unfolding one_passive_def r prod.case
    by (auto intro!: reads post_bind [OF one_passive_skill_effect_safe [where base = base]])
qed

lemma passive_with_self_pos_safe:
  "safe env base st \<Longrightarrow> post (\<lambda>r. safe env base (snd r)) (passive_with_self_pos env psv e t p tt tps st)"
  unfolding passive_with_self_pos_def passive_skill_effect_def
  by (auto intro!: reads post_for_each one_passive_safe)

end

section \<open>The passive skills meet the contract\<close>

lemma passive_fx_contract: "passive_caller env (passive_fx env n)"
proof (induction n)
  case 0
  then show ?case by unfold_locales simp
next
  case (Suc n)
  show ?case by unfold_locales (simp add: passive_caller.passive_with_self_pos_safe [OF Suc])
qed

interpretation fx: passive_caller env "passive_fx env n" for env n
  by (rule passive_fx_contract)

end
