(* ===== verification/Battle_Rounds_Inv.thy ===== *)
theory Battle_Rounds_Inv
  imports Battle_Inv
begin

text \<open>
  The rounds of a battle keep the invariant of \<open>Battle_Inv\<close>, up to the whole fight.
\<close>

section \<open>Skills of a round\<close>

context passive_caller
begin

lemma get_member_read: "(\<And>q. get_member t i st = Some q \<Longrightarrow> post P (k q)) \<Longrightarrow> post P (Option.bind (get_member t i st) k)"
  by (rule post_bind_eq)

lemma framed_clear_skill [simp]: "framed m (clear_temp_skill m)"
  by (simp add: clear_temp_skill_def)

lemma UseSkillOnce_safe: "safe env base st \<Longrightarrow> post (\<lambda>r. safe env base (snd r)) (UseSkillOnce env psv t i tt ts st)"
  unfolding UseSkillOnce_def Let_def
  by (auto intro!: reads get_member_read post_bind [OF find_targets_safe [where base = base]]
      post_bind [OF skill_effect_safe [where base = base]] post_bind [OF safe_framed [where env = env and base = base]]
    split: prod.splits)

lemma delay_loop_safe: "safe env base st \<Longrightarrow> post (safe env base) (delay_loop env psv k i st)"
proof (induction k arbitrary: i st)
  case (Suc k)
  then show ?case unfolding delay_loop.simps Let_def
    by (auto intro!: post_bind [OF one_passive_skill_effect_safe [where base = base]])
qed simp

text \<open>A buff that has run down.\<close>

lemma buff_damage_safe: "safe env base st \<Longrightarrow> post (safe env base) (buff_damage env psv owner bf st)"
  unfolding buff_damage_def Let_def
  by (auto intro!: reads ops [where base = base] post_bind [OF safe_framed [where env = env and base = base]] split: list.splits)

end

lemma count_down_step:
  assumes "i < length (the_lists m)"
  shows "mstep tbl D n m (set_list i (map (\<lambda>b. if bf_addr b = a then b\<lparr>bf_round_num := left\<rparr> else b) (the_lists m ! i)) m)"
proof -
  define g where "g = (\<lambda>x :: Buff. if bf_addr x = a then x\<lparr>bf_round_num := left\<rparr> else x)"
  have g: "bf_addr (g x) = bf_addr x" "bf_attacker (g x) = bf_attacker x" for x by (simp_all add: g_def)
  have "member_ok tbl D n (set_list i (map g (the_lists m ! i)) m)" if ok: "member_ok tbl D n m"
  proof (rule mstep_set_list [OF assms _ ok])
    assume "lists_ok D n (the_lists m)"
    then show "distinct (map bf_addr (map g (the_lists m ! i)))
        \<and> (\<forall>b \<in> set (map g (the_lists m ! i)). bf_addr b < n \<and> bf_attacker b \<in> D)"
      using nth_mem [OF assms] by (simp add: lists_ok_def g comp_def)
  qed simp
  then show ?thesis by (simp add: mstep_def g_def [symmetric])
qed

lemma lists_stay:
  assumes "safe env base st" "bs_mem base a = Some m0" "bufflist_arr m0 \<noteq> None" "bs_mem st a = Some m"
  shows "length (the_lists m) = BUFF_EFFECT_TYPE_COUNT"
proof -
  obtain m' where "bs_mem st a = Some m'" "same_place m0 m'" using assms(1,2) unfolding safe_def evolves_def by blast
  then have "bufflist_arr m \<noteq> None" using assms(3,4) by (simp add: same_place_def)
  then obtain ls where "bufflist_arr m = Some ls" by auto
  moreover have "mem_ok env st m" using safe_mem assms(1,4) by blast
  ultimately show ?thesis by (simp add: the_lists_def member_ok_def pool_ok_def lists_ok_def)
qed

context passive_caller
begin

lemma buff_round_end_safe:
  assumes "safe env base st" "bs_mem base owner = Some m0" "bufflist_arr m0 \<noteq> None" "i < BUFF_EFFECT_TYPE_COUNT"
  shows "post (safe env base) (buff_round_end env psv owner i bf st)"
  unfolding buff_round_end_def Let_def
proof (rule if_intro, simp add: assms(1), rule post_bind [OF buff_damage_safe [OF assms(1)]], rule post_bind_eq, rule post_bind_eq)
  fix st m and b :: Buff assume s: "safe env base st" and m: "bs_mem st owner = Some m"
  let ?m = "set_list i (map (\<lambda>x. if bf_addr x = bf_addr b then x\<lparr>bf_round_num := bf_round_num b - 1\<rparr> else x) (the_lists m ! i)) m"
  have t: "table_ok (env_skills env)" using s by (simp add: safe_def)
  have l: "i < length (the_lists m)" using lists_stay [OF s assms(2,3) m] assms(4) by simp
  have step: "mstep (env_skills env) (dom (bs_mem st)) (bs_next st) m ?m" by (rule count_down_step [OF l])
  have l': "i < length (the_lists ?m)" using l by simp
  have "post (\<lambda>r. mstep (env_skills env) (dom (bs_mem st)) (bs_next st) m (snd r))
      (if bf_round_num b - 1 \<le> 0 then remove_buff (env_skills env) i b ?m else Some (True, ?m))"
    using step by (auto intro!: post_mono [OF mstep_remove_buff [OF t l']] intro: mstep_trans)
  then show "post (safe env base) ((if bf_round_num b - 1 \<le> 0 then remove_buff (env_skills env) i b ?m else Some (True, ?m))
      \<bind> (\<lambda>(_, m). update owner (\<lambda>_. m) st))"
    by (rule post_bind) (use m s in \<open>auto intro!: safe_update\<close>)
qed

lemma buffs_round_end_safe:
  assumes "safe env base st" "bs_mem base owner = Some m0" "bufflist_arr m0 \<noteq> None" "i < BUFF_EFFECT_TYPE_COUNT"
  shows "post (safe env base) (buffs_round_end env psv owner i k cur st)"
  using assms(1)
proof (induction k arbitrary: cur st)
  case (Suc k)
  show ?case unfolding buffs_round_end.simps
    by (auto intro!: option_intro reads post_bind_eq [of "find Q x" for Q x] Suc
      post_bind [OF buff_round_end_safe [OF _ assms(2-4)]])
qed simp

end

section \<open>The rounds\<close>

lemma DelaySkillEffect_safe: "safe env base st \<Longrightarrow> post (safe env base) (DelaySkillEffect env n st)"
  unfolding DelaySkillEffect_def by (rule fx.delay_loop_safe)

lemma use_skills_safe: "safe env base st \<Longrightarrow> post (\<lambda>r. safe env base (snd r)) (use_skills env n t i tt st)"
  unfolding use_skills_def
  by (auto intro!: post_bind [OF fx.UseSkillOnce_safe [where base = base]] post_bind [OF DelaySkillEffect_safe [where base = base]]
    option_intro bind_if bind_Some)

lemma turn_loop_safe: "safe env base st \<Longrightarrow> post (\<lambda>r. safe env base (snd r)) (turn_loop env n k a t i tt st)"
proof (induction k arbitrary: st)
  case (Suc k)
  then show ?case unfolding turn_loop.simps Let_def
    by (auto intro!: reads post_bind [OF use_skills_safe [where base = base]] post_bind [OF fx.call_if_safe [where base = base]]
      post_bind [OF safe_framed [where env = env and base = base]])
qed simp

lemma UseSkill_safe: "safe env base st \<Longrightarrow> post (\<lambda>r. safe env base (snd r)) (UseSkill env n t i tt st)"
  unfolding UseSkill_def by (auto intro!: reads turn_loop_safe)

lemma artifact_round_safe: "safe env base st \<Longrightarrow> post (safe env base) (CheckAndUseArtifactEveryRound env n t tt st)"
  unfolding CheckAndUseArtifactEveryRound_def
  by (auto intro!: reads post_bind [OF fx.UseSkillOnce_safe [where base = base]] safe_framed)

lemma act_from_safe: "safe env base st \<Longrightarrow> post (\<lambda>r. safe env base (snd r)) (act_from env n t tt k st)"
proof (induction k arbitrary: st)
  case (Suc k)
  then show ?case unfolding act_from.simps Let_def
    by (auto intro!: post_bind [OF UseSkill_safe [where base = base]])
qed simp

lemma fight_pair_safe: "safe env base st \<Longrightarrow> post (\<lambda>(i, j, st'). safe env base st') (fight_pair env n t tt i j st)"
  unfolding fight_pair_def
  by (auto intro!: post_bind [OF act_from_safe [where base = base]] bind_if)

lemma pair_loop_safe: "safe env base st \<Longrightarrow> post (safe env base) (pair_loop env n k i j st)"
proof (induction k arbitrary: i j st)
  case (Suc k)
  then show ?case unfolding pair_loop.simps
    by (auto intro!: if_intro post_bind [OF fight_pair_safe [where base = base]])
qed simp

lemma each_member_safe:
  "(\<And>a st. safe env base st \<Longrightarrow> post (safe env base) (f a st)) \<Longrightarrow> safe env base st \<Longrightarrow> post (safe env base) (each_member f t st)"
  unfolding each_member_def by (rule post_for_each) (auto intro!: reads)

lemma RoundStart_safe: "safe env base st \<Longrightarrow> post (safe env base) (RoundStart t st)"
  unfolding RoundStart_def
  by (auto intro!: post_bind [OF each_member_safe [where base = base and env = env]] post_bind [OF safe_update [where base = base and env = env]] safe_update mstep_passive option_intro
    simp: framed_step check_artifact_energy_add_def)

lemma on_round_end_safe:
  assumes "safe env base st" "bs_mem base owner = Some m0" "bufflist_arr m0 \<noteq> None" "i < BUFF_EFFECT_TYPE_COUNT"
  shows "post (safe env base) (on_round_end env n owner i st)"
  unfolding on_round_end_def using assms
  by (auto intro!: reads post_bind [OF fx.buffs_round_end_safe [where base = base]] DelaySkillEffect_safe)

lemma member_round_end_safe:
  assumes s: "safe env base st"
  shows "post (safe env base) (member_round_end env n a st)"
proof -
  have loop: "post (safe env base) (for_each (on_round_end env n a) [0..<length (the_lists m)] st)"
    if s: "safe env base st" and m: "bs_mem st a = Some m" for st m
  proof (cases "bufflist_arr m")
    case None
    then show ?thesis using s by (simp add: the_lists_def)
  next
    case (Some ls)
    have "length (the_lists m) = BUFF_EFFECT_TYPE_COUNT"
      using lists_stay [OF safe_self [OF s] m _ m] Some by simp
    then have "post (safe env st) (for_each (on_round_end env n a) [0..<length (the_lists m)] st)"
      using Some m safe_self [OF s] by (intro post_for_each) (auto intro: on_round_end_safe)
    then show ?thesis by (rule post_mono) (rule safe_trans [OF s])
  qed
  show ?thesis unfolding member_round_end_def
    by (auto intro!: reads loop s post_bind [OF safe_framed [where env = env and base = base]])
qed

lemma RoundEnd_safe: "safe env base st \<Longrightarrow> post (safe env base) (RoundEnd env n t st)"
  unfolding RoundEnd_def by (rule each_member_safe) (rule member_round_end_safe)

lemma both_passives_safe: "safe env base st \<Longrightarrow> post (safe env base) (both_passives env n e p st)"
  unfolding both_passives_def by (auto intro!: post_bind [OF fx.call_safe [where base = base]] fx.call_safe)

lemma all_passives_safe: "safe env base st \<Longrightarrow> post (safe env base) (for_each (both_passives env n e) ps st)"
  by (rule post_for_each) (auto intro: both_passives_safe)

lemma DoRound_safe: "safe env base st \<Longrightarrow> post (safe env base) (DoRound env n st)"
  unfolding DoRound_def Let_def
  by (auto intro!: post_bind [OF RoundStart_safe [where base = base]] post_bind [OF all_passives_safe [where base = base]]
    post_bind [OF artifact_round_safe [where base = base]] post_bind [OF pair_loop_safe [where base = base]]
    post_bind [OF RoundEnd_safe [where base = base]] RoundEnd_safe bind_if bind_Some)

lemma round_loop_safe: "safe env base st \<Longrightarrow> post (\<lambda>r. safe env base (snd r)) (round_loop env n k st)"
proof (induction k arbitrary: st)
  case (Suc k)
  then show ?case unfolding round_loop.simps
    by (auto intro!: post_bind [OF DoRound_safe [where base = base]])
qed simp

end
