(* ===== verification/Battle_Fight.thy ===== *)
theory Battle_Fight
  imports Battle_Rounds_Inv
begin

text \<open>
  Whole fights: a fight keeps the state of the battle well formed. The example is a fight of two members
  whose skill does 600 damage.
\<close>

section \<open>The end of a fight\<close>

lemma on_battle_finish_ok:
  "pool_ok tbl D n m \<Longrightarrow> pool_ok tbl D n (on_battle_finish m) \<and> passive_skills (on_battle_finish m) = []"
  by (auto simp: pool_ok_def on_battle_finish_def passive_inv_def lists_of_def split: option.splits)

lemma OnFinish_safe:
  assumes "safe env base st"
  shows "safe env base (OnFinish t st)"
proof -
  define ms where "ms = List.map_filter (\<lambda>s. s) (slots_of st t)"
  have g: "good env st" using assms by (simp add: safe_def)
  have pool: "pool_ok (env_skills env) (dom (bs_mem st)) (bs_next st) x \<and> passive_skills x = []"
    if "x \<in> set (rev (map on_battle_finish ms) @ bs_pool st)" for x
  proof (cases "x \<in> set (bs_pool st)")
    case True
    then show ?thesis using g by (simp add: good_def)
  next
    case False
    then have "x \<in> on_battle_finish ` set ms" using that by simp
    then obtain m where m: "x = on_battle_finish m" "m \<in> set ms" by blast
    then have "Some m \<in> set (slots_of st t)" by (auto simp: ms_def map_filter_def)
    then have "\<exists>p. Option.bind p (bs_mem st) = Some m" unfolding slots_of_def by (metis imageE list.set_map)
    then obtain a where "bs_mem st a = Some m" by (auto simp: bind_eq_Some_conv)
    then have "mem_ok env st m" using g by (simp add: good_def)
    then show ?thesis using on_battle_finish_ok [of "env_skills env" "dom (bs_mem st)" "bs_next st" m] m(1) by (simp add: member_ok_def)
  qed
  have "team_ok (OnFinish t st) u" for u
    using g by (auto simp: OnFinish_def Let_def team_ok_def good_def)
  moreover have "a < bs_next (OnFinish t st) \<and> mem_ok env (OnFinish t st) m" if "bs_mem (OnFinish t st) a = Some m" for a m
    using g that by (simp add: OnFinish_def Let_def good_def)
  moreover have "ds_user d \<in> dom (bs_mem (OnFinish t st))" if "d \<in> set (bs_delay (OnFinish t st))" for d
    using g that by (simp add: OnFinish_def Let_def good_def)
  moreover have "pool_ok (env_skills env) (dom (bs_mem (OnFinish t st))) (bs_next (OnFinish t st)) x \<and> passive_skills x = []"
    if "x \<in> set (bs_pool (OnFinish t st))" for x
    using that pool unfolding OnFinish_def Let_def ms_def [symmetric] by simp
  ultimately have "good env (OnFinish t st)" by (intro goodI)
  then show ?thesis using assms by (simp add: safe_def evolves_def OnFinish_def Let_def)
qed

lemma OnFinish_members [simp]:
  "bt_members (bs_team (OnFinish t st) u) = (if u = t then replicate (length (bt_members (bs_team st t))) None else bt_members (bs_team st u))"
  by (simp add: OnFinish_def Let_def map_replicate_const)

lemma Fight_safe: "safe env base st \<Longrightarrow> post (\<lambda>r. safe env base (snd r)) (Fight env n sweep et ep st)"
  unfolding Fight_def Let_def
  by (auto intro!: post_bind [OF all_passives_safe [where base = base]] post_bind [OF round_loop_safe [where base = base]] OnFinish_safe)

section \<open>Properties\<close>

text \<open>C17: a fight that starts in a well-formed state ends in one: every filled slot holds a member that knows
  its team and its position, every member has its 40 attributes, eight buff lists without doubles and one
  datum for each of its passive skills, no pointer to an attacker or to a user of a skill is dangling, members
  stay in their place, and both teams are empty.\<close>
theorem fight_well_formed:
  assumes "table_ok (env_skills env)" and "good env st" and "Fight env n sweep end_type end_param st = Some (win, st')"
  shows "good env st' \<and> evolves st st' \<and> bt_members (bs_team st' 0) = replicate 9 None \<and> bt_members (bs_team st' 1) = replicate 9 None"
proof -
  have "safe env st st" using assms(1,2) by (simp add: safe_def)
  then have s: "safe env st st'" using postD [OF Fight_safe assms(3)] by simp
  then have l: "length (bt_members (bs_team st' t)) = 9" for t by (simp add: safe_def good_def team_ok_def)
  obtain st1 where e: "st' = OnFinish 1 (OnFinish 0 st1)"
    using assms(3) by (auto simp: Fight_def Let_def split: Option.bind_splits)
  then show ?thesis using s l [of 0] l [of 1] by (simp add: safe_def)
qed

definition demo_attack :: XmlSkillItem where
  "demo_attack = \<lparr>skill_Id = 1, skill_Type = 1, SkillAttr = [], SkillTriggerType = 0, TriggerCondition1 = [], TriggerCondition2 = [],
     StunDisableAction = 0, TriggerRoundMax = 0, TriggerBattleMax = 0, SkillMelee = 1, SkillEnemy = 2, RangeType = 1,
     SkillTarget = 1, MaxTarget = 0, Effects = [[11, 600, 0, 0]], EffectsCond1s = [[]], EffectsCond2s = [[]], ComboSkill = 0,
     IsDelayLastSkill = 0, IsCancelReport = 0\<rparr>"

definition demo_fighter :: "nat \<Rightarrow> int \<Rightarrow> int \<Rightarrow> TeamMember" where
  "demo_fighter side life atk = \<lparr>tm_side = side, tm_pos = 0, tm_id = 1, tm_level = 1,
     tm_card = \<lparr>card_Id = 0, card_Type = 0, card_Camp = 0, card_Label = [], BaseHP = 0, BaseAttack = 0, BaseDefence = 0,
       GrowthHP = 0, GrowthAttack = 0, GrowthDefence = 0, NormalSkillID = 1, SuperSkillID = 0, PassiveSkillIds = []\<rparr>,
     tm_artifact = None, hp = life, energy = 30, tm_attack = atk, tm_defense = 0, act_num = 0,
     attrs = [0, life, life, 0, atk] @ replicate 35 0,
     bufflist_arr = None, passive_trigger_lists = (\<lambda>_. None), temp_normal_skill = 0, temp_super_skill = 0,
     use_temp_skill = False, temp_changed_attrs = [], temp_changed_attrs_used = 0, passive_skills = [],
     attacker = None, attacker_skill_data = None, is_slave = False\<rparr>"

definition demo_team :: "mptr \<Rightarrow> BattleTeam" where
  "demo_team a = \<lparr>bt_members = Some a # replicate 8 None, bt_artifact = None, bt_has_player = True, bt_is_sweeping = False,
     bt_temp_curr_id = 2, bt_first_hand = 0\<rparr>"

definition demo_env :: battle_env where
  "demo_env = \<lparr>env_skills = [1 \<mapsto> demo_attack], env_buffs = (\<lambda>_. None), env_cards = (\<lambda>_. None),
     env_config = \<lparr>InitEnergy = 0, MaxEnergy = 0, EnergyAdd = 0\<rparr>, env_talents = (\<lambda>_. []), env_artifacts = (\<lambda>_. [])\<rparr>"

definition demo_battle :: battle where
  "demo_battle = \<lparr>bs_mem = [0 \<mapsto> demo_fighter 0 1000 300, 1 \<mapsto> demo_fighter 1 500 100], bs_next = 2,
     bs_team = (\<lambda>t. if t = 0 then demo_team 0 else if t = 1 then demo_team 1 else (demo_team 0)\<lparr>bt_members := replicate 9 None\<rparr>),
     bs_pool = [], bs_delay = [], bs_round = 0, members_damage = (\<lambda>_ _. 0), members_cure = (\<lambda>_ _. 0), bs_rand = []\<rparr>"

lemma demo_table: "table_ok (env_skills demo_env)"
  by (simp add: table_ok_def demo_env_def demo_attack_def)

lemma demo_fighter_ok: "member_ok tbl D n (demo_fighter s l a)"
  by (simp add: member_ok_def pool_ok_def demo_fighter_def passive_inv_def lists_of_def)

lemma demo_good: "good demo_env demo_battle"
proof (rule goodI)
  show "team_ok demo_battle t" for t
    by (auto simp: team_ok_def demo_battle_def demo_team_def demo_fighter_def less_Suc_eq numeral_eq_Suc nth_Cons split: nat.splits)
  show "a < bs_next demo_battle \<and> mem_ok demo_env demo_battle m" if "bs_mem demo_battle a = Some m" for a m
    using that demo_fighter_ok by (auto simp: demo_battle_def split: if_splits)
qed (simp_all add: demo_battle_def)

lemma demo_fight: "map_option (\<lambda>(w, st). (w, bs_round st, map hp (bs_pool st))) (Fight demo_env 3 False 1 0 demo_battle)
    = Some (True, 1, [- 1, 1000])"
  by code_simp

theorem fight_well_formed_witness:
  "\<exists>st'. Fight demo_env 3 False 1 0 demo_battle = Some (True, st') \<and> map hp (bs_pool st') = [- 1, 1000] \<and> good demo_env st'"
proof -
  obtain st' where f: "Fight demo_env 3 False 1 0 demo_battle = Some (True, st')" "map hp (bs_pool st') = [- 1, 1000]"
    using demo_fight by auto
  from fight_well_formed [OF demo_table demo_good f(1)] show ?thesis using f by auto
qed

end
