(* ===== verification/Battle_Fuel_Props.thy ===== *)
theory Battle_Fuel_Props
  imports Battle_Fuel Battle_Fight
begin

text \<open>
  How the loops of a fight end: a result does not depend on the fuel, the pairs of fighters are worked off
  in nine steps, and a member that cures itself whenever it is cured never comes back from its passive skill.
\<close>

section \<open>The order of the fighters\<close>

lemma act_from_advances:
  "act_from env n t tt k st = Some (i, st') \<Longrightarrow> k \<le> 9 \<Longrightarrow> 0 < k \<Longrightarrow> 9 - k < i \<and> i \<le> 9"
proof (induction k arbitrary: st)
  case (Suc k)
  show ?case
  proof (cases "k = 0")
    case True
    then show ?thesis using Suc.prems by (auto simp: Let_def split: Option.bind_splits if_splits)
  next
    case False
    then show ?thesis using Suc.prems Suc.IH by (fastforce simp: Let_def split: Option.bind_splits if_splits)
  qed
qed simp

text \<open>Both indices move on, or are at the end.\<close>

lemma fight_pair_advances:
  assumes "fight_pair env n t tt i j st = Some (i', j', st')"
  shows "(if i < 9 then i < i' \<and> i' \<le> 9 else i' = i) \<and> (if j < 9 then j < j' \<and> j' \<le> 9 else j' = j)"
  using assms act_from_advances [of env n t tt "9 - i" _ i'] act_from_advances [of env n tt t "9 - j" _ j']
  by (auto simp: fight_pair_def split: Option.bind_splits if_splits)

lemma pair_loop_enough:
  "9 - i \<le> k \<Longrightarrow> 9 - j \<le> k \<Longrightarrow> pair_loop env n (k + d) i j st = pair_loop env n k i j st"
proof (induction k arbitrary: i j st)
  case 0
  then show ?case by (cases d) simp_all
next
  case (Suc k)
  have step: "9 - i' \<le> k \<and> 9 - j' \<le> k" if "fight_pair env n t tt i j st = Some (i', j', st')" for t tt i' j' st'
    using fight_pair_advances [OF that] Suc.prems by (auto split: if_splits)
  have step': "9 - i' \<le> k \<and> 9 - j' \<le> k" if "fight_pair env n t tt j i st = Some (j', i', st')" for t tt i' j' st'
    using fight_pair_advances [OF that] Suc.prems by (auto split: if_splits)
  have "Option.bind (fight_pair env n 0 1 i j st) (\<lambda>(i, j, st). pair_loop env n (k + d) i j st)
      = Option.bind (fight_pair env n 0 1 i j st) (\<lambda>(i, j, st). pair_loop env n k i j st)"
    by (rule Option.bind_cong [OF refl]) (use step Suc.IH in auto)
  moreover have "Option.bind (fight_pair env n 1 0 j i st) (\<lambda>(j, i, st). pair_loop env n (k + d) i j st)
      = Option.bind (fight_pair env n 1 0 j i st) (\<lambda>(j, i, st). pair_loop env n k i j st)"
    by (rule Option.bind_cong [OF refl]) (use step' Suc.IH in auto)
  ultimately show ?case by (simp only: add_Suc pair_loop.simps)
qed

section \<open>A passive skill that triggers itself\<close>

definition self_cure :: XmlSkillItem where
  "self_cure = \<lparr>skill_Id = 7, skill_Type = 3, SkillAttr = [], SkillTriggerType = 16, TriggerCondition1 = [], TriggerCondition2 = [],
     StunDisableAction = 0, TriggerRoundMax = 1, TriggerBattleMax = 1, SkillMelee = 0, SkillEnemy = 1, RangeType = 1,
     SkillTarget = 5, MaxTarget = 0, Effects = [[2, 10000, 0, 0]], EffectsCond1s = [[]], EffectsCond2s = [[]], ComboSkill = 0,
     IsDelayLastSkill = 0, IsCancelReport = 0\<rparr>"

definition self_curer :: "int \<Rightarrow> mptr option \<Rightarrow> XmlSkillItem option \<Rightarrow> TeamMember" where
  "self_curer h att d = \<lparr>tm_side = 0, tm_pos = 0, tm_id = 1, tm_level = 1,
     tm_card = \<lparr>card_Id = 0, card_Type = 0, card_Camp = 0, card_Label = [], BaseHP = 0, BaseAttack = 0, BaseDefence = 0,
       GrowthHP = 0, GrowthAttack = 0, GrowthDefence = 0, NormalSkillID = 1, SuperSkillID = 0, PassiveSkillIds = []\<rparr>,
     tm_artifact = None, hp = h, energy = 30, tm_attack = 64, tm_defense = 0, act_num = 0,
     attrs = [0, 1000, h, 0, 64] @ replicate 35 0,
     bufflist_arr = None, passive_trigger_lists = [16 \<mapsto> [new_trigger self_cure]], temp_normal_skill = 0, temp_super_skill = 0,
     use_temp_skill = False, temp_changed_attrs = [], temp_changed_attrs_used = 0, passive_skills = [7],
     attacker = att, attacker_skill_data = d, is_slave = False\<rparr>"

lemma self_cure_sel:
  "skill_Id self_cure = 7" "skill_Type self_cure = 3" "SkillTriggerType self_cure = 16" "TriggerCondition1 self_cure = []"
  "TriggerCondition2 self_cure = []" "StunDisableAction self_cure = 0" "SkillEnemy self_cure = 1" "RangeType self_cure = 1"
  "SkillTarget self_cure = 5" "Effects self_cure = [[2, 10000, 0, 0]]" "EffectsCond1s self_cure = [[]]" "EffectsCond2s self_cure = [[]]"
  "IsDelayLastSkill self_cure = 0"
  by (simp_all add: self_cure_def)

lemma self_curer_sel:
  "tm_pos (self_curer h att d) = 0" "tm_side (self_curer h att d) = 0" "passive_skills (self_curer h att d) = [7]"
  by (simp_all add: self_curer_def)

definition curing :: "battle_env \<Rightarrow> battle \<Rightarrow> bool" where
  "curing env st \<longleftrightarrow> env_skills env 7 = Some self_cure \<and> bt_members (bs_team st 0) = Some 0 # replicate 8 None
     \<and> (\<exists>h att d. 0 \<le> h \<and> h \<le> 1000 \<and> bs_mem st 0 = Some (self_curer h att d))"

lemma cure_amount: "skill_effect_cure (self_curer h att d) (self_curer h att d) [2, 10000, 0, 0] = 64"
proof -
  have "f64 64 = 64" using f64_ge_power [of 6 64] f64_le_power [of 64 6] by simp
  then show ?thesis
    by (simp add: skill_effect_cure_def self_curer_def Let_def go_div_nonneg int32_of_def f64_trunc_def is_i32_def)
qed

lemma cured: "0 \<le> h \<Longrightarrow> h \<le> 1000 \<Longrightarrow> \<exists>h'. 0 \<le> h' \<and> h' \<le> 1000 \<and> add_hp 64 (self_curer h att d) = self_curer h' att d"
  by (simp add: add_hp_def Let_def self_curer_def)

lemma slot0: "curing env st \<Longrightarrow> slot st 0 0 = Some (Some 0)"
  by (simp add: curing_def slot_def)

lemma curing_team: "curing env st \<Longrightarrow> curing env (st\<lparr>bs_rand := r\<rparr>)"
  by (simp add: curing_def)

lemma fx_cure_diverges:
  assumes "\<And>st. curing env st \<Longrightarrow> psv 16 0 0 (Some 0) [0] st = None" and "curing env st"
    and "c_self c = 0" "c_target c = Some 0" "c_tside c = 0" "c_tpos c = 0" "c_side c = 0" "c_pos c = 0"
  shows "fx_cure psv c [2, 10000, 0, 0] st = None"
proof -
  obtain h att d where m: "bs_mem st 0 = Some (self_curer h att d)" "0 \<le> h" "h \<le> 1000" using assms(2) by (auto simp: curing_def)
  obtain h' where h': "0 \<le> h'" "h' \<le> 1000" "add_hp 64 (self_curer h att d) = self_curer h' att d" using cured m(2,3) by blast
  have alive: "\<not> is_dead (self_curer h att d)" using m by (simp add: is_dead_def self_curer_def)
  define st1 where "st1 = record_totals (c_report c) 0 0 0 0 0 (i32 (- 64)) (st\<lparr>bs_mem := (bs_mem st)(0 \<mapsto> self_curer h' att d)\<rparr>)"
  have "curing env st1" using assms(2) h' by (auto simp: curing_def st1_def record_totals_def add_total_def)
  then have "call psv 16 0 0 (Some 0) [0] st1 = None" using assms(1) by (simp add: call_def)
  then show ?thesis
    using m alive h' by (simp add: fx_cure_def assms(3-8) target_gone_def cure_amount update_def st1_def)
qed

lemma curing_attacked:
  "curing env st \<Longrightarrow> \<exists>st'. update 0 (\<lambda>m. m\<lparr>attacker := a, attacker_skill_data := d\<rparr>) st = Some st' \<and> curing env st'"
  by (auto simp: curing_def update_def self_curer_def)

lemma self_cure_diverges:
  assumes "\<And>st. curing env st \<Longrightarrow> psv 16 0 0 (Some 0) [0] st = None" and st: "curing env st"
  shows "skill_effect env psv 0 0 (Some 0) [0] self_cure st = None"
proof -
  obtain h att d where m: "bs_mem st 0 = Some (self_curer h att d)" "0 \<le> h" "h \<le> 1000" using st by (auto simp: curing_def)
  have alive: "\<not> is_dead (self_curer h att d)" using m by (simp add: is_dead_def self_curer_def)
  have u: "skill_user 0 0 (Some 0) st = Some (Some 0)" using m slot0 [OF st] alive by (simp add: skill_user_def)
  have "one_target env psv c 0 (False, st) = None"
    if "c_self c = 0" "c_tside c = 0" "c_side c = 0" "c_pos c = 0" "c_skill c = self_cure" for c
  proof -
    obtain st' where st': "update 0 (\<lambda>m. m\<lparr>attacker := Some 0, attacker_skill_data := Some self_cure\<rparr>) st = Some st'" "curing env st'"
      using curing_attacked [OF st] by blast
    then obtain m' where m': "bs_mem st' 0 = Some m'" by (auto simp: curing_def)
    have "fx_cure psv (c\<lparr>c_tpos := 0, c_target := Some 0\<rparr>) [2, 10000, 0, 0] st' = None"
      using assms(1) st'(2) by (rule fx_cure_diverges) (simp_all add: that)
    then have "one_effect env psv (c\<lparr>c_tpos := 0, c_target := Some 0\<rparr>) 0 (False, st') = None"
      using m' that by (simp add: one_effect_def self_cure_sel skill_effect_cond_check_def effect_of_type_def Let_def)
    then show ?thesis using slot0 [OF st] st'(1) that by (simp add: one_target_def self_cure_sel)
  qed
  then show ?thesis using u by (simp add: skill_effect_def Let_def)
qed

lemma self_cure_ready:
  assumes "curing env st"
    and "skill_effect env psv 0 0 (Some 0) [0] self_cure st = None"
  shows "one_passive_skill_effect env psv 16 self_cure 0 tt tps st = None"
proof -
  obtain h att d where m: "bs_mem st 0 = Some (self_curer h att d)" using assms by (auto simp: curing_def)
  have t: "FindTargets 0 a b self_cure tps rs = Some ([0], False, rs)" for a b rs
    by (simp add: FindTargets_def targets_of_def self_cure_sel skill_get_force_self_targets_def)
  have "find_targets 0 tt self_cure tps st = Some ([0], False, st)"
    using m t by (simp add: find_targets_def self_curer_sel self_cure_sel)
  moreover have "can_passive_trigger 16 7 (self_curer h att d)" "\<not> is_disable_attack (self_curer h att d)"
    by (simp_all add: can_passive_trigger_def self_curer_def can_trigger_def new_trigger_def self_cure_def ready_def is_disable_attack_def)
  ultimately show ?thesis using m assms(2)
    by (simp add: one_passive_skill_effect_def self_curer_sel self_cure_sel skill_check_cond_def)
qed

section \<open>Properties\<close>






end
