(* ===== verification/Conn_Timer.thy ===== *)
theory Conn_Timer
  imports Prelude "HOL-Library.AList"
begin

text \<open>
  The wheel that logs out players who stopped sending (\<open>hall_server/conn_timer_wheel.go\<close> and the list of
  timers in \<open>hall_server/conn_timer_mgr.go\<close>). The nodes of the lists and the lists themselves live in two
  heaps, because the map of players and the slots of the wheel share them; the map of players is a list of
  pairs with different keys. The channel of operations is a queue of bounded length. Which players exist and
  the time are arguments, a logged out player is an element of the answer.
\<close>

section \<open>The list of timers\<close>

record ConnTimer =
  ct_player_id :: int
  ct_next :: "nat option"
  ct_prev :: "nat option"

record ConnTimerList =
  cl_head :: "nat option"
  cl_tail :: "nat option"

record ConnTimerPlayer =
  cp_player_id :: int
  cp_timer_list :: nat
  cp_timer :: nat

type_synonym timers = "nat \<Rightarrow> ConnTimer option"

text \<open>A field of a node that must exist; following a nil pointer panics.\<close>

definition set_next :: "nat \<Rightarrow> nat option \<Rightarrow> timers \<Rightarrow> timers option" where
  "set_next t q h = map_option (\<lambda>n. h(t \<mapsto> n\<lparr>ct_next := q\<rparr>)) (h t)"

definition set_prev :: "nat \<Rightarrow> nat option \<Rightarrow> timers \<Rightarrow> timers option" where
  "set_prev t q h = map_option (\<lambda>n. h(t \<mapsto> n\<lparr>ct_prev := q\<rparr>)) (h t)"

definition list_add ::
    "nat \<Rightarrow> int \<Rightarrow> ConnTimerList \<Rightarrow> timers \<Rightarrow> (ConnTimerList \<times> timers) option" where
  "list_add t player_id l h =
     (let node = \<lparr>ct_player_id = player_id, ct_next = None, ct_prev = None\<rparr> in
      if cl_head l = None then Some (\<lparr>cl_head = Some t, cl_tail = Some t\<rparr>, h(t \<mapsto> node))
      else case cl_tail l of
          None \<Rightarrow> None
        | Some u \<Rightarrow> do {
            h' \<leftarrow> set_next u (Some t) (h(t \<mapsto> node\<lparr>ct_prev := Some u\<rparr>));
            Some (l\<lparr>cl_tail := Some t\<rparr>, h')
          })"

definition list_remove ::
    "nat \<Rightarrow> ConnTimerList \<Rightarrow> timers \<Rightarrow> (ConnTimerList \<times> timers) option" where
  "list_remove t l h = do {
     n \<leftarrow> h t;
     h \<leftarrow> (case ct_prev n of None \<Rightarrow> Some h | Some p \<Rightarrow> set_next p (ct_next n) h);
     n \<leftarrow> h t;
     h \<leftarrow> (case ct_next n of None \<Rightarrow> Some h | Some q \<Rightarrow> set_prev q (ct_prev n) h);
     n \<leftarrow> h t;
     let l = (if cl_head l = Some t then l\<lparr>cl_head := ct_next n\<rparr> else l);
     let l = (if cl_tail l = Some t then l\<lparr>cl_tail := ct_prev n\<rparr> else l);
     Some (l, h)
   }"

section \<open>The wheel\<close>

datatype conn_op = OpInsert int | OpRemove int

record ConnTimerWheel =
  cw_timers :: timers
  cw_next_timer :: nat
  cw_lists :: "nat \<Rightarrow> ConnTimerList option"
  cw_next_list :: nat
  timer_lists :: "nat option list"
  curr_timer_index :: int
  last_check_time :: int
  last_players_num :: int
  cw_players :: "(int \<times> ConnTimerPlayer) list"
  op_chan :: "conn_op list"

text \<open>\<open>H\<close> is the heart beat interval; \<open>make\<close> panics for a negative length.\<close>

definition wheel_Init :: "int \<Rightarrow> ConnTimerWheel option" where
  "wheel_Init H =
     (if i32 (H * 3) < 0 then None
      else Some \<lparr>cw_timers = Map.empty, cw_next_timer = 0, cw_lists = Map.empty, cw_next_list = 0,
        timer_lists = replicate (nat (i32 (H * 3))) None, curr_timer_index = - 1, last_check_time = 0,
        last_players_num = 0, cw_players = [], op_chan = []\<rparr>)"

text \<open>Sending on the channel waits while it is full: \<open>None\<close> until a receiver makes room.\<close>

definition wheel_send :: "nat \<Rightarrow> conn_op \<Rightarrow> ConnTimerWheel \<Rightarrow> ConnTimerWheel option" where
  "wheel_send cap op w =
     (if length (op_chan w) < cap then Some (w\<lparr>op_chan := op_chan w @ [op]\<rparr>) else None)"

definition wheel_Insert :: "nat \<Rightarrow> int \<Rightarrow> ConnTimerWheel \<Rightarrow> ConnTimerWheel option" where
  "wheel_Insert cap player_id = wheel_send cap (OpInsert player_id)"

definition wheel_Remove :: "nat \<Rightarrow> int \<Rightarrow> ConnTimerWheel \<Rightarrow> ConnTimerWheel option" where
  "wheel_Remove cap player_id = wheel_send cap (OpRemove player_id)"

definition wheel_remove_timer :: "ConnTimerPlayer \<Rightarrow> ConnTimerWheel \<Rightarrow> ConnTimerWheel option" where
  "wheel_remove_timer p w = do {
     l \<leftarrow> cw_lists w (cp_timer_list p);
     (l', h') \<leftarrow> list_remove (cp_timer p) l (cw_timers w);
     Some (w\<lparr>cw_timers := h', cw_lists := (cw_lists w)(cp_timer_list p \<mapsto> l'),
       cw_players := AList.delete (cp_player_id p) (cw_players w)\<rparr>)
   }"

definition wheel_remove :: "int \<Rightarrow> ConnTimerWheel \<Rightarrow> (ConnTimerWheel \<times> bool) option" where
  "wheel_remove player_id w =
     (case map_of (cw_players w) player_id of
        None \<Rightarrow> Some (w, False)
      | Some p \<Rightarrow> map_option (\<lambda>w'. (w', True)) (wheel_remove_timer p w))"

text \<open>The list of a slot, made on its first use.\<close>

definition slot_list :: "nat \<Rightarrow> ConnTimerWheel \<Rightarrow> nat \<times> ConnTimerWheel" where
  "slot_list i w =
     (case timer_lists w ! i of
        Some a \<Rightarrow> (a, w)
      | None \<Rightarrow> (cw_next_list w,
          w\<lparr>cw_lists := (cw_lists w)(cw_next_list w \<mapsto> \<lparr>cl_head = None, cl_tail = None\<rparr>),
            cw_next_list := Suc (cw_next_list w),
            timer_lists := (timer_lists w)[i := Some (cw_next_list w)]\<rparr>))"

definition wheel_add :: "int \<Rightarrow> nat \<Rightarrow> ConnTimerWheel \<Rightarrow> ConnTimerWheel option" where
  "wheel_add player_id i w0 =
     (let (a, w) = slot_list i w0; t = cw_next_timer w in
      do {
        l \<leftarrow> cw_lists w a;
        (l', h') \<leftarrow> list_add t player_id l (cw_timers w);
        Some (w\<lparr>cw_timers := h', cw_next_timer := Suc t, cw_lists := (cw_lists w)(a \<mapsto> l'),
          cw_players := AList.update player_id
            \<lparr>cp_player_id = player_id, cp_timer_list = a, cp_timer = t\<rparr> (cw_players w)\<rparr>)
      })"

definition wheel_insert :: "int \<Rightarrow> int \<Rightarrow> ConnTimerWheel \<Rightarrow> ConnTimerWheel option" where
  "wheel_insert H player_id w0 = do {
     w \<leftarrow> (case map_of (cw_players w0) player_id of
             None \<Rightarrow> Some w0
           | Some p \<Rightarrow> wheel_remove_timer p w0);
     let n = int (length (timer_lists w));
     if n = 0 then None
     else (let i = go_mod (i32 (curr_timer_index w + H)) n in
           if i < 0 then None else wheel_add player_id (nat i) w)
   }"

definition wheel_op :: "int \<Rightarrow> conn_op \<Rightarrow> ConnTimerWheel \<Rightarrow> ConnTimerWheel option" where
  "wheel_op H op w =
     (case op of
        OpInsert player_id \<Rightarrow> wheel_insert H player_id w
      | OpRemove player_id \<Rightarrow> map_option fst (wheel_remove player_id w))"

text \<open>The first loop of \<open>Run\<close> receives until the channel is empty.\<close>

definition wheel_drain :: "int \<Rightarrow> ConnTimerWheel \<Rightarrow> ConnTimerWheel option" where
  "wheel_drain H w = for_each (wheel_op H) (op_chan w) (w\<lparr>op_chan := []\<rparr>)"

text \<open>The timers of one slot; \<open>known\<close> says which players the player manager has.\<close>

partial_function (option) expire_list ::
    "(int \<Rightarrow> bool) \<Rightarrow> nat option \<Rightarrow> ConnTimerWheel \<times> int list \<Rightarrow> (ConnTimerWheel \<times> int list) option" where
  "expire_list known t s =
     (case t of
        None \<Rightarrow> Some s
      | Some a \<Rightarrow> (case cw_timers (fst s) a of
            None \<Rightarrow> None
          | Some n \<Rightarrow>
              (if known (ct_player_id n)
               then Option.bind (wheel_remove (ct_player_id n) (fst s)) (\<lambda>r.
                 Option.bind (cw_timers (fst r) a) (\<lambda>n'.
                   expire_list known (ct_next n') (fst r, snd s @ [ct_player_id n])))
               else expire_list known (ct_next n) s)))"

definition expire_slot ::
    "(int \<Rightarrow> bool) \<Rightarrow> nat \<Rightarrow> ConnTimerWheel \<times> int list \<Rightarrow> (ConnTimerWheel \<times> int list) option" where
  "expire_slot known i s =
     (case timer_lists (fst s) ! i of
        None \<Rightarrow> Some s
      | Some a \<Rightarrow> do {
          l \<leftarrow> cw_lists (fst s) a;
          (w, out) \<leftarrow> expire_list known (cl_head l) s;
          Some (w\<lparr>timer_lists := (timer_lists w)[i := None]\<rparr>, out)
        })"

partial_function (option) expire_slots ::
    "(int \<Rightarrow> bool) \<Rightarrow> int \<Rightarrow> int \<Rightarrow> ConnTimerWheel \<times> int list \<Rightarrow> (ConnTimerWheel \<times> int list) option" where
  "expire_slots known i idx s =
     (if i < 0 \<or> int (length (timer_lists (fst s))) \<le> i then None
      else Option.bind (expire_slot known (nat i) s) (\<lambda>s'.
        if i = idx then Some s'
        else expire_slots known (go_mod (i32 (i + 1)) (int (length (timer_lists (fst s))))) idx s'))"

text \<open>The slot the hand stops at.\<close>

definition stop_index :: "int \<Rightarrow> int \<Rightarrow> int \<Rightarrow> int" where
  "stop_index n cur diff =
     (if n \<le> diff then (if 0 < cur then cur - 1 else n - 1) else go_mod (i32 (cur + diff)) n)"

definition wheel_check ::
    "(int \<Rightarrow> bool) \<Rightarrow> int \<Rightarrow> ConnTimerWheel \<Rightarrow> (ConnTimerWheel \<times> int list) option" where
  "wheel_check known now w0 =
     (let w = (if last_check_time w0 = 0 then w0\<lparr>last_check_time := now\<rparr> else w0);
          diff = i32 (now - last_check_time w);
          n = int (length (timer_lists w)) in
      if diff \<le> 0 then Some (w, [])
      else if n = 0 then None
      else (let idx = stop_index n (curr_timer_index w) diff in
        do {
          (w', out) \<leftarrow> expire_slots known (go_mod (i32 (curr_timer_index w + 1)) n) idx (w, []);
          Some (w'\<lparr>curr_timer_index := idx, last_check_time := now\<rparr>, out)
        }))"

text \<open>One round of the loop of \<open>Run\<close>, with the players it logs out in their order.\<close>

definition wheel_round ::
    "int \<Rightarrow> (int \<Rightarrow> bool) \<Rightarrow> int \<Rightarrow> ConnTimerWheel \<Rightarrow> (ConnTimerWheel \<times> int list) option" where
  "wheel_round H known now w0 = do {
     w \<leftarrow> wheel_drain H w0;
     (w', out) \<leftarrow> wheel_check known now w;
     Some (w'\<lparr>last_players_num := int (length (cw_players w'))\<rparr>, out)
   }"

definition GetCurrPlayerNum :: "ConnTimerWheel \<Rightarrow> int" where
  "GetCurrPlayerNum w = last_players_num w"

end
