(* ===== verification/Conn_Timer_Correct.thy ===== *)
theory Conn_Timer_Correct
  imports Conn_Timer
begin

text \<open>
  The timer wheel keeps its representation invariant and implements a map from players to the seconds they
  have left. First the doubly linked lists, then the heap of lists, then the wheel.
\<close>

section \<open>Doubly linked lists\<close>

fun first_or :: "'a list \<Rightarrow> 'a option \<Rightarrow> 'a option" where
  "first_or [] q = q"
| "first_or (x # xs) q = Some x"

fun last_or :: "'a option \<Rightarrow> 'a list \<Rightarrow> 'a option" where
  "last_or p [] = p"
| "last_or p (x # xs) = last_or (Some x) xs"

fun dseg :: "timers \<Rightarrow> nat option \<Rightarrow> nat list \<Rightarrow> nat option \<Rightarrow> bool" where
  "dseg h p [] q = True"
| "dseg h p (t # ts) q =
     (\<exists>n. h t = Some n \<and> ct_prev n = p \<and> ct_next n = first_or ts q \<and> dseg h (Some t) ts q)"

definition dlist :: "timers \<Rightarrow> ConnTimerList \<Rightarrow> nat list \<Rightarrow> bool" where
  "dlist h l ts \<longleftrightarrow> distinct ts \<and> dseg h None ts None
     \<and> cl_head l = first_or ts None \<and> cl_tail l = last_or None ts"

lemma first_or_append [simp]: "first_or (xs @ ys) q = first_or xs (first_or ys q)"
  by (cases xs) simp_all

lemma last_or_append [simp]: "last_or p (xs @ ys) = last_or (last_or p xs) ys"
  by (induction xs arbitrary: p) simp_all

lemma first_or_in: "first_or xs None = Some x \<Longrightarrow> x \<in> set xs"
  by (cases xs) simp_all

lemma first_or_eq_None [simp]: "first_or xs None = None \<longleftrightarrow> xs = []"
  by (cases xs) simp_all

lemma first_or_Some [simp]: "first_or xs (Some y) \<noteq> None"
  by (cases xs) simp_all

lemma last_or_snoc: "xs \<noteq> [] \<Longrightarrow> last_or p xs = Some (last xs)"
  by (induction xs arbitrary: p) auto

lemma dseg_append [simp]:
  "dseg h p (xs @ ys) q \<longleftrightarrow> dseg h p xs (first_or ys q) \<and> dseg h (last_or p xs) ys q"
  by (induction xs arbitrary: p) auto

lemma dseg_cong:
  assumes "dseg h p ts q" and "\<And>t. t \<in> set ts \<Longrightarrow> h' t = h t"
  shows "dseg h' p ts q"
  using assms by (induction ts arbitrary: p) auto

lemma dseg_node: "dseg h p ts q \<Longrightarrow> t \<in> set ts \<Longrightarrow> h t \<noteq> None"
  by (induction ts arbitrary: p) auto

text \<open>Redirecting the two ends of a segment.\<close>

lemma dseg_set_next:
  assumes "dseg h p (xs @ [u]) q" and "distinct (xs @ [u])"
  shows "\<exists>h'. set_next u q' h = Some h' \<and> dseg h' p (xs @ [u]) q'"
proof -
  from assms obtain n where n: "h u = Some n" "ct_prev n = last_or p xs" by auto
  define h' where "h' = h(u \<mapsto> n\<lparr>ct_next := q'\<rparr>)"
  have "dseg h' p xs (Some u)" "dseg h' (last_or p xs) [u] q'"
    using assms n by (auto simp: h'_def intro: dseg_cong [of h])
  with n show ?thesis by (auto simp: set_next_def h'_def)
qed

lemma dseg_set_prev:
  assumes "dseg h p (u # xs) q" and "distinct (u # xs)"
  shows "\<exists>h'. set_prev u p' h = Some h' \<and> dseg h' p' (u # xs) q"
proof -
  from assms obtain n where n: "h u = Some n" "ct_next n = first_or xs q" "dseg h (Some u) xs q"
    by auto
  define h' where "h' = h(u \<mapsto> n\<lparr>ct_prev := p'\<rparr>)"
  have "dseg h' (Some u) xs q"
    using n(3) assms(2) by (auto simp: h'_def intro: dseg_cong [of h])
  with n show ?thesis by (auto simp: set_prev_def h'_def)
qed

text \<open>Outside a list of addresses a heap is unchanged, and no node changes its player.\<close>

definition touches :: "nat set \<Rightarrow> timers \<Rightarrow> timers \<Rightarrow> bool" where
  "touches A h h' \<longleftrightarrow> (\<forall>t. t \<notin> A \<longrightarrow> h' t = h t)
     \<and> (\<forall>t. map_option ct_player_id (h' t) = map_option ct_player_id (h t))"

lemma touches_refl [simp]: "touches A h h"
  by (simp add: touches_def)

lemma touches_trans: "touches A h h1 \<Longrightarrow> touches A h1 h2 \<Longrightarrow> touches A h h2"
  by (simp add: touches_def)

lemma touches_set_next: "set_next t q h = Some h' \<Longrightarrow> t \<in> A \<Longrightarrow> touches A h h'"
  by (auto simp: touches_def set_next_def)

lemma touches_set_prev: "set_prev t q h = Some h' \<Longrightarrow> t \<in> A \<Longrightarrow> touches A h h'"
  by (auto simp: touches_def set_prev_def)

lemma touches_dseg: "touches A h h' \<Longrightarrow> dseg h p ts q \<Longrightarrow> set ts \<inter> A = {} \<Longrightarrow> dseg h' p ts q"
  by (erule dseg_cong) (auto simp: touches_def)

lemma touches_dlist: "touches A h h' \<Longrightarrow> dlist h l ts \<Longrightarrow> set ts \<inter> A = {} \<Longrightarrow> dlist h' l ts"
  by (auto simp: dlist_def intro: touches_dseg)

lemma dlist_cong: "dlist h l ts \<Longrightarrow> (\<And>t. t \<in> set ts \<Longrightarrow> h' t = h t) \<Longrightarrow> dlist h' l ts"
  by (auto simp: dlist_def intro: dseg_cong)

lemma list_add_correct:
  assumes "dlist h l ts" and "h t = None"
  shows "\<exists>l' h'. list_add t player l h = Some (l', h') \<and> dlist h' l' (ts @ [t])
    \<and> map_option ct_player_id (h' t) = Some player \<and> touches (set ts) (h(t := h' t)) h'"
proof (cases ts rule: rev_cases)
  case Nil
  with assms show ?thesis by (auto simp: list_add_def dlist_def touches_def)
next
  case (snoc us u)
  define n where "n = \<lparr>ct_player_id = player, ct_next = None, ct_prev = Some u\<rparr>"
  define h1 where "h1 = h(t \<mapsto> n)"
  have seg: "dseg h None ts None" and dist: "distinct ts" using assms by (auto simp: dlist_def)
  have new: "t \<notin> set ts" using dseg_node [OF seg] assms(2) by blast
  have "dseg h1 None (us @ [u]) None"
    using seg new by (auto simp: h1_def snoc intro: dseg_cong [of h])
  then obtain h' where h': "set_next u (Some t) h1 = Some h'" "dseg h' None (us @ [u]) (Some t)"
    using dseg_set_next [of h1 None us u None "Some t"] dist snoc by auto
  have ht: "h' t = Some n" using h'(1) new by (auto simp: set_next_def h1_def snoc)
  have "touches (set ts) h1 h'" using h'(1) by (auto intro: touches_set_next simp: snoc)
  moreover have "h1 = h(t := h' t)" by (simp add: h1_def ht)
  moreover have "dlist h' (l\<lparr>cl_tail := Some t\<rparr>) (ts @ [t])"
    using h'(2) ht dist new assms(1) by (auto simp: dlist_def snoc n_def)
  moreover have "list_add t player l h = Some (l\<lparr>cl_tail := Some t\<rparr>, h')"
    using assms(1) h'(1) by (simp add: list_add_def dlist_def snoc h1_def n_def Let_def)
  ultimately show ?thesis by (auto simp: ht n_def)
qed

lemma list_remove_correct:
  assumes "dlist h l ts" and "t \<in> set ts"
  shows "\<exists>l' h'. list_remove t l h = Some (l', h') \<and> dlist h' l' (remove1 t ts)
    \<and> touches (set ts) h h' \<and> h' t = h t"
proof -
  obtain xs ys where ts: "ts = xs @ t # ys" using assms(2) by (auto simp: in_set_conv_decomp)
  have seg: "dseg h None ts None" and dist: "distinct ts" using assms by (auto simp: dlist_def)
  then obtain n where n: "h t = Some n" "ct_prev n = last_or None xs" "ct_next n = first_or ys None"
    by (auto simp: ts)
  have "\<exists>h1. (case ct_prev n of None \<Rightarrow> Some h | Some p \<Rightarrow> set_next p (ct_next n) h) = Some h1
    \<and> dseg h1 None xs (first_or ys None) \<and> dseg h1 (Some t) ys None \<and> touches (set xs) h h1"
  proof (cases xs rule: rev_cases)
    case Nil
    with seg n show ?thesis by (auto simp: ts)
  next
    case (snoc us u)
    obtain h1 where h1: "set_next u (first_or ys None) h = Some h1" "dseg h1 None (us @ [u]) (first_or ys None)"
      using dseg_set_next [of h None us u "Some t" "first_or ys None"] seg dist by (auto simp: ts snoc)
    have "touches (set xs) h h1" using h1(1) by (auto intro: touches_set_next simp: snoc)
    moreover have "dseg h1 (Some t) ys None"
      using touches_dseg [OF \<open>touches (set xs) h h1\<close>, of "Some t" ys None] seg dist by (auto simp: ts)
    ultimately show ?thesis using h1 n by (auto simp: snoc)
  qed
  then obtain h1 where h1: "(case ct_prev n of None \<Rightarrow> Some h | Some p \<Rightarrow> set_next p (ct_next n) h) = Some h1"
    "dseg h1 None xs (first_or ys None)" "dseg h1 (Some t) ys None" "touches (set xs) h h1" by blast
  have "\<exists>h2. (case ct_next n of None \<Rightarrow> Some h1 | Some q \<Rightarrow> set_prev q (ct_prev n) h1) = Some h2
    \<and> dseg h2 None xs (first_or ys None) \<and> dseg h2 (last_or None xs) ys None \<and> touches (set ys) h1 h2"
  proof (cases ys)
    case Nil
    with h1 n show ?thesis by auto
  next
    case (Cons v vs)
    obtain h2 where h2: "set_prev v (last_or None xs) h1 = Some h2" "dseg h2 (last_or None xs) ys None"
      using dseg_set_prev [of h1 "Some t" v vs None "last_or None xs"] h1(3) dist by (auto simp: ts Cons)
    have "touches (set ys) h1 h2" using h2(1) by (auto intro: touches_set_prev simp: Cons)
    moreover have "dseg h2 None xs (first_or ys None)"
      using touches_dseg [OF \<open>touches (set ys) h1 h2\<close> h1(2)] dist by (auto simp: ts)
    ultimately show ?thesis using h2 n by (auto simp: Cons)
  qed
  then obtain h2 where h2: "(case ct_next n of None \<Rightarrow> Some h1 | Some q \<Rightarrow> set_prev q (ct_prev n) h1) = Some h2"
    "dseg h2 None xs (first_or ys None)" "dseg h2 (last_or None xs) ys None" "touches (set ys) h1 h2" by blast
  have t1: "h1 t = Some n" using h1(4) dist n(1) by (simp add: touches_def ts)
  then have t2: "h2 t = Some n" using h2(4) dist by (simp add: touches_def ts)
  define l' where "l' = (let l = (if cl_head l = Some t then l\<lparr>cl_head := ct_next n\<rparr> else l)
    in if cl_tail l = Some t then l\<lparr>cl_tail := ct_prev n\<rparr> else l)"
  have res: "list_remove t l h = Some (l', h2)"
    unfolding list_remove_def n(1) bind.bind_lunit h1(1) t1 h2(1) t2 Let_def l'_def by (simp add: Let_def)
  have "cl_head l = first_or ts None" "cl_tail l = last_or None ts" using assms(1) by (simp_all add: dlist_def)
  moreover have "first_or xs (Some t) = Some t \<longleftrightarrow> xs = []" using dist by (cases xs) (auto simp: ts)
  moreover have "last_or (Some t) ys = Some t \<longleftrightarrow> ys = []" using dist by (cases "ys = []") (auto simp: ts last_or_snoc)
  moreover have "ys \<noteq> [] \<Longrightarrow> last_or (last_or None xs) ys = last_or (Some t) ys" by (simp add: last_or_snoc)
  moreover have "xs \<noteq> [] \<Longrightarrow> first_or xs (first_or ys None) = first_or xs (Some t)" by (cases xs) simp_all
  ultimately have "cl_head l' = first_or (xs @ ys) None" "cl_tail l' = last_or None (xs @ ys)"
    using n by (auto simp: l'_def Let_def ts)
  with h2 dist have "dlist h2 l' (xs @ ys)" by (simp add: dlist_def ts)
  moreover have "remove1 t ts = xs @ ys" using dist by (simp add: ts remove1_append)
  moreover have "touches (set ts) h h2" using h1(4) h2(4) by (auto simp: touches_def ts)
  ultimately show ?thesis using res n(1) t2 by auto
qed

section \<open>The wheel as a heap of lists\<close>

text \<open>\<open>L a\<close> are the addresses of the timers in the list at \<open>a\<close>.\<close>

definition of_player :: "timers \<Rightarrow> nat \<Rightarrow> int option" where
  "of_player h t = map_option ct_player_id (h t)"

definition lists_rep :: "ConnTimerWheel \<Rightarrow> (nat \<Rightarrow> nat list) \<Rightarrow> bool" where
  "lists_rep w L \<longleftrightarrow>
     (\<forall>a l. cw_lists w a = Some l \<longrightarrow> dlist (cw_timers w) l (L a) \<and> a < cw_next_list w)
     \<and> (\<forall>a. cw_lists w a = None \<longrightarrow> L a = [])
     \<and> (\<forall>a b. a \<noteq> b \<longrightarrow> set (L a) \<inter> set (L b) = {})
     \<and> (\<forall>t. cw_timers w t \<noteq> None \<longrightarrow> t < cw_next_timer w)"

definition players_rep :: "ConnTimerWheel \<Rightarrow> (nat \<Rightarrow> nat list) \<Rightarrow> bool" where
  "players_rep w L \<longleftrightarrow> distinct (map fst (cw_players w))
     \<and> (\<forall>q p. map_of (cw_players w) q = Some p \<longleftrightarrow>
          q = cp_player_id p \<and> cp_timer p \<in> set (L (cp_timer_list p))
          \<and> of_player (cw_timers w) (cp_timer p) = Some q)"

definition slots_rep :: "ConnTimerWheel \<Rightarrow> bool" where
  "slots_rep w \<longleftrightarrow>
     (\<forall>i a. i < length (timer_lists w) \<longrightarrow> timer_lists w ! i = Some a \<longrightarrow> cw_lists w a \<noteq> None)
     \<and> (\<forall>i j a. i < length (timer_lists w) \<longrightarrow> j < length (timer_lists w) \<longrightarrow>
          timer_lists w ! i = Some a \<longrightarrow> timer_lists w ! j = Some a \<longrightarrow> i = j)"

definition wheel_rep :: "ConnTimerWheel \<Rightarrow> (nat \<Rightarrow> nat list) \<Rightarrow> bool" where
  "wheel_rep w L \<longleftrightarrow> lists_rep w L \<and> players_rep w L \<and> slots_rep w"

lemma wheel_repI: "lists_rep w L \<Longrightarrow> players_rep w L \<Longrightarrow> slots_rep w \<Longrightarrow> wheel_rep w L"
  by (simp add: wheel_rep_def)

lemma wheel_repD:
  assumes "wheel_rep w L"
  shows "lists_rep w L" "players_rep w L" "slots_rep w"
  using assms by (simp_all add: wheel_rep_def)

lemma lists_repD:
  assumes "lists_rep w L"
  shows "cw_lists w a = Some l \<Longrightarrow> dlist (cw_timers w) l (L a)"
    and "cw_lists w a = Some l \<Longrightarrow> a < cw_next_list w"
    and "t \<in> set (L a) \<Longrightarrow> \<exists>l. cw_lists w a = Some l"
    and "t \<in> set (L a) \<Longrightarrow> t \<in> set (L b) \<Longrightarrow> a = b"
    and "cw_timers w t \<noteq> None \<Longrightarrow> t < cw_next_timer w"
proof -
  show "cw_lists w a = Some l \<Longrightarrow> dlist (cw_timers w) l (L a)"
    and "cw_lists w a = Some l \<Longrightarrow> a < cw_next_list w"
    and "cw_timers w t \<noteq> None \<Longrightarrow> t < cw_next_timer w"
    using assms by (auto simp: lists_rep_def)
  show "t \<in> set (L a) \<Longrightarrow> \<exists>l. cw_lists w a = Some l"
    using assms by (cases "cw_lists w a") (auto simp: lists_rep_def)
  show "t \<in> set (L a) \<Longrightarrow> t \<in> set (L b) \<Longrightarrow> a = b"
    using assms unfolding lists_rep_def by blast
qed

lemma lists_rep_node: "lists_rep w L \<Longrightarrow> t \<in> set (L a) \<Longrightarrow> \<exists>n. cw_timers w t = Some n"
  using lists_repD(1,3) [of w L] unfolding dlist_def by (metis dseg_node option.exhaust)

lemma players_repD:
  assumes "players_rep w L"
  shows "map_of (cw_players w) q = Some p \<Longrightarrow> cp_player_id p = q"
    and "map_of (cw_players w) q = Some p \<Longrightarrow> cp_timer p \<in> set (L (cp_timer_list p))"
    and "map_of (cw_players w) q = Some p \<Longrightarrow> of_player (cw_timers w) (cp_timer p) = Some q"
    and "t \<in> set (L a) \<Longrightarrow> of_player (cw_timers w) t = Some q \<Longrightarrow>
      map_of (cw_players w) q = Some \<lparr>cp_player_id = q, cp_timer_list = a, cp_timer = t\<rparr>"
    and "distinct (map fst (cw_players w))"
  using assms by (auto simp: players_rep_def)

lemma slots_repD:
  assumes "slots_rep w" and "i < length (timer_lists w)" and "timer_lists w ! i = Some a"
  shows "cw_lists w a \<noteq> None"
    and "j < length (timer_lists w) \<Longrightarrow> timer_lists w ! j = Some a \<Longrightarrow> i = j"
  using assms unfolding slots_rep_def by blast+

text \<open>What the operations leave alone.\<close>

definition same_hand :: "ConnTimerWheel \<Rightarrow> ConnTimerWheel \<Rightarrow> bool" where
  "same_hand w w' \<longleftrightarrow> curr_timer_index w' = curr_timer_index w \<and> last_check_time w' = last_check_time w
     \<and> last_players_num w' = last_players_num w \<and> op_chan w' = op_chan w
     \<and> length (timer_lists w') = length (timer_lists w)"

lemma same_handD:
  assumes "same_hand w w'"
  shows "curr_timer_index w' = curr_timer_index w" "last_check_time w' = last_check_time w"
    "last_players_num w' = last_players_num w" "op_chan w' = op_chan w"
    "length (timer_lists w') = length (timer_lists w)"
  using assms by (simp_all add: same_hand_def)

lemma same_hand_refl [simp]: "same_hand w w"
  by (simp add: same_hand_def)

lemma same_hand_trans: "same_hand w w1 \<Longrightarrow> same_hand w1 w2 \<Longrightarrow> same_hand w w2"
  by (simp add: same_hand_def)

lemma remove_timer_rep:
  assumes rep: "wheel_rep w L" and p: "map_of (cw_players w) q = Some p"
  defines "a \<equiv> cp_timer_list p" and "t \<equiv> cp_timer p"
  shows "\<exists>w'. wheel_remove_timer p w = Some w' \<and> wheel_rep w' (L(a := remove1 t (L a)))
    \<and> map_of (cw_players w') = (map_of (cw_players w))(q := None)
    \<and> cw_timers w' t = cw_timers w t \<and> of_player (cw_timers w') = of_player (cw_timers w)
    \<and> timer_lists w' = timer_lists w \<and> same_hand w w'"
proof -
  note lr = wheel_repD(1) [OF rep] and pr = wheel_repD(2) [OF rep]
  have id: "cp_player_id p = q" and t: "t \<in> set (L a)" and tq: "of_player (cw_timers w) t = Some q"
    using players_repD(1-3) [OF pr p] by (simp_all add: a_def t_def)
  obtain l where l: "cw_lists w a = Some l" using lists_repD(3) [OF lr t] by blast
  obtain l' h' where r: "list_remove t l (cw_timers w) = Some (l', h')" "dlist h' l' (remove1 t (L a))"
    "touches (set (L a)) (cw_timers w) h'" "h' t = cw_timers w t"
    using list_remove_correct [OF lists_repD(1) [OF lr l] t] by blast
  define w' where "w' = w\<lparr>cw_timers := h', cw_lists := (cw_lists w)(a \<mapsto> l'),
    cw_players := AList.delete q (cw_players w)\<rparr>"
  define L' where "L' = L(a := remove1 t (L a))"
  have dist: "distinct (L a)" using lists_repD(1) [OF lr l] by (simp add: dlist_def)
  have ids: "of_player h' = of_player (cw_timers w)" using r(3) by (simp add: touches_def of_player_def fun_eq_iff)
  have sub: "set (L' b) \<subseteq> set (L b)" for b by (simp add: L'_def set_remove1_subset)
  have other: "dlist h' lb (L b)" if "cw_lists w b = Some lb" "b \<noteq> a" for b lb
    using touches_dlist [OF r(3) lists_repD(1) [OF lr that(1)]] lists_repD(4) [OF lr] that(2) by blast
  have dom: "h' u \<noteq> None \<Longrightarrow> cw_timers w u \<noteq> None" for u
    using fun_cong [OF ids, of u] by (cases "cw_timers w u") (auto simp: of_player_def)
  have "lists_rep w' L'"
    unfolding lists_rep_def
  proof (intro conjI allI impI)
    fix b lb assume b: "cw_lists w' b = Some lb"
    show "dlist (cw_timers w') lb (L' b)"
      using b r(2) other by (cases "b = a") (auto simp: w'_def L'_def)
    show "b < cw_next_list w'"
      using b lists_repD(2) [OF lr] l by (cases "b = a") (auto simp: w'_def)
  next
    fix b assume "cw_lists w' b = None"
    then have "cw_lists w b = None" "b \<noteq> a" by (auto simp: w'_def split: if_splits)
    then show "L' b = []" using lr by (simp add: L'_def lists_rep_def)
  next
    fix b c :: nat assume "b \<noteq> c"
    then have "set (L b) \<inter> set (L c) = {}" using lr by (simp add: lists_rep_def)
    then show "set (L' b) \<inter> set (L' c) = {}" using sub [of b] sub [of c] by blast
  next
    fix u assume "cw_timers w' u \<noteq> None"
    then show "u < cw_next_timer w'" using dom lists_repD(5) [OF lr] by (simp add: w'_def)
  qed
  moreover have "players_rep w' L'"
    unfolding players_rep_def
  proof (intro conjI allI)
    show "distinct (map fst (cw_players w'))"
      using players_repD(5) [OF pr] by (simp add: w'_def distinct_delete)
    fix x and px :: ConnTimerPlayer
    have mem: "u \<in> set (L' b) \<longleftrightarrow> u \<in> set (L b) \<and> \<not> (b = a \<and> u = t)" for u b
      using dist by (auto simp: L'_def)
    have uniq: "cp_player_id px = q \<Longrightarrow> cp_timer px \<in> set (L (cp_timer_list px)) \<Longrightarrow>
      of_player (cw_timers w) (cp_timer px) = Some q \<Longrightarrow> cp_timer_list px = a \<and> cp_timer px = t"
      using players_repD(4) [OF pr, of "cp_timer px" "cp_timer_list px" q] p by (auto simp: a_def t_def)
    show "map_of (cw_players w') x = Some px \<longleftrightarrow> x = cp_player_id px
      \<and> cp_timer px \<in> set (L' (cp_timer_list px)) \<and> of_player (cw_timers w') (cp_timer px) = Some x"
    proof (cases "x = q")
      case True
      then show ?thesis using uniq by (auto simp: w'_def delete_conv' mem ids)
    next
      case False
      then show ?thesis using pr tq by (auto simp: w'_def delete_conv' mem ids players_rep_def)
    qed
  qed
  moreover have "slots_rep w'" using wheel_repD(3) [OF rep] by (auto simp: slots_rep_def w'_def)
  ultimately have "wheel_rep w' L'" by (rule wheel_repI)
  moreover have "wheel_remove_timer p w = Some w'"
    using l r(1) by (simp add: wheel_remove_timer_def w'_def id a_def t_def)
  moreover have "map_of (cw_players w') = (map_of (cw_players w))(q := None)" by (simp add: w'_def delete_conv')
  moreover have "cw_timers w' t = cw_timers w t" "of_player (cw_timers w') = of_player (cw_timers w)"
    "timer_lists w' = timer_lists w" "same_hand w w'"
    using r(4) ids by (simp_all add: w'_def same_hand_def)
  ultimately show ?thesis unfolding L'_def by blast
qed

text \<open>A slot gets its list.\<close>

lemma slot_list_rep:
  assumes rep: "wheel_rep w L" and i: "i < length (timer_lists w)"
  shows "\<exists>a w1. slot_list i w = (a, w1) \<and> wheel_rep w1 L \<and> cw_lists w1 a \<noteq> None
    \<and> timer_lists w1 = (timer_lists w)[i := Some a] \<and> (timer_lists w ! i = Some a \<or> timer_lists w ! i = None \<and> cw_lists w a = None)
    \<and> cw_players w1 = cw_players w \<and> cw_timers w1 = cw_timers w \<and> same_hand w w1"
proof (cases "timer_lists w ! i")
  case (Some a)
  then have "slot_list i w = (a, w)" by (simp add: slot_list_def)
  moreover have "cw_lists w a \<noteq> None" using rep i Some by (auto simp: wheel_rep_def slots_rep_def)
  moreover have "timer_lists w = (timer_lists w)[i := Some a]" using Some i by (metis list_update_id)
  ultimately show ?thesis using rep Some by auto
next
  case None
  define a where "a = cw_next_list w"
  define w1 where "w1 = w\<lparr>cw_lists := (cw_lists w)(a \<mapsto> \<lparr>cl_head = None, cl_tail = None\<rparr>),
    cw_next_list := Suc a, timer_lists := (timer_lists w)[i := Some a]\<rparr>"
  note lr = wheel_repD(1) [OF rep] and pr = wheel_repD(2) [OF rep] and sr = wheel_repD(3) [OF rep]
  have fresh: "cw_lists w a = None"
    using lists_repD(2) [OF lr, of a] by (cases "cw_lists w a") (auto simp: a_def)
  then have La: "L a = []" using lr by (simp add: lists_rep_def)
  have "lists_rep w1 L"
    using lr La by (auto simp: lists_rep_def w1_def a_def dlist_def less_SucI)
  moreover have "players_rep w1 L" using pr by (simp add: players_rep_def w1_def)
  moreover have "slots_rep w1"
    using sr i fresh by (auto simp: slots_rep_def w1_def nth_list_update)
  ultimately have "wheel_rep w1 L" by (rule wheel_repI)
  moreover have "slot_list i w = (a, w1)" using None by (simp add: slot_list_def w1_def a_def)
  moreover have "cw_lists w1 a \<noteq> None" "timer_lists w1 = (timer_lists w)[i := Some a]"
    "cw_players w1 = cw_players w" "cw_timers w1 = cw_timers w" "same_hand w w1"
    by (simp_all add: w1_def same_hand_def)
  ultimately show ?thesis using None fresh by blast
qed

lemma wheel_add_rep:
  assumes rep: "wheel_rep w0 L" and i: "i < length (timer_lists w0)" and q: "map_of (cw_players w0) q = None"
  shows "\<exists>w' a t. wheel_add q i w0 = Some w' \<and> wheel_rep w' (L(a := L a @ [t]))
    \<and> map_of (cw_players w') = (map_of (cw_players w0))(q \<mapsto> \<lparr>cp_player_id = q, cp_timer_list = a, cp_timer = t\<rparr>)
    \<and> timer_lists w' = (timer_lists w0)[i := Some a] \<and> same_hand w0 w'
    \<and> (timer_lists w0 ! i = Some a \<or> timer_lists w0 ! i = None \<and> cw_lists w0 a = None)"
proof -
  obtain a w where s: "slot_list i w0 = (a, w)" "wheel_rep w L" "cw_lists w a \<noteq> None"
    "timer_lists w = (timer_lists w0)[i := Some a]"
    "timer_lists w0 ! i = Some a \<or> timer_lists w0 ! i = None \<and> cw_lists w0 a = None"
    "cw_players w = cw_players w0" "same_hand w0 w"
    using slot_list_rep [OF rep i] by blast
  note lr = wheel_repD(1) [OF s(2)] and pr = wheel_repD(2) [OF s(2)] and sr = wheel_repD(3) [OF s(2)]
  define t where "t = cw_next_timer w"
  have fresh: "cw_timers w t = None" using lists_repD(5) [OF lr, of t] by (cases "cw_timers w t") (auto simp: t_def)
  obtain l where l: "cw_lists w a = Some l" using s(3) by blast
  obtain l' h' where r: "list_add t q l (cw_timers w) = Some (l', h')" "dlist h' l' (L a @ [t])"
    "map_option ct_player_id (h' t) = Some q" "touches (set (L a)) ((cw_timers w)(t := h' t)) h'"
    using list_add_correct [OF lists_repD(1) [OF lr l] fresh] by blast
  define w' where "w' = w\<lparr>cw_timers := h', cw_next_timer := Suc t, cw_lists := (cw_lists w)(a \<mapsto> l'),
    cw_players := AList.update q \<lparr>cp_player_id = q, cp_timer_list = a, cp_timer = t\<rparr> (cw_players w)\<rparr>"
  define L' where "L' = L(a := L a @ [t])"
  have ids: "of_player h' = (of_player (cw_timers w))(t \<mapsto> q)"
  proof
    fix u
    have "map_option ct_player_id (h' u) = map_option ct_player_id (((cw_timers w)(t := h' t)) u)"
      using r(4) unfolding touches_def by blast
    then show "of_player h' u = ((of_player (cw_timers w))(t \<mapsto> q)) u"
      using r(3) by (cases "u = t") (simp_all add: of_player_def)
  qed
  have new: "t \<notin> set (L b)" for b using lists_rep_node [OF lr, of t b] fresh by auto
  have mem: "u \<in> set (L' b) \<longleftrightarrow> u \<in> set (L b) \<or> b = a \<and> u = t" for u b by (auto simp: L'_def)
  have other: "dlist h' lb (L b)" if "cw_lists w b = Some lb" "b \<noteq> a" for b lb
  proof -
    have "dlist ((cw_timers w)(t := h' t)) lb (L b)"
      using new [of b] by (intro dlist_cong [OF lists_repD(1) [OF lr that(1)]]) auto
    moreover have "set (L b) \<inter> set (L a) = {}" using lists_repD(4) [OF lr] that(2) by blast
    ultimately show ?thesis using touches_dlist [OF r(4)] by blast
  qed
  have "lists_rep w' L'"
    unfolding lists_rep_def
  proof (intro conjI allI impI)
    fix b lb assume b: "cw_lists w' b = Some lb"
    show "dlist (cw_timers w') lb (L' b)"
      using b r(2) other by (cases "b = a") (auto simp: w'_def L'_def)
    show "b < cw_next_list w'" using b lists_repD(2) [OF lr] l by (cases "b = a") (auto simp: w'_def)
  next
    fix b assume "cw_lists w' b = None"
    then have "cw_lists w b = None" "b \<noteq> a" by (auto simp: w'_def split: if_splits)
    then show "L' b = []" using lr by (simp add: L'_def lists_rep_def)
  next
    fix b c :: nat assume "b \<noteq> c"
    then have "set (L b) \<inter> set (L c) = {}" using lr by (simp add: lists_rep_def)
    then show "set (L' b) \<inter> set (L' c) = {}" using new \<open>b \<noteq> c\<close> by (auto simp: L'_def)
  next
    fix u assume "cw_timers w' u \<noteq> None"
    then have "of_player h' u \<noteq> None" by (simp add: w'_def of_player_def)
    then have "u = t \<or> cw_timers w u \<noteq> None" by (auto simp: ids of_player_def split: if_splits)
    then show "u < cw_next_timer w'" using lists_repD(5) [OF lr, of u] by (auto simp: w'_def t_def)
  qed
  moreover have "players_rep w' L'"
    unfolding players_rep_def
  proof (intro conjI allI)
    show "distinct (map fst (cw_players w'))"
      using players_repD(5) [OF pr] by (simp add: w'_def distinct_update)
    fix x and px :: ConnTimerPlayer
    have old: "of_player (cw_timers w) u \<noteq> Some q" if "u \<in> set (L b)" for u b
      using players_repD(4) [OF pr that, of q] q s(6) by auto
    show "map_of (cw_players w') x = Some px \<longleftrightarrow> x = cp_player_id px
      \<and> cp_timer px \<in> set (L' (cp_timer_list px)) \<and> of_player (cw_timers w') (cp_timer px) = Some x"
    proof (cases "x = q")
      case True
      then show ?thesis using old new by (cases px) (auto simp: w'_def update_conv' mem ids)
    next
      case False
      then show ?thesis using pr new by (auto simp: w'_def update_conv' mem ids players_rep_def)
    qed
  qed
  moreover have "slots_rep w'" using sr by (auto simp: slots_rep_def w'_def)
  ultimately have "wheel_rep w' L'" by (rule wheel_repI)
  moreover have "wheel_add q i w0 = Some w'"
    using l r(1) by (simp add: wheel_add_def s(1) Let_def w'_def t_def)
  moreover have "map_of (cw_players w') = (map_of (cw_players w0))(q \<mapsto> \<lparr>cp_player_id = q, cp_timer_list = a, cp_timer = t\<rparr>)"
    by (simp add: w'_def update_conv' s(6))
  moreover have "timer_lists w' = (timer_lists w0)[i := Some a]" "same_hand w0 w'"
    using s(4,7) by (simp_all add: w'_def same_hand_def)
  ultimately show ?thesis using s(5) unfolding L'_def by blast
qed

section \<open>The seconds a player has left\<close>

text \<open>The slot the hand reaches after \<open>r\<close> seconds.\<close>

definition slot_after :: "ConnTimerWheel \<Rightarrow> int \<Rightarrow> nat option" where
  "slot_after w r = timer_lists w ! nat ((curr_timer_index w + r) mod int (length (timer_lists w)))"

definition left :: "ConnTimerWheel \<Rightarrow> int \<Rightarrow> int \<Rightarrow> bool" where
  "left w q r \<longleftrightarrow> 1 \<le> r \<and> r \<le> int (length (timer_lists w))
     \<and> (\<exists>p. map_of (cw_players w) q = Some p \<and> slot_after w r = Some (cp_timer_list p))"

text \<open>The abstraction function: the seconds left of every player on the wheel.\<close>

definition seconds_left :: "ConnTimerWheel \<Rightarrow> int \<Rightarrow> int option" where
  "seconds_left w q = find (left w q) [1..int (length (timer_lists w))]"

definition wheel_ok :: "int \<Rightarrow> ConnTimerWheel \<Rightarrow> bool" where
  "wheel_ok H w \<longleftrightarrow> 0 < H \<and> H \<le> 357913941 \<and> int (length (timer_lists w)) = H * 3
     \<and> - 1 \<le> curr_timer_index w \<and> curr_timer_index w < H * 3
     \<and> (\<exists>L. wheel_rep w L) \<and> (\<forall>q r. left w q r \<longrightarrow> r \<le> H)"

lemma wheel_okD:
  assumes "wheel_ok H w"
  shows "0 < H" "H \<le> 357913941" "int (length (timer_lists w)) = H * 3"
    "- 1 \<le> curr_timer_index w" "curr_timer_index w < H * 3" "\<exists>L. wheel_rep w L"
    "left w q r \<Longrightarrow> r \<le> H"
  using assms by (auto simp: wheel_ok_def)

lemma mod_window:
  fixes c :: int
  assumes "(c + r) mod n = (c + s) mod n" and "1 \<le> r" "r \<le> n" "1 \<le> s" "s \<le> n"
  shows "r = s"
proof -
  have "n dvd (c + r) - (c + s)" using assms(1) by (simp add: mod_eq_dvd_iff)
  then have "n dvd r - s" by simp
  moreover have "\<bar>r - s\<bar> < n" using assms(2-) by linarith
  ultimately show ?thesis using zdvd_imp_le [of n "\<bar>r - s\<bar>"] by (cases "r = s") auto
qed

lemma slot_index:
  fixes c :: int
  assumes "0 < length xs"
  shows "nat ((c + r) mod int (length xs)) < length xs"
  using assms by (simp add: nat_less_iff)

lemma left_unique:
  assumes "wheel_rep w L" and "left w q r" and "left w q s"
  shows "r = s"
proof -
  define n where "n = int (length (timer_lists w))"
  obtain p where p: "map_of (cw_players w) q = Some p" "1 \<le> r" "r \<le> n"
    "slot_after w r = Some (cp_timer_list p)"
    using assms(2) unfolding left_def n_def by blast
  have s: "1 \<le> s" "s \<le> n" "slot_after w s = Some (cp_timer_list p)"
    using assms(3) p(1) unfolding left_def n_def by simp_all
  have n: "0 < length (timer_lists w)" using p(2,3) by (cases "timer_lists w") (simp_all add: n_def)
  have "nat ((curr_timer_index w + r) mod n) = nat ((curr_timer_index w + s) mod n)"
    unfolding n_def
    by (rule slots_repD(2) [OF wheel_repD(3) [OF assms(1)] slot_index [OF n]
          p(4) [unfolded slot_after_def] slot_index [OF n] s(3) [unfolded slot_after_def]])
  then have "(curr_timer_index w + r) mod n = (curr_timer_index w + s) mod n"
    using n by (simp add: n_def eq_nat_nat_iff)
  then show ?thesis using p(2,3) s(1,2) by (rule mod_window)
qed

lemma find_SomeD: "find P xs = Some x \<Longrightarrow> P x"
  by (induction xs) (auto split: if_splits)

lemma seconds_left_iff:
  assumes "wheel_rep w L"
  shows "seconds_left w q = Some r \<longleftrightarrow> left w q r"
proof
  show found: "left w q r" if "seconds_left w q = Some r" for r
    using that unfolding seconds_left_def by (rule find_SomeD)
  assume r: "left w q r"
  then have "r \<in> set [1..int (length (timer_lists w))]" by (simp add: left_def)
  with r have "seconds_left w q \<noteq> None" unfolding seconds_left_def find_None_iff by blast
  then obtain s where s: "seconds_left w q = Some s" by blast
  then have "left w q s" by (rule found)
  then show "seconds_left w q = Some r" using left_unique [OF assms r] s by simp
qed

lemma seconds_left_eqI:
  assumes "wheel_rep w L" and "\<And>r. left w q r \<longleftrightarrow> x = Some r"
  shows "seconds_left w q = x"
  using seconds_left_iff [OF assms(1), of q] assms(2) by (cases x; cases "seconds_left w q") auto

section \<open>The operations on the abstract map\<close>

lemma left_remove:
  assumes "map_of (cw_players w') = (map_of (cw_players w))(q := None)"
    and "timer_lists w' = timer_lists w" and "same_hand w w'"
  shows "left w' x r \<longleftrightarrow> x \<noteq> q \<and> left w x r"
  using assms by (auto simp: left_def slot_after_def same_hand_def)

lemma remove_timer_ok:
  assumes ok: "wheel_ok H w" and p: "map_of (cw_players w) q = Some p"
  shows "\<exists>w'. wheel_remove_timer p w = Some w' \<and> wheel_ok H w' \<and> same_hand w w'
    \<and> seconds_left w' = (seconds_left w)(q := None) \<and> map_of (cw_players w') = (map_of (cw_players w))(q := None)"
proof -
  obtain L where rep: "wheel_rep w L" using wheel_okD(6) [OF ok] by blast
  obtain w' where w': "wheel_remove_timer p w = Some w'" "\<exists>L. wheel_rep w' L"
    "map_of (cw_players w') = (map_of (cw_players w))(q := None)" "timer_lists w' = timer_lists w" "same_hand w w'"
    using remove_timer_rep [OF rep p] by blast
  note lft = left_remove [OF w'(3-5)]
  obtain L' where rep': "wheel_rep w' L'" using w'(2) by blast
  have "seconds_left w' x = ((seconds_left w)(q := None)) x" for x
    by (rule seconds_left_eqI [OF rep']) (auto simp: lft seconds_left_iff [OF rep])
  moreover have "wheel_ok H w'"
    using ok w'(2,4) same_handD [OF w'(5)] by (auto simp: wheel_ok_def lft)
  ultimately show ?thesis using w'(1,3,5) by (auto simp: fun_eq_iff)
qed

lemma wheel_remove_ok:
  assumes "wheel_ok H w"
  shows "\<exists>w' b. wheel_remove q w = Some (w', b) \<and> wheel_ok H w' \<and> same_hand w w'
    \<and> seconds_left w' = (seconds_left w)(q := None) \<and> map_of (cw_players w') q = None"
proof (cases "map_of (cw_players w) q")
  case None
  obtain L where rep: "wheel_rep w L" using wheel_okD(6) [OF assms] by blast
  have "seconds_left w q = None"
    by (rule seconds_left_eqI [OF rep]) (simp add: left_def None)
  with assms None show ?thesis by (auto simp: wheel_remove_def fun_upd_idem)
next
  case (Some p)
  then show ?thesis using remove_timer_ok [OF assms Some] by (auto simp: wheel_remove_def)
qed

lemma left_add:
  fixes w :: ConnTimerWheel
  defines "n \<equiv> int (length (timer_lists w))"
  assumes rep: "wheel_rep w L" and n: "0 < n" and H: "1 \<le> H" "H \<le> n"
    and i: "i = nat ((curr_timer_index w + H) mod n)"
    and "map_of (cw_players w) q = None"
    and players: "map_of (cw_players w') = (map_of (cw_players w))(q \<mapsto> \<lparr>cp_player_id = q, cp_timer_list = a, cp_timer = t\<rparr>)"
    and slots: "timer_lists w' = (timer_lists w)[i := Some a]" and hand: "same_hand w w'"
    and old: "timer_lists w ! i = Some a \<or> timer_lists w ! i = None \<and> cw_lists w a = None"
  shows "left w' x r \<longleftrightarrow> (if x = q then r = H else left w x r)"
proof -
  define k where "k r = nat ((curr_timer_index w + r) mod n)" for r
  have len: "0 < length (timer_lists w)" using n by (simp add: n_def)
  have k: "k r < length (timer_lists w)" for r unfolding k_def n_def by (rule slot_index [OF len])
  have inj: "k r = k s \<Longrightarrow> 1 \<le> r \<Longrightarrow> r \<le> n \<Longrightarrow> 1 \<le> s \<Longrightarrow> s \<le> n \<Longrightarrow> r = s" for r s
    using n by (intro mod_window [of "curr_timer_index w" r n s]) (simp_all add: k_def eq_nat_nat_iff)
  have ik: "i = k H" by (simp add: k_def i)
  have slot': "slot_after w' r = (if k r = i then Some a else slot_after w r)" for r
    using k [of r] same_handD(1,5) [OF hand] by (simp add: slot_after_def slots k_def n_def)
  have w0: "slot_after w r = timer_lists w ! k r" for r by (simp add: slot_after_def k_def n_def)
  have n': "int (length (timer_lists w')) = n" using same_handD(5) [OF hand] by (simp add: n_def)
  show ?thesis
  proof (cases "x = q")
    case True
    have "Some a = slot_after w r \<Longrightarrow> k r = i"
      using old slots_repD [OF wheel_repD(3) [OF rep] k [of r]] k [of H] by (metis ik w0)
    with True show ?thesis
      using H inj [of r H] by (auto simp: left_def players n' slot' ik)
  next
    case False
    have used: "cp_timer_list p = a \<Longrightarrow> map_of (cw_players w) x = Some p \<Longrightarrow> cw_lists w a \<noteq> None" for p
      using players_repD(2) [OF wheel_repD(2) [OF rep]] lists_repD(3) [OF wheel_repD(1) [OF rep]] by fastforce
    have "k r = i \<Longrightarrow> map_of (cw_players w) x = Some p \<Longrightarrow>
      (Some a = Some (cp_timer_list p)) = (slot_after w r = Some (cp_timer_list p))" for p
      using old used [of p] by (auto simp: w0)
    with False show ?thesis by (auto simp: left_def players n' slot' n_def)
  qed
qed

lemma go_mod_i32:
  assumes "- 1 \<le> cur" "cur < H * 3" "1 \<le> d" "d \<le> H * 3" "H \<le> (357913941::int)"
  shows "go_mod (i32 (cur + d)) (H * 3) = (cur + d) mod (H * 3)"
  using assms by (simp add: go_mod_nonneg)

lemma wheel_insert_ok:
  assumes ok: "wheel_ok H w"
  shows "\<exists>w'. wheel_insert H q w = Some w' \<and> wheel_ok H w' \<and> same_hand w w'
    \<and> seconds_left w' = (seconds_left w)(q \<mapsto> H)"
proof -
  have "\<exists>w1. (case map_of (cw_players w) q of None \<Rightarrow> Some w | Some p \<Rightarrow> wheel_remove_timer p w) = Some w1
    \<and> wheel_ok H w1 \<and> same_hand w w1 \<and> seconds_left w1 = (seconds_left w)(q := None)
    \<and> map_of (cw_players w1) q = None"
    using wheel_remove_ok [OF ok, of q] by (auto simp: wheel_remove_def split: option.splits)
  then obtain w1 where w1: "(case map_of (cw_players w) q of None \<Rightarrow> Some w | Some p \<Rightarrow> wheel_remove_timer p w) = Some w1"
    "wheel_ok H w1" "same_hand w w1" "seconds_left w1 = (seconds_left w)(q := None)"
    "map_of (cw_players w1) q = None" by blast
  define i where "i = nat ((curr_timer_index w1 + H) mod (H * 3))"
  note [simp] = wheel_okD(3) [OF w1(2)]
  have H: "1 \<le> H" "H \<le> H * 3" "0 < H * 3" using wheel_okD(1) [OF w1(2)] by linarith+
  obtain L where rep: "wheel_rep w1 L" using wheel_okD(6) [OF w1(2)] by blast
  have i: "i < length (timer_lists w1)" using slot_index [of "timer_lists w1" "curr_timer_index w1" H] H
    by (auto simp: i_def simp flip: of_nat_0_less_iff [where 'a = int])
  obtain w' a t where w': "wheel_add q i w1 = Some w'" "wheel_rep w' (L(a := L a @ [t]))"
    "map_of (cw_players w') = (map_of (cw_players w1))(q \<mapsto> \<lparr>cp_player_id = q, cp_timer_list = a, cp_timer = t\<rparr>)"
    "timer_lists w' = (timer_lists w1)[i := Some a]" "same_hand w1 w'"
    "timer_lists w1 ! i = Some a \<or> timer_lists w1 ! i = None \<and> cw_lists w1 a = None"
    using wheel_add_rep [OF rep i w1(5)] by blast
  have lft: "left w' x r \<longleftrightarrow> (if x = q then r = H else left w1 x r)" for x r
    by (rule left_add [OF rep _ _ _ _ w1(5) w'(3-6)]) (use H in \<open>simp_all add: i_def\<close>)
  have "seconds_left w' x = ((seconds_left w)(q \<mapsto> H)) x" for x
    using w1(4) by (intro seconds_left_eqI [OF w'(2)]) (auto simp: lft seconds_left_iff [OF rep, symmetric])
  moreover have "wheel_ok H w'"
    using w1(2) w'(2) same_handD [OF w'(5)] by (auto simp: wheel_ok_def lft)
  moreover have "wheel_insert H q w = Some w'"
    using w'(1) i H(3) go_mod_i32 [OF wheel_okD(4,5) [OF w1(2)] H(1,2) wheel_okD(2) [OF w1(2)]]
    by (auto simp: wheel_insert_def w1(1) i_def Let_def not_less intro: pos_mod_sign)
  ultimately show ?thesis using same_hand_trans [OF w1(3) w'(5)] by (auto simp: fun_eq_iff)
qed

section \<open>A slot whose time has come\<close>

lemma expire_list_rep:
  assumes "wheel_rep w L" and "L a = xs @ ys"
  shows "\<exists>w' L' os. expire_list known (first_or ys None) (w, out) = Some (w', out @ os)
    \<and> wheel_rep w' L' \<and> timer_lists w' = timer_lists w \<and> same_hand w w'
    \<and> (\<forall>x p. map_of (cw_players w') x = Some p \<longleftrightarrow>
          map_of (cw_players w) x = Some p \<and> \<not> (known x \<and> cp_timer p \<in> set ys))
    \<and> distinct os
    \<and> set os = {x. known x \<and> (\<exists>p. map_of (cw_players w) x = Some p \<and> cp_timer p \<in> set ys)}"
  using assms
proof (induction ys arbitrary: xs w L out)
  case Nil
  then show ?case by (auto simp: expire_list.simps)
next
  case (Cons t ys)
  note lr = wheel_repD(1) [OF Cons.prems(1)] and pr = wheel_repD(2) [OF Cons.prems(1)]
  have t: "t \<in> set (L a)" by (simp add: Cons.prems(2))
  obtain l where l: "cw_lists w a = Some l" using lists_repD(3) [OF lr t] by blast
  have dl: "dlist (cw_timers w) l (xs @ t # ys)" using lists_repD(1) [OF lr l] by (simp add: Cons.prems(2))
  then obtain n where n: "cw_timers w t = Some n" "ct_next n = first_or ys None" by (auto simp: dlist_def)
  define q where "q = ct_player_id n"
  define p where "p = \<lparr>cp_player_id = q, cp_timer_list = a, cp_timer = t\<rparr>"
  have q: "map_of (cw_players w) q = Some p"
    using players_repD(4) [OF pr t, of q] n by (simp add: of_player_def q_def p_def)
  have only: "x = q \<and> p' = p" if "map_of (cw_players w) x = Some p'" "cp_timer p' = t" for x p'
    using players_repD(3) [OF pr that(1)] that n q by (auto simp: of_player_def q_def)
  have ne: "cp_timer p' \<noteq> t" if "x \<noteq> q" "map_of (cw_players w) x = Some p'" for x p'
    using only that by blast
  have pt: "cp_timer p = t" by (simp add: p_def)
  have new: "t \<notin> set ys" using dl by (auto simp: dlist_def)
  show ?case
  proof (cases "known q")
    case True
    obtain w1 where w1: "wheel_remove_timer p w = Some w1" "wheel_rep w1 (L(a := remove1 t (L a)))"
      "map_of (cw_players w1) = (map_of (cw_players w))(q := None)"
      "cw_timers w1 t = cw_timers w t" "timer_lists w1 = timer_lists w" "same_hand w w1"
      using remove_timer_rep [OF Cons.prems(1) q] by (auto simp: p_def)
    have "(L(a := remove1 t (L a))) a = xs @ ys" using dl by (auto simp: Cons.prems(2) dlist_def remove1_append)
    from Cons.IH [OF w1(2) this, of "out @ [q]"] obtain w' L' os where
      I: "expire_list known (first_or ys None) (w1, out @ [q]) = Some (w', (out @ [q]) @ os)"
        "wheel_rep w' L'" "timer_lists w' = timer_lists w1" "same_hand w1 w'"
        "\<And>x p. map_of (cw_players w') x = Some p \<longleftrightarrow>
          map_of (cw_players w1) x = Some p \<and> \<not> (known x \<and> cp_timer p \<in> set ys)"
        "distinct os"
        "set os = {x. known x \<and> (\<exists>p. map_of (cw_players w1) x = Some p \<and> cp_timer p \<in> set ys)}"
      by blast
    have "expire_list known (Some t) (w, out) = Some (w', out @ q # os)"
      using I(1) True q w1(1,4) unfolding expire_list.simps [of known "Some t"]
      by (simp add: n q_def wheel_remove_def)
    moreover have "map_of (cw_players w') x = Some p' \<longleftrightarrow>
        map_of (cw_players w) x = Some p' \<and> \<not> (known x \<and> cp_timer p' \<in> set (t # ys))" for x p'
      using True pt by (cases "x = q") (auto simp: I(5) w1(3) q dest: ne)
    moreover have "distinct (q # os)" by (simp add: I(6,7) w1(3))
    moreover have "set (q # os) = {x. known x \<and> (\<exists>p. map_of (cw_players w) x = Some p \<and> cp_timer p \<in> set (t # ys))}"
    proof (rule set_eqI)
      fix x
      show "x \<in> set (q # os) \<longleftrightarrow>
        x \<in> {x. known x \<and> (\<exists>p. map_of (cw_players w) x = Some p \<and> cp_timer p \<in> set (t # ys))}"
        using True by (cases "x = q") (auto simp: I(7) w1(3) q pt dest: ne)
    qed
    moreover have "timer_lists w' = timer_lists w" "same_hand w w'"
      using I(3) w1(5) same_hand_trans [OF w1(6) I(4)] by simp_all
    ultimately show ?thesis
      using I(2) unfolding first_or.simps by blast
  next
    case False
    have "L a = (xs @ [t]) @ ys" by (simp add: Cons.prems(2))
    from Cons.IH [OF Cons.prems(1) this, of out] obtain w' L' os where
      I: "expire_list known (first_or ys None) (w, out) = Some (w', out @ os)"
        "wheel_rep w' L'" "timer_lists w' = timer_lists w" "same_hand w w'"
        "\<And>x p. map_of (cw_players w') x = Some p \<longleftrightarrow>
          map_of (cw_players w) x = Some p \<and> \<not> (known x \<and> cp_timer p \<in> set ys)"
        "distinct os"
        "set os = {x. known x \<and> (\<exists>p. map_of (cw_players w) x = Some p \<and> cp_timer p \<in> set ys)}"
      by blast
    have "expire_list known (Some t) (w, out) = Some (w', out @ os)"
      using I(1) False unfolding expire_list.simps [of known "Some t"] by (simp add: n q_def)
    moreover have "map_of (cw_players w) x = Some p' \<Longrightarrow>
        known x \<and> cp_timer p' \<in> set (t # ys) \<longleftrightarrow> known x \<and> cp_timer p' \<in> set ys" for x p'
      using only [of x p'] False by auto
    then have "map_of (cw_players w') x = Some p' \<longleftrightarrow>
        map_of (cw_players w) x = Some p' \<and> \<not> (known x \<and> cp_timer p' \<in> set (t # ys))"
      "x \<in> set os \<longleftrightarrow> known x \<and> (\<exists>p. map_of (cw_players w) x = Some p \<and> cp_timer p \<in> set (t # ys))" for x p'
      unfolding I(5,7) by blast+
    ultimately show ?thesis
      using I(2-4,6) unfolding first_or.simps by blast
  qed
qed

lemma nth_update_None: "xs[i := None] ! j = Some a \<Longrightarrow> j < length xs \<Longrightarrow> xs ! j = Some a"
  by (cases "i = j") simp_all

lemma expire_slot_rep:
  assumes rep: "wheel_rep w L" and r: "1 \<le> r" "r \<le> int (length (timer_lists w))"
  defines "i \<equiv> nat ((curr_timer_index w + r) mod int (length (timer_lists w)))"
  shows "\<exists>w' L' os. expire_slot known i (w, out) = Some (w', out @ os) \<and> wheel_rep w' L' \<and> same_hand w w'
    \<and> (\<forall>x s. left w' x s \<longleftrightarrow> left w x s \<and> s \<noteq> r)
    \<and> distinct os \<and> set os = {x. known x \<and> left w x r}"
proof -
  define n where "n = int (length (timer_lists w))"
  have len: "0 < length (timer_lists w)" using r by (cases "timer_lists w") auto
  have i: "i < length (timer_lists w)" unfolding i_def by (rule slot_index [OF len])
  have slot: "timer_lists w ! i = slot_after w r" by (simp add: slot_after_def i_def)
  show ?thesis
  proof (cases "timer_lists w ! i")
    case None
    then have no: "\<not> left w x r" for x by (simp add: left_def slot)
    then have "left w x s \<longleftrightarrow> left w x s \<and> s \<noteq> r" for x s by blast
    then show ?thesis using None rep no by (intro exI [of _ w] exI [of _ L] exI [of _ "[]"]) (simp add: expire_slot_def)
  next
    case (Some a)
    obtain l where l: "cw_lists w a = Some l" using slots_repD(1) [OF wheel_repD(3) [OF rep] i Some] by blast
    have hd: "cl_head l = first_or (L a) None"
      using lists_repD(1) [OF wheel_repD(1) [OF rep] l] by (simp add: dlist_def)
    obtain w1 L' os where I: "expire_list known (cl_head l) (w, out) = Some (w1, out @ os)"
        "wheel_rep w1 L'" "timer_lists w1 = timer_lists w" "same_hand w w1"
        "\<And>x p. map_of (cw_players w1) x = Some p \<longleftrightarrow>
          map_of (cw_players w) x = Some p \<and> \<not> (known x \<and> cp_timer p \<in> set (L a))"
        "distinct os"
        "set os = {x. known x \<and> (\<exists>p. map_of (cw_players w) x = Some p \<and> cp_timer p \<in> set (L a))}"
      using expire_list_rep [OF rep, of a "[]" "L a" known out] hd by auto
    define w' where "w' = w1\<lparr>timer_lists := (timer_lists w1)[i := None]\<rparr>"
    have inL: "cp_timer p \<in> set (L a) \<longleftrightarrow> cp_timer_list p = a" if "map_of (cw_players w) x = Some p" for x p
      using players_repD(2) [OF wheel_repD(2) [OF rep] that] lists_repD(4) [OF wheel_repD(1) [OF rep]] by blast
    have rep': "wheel_rep w' L'"
    proof (rule wheel_repI)
      show "lists_rep w' L'" "players_rep w' L'"
        using wheel_repD(1,2) [OF I(2)] by (simp_all add: w'_def lists_rep_def players_rep_def)
      show "slots_rep w'"
        using wheel_repD(3) [OF I(2)] by (auto simp: w'_def slots_rep_def dest!: nth_update_None)
    qed
    have hand: "same_hand w w'" using I(4) by (simp add: w'_def same_hand_def)
    have k: "nat ((curr_timer_index w + s) mod n) = i \<longleftrightarrow> s = r" if "1 \<le> s" "s \<le> n" for s
      using mod_window [of "curr_timer_index w" s n r] that r len by (auto simp: i_def n_def eq_nat_nat_iff)
    have slot': "slot_after w' s = (if s = r then None else slot_after w s)" if "1 \<le> s" "s \<le> n" for s
      using k [OF that] i same_handD(1) [OF I(4)] by (auto simp: slot_after_def w'_def I(3) n_def)
    have other: "slot_after w s = Some a \<Longrightarrow> 1 \<le> s \<Longrightarrow> s \<le> n \<Longrightarrow> s = r" for s
      using slots_repD(2) [OF wheel_repD(3) [OF rep] i Some slot_index [OF len, of "curr_timer_index w" s]] k [of s]
      by (simp add: slot_after_def n_def)
    have "left w' x s \<longleftrightarrow> left w x s \<and> s \<noteq> r" for x s
    proof (cases "1 \<le> s \<and> s \<le> n \<and> s \<noteq> r")
      case True
      then have "map_of (cw_players w) x = Some p \<Longrightarrow> slot_after w s = Some (cp_timer_list p) \<Longrightarrow>
        cp_timer p \<notin> set (L a)" for p
        using other [of s] inL by auto
      with True show ?thesis using same_handD(5) [OF hand] slot' [of s]
        by (auto simp: left_def w'_def I(5) n_def)
    next
      case False
      then show ?thesis using same_handD(5) [OF hand] slot' [of s] by (auto simp: left_def n_def)
    qed
    moreover have "set os = {x. known x \<and> left w x r}"
      using inL r by (auto simp: I(7) left_def slot [symmetric] Some)
    moreover have "expire_slot known i (w, out) = Some (w', out @ os)"
      using Some l I(1) by (simp add: expire_slot_def w'_def)
    ultimately show ?thesis using rep' hand I(6) by blast
  qed
qed

lemma mod_next:
  fixes c n :: int
  assumes "0 < n" and "n \<le> 1073741823"
  shows "go_mod (i32 (c mod n + 1)) n = (c + 1) mod n"
proof -
  define b where "b = c mod n"
  have "0 \<le> b" "b < n" using assms(1) by (simp_all add: b_def)
  then have "go_mod (i32 (b + 1)) n = (b + 1) mod n" using assms by (simp add: go_mod_nonneg)
  then show ?thesis by (simp add: b_def mod_simps)
qed

lemma ex_from:
  fixes r R :: int
  assumes "r \<le> R"
  shows "(\<exists>s. r \<le> s \<and> s \<le> R \<and> P s) \<longleftrightarrow> P r \<or> (\<exists>s. r + 1 \<le> s \<and> s \<le> R \<and> P s \<and> s \<noteq> r)"
proof
  assume "\<exists>s. r \<le> s \<and> s \<le> R \<and> P s"
  then obtain s where s: "r \<le> s" "s \<le> R" "P s" by blast
  then have "s = r \<or> r + 1 \<le> s \<and> s \<noteq> r" by linarith
  with s show "P r \<or> (\<exists>s. r + 1 \<le> s \<and> s \<le> R \<and> P s \<and> s \<noteq> r)" by blast
next
  assume "P r \<or> (\<exists>s. r + 1 \<le> s \<and> s \<le> R \<and> P s \<and> s \<noteq> r)"
  then obtain s where s: "s = r \<or> r + 1 \<le> s" "s \<le> R" "P s" using assms by blast
  then have "r \<le> s" by linarith
  with s show "\<exists>s. r \<le> s \<and> s \<le> R \<and> P s" by blast
qed

lemma expire_slots_rep:
  assumes "wheel_rep w L" and "int (length (timer_lists w)) = n" and "0 < n" "n \<le> 1073741823"
    and "1 \<le> r" "r + int k \<le> n"
  shows "\<exists>w' L' os. expire_slots known ((curr_timer_index w + r) mod n) ((curr_timer_index w + r + int k) mod n) (w, out)
      = Some (w', out @ os) \<and> wheel_rep w' L' \<and> same_hand w w'
    \<and> (\<forall>x s. left w' x s \<longleftrightarrow> left w x s \<and> (s < r \<or> r + int k < s))
    \<and> distinct os \<and> set os = {x. known x \<and> (\<exists>s. r \<le> s \<and> s \<le> r + int k \<and> left w x s)}"
  using assms
proof (induction k arbitrary: r w L out)
  case 0
  define i where "i = (curr_timer_index w + r) mod n"
  have i: "0 \<le> i" "i < n" using "0.prems"(3) by (simp_all add: i_def)
  have r: "1 \<le> r" "r \<le> int (length (timer_lists w))" using "0.prems" by simp_all
  obtain w' L' os where s: "expire_slot known (nat i) (w, out) = Some (w', out @ os)" "wheel_rep w' L'"
    "same_hand w w'" "\<And>x s. left w' x s \<longleftrightarrow> left w x s \<and> s \<noteq> r" "distinct os" "set os = {x. known x \<and> left w x r}"
    using expire_slot_rep [OF "0.prems"(1) r, of known out] by (auto simp: i_def "0.prems"(2))
  have "expire_slots known i i (w, out) = Some (w', out @ os)"
    using i s(1) "0.prems"(2) by (subst expire_slots.simps) simp
  moreover have "left w' x s \<longleftrightarrow> left w x s \<and> (s < r \<or> r < s)" for x s
    using s(4) [of x s] by linarith
  moreover have "(\<exists>s. r \<le> s \<and> s \<le> r \<and> left w x s) \<longleftrightarrow> left w x r" for x by force
  ultimately show ?case using s(2,3,5,6) unfolding i_def by (intro exI [of _ w'] exI [of _ L'] exI [of _ os]) simp
next
  case (Suc k)
  define i where "i = (curr_timer_index w + r) mod n"
  define idx where "idx = (curr_timer_index w + r + int (Suc k)) mod n"
  have i: "0 \<le> i" "i < n" using Suc.prems(3) by (simp_all add: i_def)
  have r: "1 \<le> r" "r \<le> int (length (timer_lists w))" using Suc.prems by simp_all
  obtain w1 L1 os1 where s: "expire_slot known (nat i) (w, out) = Some (w1, out @ os1)" "wheel_rep w1 L1"
    "same_hand w w1" "\<And>x s. left w1 x s \<longleftrightarrow> left w x s \<and> s \<noteq> r" "distinct os1" "set os1 = {x. known x \<and> left w x r}"
    using expire_slot_rep [OF Suc.prems(1) r, of known out] by (auto simp: i_def Suc.prems(2))
  have cur: "curr_timer_index w1 = curr_timer_index w" and len: "int (length (timer_lists w1)) = n"
    using same_handD(1,5) [OF s(3)] Suc.prems(2) by simp_all
  have ne: "i \<noteq> idx"
    using mod_window [of "curr_timer_index w" r n "r + int (Suc k)"] Suc.prems(5,6) by (auto simp: i_def idx_def add.assoc)
  have "1 \<le> r + 1" "r + 1 + int k \<le> n" using Suc.prems by simp_all
  from Suc.IH [OF s(2) len Suc.prems(3,4) this, of "out @ os1"] obtain w' L' os where
    I: "expire_slots known ((curr_timer_index w + (r + 1)) mod n) ((curr_timer_index w + (r + 1) + int k) mod n) (w1, out @ os1)
        = Some (w', (out @ os1) @ os)" "wheel_rep w' L'" "same_hand w1 w'"
      "\<And>x s. left w' x s \<longleftrightarrow> left w1 x s \<and> (s < r + 1 \<or> r + 1 + int k < s)" "distinct os"
      "set os = {x. known x \<and> (\<exists>s. r + 1 \<le> s \<and> s \<le> r + 1 + int k \<and> left w1 x s)}"
    unfolding cur by blast
  have nxt: "go_mod (i32 (i + 1)) n = (curr_timer_index w + (r + 1)) mod n"
    using mod_next [OF Suc.prems(3,4), of "curr_timer_index w + r"] by (simp add: i_def add.assoc)
  have "expire_slots known i idx (w, out) = Some (w', out @ os1 @ os)"
    using i s(1) ne nxt I(1) Suc.prems(2)
    by (subst expire_slots.simps) (simp add: idx_def algebra_simps)
  moreover have "left w' x s \<longleftrightarrow> left w x s \<and> (s < r \<or> r + int (Suc k) < s)" for x s
    using s(4) [of x s] I(4) [of x s] by auto
  moreover have R: "r + int (Suc k) = r + 1 + int k" by simp
  have "(\<exists>s. r \<le> s \<and> s \<le> r + int (Suc k) \<and> left w x s) \<longleftrightarrow>
      left w x r \<or> (\<exists>s. r + 1 \<le> s \<and> s \<le> r + 1 + int k \<and> left w1 x s)" for x
    unfolding s(4) R by (rule ex_from) simp
  then have "set (os1 @ os) = {x. known x \<and> (\<exists>s. r \<le> s \<and> s \<le> r + int (Suc k) \<and> left w x s)}"
    unfolding set_append s(6) I(6) by blast
  moreover have "distinct (os1 @ os)"
    using s(5) I(5) left_unique [OF Suc.prems(1)] by (auto simp: s(4,6) I(6))
  ultimately show ?case
    using I(2) same_hand_trans [OF s(3) I(3)] unfolding i_def idx_def by blast
qed

section \<open>One round\<close>

text \<open>The abstract operations: a player has \<open>H\<close> seconds after a sign of life, and \<open>y\<close> seconds pass.\<close>

type_synonym deadlines = "int \<Rightarrow> int option"

definition abs_op :: "int \<Rightarrow> conn_op \<Rightarrow> deadlines \<Rightarrow> deadlines" where
  "abs_op H op d = (case op of OpInsert q \<Rightarrow> d(q \<mapsto> H) | OpRemove q \<Rightarrow> d(q := None))"

definition tick :: "int \<Rightarrow> deadlines \<Rightarrow> deadlines" where
  "tick y d q = (case d q of None \<Rightarrow> None | Some r \<Rightarrow> if r \<le> y then None else Some (r - y))"

definition due :: "int \<Rightarrow> deadlines \<Rightarrow> int set" where
  "due y d = {q. \<exists>r. d q = Some r \<and> r \<le> y}"

text \<open>The seconds since the last round; a clock that went back counts as none.\<close>

definition elapsed :: "ConnTimerWheel \<Rightarrow> int \<Rightarrow> int" where
  "elapsed w now = (if last_check_time w = 0 then 0 else max 0 (i32 (now - last_check_time w)))"

lemma wheel_op_ok:
  assumes "wheel_ok H w"
  shows "\<exists>w'. wheel_op H op w = Some w' \<and> wheel_ok H w' \<and> same_hand w w'
    \<and> seconds_left w' = abs_op H op (seconds_left w)"
proof (cases op)
  case (OpInsert q)
  then show ?thesis using wheel_insert_ok [OF assms, of q] by (simp add: wheel_op_def abs_op_def)
next
  case (OpRemove q)
  obtain w' b where "wheel_remove q w = Some (w', b)" "wheel_ok H w'" "same_hand w w'"
    "seconds_left w' = (seconds_left w)(q := None)"
    using wheel_remove_ok [OF assms, of q] by blast
  with OpRemove show ?thesis by (simp add: wheel_op_def abs_op_def)
qed

lemma wheel_ops_ok:
  assumes "wheel_ok H w"
  shows "\<exists>w'. for_each (wheel_op H) ops w = Some w' \<and> wheel_ok H w' \<and> same_hand w w'
    \<and> seconds_left w' = fold (abs_op H) ops (seconds_left w)"
  using assms
proof (induction ops arbitrary: w)
  case (Cons op ops)
  obtain w1 where w1: "wheel_op H op w = Some w1" "wheel_ok H w1" "same_hand w w1"
    "seconds_left w1 = abs_op H op (seconds_left w)" using wheel_op_ok [OF Cons.prems] by blast
  obtain w' where w': "for_each (wheel_op H) ops w1 = Some w'" "wheel_ok H w'" "same_hand w1 w'"
    "seconds_left w' = fold (abs_op H) ops (seconds_left w1)" using Cons.IH [OF w1(2)] by blast
  then show ?case using w1(1,4) same_hand_trans [OF w1(3) w'(3)] by simp
qed simp

lemma wheel_ok_cong:
  assumes "cw_timers w' = cw_timers w" "cw_next_timer w' = cw_next_timer w" "cw_lists w' = cw_lists w"
    "cw_next_list w' = cw_next_list w" "timer_lists w' = timer_lists w" "cw_players w' = cw_players w"
    "curr_timer_index w' = curr_timer_index w"
  shows "wheel_ok H w' \<longleftrightarrow> wheel_ok H w" and "seconds_left w' = seconds_left w"
proof -
  have l: "left w' = left w" using assms by (simp add: left_def slot_after_def fun_eq_iff)
  have "wheel_rep w' L \<longleftrightarrow> wheel_rep w L" for L
    using assms by (simp add: wheel_rep_def lists_rep_def players_rep_def slots_rep_def)
  then show "wheel_ok H w' \<longleftrightarrow> wheel_ok H w" using assms l by (simp add: wheel_ok_def)
  show "seconds_left w' = seconds_left w" by (rule ext) (simp add: seconds_left_def assms l)
qed

lemma wheel_drain_ok:
  assumes "wheel_ok H w"
  shows "\<exists>w'. wheel_drain H w = Some w' \<and> wheel_ok H w' \<and> op_chan w' = []
    \<and> last_check_time w' = last_check_time w \<and> seconds_left w' = fold (abs_op H) (op_chan w) (seconds_left w)"
proof -
  have "wheel_ok H (w\<lparr>op_chan := []\<rparr>)" "seconds_left (w\<lparr>op_chan := []\<rparr>) = seconds_left w"
    using assms wheel_ok_cong [of "w\<lparr>op_chan := []\<rparr>" w] by simp_all
  then show ?thesis using wheel_ops_ok [of H "w\<lparr>op_chan := []\<rparr>" "op_chan w"]
    by (auto simp: wheel_drain_def same_hand_def)
qed

text \<open>How far the hand moves: past every deadline when the wheel is too slow.\<close>

lemma stop_index:
  assumes "0 < H" "H \<le> 357913941" "- 1 \<le> cur" "cur < H * 3" "0 < y"
  obtains m where "1 \<le> m" "m \<le> H * 3" "stop_index (H * 3) cur y = (cur + m) mod (H * 3)"
    "\<And>r. r \<le> H \<Longrightarrow> m < r \<longleftrightarrow> y < r" "y < H * 3 \<Longrightarrow> m = y"
proof (cases "y < H * 3")
  case True
  then have "stop_index (H * 3) cur y = (cur + y) mod (H * 3)"
    using go_mod_i32 [of cur H y] assms by (simp only: stop_index_def) simp
  then show ?thesis using assms True that [of y] by simp
next
  case False
  consider "0 < cur" | "cur = 0" | "cur = - 1" using assms(3) by linarith
  then show ?thesis
  proof cases
    case 1
    have "(cur + (H * 3 - 1)) mod (H * 3) = cur - 1" using 1 assms(4)
      by (metis add_diff_eq diff_ge_0_iff_ge diff_less_eq int_one_le_iff_zero_less less_add_one
          mod_add_self2 mod_pos_pos_trivial order_less_trans diff_add_eq)
    then show ?thesis using 1 False assms that [of "H * 3 - 1"] by (auto simp: stop_index_def)
  next
    case 2
    then show ?thesis using False assms that [of "H * 3 - 1"] by (auto simp: stop_index_def zmod_minus1)
  next
    case 3
    then show ?thesis using False assms that [of "H * 3"] by (auto simp: stop_index_def zmod_minus1)
  qed
qed

text \<open>Moving the hand by \<open>m\<close> slots, all of them empty by now.\<close>

lemma left_move:
  assumes "curr_timer_index w' = (curr_timer_index w + m) mod int (length (timer_lists w))"
    and "timer_lists w' = timer_lists w" "cw_players w' = cw_players w"
    and gone: "\<And>x s. left w x s \<Longrightarrow> m < s" and m: "1 \<le> m" "m \<le> int (length (timer_lists w))"
  shows "left w' x s \<longleftrightarrow> 1 \<le> s \<and> left w x (s + m)"
proof -
  define n where "n = int (length (timer_lists w))"
  have slot: "slot_after w' s = slot_after w (s + m)" for s
    by (simp add: slot_after_def assms(1,2) mod_simps algebra_simps)
  have wrap: "slot_after w (s + m) = slot_after w (s + m - n)" for s
    unfolding slot_after_def n_def
    by (metis (no_types, opaque_lifting) add_diff_eq minus_mod_self2 add.assoc)
  show ?thesis
  proof (cases "s + m \<le> n")
    case True
    then show ?thesis using m by (auto simp: left_def slot assms(2,3) n_def)
  next
    case False
    have "\<not> left w x (s + m - n)" if "s \<le> n" using gone [of x "s + m - n"] that by auto
    then have "\<not> left w' x s" using False wrap [of s] m by (auto simp: left_def slot assms(2,3) n_def)
    then show ?thesis using False by (auto simp: left_def n_def)
  qed
qed

lemma wheel_check_ok:
  assumes ok: "wheel_ok H w"
  shows "\<exists>w' out. wheel_check known now w = Some (w', out) \<and> wheel_ok H w' \<and> op_chan w' = op_chan w
    \<and> last_check_time w' = (if last_check_time w = 0 \<or> elapsed w now > 0 then now else last_check_time w)
    \<and> seconds_left w' = tick (elapsed w now) (seconds_left w)
    \<and> distinct out \<and> set out = {q. known q} \<inter> due (elapsed w now) (seconds_left w)"
proof -
  define w1 where "w1 = (if last_check_time w = 0 then w\<lparr>last_check_time := now\<rparr> else w)"
  define y where "y = i32 (now - last_check_time w1)"
  have w1: "wheel_ok H w1" "seconds_left w1 = seconds_left w" "op_chan w1 = op_chan w"
    using ok wheel_ok_cong [of "w\<lparr>last_check_time := now\<rparr>" w] by (auto simp: w1_def)
  have y: "elapsed w now = max 0 y" by (simp add: elapsed_def y_def w1_def)
  obtain L where rep: "wheel_rep w1 L" using wheel_okD(6) [OF w1(1)] by blast
  have pos: "seconds_left w x = Some r \<Longrightarrow> 1 \<le> r" for x r
    using seconds_left_iff [OF rep, of x r] w1(2) by (simp add: left_def)
  show ?thesis
  proof (cases "0 < y")
    case False
    have "tick 0 (seconds_left w) = seconds_left w" "due 0 (seconds_left w) = {}"
      using pos by (fastforce simp: tick_def due_def fun_eq_iff split: option.splits)+
    moreover have "wheel_check known now w = Some (w1, [])"
      using False by (simp add: wheel_check_def w1_def y_def Let_def)
    ultimately show ?thesis using False w1 by (auto simp: y w1_def)
  next
    case True
    define n where "n = H * 3"
    note len = wheel_okD(3) [OF w1(1)]
    obtain m where m: "1 \<le> m" "m \<le> n" "stop_index n (curr_timer_index w1) y = (curr_timer_index w1 + m) mod n"
      "\<And>r. r \<le> H \<Longrightarrow> m < r \<longleftrightarrow> y < r" "y < n \<Longrightarrow> m = y"
      using stop_index [OF wheel_okD(1,2,4,5) [OF w1(1)] True] unfolding n_def by blast
    have n: "0 < n" "n \<le> 1073741823" using wheel_okD(1,2) [OF w1(1)] by (simp_all add: n_def)
    define k where "k = nat (m - 1)"
    have k: "int k = m - 1" using m(1) by (simp add: k_def)
    have "1 + int k \<le> n" using k m(2) by simp
    from expire_slots_rep [OF rep len [folded n_def] n order.refl this, of known "[]"] obtain w2 L' os where
      I: "expire_slots known ((curr_timer_index w1 + 1) mod n) ((curr_timer_index w1 + m) mod n) (w1, []) = Some (w2, os)"
        "wheel_rep w2 L'" "same_hand w1 w2"
        "\<And>x s. left w2 x s \<longleftrightarrow> left w1 x s \<and> (s < 1 \<or> m < s)" "distinct os"
        "set os = {x. known x \<and> (\<exists>s. 1 \<le> s \<and> s \<le> m \<and> left w1 x s)}"
      by (auto simp: k add.assoc)
    define w' where "w' = w2\<lparr>curr_timer_index := (curr_timer_index w1 + m) mod n, last_check_time := now\<rparr>"
    note hand = same_handD [OF I(3)]
    have gone: "left w2 x s \<Longrightarrow> m < s" for x s unfolding I(4) by (auto simp: left_def)
    have lft: "left w' x s \<longleftrightarrow> 1 \<le> s \<and> left w1 x (s + m)" for x s
    proof -
      have "left w' x s \<longleftrightarrow> 1 \<le> s \<and> left w2 x (s + m)"
        by (rule left_move) (use hand len m gone in \<open>simp_all add: w'_def n_def\<close>)
      then show ?thesis by (auto simp: I(4))
    qed
    have bound: "left w1 x r \<Longrightarrow> r \<le> H" for x r by (rule wheel_okD(7) [OF w1(1)])
    have rep': "wheel_rep w' L'"
      using I(2) by (simp add: w'_def wheel_rep_def lists_rep_def players_rep_def slots_rep_def)
    have ok': "wheel_ok H w'"
      unfolding wheel_ok_def
    proof (intro conjI allI impI)
      show "0 < H" "H \<le> 357913941" by (rule wheel_okD(1,2) [OF w1(1)])+
      show "int (length (timer_lists w')) = H * 3" using len hand(5) by (simp add: w'_def)
      have "0 \<le> curr_timer_index w'" "curr_timer_index w' < n" using n by (simp_all add: w'_def)
      then show "- 1 \<le> curr_timer_index w'" "curr_timer_index w' < H * 3" by (simp_all add: n_def)
      show "\<exists>L. wheel_rep w' L" using rep' by blast
      fix x s assume "left w' x s"
      then have "left w1 x (s + m)" by (simp add: lft)
      then show "s \<le> H" using bound [of x "s + m"] m(1) by linarith
    qed
    have sl: "seconds_left w x = Some r \<longleftrightarrow> left w1 x r" for x r
      using seconds_left_iff [OF rep] w1(2) by simp
    have "seconds_left w' x = tick y (seconds_left w) x" for x
    proof (rule seconds_left_eqI [OF rep'])
      fix s
      have shift: "left w1 x (s + m) \<longleftrightarrow> left w1 x (s + y)" if "1 \<le> s"
      proof (cases "y < n")
        case False
        then have "\<not> s + m \<le> H" "\<not> s + y \<le> H" using that m(4) [of "s + m"] wheel_okD(1) [OF w1(1)] by (auto simp: n_def)
        then show ?thesis using bound by blast
      qed (simp add: m(5))
      have "tick y (seconds_left w) x = Some s \<longleftrightarrow> 1 \<le> s \<and> left w1 x (s + y)"
        by (cases "seconds_left w x") (auto simp: tick_def simp flip: sl)
      then show "left w' x s \<longleftrightarrow> tick y (seconds_left w) x = Some s" using shift by (auto simp: lft)
    qed
    then have "seconds_left w' = tick y (seconds_left w)" by (rule ext)
    moreover have "set os = {q. known q} \<inter> due y (seconds_left w)"
    proof -
      have "(\<exists>s. 1 \<le> s \<and> s \<le> m \<and> left w1 x s) \<longleftrightarrow> (\<exists>s. left w1 x s \<and> s \<le> y)" for x
        using bound m(4) by (metis left_def not_le)
      then show ?thesis by (auto simp: I(6) due_def sl)
    qed
    moreover have "wheel_check known now w = Some (w', os)"
    proof -
      have "go_mod (i32 (curr_timer_index w1 + 1)) n = (curr_timer_index w1 + 1) mod n"
        using go_mod_i32 [OF wheel_okD(4,5) [OF w1(1)], of 1] wheel_okD(1,2) [OF w1(1)] by (simp add: n_def)
      then show ?thesis
        using True n I(1) m(3) len
        unfolding wheel_check_def w1_def [symmetric] Let_def y_def [symmetric]
        by (simp add: w'_def n_def)
    qed
    ultimately show ?thesis using True ok' I(5) hand(4) w1(3) by (auto simp: y w'_def)
  qed
qed

end
