(* ===== verification/Conn_Timer_Props.thy ===== *)
theory Conn_Timer_Props
  imports Conn_Timer_Correct
begin

text \<open>
  What the timer wheel promises: a round implements the abstract map of deadlines, and a player who stays
  silent is logged out by the first round after his deadline and by no other.
\<close>

lemma wheel_Init_ok:
  assumes "0 < H" and "H \<le> 357913941"
  shows "\<exists>w. wheel_Init H = Some w \<and> wheel_ok H w \<and> seconds_left w = Map.empty
    \<and> last_check_time w = 0 \<and> op_chan w = []"
proof -
  define w where "w = \<lparr>cw_timers = Map.empty, cw_next_timer = 0, cw_lists = Map.empty, cw_next_list = 0,
        timer_lists = replicate (nat (H * 3)) None, curr_timer_index = - 1, last_check_time = 0,
        last_players_num = 0, cw_players = [], op_chan = []\<rparr>"
  have "wheel_rep w (\<lambda>a. [])"
    by (simp add: wheel_rep_def lists_rep_def players_rep_def slots_rep_def w_def)
  moreover have "left w q r \<longleftrightarrow> False" for q r by (simp add: left_def w_def)
  moreover from this have "seconds_left w q = None" for q by (simp add: seconds_left_def find_None_iff)
  ultimately show ?thesis using assms
    by (auto simp: wheel_Init_def wheel_ok_def w_def)
qed

lemma wheel_round_ok:
  assumes "wheel_ok H w"
  shows "\<exists>w' out. wheel_round H known now w = Some (w', out) \<and> wheel_ok H w' \<and> op_chan w' = []
    \<and> last_check_time w' = (if last_check_time w = 0 \<or> elapsed w now > 0 then now else last_check_time w)
    \<and> seconds_left w' = tick (elapsed w now) (fold (abs_op H) (op_chan w) (seconds_left w))
    \<and> distinct out
    \<and> set out = {q. known q} \<inter> due (elapsed w now) (fold (abs_op H) (op_chan w) (seconds_left w))"
proof -
  obtain w1 where w1: "wheel_drain H w = Some w1" "wheel_ok H w1" "op_chan w1 = []"
    "last_check_time w1 = last_check_time w" "seconds_left w1 = fold (abs_op H) (op_chan w) (seconds_left w)"
    using wheel_drain_ok [OF assms] by blast
  have y: "elapsed w1 now = elapsed w now" by (simp add: elapsed_def w1(4))
  obtain w2 out where w2: "wheel_check known now w1 = Some (w2, out)" "wheel_ok H w2" "op_chan w2 = []"
    "last_check_time w2 = (if last_check_time w = 0 \<or> elapsed w now > 0 then now else last_check_time w)"
    "seconds_left w2 = tick (elapsed w now) (seconds_left w1)" "distinct out"
    "set out = {q. known q} \<inter> due (elapsed w now) (seconds_left w1)"
    using wheel_check_ok [OF w1(2), of known now] unfolding w1(3,4) y by blast
  define w' where "w' = w2\<lparr>last_players_num := int (length (cw_players w2))\<rparr>"
  have "wheel_ok H w' \<longleftrightarrow> wheel_ok H w2" "seconds_left w' = seconds_left w2"
    using wheel_ok_cong [of w' w2] by (simp_all add: w'_def)
  moreover have "wheel_round H known now w = Some (w', out)"
    by (simp add: wheel_round_def w1(1) w2(1) w'_def)
  ultimately show ?thesis using w2 by (auto simp: w'_def w1(5))
qed

text \<open>C21: One round of the timer wheel implements the map from players to the seconds they have left: the
  waiting operations are applied in their order (a sign of life gives the player the whole interval again,
  a removal takes him off the wheel), then the time since the last round passes for everybody, and exactly the
  players whose time is over and whom the player manager knows are logged out, each once. A round never fails
  and keeps the wheel well formed, and the clock going back changes nothing.\<close>

theorem wheel_round_refines:
  assumes "wheel_ok H w"
  shows "\<exists>w' out. wheel_round H known now w = Some (w', out) \<and> wheel_ok H w' \<and> op_chan w' = []
    \<and> last_check_time w' = (if last_check_time w = 0 \<or> elapsed w now > 0 then now else last_check_time w)
    \<and> seconds_left w' = tick (elapsed w now) (fold (abs_op H) (op_chan w) (seconds_left w))
    \<and> distinct out
    \<and> set out = {q. known q} \<inter> due (elapsed w now) (fold (abs_op H) (op_chan w) (seconds_left w))"
  by (rule wheel_round_ok [OF assms])

definition demo_wheel :: ConnTimerWheel where
  "demo_wheel = (the (wheel_Init 2))\<lparr>op_chan := [OpInsert 7, OpInsert 8, OpInsert 7, OpRemove 8]\<rparr>"

lemma demo_wheel_ok: "wheel_ok 2 demo_wheel"
  using wheel_Init_ok [of 2] wheel_ok_cong(1) [of demo_wheel "the (wheel_Init 2)" 2] by (auto simp: demo_wheel_def)

theorem wheel_round_refines_witness:
  "\<exists>w' out. wheel_round 2 (\<lambda>q. True) 100 demo_wheel = Some (w', out) \<and> seconds_left w' 8 = None \<and> out = []"
proof -
  have "elapsed demo_wheel 100 = 0" by (simp add: elapsed_def demo_wheel_def wheel_Init_def)
  moreover have "seconds_left demo_wheel q = None" for q
    by (simp add: seconds_left_def find_None_iff left_def demo_wheel_def wheel_Init_def)
  moreover have "op_chan demo_wheel = [OpInsert 7, OpInsert 8, OpInsert 7, OpRemove 8]" by (simp add: demo_wheel_def)
  ultimately show ?thesis
    using wheel_round_refines [OF demo_wheel_ok, of "\<lambda>q. True" 100]
    by (auto simp: tick_def due_def abs_op_def split: if_splits)
qed

section \<open>Signs of life and silence over many rounds\<close>

text \<open>Rounds at given times, each after some operations arrived.\<close>

fun wheel_rounds ::
    "int \<Rightarrow> (int \<Rightarrow> bool) \<Rightarrow> (conn_op list \<times> int) list \<Rightarrow> ConnTimerWheel \<Rightarrow> (ConnTimerWheel \<times> int list list) option" where
  "wheel_rounds H known [] w = Some (w, [])"
| "wheel_rounds H known ((ops, now) # rs) w = do {
     (w1, out) \<leftarrow> wheel_round H known now (w\<lparr>op_chan := op_chan w @ ops\<rparr>);
     (w2, outs) \<leftarrow> wheel_rounds H known rs w1;
     Some (w2, out # outs)
   }"

definition mentions :: "int \<Rightarrow> conn_op list \<Rightarrow> bool" where
  "mentions q ops \<longleftrightarrow> OpInsert q \<in> set ops \<or> OpRemove q \<in> set ops"

lemma abs_ops_other:
  "\<not> mentions q ops \<Longrightarrow> fold (abs_op H) ops d q = d q"
  by (induction ops arbitrary: d) (auto simp: mentions_def abs_op_def split: conn_op.splits)

text \<open>The round a deadline falls into.\<close>

definition first_reach :: "int \<Rightarrow> int list \<Rightarrow> nat \<Rightarrow> bool" where
  "first_reach d ts i \<longleftrightarrow> d \<le> ts ! i \<and> (\<forall>j<i. ts ! j < d)"

lemma first_reach_Cons:
  "first_reach d (t # ts) i \<longleftrightarrow> (case i of 0 \<Rightarrow> d \<le> t | Suc k \<Rightarrow> t < d \<and> first_reach d ts k)"
  by (cases i) (auto simp: first_reach_def less_Suc_eq_0_disj)

lemma wheel_rounds_deadline:
  assumes "wheel_ok H w" "op_chan w = []" "last_check_time w = t0" "0 < t0" "known q"
    and "\<forall>rd \<in> set rs. \<not> mentions q (fst rd)" and "sorted (t0 # map snd rs)" "\<forall>rd \<in> set rs. snd rd \<le> max_int32"
  shows "\<exists>w' outs. wheel_rounds H known rs w = Some (w', outs) \<and> length outs = length rs
    \<and> (\<forall>i<length rs. q \<in> set (outs ! i) \<longleftrightarrow>
        (\<exists>r. seconds_left w q = Some r \<and> first_reach (t0 + r) (map snd rs) i))"
  using assms
proof (induction rs arbitrary: w t0)
  case (Cons rd rs)
  obtain ops now where rd: "rd = (ops, now)" by (cases rd)
  define w0 where "w0 = w\<lparr>op_chan := ops\<rparr>"
  have w0: "wheel_ok H w0" "seconds_left w0 = seconds_left w" "last_check_time w0 = t0" "op_chan w0 = ops"
    using wheel_ok_cong [of w0 w] Cons.prems(1,3) by (simp_all add: w0_def)
  have now: "t0 \<le> now" "now \<le> max_int32" using Cons.prems(7,8) by (simp_all add: rd)
  have y: "elapsed w0 now = now - t0" using now Cons.prems(4) by (simp add: elapsed_def w0(3))
  have dq: "fold (abs_op H) ops (seconds_left w) q = seconds_left w q"
    using Cons.prems(6) by (intro abs_ops_other) (simp add: rd)
  obtain w1 out where w1: "wheel_round H known now w0 = Some (w1, out)" "wheel_ok H w1" "op_chan w1 = []"
    "last_check_time w1 = (if t0 = 0 \<or> now - t0 > 0 then now else t0)"
    "seconds_left w1 = tick (now - t0) (fold (abs_op H) ops (seconds_left w))"
    "set out = {q. known q} \<inter> due (now - t0) (fold (abs_op H) ops (seconds_left w))"
    using wheel_round_ok [OF w0(1), of known now] unfolding w0(2-4) y by blast
  have lc: "last_check_time w1 = now" using w1(4) now(1) by auto
  have "sorted (now # map snd rs)" "0 < now" using Cons.prems(4,7) now by (auto simp: rd)
  moreover have "\<forall>rd \<in> set rs. \<not> mentions q (fst rd)" "\<forall>rd \<in> set rs. snd rd \<le> max_int32"
    using Cons.prems(6,8) by simp_all
  ultimately obtain w' outs where I: "wheel_rounds H known rs w1 = Some (w', outs)" "length outs = length rs"
    "\<And>i. i < length rs \<Longrightarrow> q \<in> set (outs ! i) \<longleftrightarrow>
        (\<exists>r. seconds_left w1 q = Some r \<and> first_reach (now + r) (map snd rs) i)"
    using Cons.IH [OF w1(2,3) lc _ Cons.prems(5)] by blast
  have "wheel_rounds H known (rd # rs) w = Some (w', out # outs)"
    using w1(1) I(1) Cons.prems(2) by (simp add: rd w0_def)
  moreover have "q \<in> set ((out # outs) ! i) \<longleftrightarrow>
      (\<exists>r. seconds_left w q = Some r \<and> first_reach (t0 + r) (map snd (rd # rs)) i)" if "i < Suc (length rs)" for i
  proof (cases i)
    case 0
    have "q \<in> set out \<longleftrightarrow> (\<exists>r. seconds_left w q = Some r \<and> r \<le> now - t0)"
      using Cons.prems(5) by (simp add: w1(6) due_def dq)
    with 0 show ?thesis by (auto simp: rd first_reach_Cons)
  next
    case (Suc k)
    have "(\<exists>r. seconds_left w1 q = Some r \<and> first_reach (now + r) (map snd rs) k) \<longleftrightarrow>
      (\<exists>r. seconds_left w q = Some r \<and> now < t0 + r \<and> first_reach (t0 + r) (map snd rs) k)"
      by (cases "seconds_left w q") (auto simp: w1(5) tick_def dq add.commute)
    with Suc that I(3) [of k] show ?thesis by (simp add: rd first_reach_Cons)
  qed
  ultimately show ?case using I(2) by auto
qed auto

text \<open>C22: A player with \<open>r\<close> seconds left who sends nothing any more is logged out by the first round at or
  after his deadline, whatever the other players do and however far apart the rounds are, and by no other
  round; in particular nobody is logged out early.\<close>

theorem silent_player_logged_out:
  assumes "wheel_ok H w" "op_chan w = []" "0 < last_check_time w" "known q"
    and "seconds_left w q = Some r"
    and "\<forall>rd \<in> set rs. \<not> mentions q (fst rd)" and "sorted (last_check_time w # map snd rs)"
    and "\<forall>rd \<in> set rs. snd rd \<le> max_int32"
  shows "\<exists>w' outs. wheel_rounds H known rs w = Some (w', outs) \<and> length outs = length rs
    \<and> (\<forall>i<length rs. q \<in> set (outs ! i) \<longleftrightarrow>
        last_check_time w + r \<le> snd (rs ! i) \<and> (\<forall>j<i. snd (rs ! j) < last_check_time w + r))"
proof -
  obtain w' outs where "wheel_rounds H known rs w = Some (w', outs)" "length outs = length rs"
    "\<And>i. i < length rs \<Longrightarrow> q \<in> set (outs ! i) \<longleftrightarrow> first_reach (last_check_time w + r) (map snd rs) i"
    using wheel_rounds_deadline [of H w "last_check_time w" known q rs, OF assms(1,2) refl assms(3,4,6-8)] assms(5) by auto
  then show ?thesis by (auto simp: first_reach_def)
qed

definition waiting_wheel :: ConnTimerWheel where
  "waiting_wheel = fst (the (wheel_round 2 (\<lambda>q. True) 100 demo_wheel))"

lemma waiting_wheel:
  "wheel_ok 2 waiting_wheel" "op_chan waiting_wheel = []" "last_check_time waiting_wheel = 100"
  "seconds_left waiting_wheel 7 = Some 2"
proof -
  have y: "elapsed demo_wheel 100 = 0" "last_check_time demo_wheel = 0"
    by (simp_all add: elapsed_def demo_wheel_def wheel_Init_def)
  have "seconds_left demo_wheel q = None" for q
    by (simp add: seconds_left_def find_None_iff left_def demo_wheel_def wheel_Init_def)
  moreover have ops: "op_chan demo_wheel = [OpInsert 7, OpInsert 8, OpInsert 7, OpRemove 8]"
    by (simp add: demo_wheel_def)
  ultimately have "tick 0 (fold (abs_op 2) (op_chan demo_wheel) (seconds_left demo_wheel)) 7 = Some 2"
    by (simp add: tick_def abs_op_def)
  then show "wheel_ok 2 waiting_wheel" "op_chan waiting_wheel = []" "last_check_time waiting_wheel = 100"
    "seconds_left waiting_wheel 7 = Some 2"
    using wheel_round_ok [OF demo_wheel_ok, of "\<lambda>q. True" 100] unfolding waiting_wheel_def y by auto
qed

definition demo_rounds :: "(conn_op list \<times> int) list" where
  "demo_rounds = [([OpInsert 8], 101), ([], 105), ([], 106)]"

theorem silent_player_logged_out_witness:
  "\<exists>w' outs. wheel_rounds 2 (\<lambda>q. True) demo_rounds waiting_wheel = Some (w', outs)
    \<and> length outs = 3 \<and> 7 \<notin> set (outs ! 0) \<and> 7 \<in> set (outs ! 1) \<and> 7 \<notin> set (outs ! 2)"
proof -
  note w = waiting_wheel
  have "0 < last_check_time waiting_wheel" "sorted (last_check_time waiting_wheel # map snd demo_rounds)"
    "\<forall>rd \<in> set demo_rounds. \<not> mentions 7 (fst rd)" "\<forall>rd \<in> set demo_rounds. snd rd \<le> max_int32"
    by (simp_all add: w demo_rounds_def mentions_def)
  from silent_player_logged_out [of 2 waiting_wheel "\<lambda>q. True" 7 2 demo_rounds, OF w(1,2) this(1) TrueI w(4) this(3,2,4)]
  obtain w' outs where r: "wheel_rounds 2 (\<lambda>q. True) demo_rounds waiting_wheel = Some (w', outs)"
    "length outs = length demo_rounds"
    "\<forall>i<length demo_rounds. 7 \<in> set (outs ! i) \<longleftrightarrow>
        100 + 2 \<le> snd (demo_rounds ! i) \<and> (\<forall>j<i. snd (demo_rounds ! j) < 100 + 2)"
    unfolding w(3) by blast
  have "7 \<notin> set (outs ! 0)" "7 \<in> set (outs ! 1)" "7 \<notin> set (outs ! 2)"
    using r(3) by (simp_all add: demo_rounds_def numeral_2_eq_2 less_Suc_eq)
  with r show ?thesis by (simp add: demo_rounds_def)
qed

end
