(* ===== verification/Player_Data.thy ===== *)
theory Player_Data
  imports Battle_Data Go_Float "HOL-Library.AList"
begin

text \<open>
  The data of a player that his items, roles, talents and artifacts change: the columns of
  \<open>hall_server/a_db_tables.go\<close> as lists of pairs with different keys, the tables of \<open>table_config\<close> as
  arguments, and what other parts of the server are told (tasks, activities, rankings) as a list of events.
  The order in which Go runs through a map is not fixed; where it matters the order is an argument.
\<close>

section \<open>Columns of the data base\<close>

type_synonym 'd column = "(int \<times> 'd) list"

definition col_HasIndex :: "'d column \<Rightarrow> int \<Rightarrow> bool" where
  "col_HasIndex c k = (map_of c k \<noteq> None)"

definition col_Get :: "'d column \<Rightarrow> int \<Rightarrow> 'd option" where
  "col_Get c k = map_of c k"

definition col_Add :: "int \<Rightarrow> 'd \<Rightarrow> 'd column \<Rightarrow> 'd column \<times> bool" where
  "col_Add k d c = (if col_HasIndex c k then (c, False) else (AList.update k d c, True))"

definition col_Remove :: "int \<Rightarrow> 'd column \<Rightarrow> 'd column" where
  "col_Remove k c = AList.delete k c"

definition col_NumAll :: "'d column \<Rightarrow> int" where
  "col_NumAll c = i32 (int (length c))"

text \<open>The setters of a field, which do nothing for an unknown key.\<close>

definition col_Set :: "int \<Rightarrow> ('d \<Rightarrow> 'd) \<Rightarrow> 'd column \<Rightarrow> 'd column \<times> bool" where
  "col_Set k f c = (case map_of c k of None \<Rightarrow> (c, False) | Some d \<Rightarrow> (AList.update k (f d) c, True))"

text \<open>\<open>IncbyCount\<close> makes a row for an unknown key.\<close>

definition col_Incby :: "int \<Rightarrow> int \<Rightarrow> int column \<Rightarrow> int column \<times> int" where
  "col_Incby k v c =
     (let d = i32 ((case map_of c k of None \<Rightarrow> 0 | Some d \<Rightarrow> d) + v) in (AList.update k d c, d))"

lemma col_Get_Add: "col_Get (fst (col_Add k d c)) x = (if x = k \<and> col_Get c k = None then Some d else col_Get c x)"
  by (auto simp: col_Add_def col_Get_def col_HasIndex_def update_conv')

lemma col_Get_Remove [simp]: "col_Get (col_Remove k c) x = (if x = k then None else col_Get c x)"
  by (simp add: col_Remove_def col_Get_def delete_conv')

lemma col_Get_Set: "col_Get (fst (col_Set k f c)) x = (if x = k then map_option f (col_Get c k) else col_Get c x)"
  by (auto simp: col_Set_def col_Get_def update_conv' split: option.splits)

lemma col_Get_Incby:
  "col_Get (fst (col_Incby k v c)) x =
     (if x = k then Some (i32 ((case col_Get c k of None \<Rightarrow> 0 | Some d \<Rightarrow> d) + v)) else col_Get c x)"
  by (auto simp: col_Incby_def col_Get_def update_conv' Let_def)

lemma col_HasIndex: "col_HasIndex c k \<longleftrightarrow> col_Get c k \<noteq> None"
  by (simp add: col_HasIndex_def col_Get_def)

definition col_ok :: "'d column \<Rightarrow> bool" where
  "col_ok c \<longleftrightarrow> distinct (map fst c)"

lemma col_ok_ops [simp]:
  assumes "col_ok c"
  shows "col_ok (fst (col_Add k d c))" "col_ok (col_Remove k c)" "col_ok (fst (col_Set k f c))"
  using assms by (auto simp: col_ok_def col_Add_def col_Remove_def col_Set_def distinct_update distinct_delete
      split: option.splits)

lemma col_ok_Incby [simp]: "col_ok c \<Longrightarrow> col_ok (fst (col_Incby k v c))"
  by (simp add: col_ok_def col_Incby_def Let_def distinct_update)

section \<open>Tables\<close>

record XmlItemItem =
  item_Type :: int
  EquipType :: int
  item_Quality :: int
  ComposeNum :: int
  ComposeType :: int
  ComposeDropID :: int
  SellReward :: "int list"
  item_BattlePower :: int

record XmlVipItem =
  vip_Id :: int
  vip_Exp :: int
  HonorPointBonus :: int

record XmlLevelUpItem =
  PlayerLevelUpExp :: int
  CardLevelUpRes :: "int list"
  CardDecomposeRes :: "int list"

record XmlRankUpItem =
  Type1RankUpRes :: "int list"
  Type2RankUpRes :: "int list"
  Type3RankUpRes :: "int list"
  Type1DecomposeRes :: "int list"
  Type2DecomposeRes :: "int list"
  Type3DecomposeRes :: "int list"

text \<open>The columns of a card that a fight does not use.\<close>

record XmlRoleCard = XmlCardItem +
  card_MaxLevel :: int
  card_Rarity :: int
  card_DecomposeRes :: "int list"
  HeadItem :: int
  BagFullChangeItem :: "int list"
  ConvertId1 :: int
  ConvertId2 :: int
  ConvertItem :: "int list"

record XmlDropItem =
  drop_GroupId :: int
  DropItemID :: int
  drop_Weight :: int
  drop_Min :: int
  drop_Max :: int

record DropTypeLib =
  TotalCount :: int
  TotalWeight :: int
  DropItems :: "XmlDropItem list"

record XmlItemUpgradeItem =
  upgrade_Id :: int
  upgrade_ItemId :: int
  UpgradeType :: int
  ResultDropId :: int
  ResCondition :: "int list"

record XmlTalentCost =
  talent_CanLearn :: int
  UpgradeCost :: "int list"
  PrevSkillCond :: int
  PreSkillLevCond :: int
  talent_Tag :: int

record XmlArtifactItem =
  artifact_MaxLevel :: int
  LevelUpResCost :: "int list"
  RankUpResCost :: "int list"
  artifact_DecomposeRes :: "int list"

record XmlArtifactUnlockItem =
  UnLockLevel :: int
  UnLockVIPLevel :: int
  UnLockResCost :: "int list"

record FusionCostCond =
  CostId :: int
  CostCamp :: int
  CostType :: int
  CostStar :: int
  CostNum :: int

record XmlFusionItem =
  FusionType :: int
  ResultDropID :: int
  MainCardID :: int
  MainCardLevelCond :: int
  fusion_ResCondition :: "int list"
  CostConds :: "FusionCostCond list"

record XmlHeroConvertItem =
  HeroId :: int
  hero_Weight :: int

record XmlHeroConvertGroup =
  HeroItems :: "XmlHeroConvertItem list"
  group_TotalWeight :: int

record XmlDrawItem =
  NeedBlank :: int
  FreeExtractTime :: int
  ResCondition1 :: "int list"
  ResCondition2 :: "int list"
  FirstDropID :: "int list"
  DropId :: "int list"

record player_tables =
  item_table :: "int \<Rightarrow> XmlItemItem option"
  vip_array :: "XmlVipItem list"
  levelup_table :: "int \<Rightarrow> XmlLevelUpItem option"
  levelup_table_len :: int
  rankup_table :: "int \<Rightarrow> XmlRankUpItem option"
  card_table :: "int \<Rightarrow> XmlRoleCard list"
  drop_table :: "int \<Rightarrow> DropTypeLib option"
  item_upgrades :: "int \<Rightarrow> XmlItemUpgradeItem list"
  talent_table :: "int \<Rightarrow> XmlTalentCost list"
  artifact_table :: "int \<Rightarrow> int \<Rightarrow> int \<Rightarrow> XmlArtifactItem option"
  artifact_max_rank :: "int \<Rightarrow> int"
  artifact_unlock_table :: "int \<Rightarrow> XmlArtifactUnlockItem option"
  fusion_table :: "int \<Rightarrow> XmlFusionItem option"
  hero_convert_table :: "int \<Rightarrow> XmlHeroConvertGroup option"
  draw_table :: "int \<Rightarrow> XmlDrawItem option"
  LifeTreeEnterLevel :: int
  MaxRoleCount :: int
  TalentResetCostDiamond :: int
  ItemLeftSlotOpenLevel :: int
  LeftSlotDropId :: int

text \<open>The lookups that are more than reading a map.\<close>

definition vip_Get :: "player_tables \<Rightarrow> int \<Rightarrow> XmlVipItem option" where
  "vip_Get T level = map_of (rev (map (\<lambda>v. (vip_Id v, v)) (vip_array T))) level"

definition GetRankCard :: "player_tables \<Rightarrow> int \<Rightarrow> int \<Rightarrow> XmlRoleCard option" where
  "GetRankCard T k rank =
     (let cards = card_table T k in
      if rank < 1 \<or> int (length cards) < rank then None else Some (cards ! nat (rank - 1)))"

definition GetByIdLevel :: "player_tables \<Rightarrow> int \<Rightarrow> int \<Rightarrow> XmlTalentCost option" where
  "GetByIdLevel T k level =
     (let arr = talent_table T k in
      if level < 1 \<or> int (length arr) < level then None else Some (arr ! nat (level - 1)))"

definition GetByItemId :: "player_tables \<Rightarrow> int \<Rightarrow> XmlItemUpgradeItem list" where
  "GetByItemId T k = item_upgrades T k"

text \<open>The load of the drop table: the rows grouped by their id, with their number and the sum of weights.\<close>

definition drop_add_row :: "XmlDropItem \<Rightarrow> (int \<Rightarrow> DropTypeLib option) \<Rightarrow> (int \<Rightarrow> DropTypeLib option)" where
  "drop_add_row x m =
     (case m (drop_GroupId x) of
        None \<Rightarrow> m(drop_GroupId x \<mapsto> \<lparr>TotalCount = 1, TotalWeight = drop_Weight x, DropItems = []\<rparr>)
      | Some l \<Rightarrow> m(drop_GroupId x \<mapsto> l\<lparr>TotalCount := i32 (TotalCount l + 1),
          TotalWeight := i32 (TotalWeight l + drop_Weight x)\<rparr>))"

definition drop_fill_row :: "XmlDropItem \<Rightarrow> (int \<Rightarrow> DropTypeLib option) \<Rightarrow> (int \<Rightarrow> DropTypeLib option)" where
  "drop_fill_row x m =
     (case m (drop_GroupId x) of
        None \<Rightarrow> m
      | Some l \<Rightarrow> m(drop_GroupId x \<mapsto> l\<lparr>DropItems := DropItems l @ [x]\<rparr>))"

definition Drop_Load :: "XmlDropItem list \<Rightarrow> (int \<Rightarrow> DropTypeLib option)" where
  "Drop_Load xs = fold drop_fill_row xs (fold drop_add_row xs Map.empty)"

text \<open>The load of the upgrade table chains the rows of an item in their order.\<close>

definition upgrade_add_row ::
    "XmlItemUpgradeItem \<Rightarrow> (int \<Rightarrow> XmlItemUpgradeItem list) \<Rightarrow> (int \<Rightarrow> XmlItemUpgradeItem list)" where
  "upgrade_add_row x m = m(upgrade_ItemId x := m (upgrade_ItemId x) @ [x])"

section \<open>Answers\<close>

text \<open>The error codes of the handlers, all negative; \<open>E_FAILED\<close> is the plain \<open>-1\<close>.\<close>

datatype player_error =
    E_FAILED
  | E_ITEM_NOT_FOUND | E_ITEM_NUM_NOT_ENOUGH | E_ITEM_TABLE_ID_NOT_FOUND | E_ITEM_TYPE_NOT_MATCH
  | E_EQUIP_SLOT_EMPTY | E_EQUIP_TYPE_INVALID
  | E_ITEM_FUSION_FAILED | E_ITEM_COUNT_NOT_ENOUGH_TO_FUSION
  | E_ITEM_UPGRADE_TYPE_INVALID | E_ITEM_UPGRADE_DATA_NOT_FOUND | E_ITEM_UPGRADE_FAILED
  | E_ITEM_UPGRADE_RES_NOT_ENOUGH | E_GOLD_NOT_ENOUGH | E_ITEM_ONE_KEY_UPGRADE_NOT_ENOUGH_MATERIAL
  | E_ROLE_NOT_FOUND | E_ROLE_INVENTORY_NOT_ENOUGH_SPACE | E_ROLE_IS_LOCKED | E_ROLE_TABLE_ID_NOT_FOUND
  | E_ROLE_LEVEL_IS_MAX | E_ROLE_LEVEL_DATA_NOT_FOUND | E_ROLE_RANK_IS_MAX | E_ROLE_CANT_RANKUP_WITH_LEVEL
  | E_ROLE_RANKUP_DATA_NOT_FOUND
  | E_FUSION_NEED_ROLE_NOT_FOUND | E_FUSION_ROLE_INVALID | E_FUSION_ROLE_TABLE_DATA_NOT_FOUND
  | E_FUSION_NEED_RESOURCE_NOT_ENOUGH | E_FUSION_MAIN_ROLE_NOT_FOUND | E_FUSION_MAIN_CARD_INVALID
  | E_FUSION_ROLE_MATERIAL_NOT_ENOUGH | E_ROLE_FUSION_FAILED
  | E_ROLE_LEFT_SLOT_ALREADY_OPENED | E_ROLE_OPEN_LEFTSLOT_LEVEL_NOT_ENOUGH | E_ROLE_LEFT_SLOT_DROP_FAILED
  | E_ROLE_DISPLACE_TABLE_DATA_INVALID | E_ROLE_DISPLACE_FAILED | E_ROLE_DISPLACE_CONFIRM_FAILED
  | E_LEVEL_NOT_ENOUGH | E_TALENT_NOT_FOUND | E_TALENT_UP_NEED_PREV_TALENT | E_TALENT_UP_NOT_ENOUGH_RESOURCE | E_DIAMOND_NOT_ENOUGH
  | E_ARTIFACT_ALREADY_UNLOCKED | E_ARTIFACT_TABLE_UNLOCK_DATA_NOT_FOUND | E_ARTIFACT_CANT_UNLOCK_WITH_CONDITION
  | E_ARTIFACT_TABLE_DATA_NOT_FOUND | E_ARTIFACT_HAS_NOT_UNLOCK | E_ARTIFACT_LEVEL_IS_MAX
  | E_ARTIFACT_MUST_RANKUP_TO_LEVELUP | E_ARTIFACT_RANK_IS_MAX | E_ARTIFACT_NO_NEED_TO_RESET

section \<open>A player\<close>

datatype player_event =
    EvTaskUpdate int bool int int
  | EvActivity int int int int int
  | EvSaveUidPlayerInfo int
  | EvUpdateRolePowerRank int
  | EvDeleteRolePowerRank int
  | EvCheckDefensePower
  | EvRolesChange "int list" "int list" "int list"

record dbPlayerRoleData =
  role_TableId :: int
  role_Rank :: int
  role_Level :: int
  role_Equip :: "int list"
  role_IsLock :: int
  role_State :: int

record dbPlayerArtifactData =
  arti_Rank :: int
  arti_Level :: int

record Player =
  p_Gold :: int
  p_Diamond :: int
  p_Exp :: int
  p_Lvl :: int
  p_Level :: int
  p_VipLvl :: int
  p_Items :: "int column"
  p_Roles :: "dbPlayerRoleData column"
  p_CurrentRoleId :: int
  p_RoleHandbook :: "int list"
  p_CampaignMembers :: "int list"
  p_DefenseMembers :: "int list"
  p_AssistRoleId :: int
  p_Talents :: "int column"
  p_Artifacts :: "dbPlayerArtifactData column"
  p_ExpeditionRoles :: "int list"
  p_DrawTimes :: "int column"
  TmpSaveLeftSlotRoleId :: int
  TmpLeftSlotItemId :: int
  DisplaceRoleId :: int
  DisplacedNewRoleTableId :: int
  DisplaceGroupId :: int
  b_base_prop_chg :: bool
  items_changed_info :: "int column"
  is_handbook_adds :: bool
  ids_add :: "int list"
  ids_remove :: "int list"
  ids_update :: "int list"
  p_events :: "player_event list"
  p_draws :: "int list"

definition emit :: "player_event \<Rightarrow> Player \<Rightarrow> Player" where
  "emit e p = p\<lparr>p_events := p_events p @ [e]\<rparr>"

text \<open>A handler answers an error or a number, or panics (\<open>None\<close>).\<close>

type_synonym answer = "((player_error + int) \<times> Player) option"

abbreviation fail :: "player_error \<Rightarrow> Player \<Rightarrow> answer" where
  "fail e p \<equiv> Some (Inl e, p)"

abbreviation reply :: "int \<Rightarrow> Player \<Rightarrow> answer" where
  "reply n p \<equiv> Some (Inr n, p)"

text \<open>\<open>rand.Int31n\<close> panics when its argument is not positive.\<close>

definition rand_Int31n :: "int \<Rightarrow> Player \<Rightarrow> (int \<times> Player) option" where
  "rand_Int31n n p =
     (if n \<le> 0 then None else (let (r, rs) = Int31n n (p_draws p) in Some (r, p\<lparr>p_draws := rs\<rparr>)))"

definition rand_from_range :: "int \<Rightarrow> int \<Rightarrow> Player \<Rightarrow> (int \<times> Player) option" where
  "rand_from_range mn mx p =
     (if mn > mx then Some (0, p)
      else if mn = mx then Some (mn, p)
      else map_option (\<lambda>(r, p'). (i32 (r + mn), p')) (rand_Int31n (i32 (mx - mn + 1)) p))"

text \<open>A change of an amount to be sent to the client; an amount of 0 is taken out.\<close>

definition change_info :: "int \<Rightarrow> int \<Rightarrow> Player \<Rightarrow> Player" where
  "change_info k d p = p\<lparr>items_changed_info :=
     (case map_of (items_changed_info p) k of
        None \<Rightarrow> AList.update k d (items_changed_info p)
      | Some old \<Rightarrow> (let n = i32 (old + d) in
          if n \<noteq> 0 then AList.update k n (items_changed_info p) else AList.delete k (items_changed_info p)))\<rparr>"

text \<open>A Go map of sums, in the order its keys came.\<close>

definition acc :: "int \<Rightarrow> int \<Rightarrow> int column \<Rightarrow> int column" where
  "acc k v m = AList.update k (i32 ((case map_of m k of None \<Rightarrow> 0 | Some w \<Rightarrow> w) + v)) m"

section \<open>Changes of roles waiting to be sent\<close>

definition id_add :: "int \<Rightarrow> Player \<Rightarrow> Player" where
  "id_add k p = p\<lparr>ids_add := ids_add p @ [k]\<rparr>"

definition id_remove :: "int \<Rightarrow> Player \<Rightarrow> Player" where
  "id_remove k p = p\<lparr>ids_remove := ids_remove p @ [k]\<rparr>"

definition id_update :: "int \<Rightarrow> Player \<Rightarrow> Player" where
  "id_update k p = p\<lparr>ids_update := ids_update p @ [k]\<rparr>"

definition ids_changed :: "Player \<Rightarrow> bool" where
  "ids_changed p = (ids_add p \<noteq> [] \<or> ids_remove p \<noteq> [] \<or> ids_update p \<noteq> [])"

definition ids_reset :: "Player \<Rightarrow> Player" where
  "ids_reset p = p\<lparr>ids_add := [], ids_remove := [], ids_update := []\<rparr>"

text \<open>\<open>BuildSomeMsg\<close> stops at the first k the player no longer has.\<close>

definition BuildSomeMsg :: "int list \<Rightarrow> Player \<Rightarrow> int list" where
  "BuildSomeMsg ids p = takeWhile (col_HasIndex (p_Roles p)) ids"

definition check_and_send_roles_change :: "Player \<Rightarrow> Player" where
  "check_and_send_roles_change p =
     (if ids_changed p
      then emit (EvRolesChange (BuildSomeMsg (ids_add p) p) (ids_remove p) (BuildSomeMsg (ids_update p) p))
             (ids_reset p)
      else p)"

end
