(* ===== verification/Player_Items.thy ===== *)
theory Player_Items
  imports Player_Data
begin

text \<open>
  The resources and items of a player (\<open>hall_server/player_item.go\<close>): gold, diamonds, experience, the
  experience of the VIP level and the counted items, with their saturation at the largest \<open>int32\<close>; adding,
  paying and checking lists of resources given as id, number, id, number.
\<close>

abbreviation (input) "ITEM_TYPE_EQUIP \<equiv> 2 :: int"
abbreviation (input) "ITEM_TYPE_HEAD \<equiv> 5 :: int"
abbreviation (input) "ITEM_RESOURCE_ID_GOLD \<equiv> 1 :: int"
abbreviation (input) "ITEM_RESOURCE_ID_DIAMOND \<equiv> 3 :: int"
abbreviation (input) "ITEM_RESOURCE_ID_EXP \<equiv> 7 :: int"
abbreviation (input) "ITEM_RESOURCE_ID_HONOR \<equiv> 17 :: int"
abbreviation (input) "ITEM_RESOURCE_ID_VIP_EXP \<equiv> 21 :: int"
abbreviation (input) "EQUIP_TYPE_LEFT_SLOT \<equiv> 5 :: int"
abbreviation (input) "EQUIP_TYPE_RELIC \<equiv> 6 :: int"
abbreviation (input) "EQUIP_TYPE_MAX \<equiv> 7 :: int"

abbreviation (input) "TASK_COMPLETE_TYPE_FORGE_EQUIP_NUM \<equiv> 110 :: int"
abbreviation (input) "TASK_COMPLETE_TYPE_REACH_LEVEL \<equiv> 202 :: int"
abbreviation (input) "TASK_COMPLETE_TYPE_REACH_VIP_N_LEVEL \<equiv> 209 :: int"
abbreviation (input) "TASK_COMPLETE_TYPE_GET_QUALITY_EQUIPS_NUM \<equiv> 210 :: int"
abbreviation (input) "ACTIVITY_EVENT_CHARGE_RETURN \<equiv> 303 :: int"
abbreviation (input) "ACTIVITY_EVENT_DIAMOND_COST \<equiv> 305 :: int"

section \<open>Items\<close>

text \<open>The honor points a VIP level adds.\<close>

definition vip_bonus :: "player_tables \<Rightarrow> Player \<Rightarrow> int \<Rightarrow> int" where
  "vip_bonus T p n =
     (case vip_Get T (p_VipLvl p) of
        None \<Rightarrow> 0
      | Some v \<Rightarrow> int32_of (f32 (f32 (of_int n) * f32 (f32 (of_int (HonorPointBonus v)) / 10000))))"

definition get_item :: "Player \<Rightarrow> int \<Rightarrow> int" where
  "get_item p k = (case col_Get (p_Items p) k of None \<Rightarrow> 0 | Some c \<Rightarrow> c)"

text \<open>The new column and the number that counts as added.\<close>

definition put_item :: "XmlItemItem \<Rightarrow> int \<Rightarrow> int \<Rightarrow> int column \<Rightarrow> int column \<times> int" where
  "put_item item k n c =
     (case col_Get c k of
        None \<Rightarrow> (let n = (if item_Type item = ITEM_TYPE_HEAD then 1 else n) in (fst (col_Add k n c), n))
      | Some old \<Rightarrow>
          if item_Type item \<noteq> ITEM_TYPE_HEAD
          then (if i32 (old + n) < 0
                then (fst (col_Set k (\<lambda>_. max_int32) c), i32 (max_int32 - old))
                else (fst (col_Incby k n c), n))
          else (c, 0))"

definition add_item :: "player_tables \<Rightarrow> int \<Rightarrow> int \<Rightarrow> Player \<Rightarrow> Player \<times> XmlItemItem option" where
  "add_item T k n p =
     (case item_table T k of
        None \<Rightarrow> (p, None)
      | Some item \<Rightarrow>
          if n < 0 then (p, None)
          else (let n = (if k = ITEM_RESOURCE_ID_HONOR then i32 (n + vip_bonus T p n) else n);
                    (c, n) = put_item item k n (p_Items p);
                    p = p\<lparr>p_Items := c\<rparr>
                in (if 0 < n then change_info k n p else p, Some item)))"

definition del_item :: "int \<Rightarrow> int \<Rightarrow> Player \<Rightarrow> Player \<times> bool" where
  "del_item k n p =
     (case col_Get (p_Items p) k of
        None \<Rightarrow> (p, False)
      | Some c \<Rightarrow>
          if n \<le> 0 \<or> c < n then (p, False)
          else (let p = p\<lparr>p_Items := if c = n then col_Remove k (p_Items p)
                                     else fst (col_Incby k (- n) (p_Items p))\<rparr>
                in (change_info k (- n) p, True)))"

section \<open>Gold, diamonds, experience\<close>

definition add_gold :: "int \<Rightarrow> Player \<Rightarrow> Player \<times> int" where
  "add_gold n p =
     (let gold = i32 (n + p_Gold p);
          result = (if 0 \<le> gold then i32 (p_Gold p + n) else if 0 < n then max_int32 else 0);
          p = p\<lparr>p_Gold := result\<rparr>
      in (if n \<noteq> 0 then p\<lparr>b_base_prop_chg := True\<rparr> else p, result))"

definition add_diamond :: "int \<Rightarrow> Player \<Rightarrow> Player \<times> int" where
  "add_diamond n p =
     (let diamond = i32 (n + p_Diamond p);
          result = (if 0 \<le> diamond then i32 (p_Diamond p + n) else if 0 < n then max_int32 else 0);
          p = p\<lparr>p_Diamond := result\<rparr>;
          p = (if n < 0 then emit (EvActivity ACTIVITY_EVENT_DIAMOND_COST (i32 (- n)) 0 0 0) p else p)
      in (if n \<noteq> 0 then p\<lparr>b_base_prop_chg := True\<rparr> else p, result))"

text \<open>A sum that saturates, as the code writes it.\<close>

definition exp_sum :: "int \<Rightarrow> int \<Rightarrow> int" where
  "exp_sum n old = (let e = i32 (n + old) in if e < n \<or> e < old then max_int32 else e)"

function level_loop :: "player_tables \<Rightarrow> int \<Rightarrow> int \<Rightarrow> int \<times> int" where
  "level_loop T level e =
     (case levelup_table T level of
        None \<Rightarrow> (level, e)
      | Some d \<Rightarrow>
          if PlayerLevelUpExp d \<le> 0 then (level, e)
          else if e < PlayerLevelUpExp d then (level, e)
          else level_loop T (i32 (level + 1)) (i32 (e - PlayerLevelUpExp d)))"
  by pat_completeness auto

termination
proof (relation "measure (\<lambda>(T, level, e). nat (e + 2147483648))", goal_cases)
  case (2 T level e d)
  then show ?case
    using i32_range(2) [of "e - PlayerLevelUpExp d"] by (cases "e \<le> max_int32") auto
qed simp

declare level_loop.simps [simp del]

definition add_exp :: "player_tables \<Rightarrow> int \<Rightarrow> Player \<Rightarrow> Player" where
  "add_exp T n p =
     (if n < 0 then p
      else (let (level, e) = level_loop T (p_Lvl p) (exp_sum n (p_Exp p));
                q = (if e \<noteq> p_Exp p then p\<lparr>p_Exp := e, b_base_prop_chg := True\<rparr> else p)
            in if level \<noteq> p_Lvl q
               then emit (EvSaveUidPlayerInfo level) (emit (EvTaskUpdate TASK_COMPLETE_TYPE_REACH_LEVEL True level 1)
                      (q\<lparr>p_Lvl := level, p_Level := level, b_base_prop_chg := True\<rparr>))
               else q))"

text \<open>The VIP level reached with so much experience; one step at most for every row of the table.\<close>

primrec vip_loop :: "player_tables \<Rightarrow> nat \<Rightarrow> int \<Rightarrow> int \<Rightarrow> int" where
  "vip_loop T 0 level e = level"
| "vip_loop T (Suc n) level e =
     (case vip_Get T (i32 (level + 1)) of
        None \<Rightarrow> level
      | Some v \<Rightarrow> if vip_Exp v \<le> 0 \<or> e < vip_Exp v then level else vip_loop T n (i32 (level + 1)) e)"

text \<open>\<open>set_resource\<close> for an item: the difference is added or taken.\<close>

definition set_item :: "player_tables \<Rightarrow> int \<Rightarrow> int \<Rightarrow> Player \<Rightarrow> Player" where
  "set_item T k num p =
     (let n = get_item p k in
      if 0 \<le> n
      then (if 0 < i32 (i32 (- n) + num) then fst (add_item T k (i32 (i32 (- n) + num)) p)
            else fst (del_item k (i32 (n - num)) p))
      else p)"

definition set_resource :: "player_tables \<Rightarrow> int \<Rightarrow> int \<Rightarrow> Player \<Rightarrow> Player \<times> int" where
  "set_resource T k num p =
     (if num < 0 then (p, - 1)
      else (if k = ITEM_RESOURCE_ID_GOLD then p\<lparr>p_Gold := num, b_base_prop_chg := True\<rparr>
            else if k = ITEM_RESOURCE_ID_DIAMOND then p\<lparr>p_Diamond := num, b_base_prop_chg := True\<rparr>
            else if k = ITEM_RESOURCE_ID_EXP then p
            else set_item T k num p, num))"

definition add_vip_exp :: "player_tables \<Rightarrow> int \<Rightarrow> Player \<Rightarrow> Player" where
  "add_vip_exp T n p =
     (if n \<le> 0 \<or> int (length (vip_array T)) \<le> p_VipLvl p then p
      else (let curr = get_item p ITEM_RESOURCE_ID_VIP_EXP;
                e = exp_sum n curr;
                level = vip_loop T (length (vip_array T)) (p_VipLvl p) e;
                q = (if level \<noteq> p_VipLvl p
                     then emit (EvTaskUpdate TASK_COMPLETE_TYPE_REACH_VIP_N_LEVEL True level 1)
                            (p\<lparr>p_VipLvl := level, b_base_prop_chg := True\<rparr>)
                     else p);
                q = (if e \<noteq> get_item q ITEM_RESOURCE_ID_VIP_EXP
                     then fst (set_resource T ITEM_RESOURCE_ID_VIP_EXP e q) else q)
            in emit (EvActivity ACTIVITY_EVENT_CHARGE_RETURN n 0 0 0) q))"

section \<open>Resources by their id\<close>

definition get_resource :: "Player \<Rightarrow> int \<Rightarrow> int" where
  "get_resource p k =
     (if k = ITEM_RESOURCE_ID_GOLD then p_Gold p
      else if k = ITEM_RESOURCE_ID_DIAMOND then p_Diamond p
      else if k = ITEM_RESOURCE_ID_EXP then p_Exp p
      else get_item p k)"

definition add_resource :: "player_tables \<Rightarrow> int \<Rightarrow> int \<Rightarrow> Player \<Rightarrow> Player \<times> bool" where
  "add_resource T k n p =
     (if k = ITEM_RESOURCE_ID_GOLD then (fst (add_gold n p), True)
      else if k = ITEM_RESOURCE_ID_DIAMOND then (fst (add_diamond n p), True)
      else if k = ITEM_RESOURCE_ID_EXP then (add_exp T n p, True)
      else if k = ITEM_RESOURCE_ID_VIP_EXP then (add_vip_exp T n p, True)
      else if 0 < n
      then (case add_item T k n p of
              (p', None) \<Rightarrow> (p', False)
            | (p', Some item) \<Rightarrow>
                (if 0 < EquipType item
                 then emit (EvTaskUpdate TASK_COMPLETE_TYPE_GET_QUALITY_EQUIPS_NUM False (item_Quality item) n) p'
                 else p', True))
      else del_item k (i32 (- n)) p)"

text \<open>The pairs of a list id, number, id, number; an odd element at the end is ignored.\<close>

fun pairs_of :: "int list \<Rightarrow> (int \<times> int) list" where
  "pairs_of (k # n # xs) = (k, n) # pairs_of xs"
| "pairs_of xs = []"

definition add_resources :: "player_tables \<Rightarrow> int list \<Rightarrow> Player \<Rightarrow> Player" where
  "add_resources T items p = fold (\<lambda>(k, n) p. fst (add_resource T k n p)) (pairs_of items) p"

text \<open>The check is made of a list that is not nil; the callers ask before or know it.\<close>

definition enough :: "Player \<Rightarrow> int list \<Rightarrow> bool" where
  "enough p items = list_all (\<lambda>(k, n). \<not> get_resource p k < n) (pairs_of items)"

definition check_resources :: "Player \<Rightarrow> int list option \<Rightarrow> bool" where
  "check_resources p items = (case items of None \<Rightarrow> False | Some xs \<Rightarrow> enough p xs)"

text \<open>Paying a list without looking: the loop every cost of the server is paid with.\<close>

definition pay_resources :: "player_tables \<Rightarrow> int list \<Rightarrow> Player \<Rightarrow> Player" where
  "pay_resources T items p = fold (\<lambda>(k, n) p. fst (add_resource T k (i32 (- n)) p)) (pairs_of items) p"

definition cost_resources :: "player_tables \<Rightarrow> int list option \<Rightarrow> Player \<Rightarrow> Player \<times> bool" where
  "cost_resources T items p =
     (case items of
        None \<Rightarrow> (p, False)
      | Some xs \<Rightarrow> if check_resources p items then (pay_resources T xs p, True) else (p, False))"

end
