(* ===== verification/Player_Roles.thy ===== *)
theory Player_Roles
  imports Player_Items
begin

text \<open>
  The roles of a player (\<open>hall_server/player_role.go\<close>) and the random drops of
  \<open>hall_server/player_draw_card.go\<close>: creating, deleting, levelling, ranking up, taking apart, fusing and
  exchanging roles. Messages to the client are left out, except the list of changed roles; what the server
  tells its own parts is in the events.
\<close>

abbreviation (input) "ROLE_STATE_NONE \<equiv> 0 :: int"
abbreviation (input) "TASK_COMPLETE_TYPE_GET_STAR_ROLES \<equiv> 203 :: int"
abbreviation (input) "TASK_COMPLETE_TYPE_DECOMPOSE_ROLES \<equiv> 204 :: int"
abbreviation (input) "TASK_COMPLETE_TYPE_LEVELUP_ROLE_WITH_CAMP \<equiv> 208 :: int"
abbreviation (input) "ACTIVITY_EVENT_GET_HERO \<equiv> 304 :: int"

section \<open>Fields of a role\<close>

definition role_field :: "(dbPlayerRoleData \<Rightarrow> int) \<Rightarrow> Player \<Rightarrow> int \<Rightarrow> int" where
  "role_field f p rid = (case col_Get (p_Roles p) rid of None \<Rightarrow> 0 | Some d \<Rightarrow> f d)"

definition set_role :: "int \<Rightarrow> (dbPlayerRoleData \<Rightarrow> dbPlayerRoleData) \<Rightarrow> Player \<Rightarrow> Player" where
  "set_role rid f p = p\<lparr>p_Roles := fst (col_Set rid f (p_Roles p))\<rparr>"

definition has_role :: "Player \<Rightarrow> int \<Rightarrow> bool" where
  "has_role p table_id = list_ex (\<lambda>(k, d). role_TableId d = table_id) (p_Roles p)"

section \<open>New roles\<close>

definition handbook_add :: "int \<Rightarrow> Player \<Rightarrow> Player" where
  "handbook_add table_id p =
     (if table_id \<in> set (p_RoleHandbook p) then p\<lparr>is_handbook_adds := True\<rparr>
      else p\<lparr>p_RoleHandbook := p_RoleHandbook p @ [table_id]\<rparr>)"

definition new_role :: "player_tables \<Rightarrow> int \<Rightarrow> int \<Rightarrow> int \<Rightarrow> Player \<Rightarrow> int \<times> Player" where
  "new_role T table_id rank level p =
     (case GetRankCard T table_id rank of
        None \<Rightarrow> (0, p)
      | Some cd \<Rightarrow>
          if MaxRoleCount T \<le> col_NumAll (p_Roles p) then (- 1, add_resources T (BagFullChangeItem cd) p)
          else
            (let new = i32 (p_CurrentRoleId p + 1);
                 role = \<lparr>role_TableId = table_id, role_Rank = rank, role_Level = level, role_Equip = [],
                   role_IsLock = 0, role_State = 0\<rparr>;
                 p = p\<lparr>p_CurrentRoleId := new, p_Roles := fst (col_Add new role (p_Roles p))\<rparr>;
                 p = handbook_add table_id (id_add new p);
                 p = fst (add_item T (HeadItem cd) 1 p);
                 p = emit (EvTaskUpdate TASK_COMPLETE_TYPE_GET_STAR_ROLES False (card_Rarity cd) 1) p;
                 p = emit EvCheckDefensePower (emit (EvUpdateRolePowerRank new) p);
                 p = emit (EvActivity ACTIVITY_EVENT_GET_HERO (card_Rarity cd) 1 (card_Camp cd) (card_Type cd)) p
             in (new, p)))"

primrec new_roles :: "player_tables \<Rightarrow> int \<Rightarrow> nat \<Rightarrow> Player \<Rightarrow> Player" where
  "new_roles T table_id 0 p = p"
| "new_roles T table_id (Suc n) p = new_roles T table_id n (snd (new_role T table_id 1 1 p))"

section \<open>Random drops\<close>

text \<open>What a row gives: a resource, or as many roles; a resource the player cannot take gives nothing.\<close>

definition give_drop :: "player_tables \<Rightarrow> int \<Rightarrow> int \<Rightarrow> Player \<Rightarrow> Player \<times> bool" where
  "give_drop T k n p =
     (if item_table T k \<noteq> None then add_resource T k n p
      else if card_table T k \<noteq> [] then (new_roles T k (nat n) p, True)
      else (p, True))"

text \<open>
  The search for the row of a random value. A row whose item was used before makes every later row a hit,
  until as many rows as the table has were rejected.
\<close>

fun drop_loop ::
    "player_tables \<Rightarrow> bool \<Rightarrow> int list \<Rightarrow> nat \<Rightarrow> XmlDropItem list \<Rightarrow> int \<Rightarrow> bool \<Rightarrow> int \<Rightarrow> Player \<Rightarrow> ((int \<times> int) option \<times> Player) option" where
  "drop_loop T badd used 0 xs v same cnt p = Some (None, p)"
| "drop_loop T badd used (Suc n) [] v same cnt p = None"
| "drop_loop T badd used (Suc n) (x # xs) v same cnt p =
     (if v < drop_Weight x \<or> same
      then if DropItemID x = 0 then Some (None, p)
           else if DropItemID x \<in> set used
           then (if cnt - 1 \<le> 0 then Some (None, p) else drop_loop T badd used n xs v True (cnt - 1) p)
           else Option.bind (rand_from_range (drop_Min x) (drop_Max x) p) (\<lambda>(num, p).
             let (p, took) = (if badd then give_drop T (DropItemID x) num p else (p, True)) in
             if took then Some (Some (DropItemID x, num), p) else drop_loop T badd used n xs v same cnt p)
      else drop_loop T badd used n xs (i32 (v - drop_Weight x)) same cnt p)"

definition drop_item ::
    "player_tables \<Rightarrow> DropTypeLib \<Rightarrow> bool \<Rightarrow> int list \<Rightarrow> Player \<Rightarrow> ((int \<times> int) option \<times> Player) option" where
  "drop_item T lib badd used p = do {
     (v, p) \<leftarrow> rand_Int31n (TotalWeight lib) p;
     drop_loop T badd used (nat (TotalCount lib)) (DropItems lib) v False (TotalCount lib) p
   }"

text \<open>The flag says whether the table has the id.\<close>

definition drop_item_by_id ::
    "player_tables \<Rightarrow> int \<Rightarrow> bool \<Rightarrow> int list \<Rightarrow> Player \<Rightarrow> (bool \<times> (int \<times> int) option \<times> Player) option" where
  "drop_item_by_id T k badd used p =
     (case drop_table T k of
        None \<Rightarrow> Some (False, None, p)
      | Some lib \<Rightarrow> map_option (\<lambda>(item, p). (True, item, p)) (drop_item T lib badd used p))"

section \<open>Deleting roles\<close>

definition role_is_using :: "Player \<Rightarrow> int \<Rightarrow> bool" where
  "role_is_using p rid =
     (if rid \<le> 0 then False
      else rid \<in> set (p_CampaignMembers p) \<or> rid \<in> set (p_DefenseMembers p) \<or> p_AssistRoleId p = rid
        \<or> role_field role_State p rid \<noteq> ROLE_STATE_NONE)"

text \<open>What an item is sold for; the map answers what came in.\<close>

definition item_to_resource :: "player_tables \<Rightarrow> int \<Rightarrow> Player \<Rightarrow> int column \<times> Player" where
  "item_to_resource T item_id p =
     (case item_table T item_id of
        None \<Rightarrow> ([], p)
      | Some item \<Rightarrow>
          (fold (\<lambda>(k, n). acc k n) (pairs_of (SellReward item)) [], add_resources T (SellReward item) p))"

definition add_map :: "int column \<Rightarrow> int column \<Rightarrow> int column" where
  "add_map m got = fold (\<lambda>(k, n). acc k n) m got"

text \<open>The equipment of a deleted role goes back to the items, except the one of the left slot, which is sold.\<close>

fun strip_equips :: "player_tables \<Rightarrow> nat \<Rightarrow> int list \<Rightarrow> int column \<Rightarrow> Player \<Rightarrow> int column \<times> Player" where
  "strip_equips T i [] got p = (got, p)"
| "strip_equips T i (e # es) got p =
     (if e \<le> 0 then strip_equips T (Suc i) es got p
      else if int i \<noteq> EQUIP_TYPE_LEFT_SLOT
      then strip_equips T (Suc i) es (acc e 1 got) (fst (add_item T e 1 p))
      else (let (m, p) = item_to_resource T e p in strip_equips T (Suc i) es (add_map m got) p))"

definition delete_role :: "player_tables \<Rightarrow> int \<Rightarrow> Player \<Rightarrow> bool \<times> int column \<times> Player" where
  "delete_role T rid p =
     (case col_Get (p_Roles p) rid of
        None \<Rightarrow> (False, [], p)
      | Some d \<Rightarrow>
          if 0 < role_IsLock d then (False, [], p)
          else if role_is_using p rid then (False, [], p)
          else (let (got, p) = strip_equips T 0 (role_Equip d) [] p;
                    p = p\<lparr>p_Roles := col_Remove rid (p_Roles p)\<rparr>;
                    p = emit (EvDeleteRolePowerRank rid) (id_remove rid p);
                    p = p\<lparr>p_ExpeditionRoles := filter (\<lambda>r. r \<noteq> rid) (p_ExpeditionRoles p)\<rparr>
                in (True, got, p)))"

section \<open>Locking\<close>

definition lock_role :: "int \<Rightarrow> bool \<Rightarrow> Player \<Rightarrow> answer" where
  "lock_role rid is_lock p =
     (if \<not> col_HasIndex (p_Roles p) rid then fail E_ROLE_NOT_FOUND p
      else (let p = set_role rid (role_IsLock_update (\<lambda>_. if is_lock then 1 else 0)) p
            in reply 1 (check_and_send_roles_change (id_update rid p))))"

section \<open>Levels and ranks\<close>

text \<open>One level: the price is checked against what the player has now and noted.\<close>

fun note_prices :: "(int \<times> int) list \<Rightarrow> Player \<Rightarrow> int column \<Rightarrow> int column option" where
  "note_prices [] p m = Some m"
| "note_prices ((k, n) # ps) p m =
     (if get_resource p k < n then None
      else note_prices ps p
        (AList.update k (case map_of m k of None \<Rightarrow> n | Some w \<Rightarrow> if w = 0 then n else i32 (w + n)) m))"

definition levelup_one :: "player_tables \<Rightarrow> int \<Rightarrow> Player \<Rightarrow> int column \<Rightarrow> player_error + int column" where
  "levelup_one T lvl p m =
     (if levelup_table_len T \<le> lvl then Inl E_ROLE_LEVEL_IS_MAX
      else case levelup_table T lvl of
          None \<Rightarrow> Inl E_ROLE_LEVEL_DATA_NOT_FOUND
        | Some d \<Rightarrow> (case note_prices (pairs_of (CardLevelUpRes d)) p m of
              None \<Rightarrow> Inl E_ITEM_NUM_NOT_ENOUGH
            | Some m \<Rightarrow> Inr m))"

fun levelup_loop :: "player_tables \<Rightarrow> nat \<Rightarrow> int \<Rightarrow> Player \<Rightarrow> int column \<Rightarrow> player_error + int column" where
  "levelup_loop T 0 lvl p m = Inr m"
| "levelup_loop T (Suc n) lvl p m =
     (case levelup_one T lvl p m of
        Inl e \<Rightarrow> Inl e
      | Inr m \<Rightarrow> levelup_loop T n (i32 (lvl + 1)) p m)"

definition pay_map :: "player_tables \<Rightarrow> int column \<Rightarrow> Player \<Rightarrow> Player" where
  "pay_map T m p = fold (\<lambda>(k, n) p. fst (add_resource T k (i32 (- n)) p)) m p"

definition after_role_change :: "int \<Rightarrow> Player \<Rightarrow> Player" where
  "after_role_change rid p = emit EvCheckDefensePower (emit (EvUpdateRolePowerRank rid) p)"

definition levelup_role :: "player_tables \<Rightarrow> int \<Rightarrow> int \<Rightarrow> Player \<Rightarrow> answer" where
  "levelup_role T rid up_num p =
     (let up_num = (if up_num \<le> 0 then 1 else up_num) in
      case col_Get (p_Roles p) rid of
        None \<Rightarrow> fail E_ROLE_NOT_FOUND p
      | Some d \<Rightarrow> (case GetRankCard T (role_TableId d) (role_Rank d) of
            None \<Rightarrow> fail E_ROLE_TABLE_ID_NOT_FOUND p
          | Some cd \<Rightarrow>
              if card_MaxLevel cd \<le> role_Level d then fail E_ROLE_LEVEL_IS_MAX p
              else (case levelup_loop T (nat up_num) (role_Level d) p [] of
                  Inl e \<Rightarrow> fail e p
                | Inr m \<Rightarrow>
                    (let p = pay_map T m p;
                         p = set_role rid (role_Level_update (\<lambda>_. i32 (role_Level d + up_num))) p;
                         p = check_and_send_roles_change (id_update rid p);
                         p = emit (EvTaskUpdate TASK_COMPLETE_TYPE_LEVELUP_ROLE_WITH_CAMP False (card_Camp cd) up_num) p
                     in reply (role_Level d) (after_role_change rid p)))))"

definition by_type :: "int \<Rightarrow> 'a \<Rightarrow> 'a \<Rightarrow> 'a \<Rightarrow> 'a option" where
  "by_type ty a b c = (if ty = 1 then Some a else if ty = 2 then Some b else if ty = 3 then Some c else None)"

definition rankup_role :: "player_tables \<Rightarrow> int \<Rightarrow> Player \<Rightarrow> answer" where
  "rankup_role T rid p =
     (case col_Get (p_Roles p) rid of
        None \<Rightarrow> fail E_ROLE_NOT_FOUND p
      | Some d \<Rightarrow>
          let rank = role_Rank d in
          if int (length (card_table T (role_TableId d))) \<le> rank then fail E_ROLE_RANK_IS_MAX p
          else (case GetRankCard T (role_TableId d) rank of
              None \<Rightarrow> fail E_ROLE_TABLE_ID_NOT_FOUND p
            | Some cd \<Rightarrow>
                if role_Level d < card_MaxLevel cd then fail E_ROLE_CANT_RANKUP_WITH_LEVEL p
                else (case rankup_table T rank of
                    None \<Rightarrow> fail E_ROLE_RANKUP_DATA_NOT_FOUND p
                  | Some rd \<Rightarrow> (case by_type (card_Type cd) (Type1RankUpRes rd) (Type2RankUpRes rd) (Type3RankUpRes rd) of
                        None \<Rightarrow> fail E_FAILED p
                      | Some cost \<Rightarrow>
                          if \<not> enough p cost then fail E_ITEM_NUM_NOT_ENOUGH p
                          else (let p = pay_resources T cost p;
                                    p = set_role rid (role_Rank_update (\<lambda>_. i32 (rank + 1))) p;
                                    p = check_and_send_roles_change (id_update rid p)
                                in reply (i32 (rank + 1)) (after_role_change rid p))))))"

section \<open>Taking roles apart\<close>

text \<open>The resources of the levels and ranks of a role: noted first, given at the end.\<close>

definition return_role_resource :: "player_tables \<Rightarrow> int \<Rightarrow> Player \<Rightarrow> int column \<times> Player" where
  "return_role_resource T rid p =
     (case levelup_table T (role_field role_Level p rid) of
        None \<Rightarrow> ([], p)
      | Some ld \<Rightarrow>
          let m = fold (\<lambda>(k, n). acc k n) (pairs_of (CardDecomposeRes ld)) [];
              rank = role_field role_Rank p rid in
          case rankup_table T rank of
            None \<Rightarrow> (m, p)
          | Some rd \<Rightarrow> (case GetRankCard T (role_field role_TableId p rid) rank of
                None \<Rightarrow> (m, p)
              | Some cd \<Rightarrow> (case by_type (card_Type cd) (Type1DecomposeRes rd) (Type2DecomposeRes rd) (Type3DecomposeRes rd) of
                    None \<Rightarrow> (m, p)
                  | Some dr \<Rightarrow>
                      (let m = fold (\<lambda>(k, n). acc k n) (pairs_of dr) m
                       in (m, fold (\<lambda>(k, n) p. fst (add_resource T k n p)) m p)))))"

text \<open>
  One role of the list. The sums are kept in a map that is nil until the first resource of a card's own list,
  and writing into the nil map panics.
\<close>

definition decompose_one ::
    "player_tables \<Rightarrow> int \<Rightarrow> int column \<times> int \<times> Player \<Rightarrow> (int column \<times> int \<times> Player) option" where
  "decompose_one T rid s =
     (let (got, num, p) = s in
      case col_Get (p_Roles p) rid of
        None \<Rightarrow> Some s
      | Some d \<Rightarrow>
          if 0 < role_IsLock d \<or> role_is_using p rid then Some s
          else (case GetRankCard T (role_TableId d) (role_Rank d) of
              None \<Rightarrow> Some s
            | Some cd \<Rightarrow>
                (let p = add_resources T (card_DecomposeRes cd) p;
                     got = fold (\<lambda>(k, n). acc k n) (pairs_of (card_DecomposeRes cd)) got;
                     (m, p) = return_role_resource T rid p
                 in if m \<noteq> [] \<and> got = [] then None
                    else (let got = add_map m got;
                              (deleted, m, p) = delete_role T rid p
                          in if deleted \<and> m \<noteq> [] \<and> got = [] then None
                             else Some (if deleted then add_map m got else got, num + 1, p)))))"

definition decompose_role :: "player_tables \<Rightarrow> int list \<Rightarrow> Player \<Rightarrow> answer" where
  "decompose_role T ids p = do {
     (got, num, p) \<leftarrow> for_each (decompose_one T) ids ([], 0, p);
     reply 1 (emit (EvTaskUpdate TASK_COMPLETE_TYPE_DECOMPOSE_ROLES False 0 num) (check_and_send_roles_change p))
   }"

section \<open>Fusion\<close>

definition check_fusion_one :: "player_tables \<Rightarrow> Player \<Rightarrow> FusionCostCond \<Rightarrow> int \<Rightarrow> player_error option" where
  "check_fusion_one T p c rid =
     (case col_Get (p_Roles p) rid of
        None \<Rightarrow> Some E_FUSION_NEED_ROLE_NOT_FOUND
      | Some d \<Rightarrow>
          if 0 < role_IsLock d then Some E_ROLE_IS_LOCKED
          else if 0 < CostId c \<and> role_TableId d \<noteq> CostId c then Some E_FUSION_ROLE_INVALID
          else (case GetRankCard T (role_TableId d) (role_Rank d) of
              None \<Rightarrow> Some E_FUSION_ROLE_INVALID
            | Some cd \<Rightarrow>
                if 0 < CostCamp c \<and> card_Camp cd \<noteq> CostCamp c
                  \<or> 0 < CostType c \<and> card_Type cd \<noteq> CostType c
                  \<or> 0 < CostStar c \<and> card_Rarity cd \<noteq> CostStar c
                then Some E_FUSION_ROLE_INVALID else None))"

primrec check_fusion_role_cond :: "player_tables \<Rightarrow> Player \<Rightarrow> int list \<Rightarrow> FusionCostCond \<Rightarrow> player_error option" where
  "check_fusion_role_cond T p [] c = None"
| "check_fusion_role_cond T p (rid # ids) c =
     (case check_fusion_one T p c rid of Some e \<Rightarrow> Some e | None \<Rightarrow> check_fusion_role_cond T p ids c)"

text \<open>The lists are checked against the conditions in their order; lists beyond the conditions are not checked.\<close>

fun check_fusion_lists :: "player_tables \<Rightarrow> Player \<Rightarrow> int list list \<Rightarrow> FusionCostCond list \<Rightarrow> player_error option" where
  "check_fusion_lists T p (ids # rest) (c # cs) =
     (if i32 (int (length ids)) < CostNum c then Some E_FUSION_ROLE_MATERIAL_NOT_ENOUGH
      else case check_fusion_role_cond T p ids c of
          Some e \<Rightarrow> Some e
        | None \<Rightarrow> check_fusion_lists T p rest cs)"
| "check_fusion_lists T p rest cs = None"

definition check_fusion_main :: "XmlFusionItem \<Rightarrow> int \<Rightarrow> Player \<Rightarrow> player_error option" where
  "check_fusion_main f main p =
     (if FusionType f = 1
      then (case col_Get (p_Roles p) main of
              None \<Rightarrow> Some E_FUSION_MAIN_ROLE_NOT_FOUND
            | Some d \<Rightarrow>
                if 0 < role_IsLock d then Some E_ROLE_IS_LOCKED
                else if role_TableId d \<noteq> MainCardID f \<or> role_Level d < MainCardLevelCond f
                then Some E_FUSION_MAIN_CARD_INVALID else None)
      else None)"

text \<open>The materials are given back their levels and ranks and deleted.\<close>

definition use_material :: "player_tables \<Rightarrow> int \<Rightarrow> Player \<Rightarrow> Player" where
  "use_material T rid p = (let (m, p) = return_role_resource T rid p; (deleted, m, p) = delete_role T rid p in p)"

definition fusion_role :: "player_tables \<Rightarrow> int \<Rightarrow> int \<Rightarrow> int list list \<Rightarrow> Player \<Rightarrow> answer" where
  "fusion_role T fusion_id main costs p =
     (case fusion_table T fusion_id of
        None \<Rightarrow> fail E_FUSION_ROLE_TABLE_DATA_NOT_FOUND p
      | Some f \<Rightarrow>
          if \<not> enough p (fusion_ResCondition f) then fail E_FUSION_NEED_RESOURCE_NOT_ENOUGH p
          else case check_fusion_main f main p of
              Some e \<Rightarrow> fail e p
            | None \<Rightarrow> (case check_fusion_lists T p costs (CostConds f) of
                  Some e \<Rightarrow> fail e p
                | None \<Rightarrow> do {
                    (found, item, p) \<leftarrow> drop_item_by_id T (ResultDropID f) False [] p;
                    if \<not> found then fail E_ROLE_FUSION_FAILED p
                    else (let p = fold (use_material T) (concat costs) p in
                      do {
                        (item_id, num) \<leftarrow> item;
                        let p = (if FusionType f = 1
                                 then after_role_change main
                                   (id_update main (set_role main (role_TableId_update (\<lambda>_. item_id)) p))
                                 else snd (new_role T item_id 1 1 p));
                        reply 1 (check_and_send_roles_change (pay_resources T (fusion_ResCondition f) p))
                      })
                  }))"

section \<open>Exchange of a role for another of its group\<close>

definition displace_index :: "XmlHeroConvertItem list \<Rightarrow> int \<Rightarrow> nat option" where
  "displace_index hs table_id = find (\<lambda>i. HeroId (hs ! i) = table_id) [0..<length hs]"

text \<open>The weighted choice that skips the role's own row; 0 when nothing is found.\<close>

fun displace_choice :: "XmlHeroConvertItem list \<Rightarrow> nat \<Rightarrow> nat option \<Rightarrow> int \<Rightarrow> int" where
  "displace_choice [] i skip r = 0"
| "displace_choice (h # hs) i skip r =
     (if skip = Some i then displace_choice hs (Suc i) skip r
      else if r < hero_Weight h then HeroId h
      else displace_choice hs (Suc i) skip (i32 (r - hero_Weight h)))"

definition role_displace :: "player_tables \<Rightarrow> int \<Rightarrow> int \<Rightarrow> Player \<Rightarrow> answer" where
  "role_displace T group_id rid p =
     (case hero_convert_table T group_id of
        None \<Rightarrow> fail E_ROLE_DISPLACE_TABLE_DATA_INVALID p
      | Some g \<Rightarrow> (case col_Get (p_Roles p) rid of
            None \<Rightarrow> fail E_ROLE_NOT_FOUND p
          | Some d \<Rightarrow> (case GetRankCard T (role_TableId d) (role_Rank d) of
                None \<Rightarrow> fail E_ROLE_TABLE_ID_NOT_FOUND p
              | Some cd \<Rightarrow>
                  if ConvertId1 cd \<noteq> group_id \<and> ConvertId2 cd \<noteq> group_id
                  then fail E_ROLE_DISPLACE_TABLE_DATA_INVALID p
                  else if 0 < role_IsLock d then fail E_ROLE_IS_LOCKED p
                  else if role_is_using p rid then fail E_ROLE_IS_LOCKED p
                  else if \<not> check_resources p (Some (ConvertItem cd)) then fail E_ITEM_NUM_NOT_ENOUGH p
                  else (let skip = displace_index (HeroItems g) (role_TableId d);
                            w = (case skip of None \<Rightarrow> group_TotalWeight g
                                 | Some i \<Rightarrow> i32 (group_TotalWeight g - hero_Weight (HeroItems g ! i))) in
                    do {
                      (r, p) \<leftarrow> rand_Int31n w p;
                      let new = displace_choice (HeroItems g) 0 skip r;
                      if new = 0 then fail E_ROLE_DISPLACE_FAILED p
                      else (let p = p\<lparr>DisplaceRoleId := rid, DisplacedNewRoleTableId := new, DisplaceGroupId := group_id\<rparr>
                            in reply 1 (fst (cost_resources T (Some (ConvertItem cd)) p)))
                    }))))"

definition role_displace_confirm :: "Player \<Rightarrow> answer" where
  "role_displace_confirm p =
     (let rid = DisplaceRoleId p; new = DisplacedNewRoleTableId p in
      if rid = 0 \<or> new = 0 \<or> DisplaceGroupId p = 0 then fail E_ROLE_DISPLACE_CONFIRM_FAILED p
      else if 0 < role_field role_IsLock p rid then fail E_ROLE_IS_LOCKED p
      else if role_is_using p rid then fail E_ROLE_IS_LOCKED p
      else (let p = set_role rid (role_TableId_update (\<lambda>_. new)) p;
                p = p\<lparr>DisplaceRoleId := 0, DisplacedNewRoleTableId := 0, DisplaceGroupId := 0\<rparr>
            in reply 1 (check_and_send_roles_change (id_update rid p))))"

end
