(* ===== verification/Player_Items_Correct.thy ===== *)
theory Player_Items_Correct
  imports Player_Items
begin

text \<open>
  Resources stay between 0 and the largest \<open>int32\<close>, gold and diamonds are added with saturation, paying a
  list takes exactly what it says, and the experience of the levels passed is neither lost nor won.
\<close>

section \<open>The range of the resources\<close>

definition amount :: "int \<Rightarrow> bool" where
  "amount n \<longleftrightarrow> 0 \<le> n \<and> n \<le> max_int32"

definition clamp :: "int \<Rightarrow> int" where
  "clamp n = max 0 (min max_int32 n)"

definition items_ok :: "int column \<Rightarrow> bool" where
  "items_ok c \<longleftrightarrow> col_ok c \<and> (\<forall>k n. col_Get c k = Some n \<longrightarrow> amount n)"

definition res_ok :: "Player \<Rightarrow> bool" where
  "res_ok p \<longleftrightarrow> amount (p_Gold p) \<and> amount (p_Diamond p) \<and> amount (p_Exp p) \<and> items_ok (p_Items p)"

lemma amount_clamp [simp]: "amount (clamp n)"
  by (simp add: amount_def clamp_def)

lemma amountI: "0 \<le> n \<Longrightarrow> n \<le> max_int32 \<Longrightarrow> amount n"
  by (simp add: amount_def)

lemma amount_i32: "amount n \<Longrightarrow> i32 n = n"
  by (simp add: amount_def)

lemma i32_sum_neg:
  assumes "amount old" "amount n"
  shows "i32 (old + n) < 0 \<longleftrightarrow> max_int32 < old + n"
  using assms i32_over [of "old + n"] by (cases "max_int32 < old + n") (auto simp: amount_def)

lemma clamp_id: "amount n \<Longrightarrow> clamp n = n"
  by (simp add: amount_def clamp_def)

lemma saturating_add:
  assumes "amount old" and "is_i32 n"
  shows "(if 0 \<le> i32 (n + old) then i32 (old + n) else if 0 < n then max_int32 else 0) = clamp (old + n)"
proof (cases "0 \<le> n")
  case True
  then show ?thesis
    using assms i32_over [of "old + n"] by (cases "max_int32 < old + n") (auto simp: amount_def clamp_def is_i32_def add.commute)
next
  case False
  then have "i32 (old + n) = old + n" using assms by (intro i32_id) (auto simp: amount_def is_i32_def)
  then show ?thesis using False assms by (auto simp: amount_def clamp_def is_i32_def add.commute)
qed

lemma exp_sum: "amount old \<Longrightarrow> amount n \<Longrightarrow> exp_sum n old = min max_int32 (old + n)"
  using i32_over [of "n + old"] by (cases "max_int32 < n + old") (auto simp: amount_def exp_sum_def Let_def)

section \<open>Items\<close>

lemma items_okD: "items_ok c \<Longrightarrow> col_Get c k = Some n \<Longrightarrow> amount n"
  by (simp add: items_ok_def)

lemma get_item_amount: "items_ok (p_Items p) \<Longrightarrow> amount (get_item p k)"
  by (auto simp: get_item_def amount_def dest: items_okD split: option.splits)

lemma items_ok_change:
  assumes "items_ok c" "col_ok c'" "\<And>j. col_Get c' j = (if j = k then x else col_Get c j)"
    and "\<And>n. x = Some n \<Longrightarrow> amount n"
  shows "items_ok c'"
  using assms unfolding items_ok_def by metis

text \<open>An item of an ordinary type is added with saturation, one of a head once for all.\<close>

definition item_sum :: "XmlItemItem \<Rightarrow> int \<Rightarrow> int option \<Rightarrow> int" where
  "item_sum item n old =
     (if item_Type item = 5 then (case old of None \<Rightarrow> 1 | Some c \<Rightarrow> c)
      else clamp ((case old of None \<Rightarrow> 0 | Some c \<Rightarrow> c) + n))"

lemma put_item:
  assumes c: "items_ok c" and n: "amount n" and put: "put_item item k n c = (c', m)"
  shows "items_ok c'" and "col_Get c' j = (if j = k then Some (item_sum item n (col_Get c k)) else col_Get c j)"
    and "amount m"
proof -
  have "items_ok c' \<and> col_Get c' = (col_Get c)(k \<mapsto> item_sum item n (col_Get c k)) \<and> amount m"
  proof (cases "col_Get c k")
    case None
    then show ?thesis using put n c
      by (auto simp: put_item_def Let_def items_ok_def col_Get_Add item_sum_def clamp_def amount_def fun_eq_iff
          split: if_splits)
  next
    case (Some old)
    have old: "amount old" using items_okD [OF c Some] .
    consider "item_Type item = 5" | "item_Type item \<noteq> 5" "max_int32 < old + n" | "item_Type item \<noteq> 5" "old + n \<le> max_int32"
      by linarith
    then show ?thesis
    proof cases
      case 1
      then show ?thesis using put Some c by (auto simp: put_item_def item_sum_def amount_def fun_eq_iff)
    next
      case 2
      then have "i32 (max_int32 - old) = max_int32 - old" using old by (intro i32_id) (auto simp: amount_def)
      then show ?thesis using 2 put Some c old n i32_sum_neg [OF old n]
        by (auto simp: put_item_def item_sum_def items_ok_def col_Get_Set amount_def clamp_def fun_eq_iff
            split: if_splits)
    next
      case 3
      then have "i32 (old + n) = old + n" using old n by (intro i32_id) (auto simp: amount_def)
      then show ?thesis using 3 put Some c old n i32_sum_neg [OF old n]
        by (auto simp: put_item_def item_sum_def items_ok_def col_Get_Incby amount_def clamp_def fun_eq_iff
            split: if_splits)
    qed
  qed
  then show "items_ok c'" "col_Get c' j = (if j = k then Some (item_sum item n (col_Get c k)) else col_Get c j)" "amount m"
    by auto
qed

text \<open>What the bookkeeping leaves alone.\<close>

definition same_res :: "Player \<Rightarrow> Player \<Rightarrow> bool" where
  "same_res p q \<longleftrightarrow> p_Gold q = p_Gold p \<and> p_Diamond q = p_Diamond p \<and> p_Exp q = p_Exp p \<and> p_Items q = p_Items p
     \<and> p_VipLvl q = p_VipLvl p"

lemma same_res_ops [simp]: "same_res p (change_info k n p)" "same_res p (emit e p)" "same_res p p"
  by (simp_all add: same_res_def change_info_def emit_def)

lemma same_resD:
  assumes "same_res p q"
  shows "res_ok q = res_ok p" "get_resource q = get_resource p" "get_item q = get_item p" "p_VipLvl q = p_VipLvl p"
  using assms by (auto simp: same_res_def res_ok_def get_resource_def get_item_def fun_eq_iff)

text \<open>Nothing but the column of items changes.\<close>

definition items_only :: "Player \<Rightarrow> Player \<Rightarrow> bool" where
  "items_only p q \<longleftrightarrow> p_Gold q = p_Gold p \<and> p_Diamond q = p_Diamond p \<and> p_Exp q = p_Exp p \<and> p_VipLvl q = p_VipLvl p"

lemma items_only_ops [simp]: "items_only p (p\<lparr>p_Items := c\<rparr>)" "items_only p (change_info k n p)" "items_only p p"
  by (simp_all add: items_only_def change_info_def)

lemma items_only_trans: "items_only p q \<Longrightarrow> items_only q r \<Longrightarrow> items_only p r"
  by (simp add: items_only_def)

lemma del_item:
  assumes "items_ok (p_Items p)" and "is_i32 n"
  shows "items_ok (p_Items (fst (del_item k n p)))"
    and "items_only p (fst (del_item k n p))"
    and "snd (del_item k n p) \<longleftrightarrow> 0 < n \<and> n \<le> get_item p k"
    and "get_item (fst (del_item k n p)) j = (if j = k \<and> snd (del_item k n p) then get_item p k - n else get_item p j)"
proof -
  have "items_ok (p_Items (fst (del_item k n p))) \<and> items_only p (fst (del_item k n p))
    \<and> (snd (del_item k n p) \<longleftrightarrow> 0 < n \<and> n \<le> get_item p k)
    \<and> get_item (fst (del_item k n p)) j = (if j = k \<and> snd (del_item k n p) then get_item p k - n else get_item p j)"
  proof (cases "col_Get (p_Items p) k")
    case None
    then show ?thesis using assms(1) by (auto simp: del_item_def get_item_def)
  next
    case (Some c)
    have c: "amount c" by (rule items_okD [OF assms(1) Some])
    show ?thesis
    proof (cases "0 < n \<and> n \<le> c")
      case True
      then have i: "i32 (c - n) = c - n" "amount (c - n)" using c by (auto simp: amount_def)
      define c' where "c' = (if c = n then col_Remove k (p_Items p) else fst (col_Incby k (- n) (p_Items p)))"
      have get': "col_Get c' i = (if i = k then (if c = n then None else Some (c - n)) else col_Get (p_Items p) i)" for i
        using Some i(1) by (simp add: c'_def col_Get_Incby)
      have "col_ok c'" using assms(1) by (simp add: c'_def items_ok_def)
      then have "items_ok c'" using i(2) by (intro items_ok_change [OF assms(1) _ get']) (auto split: if_splits)
      then show ?thesis using True Some get' [of j]
        by (auto simp: del_item_def get_item_def Let_def change_info_def items_only_def c'_def [symmetric])
    qed (use assms(1) Some in \<open>auto simp: del_item_def get_item_def\<close>)
  qed
  then show "items_ok (p_Items (fst (del_item k n p)))" "items_only p (fst (del_item k n p))"
    "snd (del_item k n p) \<longleftrightarrow> 0 < n \<and> n \<le> get_item p k"
    "get_item (fst (del_item k n p)) j = (if j = k \<and> snd (del_item k n p) then get_item p k - n else get_item p j)"
    by auto
qed

text \<open>The number added to an item: honor points get the bonus of the VIP level.\<close>

definition added :: "player_tables \<Rightarrow> Player \<Rightarrow> int \<Rightarrow> int \<Rightarrow> int" where
  "added T p k n = (if k = 17 then i32 (n + vip_bonus T p n) else n)"

lemma add_item:
  assumes "items_ok (p_Items p)" and "amount (added T p k n)" and "0 \<le> n"
  shows "items_ok (p_Items (fst (add_item T k n p)))"
    and "items_only p (fst (add_item T k n p))"
    and "snd (add_item T k n p) = item_table T k"
    and "get_item (fst (add_item T k n p)) j =
      (case item_table T k of None \<Rightarrow> get_item p j
       | Some item \<Rightarrow> if j = k then item_sum item (added T p k n) (col_Get (p_Items p) k) else get_item p j)"
proof -
  have "items_ok (p_Items (fst (add_item T k n p))) \<and> items_only p (fst (add_item T k n p))
    \<and> snd (add_item T k n p) = item_table T k
    \<and> get_item (fst (add_item T k n p)) j =
      (case item_table T k of None \<Rightarrow> get_item p j
       | Some item \<Rightarrow> if j = k then item_sum item (added T p k n) (col_Get (p_Items p) k) else get_item p j)"
  proof (cases "item_table T k")
    case None
    then show ?thesis using assms(1) by (simp add: add_item_def)
  next
    case (Some item)
    obtain c m where put: "put_item item k (added T p k n) (p_Items p) = (c, m)" by fastforce
    note pc = put_item [OF assms(1,2) put]
    show ?thesis using Some assms(3) put pc(1,3) pc(2) [of j]
      by (auto simp: add_item_def added_def Let_def get_item_def change_info_def items_only_def)
  qed
  then show "items_ok (p_Items (fst (add_item T k n p)))" "items_only p (fst (add_item T k n p))"
    "snd (add_item T k n p) = item_table T k"
    "get_item (fst (add_item T k n p)) j =
      (case item_table T k of None \<Rightarrow> get_item p j
       | Some item \<Rightarrow> if j = k then item_sum item (added T p k n) (col_Get (p_Items p) k) else get_item p j)"
    by auto
qed

section \<open>The tables\<close>

text \<open>VIP levels give at most twice the honor points, and no row levels up the largest level.\<close>

definition tables_ok :: "player_tables \<Rightarrow> bool" where
  "tables_ok T \<longleftrightarrow> (\<forall>v \<in> set (vip_array T). 0 \<le> HonorPointBonus v \<and> HonorPointBonus v \<le> 20000)
     \<and> levelup_table T max_int32 = None"

text \<open>An amount the resource can take: honor points leave room for the bonus.\<close>

definition fits :: "int \<Rightarrow> int \<Rightarrow> bool" where
  "fits k n \<longleftrightarrow> is_i32 n \<and> (k = ITEM_RESOURCE_ID_HONOR \<longrightarrow> n \<le> 268435456)"

lemma int32_of_bounds:
  assumes "0 \<le> x" "x \<le> of_int m" "m \<le> max_int32"
  shows "0 \<le> int32_of x" "int32_of x \<le> m"
proof -
  have "0 \<le> \<lfloor>x\<rfloor>" "\<lfloor>x\<rfloor> \<le> m" using assms by (simp_all add: floor_le_iff)
  then show "0 \<le> int32_of x" "int32_of x \<le> m"
    using assms by (auto simp: int32_of_def f64_trunc_def is_i32_def)
qed

lemma vip_bonus_bounds:
  assumes "tables_ok T" "0 \<le> n" "n \<le> 268435456"
  shows "0 \<le> vip_bonus T p n" "vip_bonus T p n \<le> 1073741824"
proof -
  have "0 \<le> vip_bonus T p n \<and> vip_bonus T p n \<le> 1073741824"
  proof (cases "vip_Get T (p_VipLvl p)")
    case None
    then show ?thesis by (simp add: vip_bonus_def)
  next
    case (Some v)
    then have "v \<in> set (vip_array T)" unfolding vip_Get_def by (auto dest!: map_of_SomeD)
    then have b: "0 \<le> HonorPointBonus v" "HonorPointBonus v \<le> 20000" using assms(1) by (auto simp: tables_ok_def)
    define x where "x = f32 (of_int n)"
    define y where "y = f32 (f32 (of_int (HonorPointBonus v)) / 10000)"
    have "(of_int n :: rat) \<le> 2 powi 28" using assms(3) by (simp add: power_int_def)
    then have x: "0 \<le> x" "x \<le> 2 powi 28" unfolding x_def using assms(2) f32_le_power [of "of_int n" 28] by simp_all
    have "(of_int (HonorPointBonus v) :: rat) \<le> 2 powi 15" using b(2) by (simp add: power_int_def)
    then have w: "0 \<le> f32 (of_int (HonorPointBonus v))" "f32 (of_int (HonorPointBonus v)) \<le> 2 powi 15"
      using b(1) f32_le_power [of "of_int (HonorPointBonus v)" 15] by simp_all
    have "f32 (of_int (HonorPointBonus v)) / 10000 \<le> 2 powi 2" using w(2) by (simp add: power_int_def)
    then have y: "0 \<le> y" "y \<le> 2 powi 2" unfolding y_def
      using w(1) f32_le_power [of "f32 (of_int (HonorPointBonus v)) / 10000" 2] by simp_all
    have "x * y \<le> 2 powi 28 * 2 powi 2" using x y by (intro mult_mono) simp_all
    then have "x * y \<le> 2 powi 30" by (simp add: power_int_def)
    then have z: "0 \<le> f32 (x * y)" "f32 (x * y) \<le> 2 powi 30" using x y f32_le_power [of "x * y" 30] by simp_all
    then have "f32 (x * y) \<le> of_int 1073741824" by (simp add: power_int_def)
    from int32_of_bounds [OF z(1) this] show ?thesis by (simp add: vip_bonus_def Some x_def y_def)
  qed
  then show "0 \<le> vip_bonus T p n" "vip_bonus T p n \<le> 1073741824" by auto
qed

lemma added_amount:
  assumes "tables_ok T" "fits k n" "0 \<le> n"
  shows "amount (added T p k n)"
proof (cases "k = 17")
  case True
  then have "n \<le> 268435456" using assms(2) by (simp add: fits_def)
  from vip_bonus_bounds [OF assms(1,3) this, of p] this assms(3) True show ?thesis
    by (simp add: added_def amount_def)
qed (use assms in \<open>simp add: added_def fits_def amount_def is_i32_def\<close>)

section \<open>Gold, diamonds, experience\<close>

lemma add_gold:
  assumes "amount (p_Gold p)" "is_i32 n"
  shows "p_Gold (fst (add_gold n p)) = clamp (p_Gold p + n)" "snd (add_gold n p) = clamp (p_Gold p + n)"
    and "p_Diamond (fst (add_gold n p)) = p_Diamond p" "p_Exp (fst (add_gold n p)) = p_Exp p"
    "p_Items (fst (add_gold n p)) = p_Items p" "p_VipLvl (fst (add_gold n p)) = p_VipLvl p"
  using saturating_add [OF assms] clamp_id [OF assms(1)] amount_i32 [OF assms(1)] assms(1)
  by (auto simp: add_gold_def Let_def amount_def)

lemma add_diamond:
  assumes "amount (p_Diamond p)" "is_i32 n"
  shows "p_Diamond (fst (add_diamond n p)) = clamp (p_Diamond p + n)"
    "snd (add_diamond n p) = clamp (p_Diamond p + n)"
    and "p_Gold (fst (add_diamond n p)) = p_Gold p" "p_Exp (fst (add_diamond n p)) = p_Exp p"
    "p_Items (fst (add_diamond n p)) = p_Items p" "p_VipLvl (fst (add_diamond n p)) = p_VipLvl p"
  using saturating_add [OF assms] clamp_id [OF assms(1)] amount_i32 [OF assms(1)] assms(1)
  by (auto simp: add_diamond_def Let_def emit_def amount_def)

text \<open>The experience of the \<open>k\<close> levels from \<open>l\<close> on.\<close>

definition level_need :: "player_tables \<Rightarrow> int \<Rightarrow> int" where
  "level_need T l = (case levelup_table T l of None \<Rightarrow> 0 | Some d \<Rightarrow> PlayerLevelUpExp d)"

definition levels_need :: "player_tables \<Rightarrow> int \<Rightarrow> nat \<Rightarrow> int" where
  "levels_need T l k = (\<Sum>i<k. level_need T (l + int i))"

lemma levels_need_Suc: "levels_need T l (Suc k) = level_need T l + levels_need T (l + 1) k"
  unfolding levels_need_def by (subst sum.lessThan_Suc_shift) (simp add: algebra_simps)

lemma level_loop:
  assumes "amount e" "is_i32 l" "levelup_table T max_int32 = None"
  shows "\<exists>k e'. level_loop T l e = (l + int k, e') \<and> is_i32 (l + int k) \<and> amount e' \<and> e' + levels_need T l k = e
    \<and> (\<forall>i<k. 0 < level_need T (l + int i))
    \<and> (level_need T (l + int k) \<le> 0 \<or> e' < level_need T (l + int k))"
  using assms
proof (induction T l e rule: level_loop.induct)
  case (1 T l e)
  show ?case
  proof (cases "levelup_table T l")
    case None
    then show ?thesis using "1.prems"(1,2)
      by (intro exI [of _ 0] exI [of _ e]) (simp add: level_loop.simps level_need_def levels_need_def)
  next
    case (Some d)
    define x where "x = PlayerLevelUpExp d"
    have need: "level_need T l = x" by (simp add: level_need_def Some x_def)
    show ?thesis
    proof (cases "x \<le> 0 \<or> e < x")
      case True
      then have "level_loop T l e = (l, e)" using Some by (subst level_loop.simps) (auto simp: x_def)
      with True "1.prems"(1,2) need show ?thesis
        by (intro exI [of _ 0] exI [of _ e]) (auto simp: levels_need_def)
    next
      case False
      have "l \<noteq> max_int32" using "1.prems"(3) Some by auto
      then have l: "i32 (l + 1) = l + 1" "is_i32 (l + 1)"
        using "1.prems"(2) by (simp_all add: is_i32_def)
      have e: "i32 (e - x) = e - x" "amount (e - x)" using "1.prems"(1) False by (auto simp: amount_def)
      obtain k e' where I: "level_loop T (l + 1) (e - x) = (l + 1 + int k, e')" "is_i32 (l + 1 + int k)" "amount e'"
        "e' + levels_need T (l + 1) k = e - x" "\<forall>i<k. 0 < level_need T (l + 1 + int i)"
        "level_need T (l + 1 + int k) \<le> 0 \<or> e' < level_need T (l + 1 + int k)"
        using "1.IH" [OF Some] False "1.prems"(3) l e by (auto simp: x_def)
      have "level_loop T l e = level_loop T (i32 (l + 1)) (i32 (e - x))"
        using Some False by (subst level_loop.simps) (simp add: x_def)
      then have "level_loop T l e = (l + int (Suc k), e')" unfolding l(1) e(1) I(1) by simp
      moreover have "\<forall>i<Suc k. 0 < level_need T (l + int i)"
      proof (intro allI impI)
        fix i assume i: "i < Suc k"
        show "0 < level_need T (l + int i)"
        proof (cases i)
          case (Suc j)
          moreover have "l + int (Suc j) = l + 1 + int j" by simp
          ultimately show ?thesis using I(5) i by (simp only: Suc_less_eq)
        qed (use need False in simp)
      qed
      moreover have "e' + levels_need T l (Suc k) = e" using I(4) by (simp add: levels_need_Suc need)
      ultimately show ?thesis using I(2,3,6) by (intro exI [of _ "Suc k"] exI [of _ e']) (simp add: algebra_simps)
    qed
  qed
qed

lemma add_exp:
  assumes "amount (p_Exp p)" "is_i32 (p_Lvl p)" "levelup_table T max_int32 = None" "amount n"
  shows "\<exists>k e. p_Lvl (add_exp T n p) = p_Lvl p + int k \<and> is_i32 (p_Lvl p + int k) \<and> p_Exp (add_exp T n p) = e \<and> amount e
    \<and> e + levels_need T (p_Lvl p) k = min max_int32 (p_Exp p + n)
    \<and> (\<forall>i<k. 0 < level_need T (p_Lvl p + int i))
    \<and> (level_need T (p_Lvl p + int k) \<le> 0 \<or> e < level_need T (p_Lvl p + int k))
    \<and> p_Gold (add_exp T n p) = p_Gold p \<and> p_Diamond (add_exp T n p) = p_Diamond p
    \<and> p_Items (add_exp T n p) = p_Items p \<and> p_VipLvl (add_exp T n p) = p_VipLvl p"
proof -
  have s: "exp_sum n (p_Exp p) = min max_int32 (p_Exp p + n)" "amount (exp_sum n (p_Exp p))"
    using exp_sum [OF assms(1,4)] assms(1,4) by (auto simp: amount_def)
  obtain k e where L: "level_loop T (p_Lvl p) (exp_sum n (p_Exp p)) = (p_Lvl p + int k, e)" "is_i32 (p_Lvl p + int k)" "amount e"
    "e + levels_need T (p_Lvl p) k = exp_sum n (p_Exp p)" "\<forall>i<k. 0 < level_need T (p_Lvl p + int i)"
    "level_need T (p_Lvl p + int k) \<le> 0 \<or> e < level_need T (p_Lvl p + int k)"
    using level_loop [OF s(2) assms(2,3)] by blast
  then show ?thesis using assms(4) s(1)
    by (intro exI [of _ k] exI [of _ e]) (auto simp: add_exp_def amount_def Let_def emit_def)
qed

lemma res_ok_add_exp:
  assumes "res_ok p" "tables_ok T" "is_i32 (p_Lvl p)" "is_i32 n"
  shows "res_ok (add_exp T n p)" "is_i32 (p_Lvl (add_exp T n p))"
proof -
  have "res_ok (add_exp T n p) \<and> is_i32 (p_Lvl (add_exp T n p))"
  proof (cases "n < 0")
    case True
    then show ?thesis using assms(1,3) by (simp add: add_exp_def)
  next
    case False
    then have "amount n" using assms(4) by (simp add: amount_def is_i32_def)
    from add_exp [OF _ assms(3) _ this, of T] assms(1,2) show ?thesis by (auto simp: res_ok_def tables_ok_def)
  qed
  then show "res_ok (add_exp T n p)" "is_i32 (p_Lvl (add_exp T n p))" by auto
qed

lemma set_item:
  assumes "items_ok (p_Items p)" "amount num" "k \<noteq> 17"
  shows "items_ok (p_Items (set_item T k num p))" "items_only p (set_item T k num p)"
    and "j \<noteq> k \<Longrightarrow> get_item (set_item T k num p) j = get_item p j"
proof -
  have g: "amount (get_item p k)" by (rule get_item_amount [OF assms(1)])
  then have i: "i32 (i32 (- get_item p k) + num) = num - get_item p k" "i32 (get_item p k - num) = get_item p k - num"
    "i32 (num - get_item p k) = num - get_item p k"
    using assms(2) by (simp_all add: amount_def)
  have d: "is_i32 (get_item p k - num)" using g assms(2) by (simp add: amount_def is_i32_def)
  have a: "0 < num - get_item p k \<Longrightarrow> amount (added T p k (num - get_item p k))"
    using g assms(2,3) by (simp add: amount_def added_def)
  have "items_ok (p_Items (set_item T k num p)) \<and> items_only p (set_item T k num p)
    \<and> (j \<noteq> k \<longrightarrow> get_item (set_item T k num p) j = get_item p j)"
  proof (cases "0 < num - get_item p k")
    case True
    then have "set_item T k num p = fst (add_item T k (num - get_item p k) p)"
      using g by (simp add: set_item_def Let_def i amount_def)
    then show ?thesis using True add_item(1,2) [OF assms(1) a [OF True]] add_item(4) [OF assms(1) a [OF True], of j]
      by (auto split: option.splits)
  next
    case False
    then have "set_item T k num p = fst (del_item k (get_item p k - num) p)"
      using g by (simp add: set_item_def Let_def i amount_def)
    then show ?thesis using del_item(1,2) [OF assms(1) d, of k] del_item(4) [OF assms(1) d, of k j] by auto
  qed
  then show "items_ok (p_Items (set_item T k num p))" "items_only p (set_item T k num p)"
    "j \<noteq> k \<Longrightarrow> get_item (set_item T k num p) j = get_item p j" by auto
qed

lemma res_ok_items_only: "items_only p q \<Longrightarrow> items_ok (p_Items q) \<Longrightarrow> res_ok p \<Longrightarrow> res_ok q"
  by (simp add: items_only_def res_ok_def)

lemma add_vip_exp:
  assumes "items_ok (p_Items p)" "is_i32 n"
  shows "items_ok (p_Items (add_vip_exp T n p))"
    and "p_Gold (add_vip_exp T n p) = p_Gold p" "p_Diamond (add_vip_exp T n p) = p_Diamond p"
    "p_Exp (add_vip_exp T n p) = p_Exp p"
    and "j \<noteq> 21 \<Longrightarrow> get_item (add_vip_exp T n p) j = get_item p j"
proof -
  have "items_ok (p_Items (add_vip_exp T n p)) \<and> p_Gold (add_vip_exp T n p) = p_Gold p
    \<and> p_Diamond (add_vip_exp T n p) = p_Diamond p \<and> p_Exp (add_vip_exp T n p) = p_Exp p
    \<and> (j \<noteq> 21 \<longrightarrow> get_item (add_vip_exp T n p) j = get_item p j)"
  proof (cases "n \<le> 0 \<or> int (length (vip_array T)) \<le> p_VipLvl p")
    case True
    then show ?thesis using assms(1) by (simp add: add_vip_exp_def)
  next
    case False
    define e where "e = exp_sum n (get_item p 21)"
    define level where "level = vip_loop T (length (vip_array T)) (p_VipLvl p) e"
    define q where "q = (if level \<noteq> p_VipLvl p
       then emit (EvTaskUpdate 209 True level 1) (p\<lparr>p_VipLvl := level, b_base_prop_chg := True\<rparr>) else p)"
    have q: "p_Items q = p_Items p" "p_Gold q = p_Gold p" "p_Diamond q = p_Diamond p" "p_Exp q = p_Exp p"
      by (simp_all add: q_def emit_def)
    then have g: "get_item q = get_item p" by (simp add: get_item_def fun_eq_iff)
    have e: "amount e" using False assms(2) get_item_amount [OF assms(1), of 21]
      by (subst e_def, subst exp_sum) (auto simp: amount_def is_i32_def)
    define r where "r = (if e \<noteq> get_item q 21 then fst (set_resource T 21 e q) else q)"
    have "add_vip_exp T n p = emit (EvActivity 303 n 0 0 0) r"
      unfolding add_vip_exp_def r_def q_def level_def e_def by (simp only: Let_def False if_False)
    moreover have "items_ok (p_Items r)" "items_only q r" "j \<noteq> 21 \<Longrightarrow> get_item r j = get_item p j"
      using set_item(1,2) [of q e 21 T] set_item(3) [of q e 21 j T] q(1) assms(1) e g
      by (auto simp: r_def set_resource_def amount_def)
    ultimately show ?thesis using q by (simp add: emit_def items_only_def get_item_def)
  qed
  then show "items_ok (p_Items (add_vip_exp T n p))" "p_Gold (add_vip_exp T n p) = p_Gold p"
    "p_Diamond (add_vip_exp T n p) = p_Diamond p" "p_Exp (add_vip_exp T n p) = p_Exp p"
    "j \<noteq> 21 \<Longrightarrow> get_item (add_vip_exp T n p) j = get_item p j" by auto
qed

section \<open>One resource\<close>

text \<open>The plain resources: not experience, which is never taken back.\<close>

definition plain :: "int set" where
  "plain = - {ITEM_RESOURCE_ID_EXP, ITEM_RESOURCE_ID_VIP_EXP}"

lemma add_resource_items:
  assumes "k \<noteq> 1" "k \<noteq> 3" "k \<noteq> 7" "k \<noteq> 21"
  shows "same_res (if 0 < n then fst (add_item T k n p) else fst (del_item k (i32 (- n)) p)) (fst (add_resource T k n p))"
  using assms by (cases "add_item T k n p") (auto simp: add_resource_def split: option.splits)

lemma res_ok_add_resource:
  assumes p: "res_ok p" "is_i32 (p_Lvl p)" and T: "tables_ok T" and n: "fits k n"
  shows "res_ok (fst (add_resource T k n p))"
proof -
  have n32: "is_i32 n" "is_i32 (i32 (- n))" using n by (auto simp: fits_def)
  have it: "items_ok (p_Items p)" using p(1) by (simp add: res_ok_def)
  consider "k = 1" | "k = 3" | "k = 7" | "k = 21" | "k \<noteq> 1" "k \<noteq> 3" "k \<noteq> 7" "k \<noteq> 21" by blast
  then show ?thesis
  proof cases
    case 1
    then show ?thesis using p(1) add_gold [OF _ n32(1), of p] by (simp add: add_resource_def res_ok_def)
  next
    case 2
    then show ?thesis using p(1) add_diamond [OF _ n32(1), of p] by (simp add: add_resource_def res_ok_def)
  next
    case 3
    then show ?thesis using res_ok_add_exp(1) [OF p(1) T p(2) n32(1)] by (simp add: add_resource_def)
  next
    case 4
    then show ?thesis using p(1) add_vip_exp [OF it n32(1)] by (simp add: add_resource_def res_ok_def)
  next
    case 5
    have "res_ok (if 0 < n then fst (add_item T k n p) else fst (del_item k (i32 (- n)) p))"
      using p(1) res_ok_items_only [of p] add_item(1,2) [OF it added_amount [OF T n]] del_item(1,2) [OF it n32(2)]
      by auto
    then show ?thesis using same_resD(1) [OF add_resource_items [OF 5]] by simp
  qed
qed

lemma p_Lvl_other [simp]:
  "p_Lvl (change_info k n p) = p_Lvl p" "p_Lvl (emit e p) = p_Lvl p"
  "p_Lvl (fst (add_item T k n p)) = p_Lvl p" "p_Lvl (fst (del_item k n p)) = p_Lvl p"
  "p_Lvl (set_item T k n p) = p_Lvl p" "p_Lvl (fst (set_resource T k n p)) = p_Lvl p"
  "p_Lvl (add_vip_exp T n p) = p_Lvl p" "p_Lvl (fst (add_gold n p)) = p_Lvl p" "p_Lvl (fst (add_diamond n p)) = p_Lvl p"
proof -
  show c: "p_Lvl (change_info k n p) = p_Lvl p" and e: "p_Lvl (emit e p) = p_Lvl p" for k n p e
    by (simp_all add: change_info_def emit_def)
  show a: "p_Lvl (fst (add_item T k n p)) = p_Lvl p" for p k n
    by (auto simp: add_item_def Let_def c split: option.splits prod.splits)
  show d: "p_Lvl (fst (del_item k n p)) = p_Lvl p" for p k n
    by (auto simp: del_item_def Let_def c split: option.splits)
  show s: "p_Lvl (set_item T k n p) = p_Lvl p" for p k n
    by (auto simp: set_item_def Let_def a d)
  show r: "p_Lvl (fst (set_resource T k n p)) = p_Lvl p" for p k n
    by (auto simp: set_resource_def s)
  show "p_Lvl (add_vip_exp T n p) = p_Lvl p"
    by (auto simp: add_vip_exp_def Let_def e r)
  show "p_Lvl (fst (add_gold n p)) = p_Lvl p" "p_Lvl (fst (add_diamond n p)) = p_Lvl p"
    by (auto simp: add_gold_def add_diamond_def Let_def e)
qed

lemma is_i32_Lvl_add_resource:
  assumes "res_ok p" "tables_ok T" "is_i32 (p_Lvl p)" "is_i32 n"
  shows "is_i32 (p_Lvl (fst (add_resource T k n p)))"
proof -
  have "p_Lvl (fst (case add_item T k n p of (p', None) \<Rightarrow> (p', False) | (p', Some item) \<Rightarrow>
      (if 0 < EquipType item then emit (EvTaskUpdate 210 False (item_Quality item) n) p' else p', True))) = p_Lvl p"
    using p_Lvl_other(3) [of T k n p] by (cases "add_item T k n p") (auto split: option.splits)
  then show ?thesis using assms res_ok_add_exp(2) [OF assms] by (auto simp: add_resource_def)
qed

text \<open>Taking an amount the player has.\<close>

lemma take_resource:
  assumes p: "res_ok p" and k: "k \<in> plain" and n: "0 \<le> n" "n \<le> get_resource p k"
  shows "res_ok (fst (add_resource T k (i32 (- n)) p))"
    and "get_resource (fst (add_resource T k (i32 (- n)) p)) j = (if j = k then get_resource p k - n else get_resource p j)"
proof -
  have it: "items_ok (p_Items p)" using p by (simp add: res_ok_def)
  have "amount (get_resource p k)"
    using p get_item_amount [OF it, of k] by (simp add: get_resource_def res_ok_def)
  then have n': "amount n" "is_i32 n" "i32 (- n) = - n" "is_i32 (- n)" using n by (auto simp: amount_def is_i32_def)
  have "res_ok (fst (add_resource T k (- n) p))
    \<and> get_resource (fst (add_resource T k (- n) p)) j = (if j = k then get_resource p k - n else get_resource p j)"
  proof -
    consider "k = 1" | "k = 3" | "k \<noteq> 1" "k \<noteq> 3" "k \<noteq> 7" "k \<noteq> 21" using k by (auto simp: plain_def)
    then show ?thesis
    proof cases
      case 1
      then show ?thesis using p n add_gold [OF _ n'(4), of p]
        by (auto simp: add_resource_def res_ok_def get_resource_def get_item_def clamp_def amount_def)
    next
      case 2
      then show ?thesis using p n add_diamond [OF _ n'(4), of p]
        by (auto simp: add_resource_def res_ok_def get_resource_def get_item_def clamp_def amount_def)
    next
      case 3
      have i: "i32 n = n" using n'(1) by (rule amount_i32)
      have gk: "get_resource p k = get_item p k" using 3 by (simp add: get_resource_def)
      define q where "q = fst (del_item k n p)"
      have "n = 0 \<or> snd (del_item k n p)" using del_item(3) [OF it n'(2), of k] n gk by auto
      then have "get_item q x = (if x = k then get_item p k - n else get_item p x)" for x
        using del_item(4) [OF it n'(2), of k x] unfolding q_def by auto
      then have q: "items_ok (p_Items q)" "items_only p q" "\<And>x. get_item q x = (if x = k then get_item p k - n else get_item p x)"
        using del_item(1,2) [OF it n'(2), of k] unfolding q_def by blast+
      have "get_resource q j = (if j = k then get_resource p k - n else get_resource p j)"
        using q(2) 3 by (auto simp: get_resource_def q(3) items_only_def)
      moreover have "same_res q (fst (add_resource T k (- n) p))"
        using add_resource_items [OF 3, of "- n" T p] n(1) i by (simp add: q_def)
      moreover note res_ok_items_only [OF q(2,1) p]
      ultimately show ?thesis by (simp only: same_resD(1,2))
    qed
  qed
  then show "res_ok (fst (add_resource T k (i32 (- n)) p))"
    "get_resource (fst (add_resource T k (i32 (- n)) p)) j = (if j = k then get_resource p k - n else get_resource p j)"
    unfolding n'(3) by auto
qed

section \<open>Purses\<close>

text \<open>The sum a list of prices asks of one kind.\<close>

definition need :: "(int \<times> int) list \<Rightarrow> int \<Rightarrow> int" where
  "need ps j = (\<Sum>(k, n) \<leftarrow> ps. if k = j then n else 0)"

lemma need_Cons: "need ((k, n) # ps) j = (if k = j then n else 0) + need ps j"
  by (simp add: need_def)

lemma need_nonneg: "\<forall>(k, n) \<in> set ps. 0 \<le> n \<Longrightarrow> 0 \<le> need ps j"
  by (induction ps) (auto simp: need_def)

lemma need_distinct:
  assumes "distinct (map fst ps)" and "(k, n) \<in> set ps"
  shows "need ps k = n"
  using assms
proof (induction ps)
  case (Cons x ps)
  obtain k' n' where x: "x = (k', n')" by fastforce
  have "k \<notin> fst ` set ps \<Longrightarrow> need ps k = 0"
    by (induction ps) (auto simp: need_def)
  with Cons x show ?case by (auto simp: need_Cons image_iff)
qed simp

lemma need_absent: "k \<notin> fst ` set ps \<Longrightarrow> need ps k = 0"
  by (induction ps) (auto simp: need_def)

text \<open>What a payment relies on: taking an amount the purse holds of a kind leaves exactly the rest.\<close>

locale purse =
  fixes get :: "'s \<Rightarrow> int \<Rightarrow> int"
    and take :: "int \<Rightarrow> int \<Rightarrow> 's \<Rightarrow> 's"
    and good :: "'s \<Rightarrow> bool"
    and kinds :: "int set"
  assumes take_good: "good s \<Longrightarrow> k \<in> kinds \<Longrightarrow> 0 \<le> n \<Longrightarrow> n \<le> get s k \<Longrightarrow> good (take k n s)"
    and take_get: "good s \<Longrightarrow> k \<in> kinds \<Longrightarrow> 0 \<le> n \<Longrightarrow> n \<le> get s k \<Longrightarrow>
      get (take k n s) j = (if j = k then get s k - n else get s j)"
begin

lemma pay_all:
  assumes "good s" and "\<forall>(k, n) \<in> set ps. k \<in> kinds \<and> 0 \<le> n" and "\<forall>j \<in> fst ` set ps. need ps j \<le> get s j"
  shows "good (fold (\<lambda>(k, n). take k n) ps s)
    \<and> get (fold (\<lambda>(k, n). take k n) ps s) j = get s j - need ps j"
  using assms
proof (induction ps arbitrary: s)
  case Nil
  then show ?case by (simp add: need_def)
next
  case (Cons x ps)
  obtain k n where x: "x = (k, n)" by fastforce
  have kn: "k \<in> kinds" "0 \<le> n" and rest: "\<forall>(k, n) \<in> set ps. k \<in> kinds \<and> 0 \<le> n"
    using Cons.prems(2) by (auto simp: x)
  have pos: "0 \<le> need ps i" for i using rest by (intro need_nonneg) auto
  have n: "n \<le> get s k" using Cons.prems(3) pos [of k] by (auto simp: x need_Cons)
  note t = take_good [OF Cons.prems(1) kn n] take_get [OF Cons.prems(1) kn n]
  have "\<forall>j \<in> fst ` set ps. need ps j \<le> get (take k n s) j"
    using Cons.prems(3) by (auto simp: t(2) x need_Cons)
  from Cons.IH [OF t(1) rest this] show ?case by (auto simp: x need_Cons t(2))
qed

text \<open>With different kinds the single prices decide.\<close>

lemma pay_distinct:
  assumes "good s" and "\<forall>(k, n) \<in> set ps. k \<in> kinds \<and> 0 \<le> n \<and> n \<le> get s k" and "distinct (map fst ps)"
  shows "good (fold (\<lambda>(k, n). take k n) ps s)
    \<and> get (fold (\<lambda>(k, n). take k n) ps s) j = get s j - need ps j"
proof (rule pay_all [OF assms(1)])
  show "\<forall>(k, n) \<in> set ps. k \<in> kinds \<and> 0 \<le> n" using assms(2) by auto
  show "\<forall>j \<in> fst ` set ps. need ps j \<le> get s j"
  proof
    fix j assume "j \<in> fst ` set ps"
    then obtain n where "(j, n) \<in> set ps" by auto
    then show "need ps j \<le> get s j" using need_distinct [OF assms(3)] assms(2) by auto
  qed
qed

end

text \<open>The player is such a purse for the plain resources.\<close>

definition take_res :: "player_tables \<Rightarrow> int \<Rightarrow> int \<Rightarrow> Player \<Rightarrow> Player" where
  "take_res T k n p = fst (add_resource T k (i32 (- n)) p)"

interpretation wallet: purse get_resource "take_res T" res_ok plain
  by unfold_locales (auto simp: take_res_def take_resource)

lemma pay_resources_take: "pay_resources T items p = fold (\<lambda>(k, n). take_res T k n) (pairs_of items) p"
proof -
  have "(\<lambda>(k, n) p. fst (add_resource T k (i32 (- n)) p)) = (\<lambda>(k, n). take_res T k n)"
    by (auto simp: take_res_def fun_eq_iff)
  then show ?thesis by (simp add: pay_resources_def)
qed

end
