(* ===== verification/Player_Items_Props.thy ===== *)
theory Player_Items_Props
  imports Player_Items_Correct
begin

text \<open>
  The properties of a player's resources, stated over the code's loops.
\<close>

lemma res_ok_add_list:
  assumes "tables_ok T" and "\<forall>(k, n) \<in> set ps. fits k n" and "res_ok p" "is_i32 (p_Lvl p)"
  shows "res_ok (fold (\<lambda>(k, n) p. fst (add_resource T k n p)) ps p)"
  using assms(2-)
proof (induction ps arbitrary: p)
  case (Cons x ps)
  obtain k n where x: "x = (k, n)" by fastforce
  have n: "fits k n" "is_i32 n" using Cons.prems(1) by (auto simp: x fits_def)
  have "res_ok (fst (add_resource T k n p))" by (rule res_ok_add_resource [OF Cons.prems(2,3) assms(1) n(1)])
  moreover have "is_i32 (p_Lvl (fst (add_resource T k n p)))"
    by (rule is_i32_Lvl_add_resource [OF Cons.prems(2) assms(1) Cons.prems(3) n(2)])
  ultimately show ?case using Cons by (simp add: x)
qed simp

text \<open>C23: Gold, diamonds, experience and the number of every item stay between 0 and the largest \<open>int32\<close>,
  whatever is added, taken, paid or set, also beyond what the player has; gold and diamonds become the exact
  sum cut off at the two ends. Honor points must leave room for the bonus of the VIP level, which is computed
  in \<open>float32\<close>.\<close>

theorem resources_stay_in_range:
  assumes "tables_ok T" "res_ok p" "is_i32 (p_Lvl p)"
    and "\<forall>(k, n) \<in> set (pairs_of items). fits k n \<and> fits k (i32 (- n))"
    and "amount num" "kind \<noteq> ITEM_RESOURCE_ID_HONOR" "is_i32 m"
  shows "res_ok (add_resources T items p) \<and> res_ok (fst (cost_resources T (Some items) p))
    \<and> res_ok (fst (set_resource T kind num p))
    \<and> add_gold m p = ((fst (add_gold m p))\<lparr>p_Gold := clamp (p_Gold p + m)\<rparr>, clamp (p_Gold p + m))
    \<and> add_diamond m p = ((fst (add_diamond m p))\<lparr>p_Diamond := clamp (p_Diamond p + m)\<rparr>, clamp (p_Diamond p + m))"
proof (intro conjI)
  show "res_ok (add_resources T items p)"
    unfolding add_resources_def using assms(4) by (intro res_ok_add_list [OF assms(1) _ assms(2,3)]) auto
  have "(\<lambda>(k, n) p. fst (add_resource T k (i32 (- n)) p))
      = (\<lambda>x. (\<lambda>(k, n) p. fst (add_resource T k n p)) ((\<lambda>(k, n). (k, i32 (- n))) x))"
    by (auto simp: fun_eq_iff)
  then have "pay_resources T items p = fold (\<lambda>(k, n) p. fst (add_resource T k n p))
      (map (\<lambda>(k, n). (k, i32 (- n))) (pairs_of items)) p"
    unfolding pay_resources_def by (simp add: fold_map comp_def)
  moreover have "\<forall>(k, n) \<in> set (map (\<lambda>(k, n). (k, i32 (- n))) (pairs_of items)). fits k n"
    using assms(4) by auto
  ultimately have "res_ok (pay_resources T items p)" using res_ok_add_list [OF assms(1) _ assms(2,3)] by simp
  then show "res_ok (fst (cost_resources T (Some items) p))"
    using assms(2) by (simp add: cost_resources_def)
  have it: "items_ok (p_Items p)" using assms(2) by (simp add: res_ok_def)
  have "res_ok (set_item T kind num p)"
    by (rule res_ok_items_only [OF set_item(2,1) [OF it assms(5,6)] assms(2)])
  then show "res_ok (fst (set_resource T kind num p))"
    using assms(2,5) by (auto simp: set_resource_def res_ok_def)
  have ok: "amount (p_Gold p)" "amount (p_Diamond p)" using assms(2) by (simp_all add: res_ok_def)
  show "add_gold m p = ((fst (add_gold m p))\<lparr>p_Gold := clamp (p_Gold p + m)\<rparr>, clamp (p_Gold p + m))"
    using add_gold(1,2) [OF ok(1) assms(7)] by (intro prod_eqI) simp_all
  show "add_diamond m p = ((fst (add_diamond m p))\<lparr>p_Diamond := clamp (p_Diamond p + m)\<rparr>, clamp (p_Diamond p + m))"
    using add_diamond(1,2) [OF ok(2) assms(7)] by (intro prod_eqI) simp_all
qed

section \<open>A player to try things on\<close>

definition plain_item :: XmlItemItem where
  "plain_item = \<lparr>item_Type = 3, EquipType = 0, item_Quality = 1, ComposeNum = 0, ComposeType = 0, ComposeDropID = 0,
     SellReward = [], item_BattlePower = 0\<rparr>"

definition demo_tables :: player_tables where
  "demo_tables = \<lparr>item_table = (\<lambda>k. if 0 < k \<and> k < 100 then Some plain_item else None), vip_array = [],
     levelup_table = (\<lambda>l. if 1 \<le> l \<and> l \<le> 3 then Some \<lparr>PlayerLevelUpExp = 10 * l, CardLevelUpRes = [1, 50 * l, 9, 4],
       CardDecomposeRes = [1, 30 * l]\<rparr> else None),
     levelup_table_len = 4,
     rankup_table = (\<lambda>r. None), card_table = (\<lambda>k. []), drop_table = (\<lambda>k. None), item_upgrades = (\<lambda>k. []),
     talent_table = (\<lambda>k. []), artifact_table = (\<lambda>k r l. None), artifact_max_rank = (\<lambda>k. 0),
     artifact_unlock_table = (\<lambda>k. None), fusion_table = (\<lambda>k. None), hero_convert_table = (\<lambda>k. None),
     draw_table = (\<lambda>k. None), LifeTreeEnterLevel = 10,
     MaxRoleCount = 500, TalentResetCostDiamond = 10000, ItemLeftSlotOpenLevel = 45, LeftSlotDropId = 200001\<rparr>"

definition demo_player :: Player where
  "demo_player = \<lparr>p_Gold = 1000, p_Diamond = 20, p_Exp = 5, p_Lvl = 1, p_Level = 1, p_VipLvl = 0,
     p_Items = [(9, 6), (40, 2)], p_Roles = [], p_CurrentRoleId = 0, p_RoleHandbook = [], p_CampaignMembers = [],
     p_DefenseMembers = [], p_AssistRoleId = 0, p_Talents = [], p_Artifacts = [], p_ExpeditionRoles = [], p_DrawTimes = [],
     TmpSaveLeftSlotRoleId = 0, TmpLeftSlotItemId = 0, DisplaceRoleId = 0, DisplacedNewRoleTableId = 0,
     DisplaceGroupId = 0, b_base_prop_chg = False, items_changed_info = [], is_handbook_adds = False,
     ids_add = [], ids_remove = [], ids_update = [], p_events = [], p_draws = []\<rparr>"

lemma demo_player_ok: "tables_ok demo_tables" "res_ok demo_player" "is_i32 (p_Lvl demo_player)"
  by (auto simp: tables_ok_def demo_tables_def res_ok_def demo_player_def amount_def items_ok_def col_ok_def
      col_Get_def is_i32_def split: if_splits)

theorem resources_stay_in_range_witness:
  "res_ok (add_resources demo_tables [1, 2147483647, 9, 3, 3, -50] demo_player)
    \<and> p_Gold (add_resources demo_tables [1, 2147483647, 9, 3, 3, -50] demo_player) = max_int32"
proof
  show "res_ok (add_resources demo_tables [1, 2147483647, 9, 3, 3, -50] demo_player)"
    using resources_stay_in_range [OF demo_player_ok, of "[1, 2147483647, 9, 3, 3, -50]" 0 1 0]
    by (simp add: fits_def is_i32_def amount_def)
  show "p_Gold (add_resources demo_tables [1, 2147483647, 9, 3, 3, -50] demo_player) = max_int32"
    by code_simp
qed

section \<open>Paying\<close>

text \<open>C24: A list of prices with different plain resources (anything but experience) is paid exactly or not at all:
  \<open>cost_resources\<close> succeeds if and only if the player has every amount, then each resource is less by its price and
  no other resource changes, and otherwise the player is unchanged.\<close>

theorem cost_resources_exact:
  assumes "res_ok p" and "\<forall>(k, n) \<in> set (pairs_of items). k \<in> plain \<and> 0 \<le> n"
    and "distinct (map fst (pairs_of items))"
  shows "cost_resources T (Some items) p =
      (if \<forall>(k, n) \<in> set (pairs_of items). n \<le> get_resource p k then (pay_resources T items p, True) else (p, False))
    \<and> ((\<forall>(k, n) \<in> set (pairs_of items). n \<le> get_resource p k) \<longrightarrow>
         res_ok (pay_resources T items p)
         \<and> (\<forall>j. get_resource (pay_resources T items p) j = get_resource p j - need (pairs_of items) j))"
proof (intro conjI impI)
  have "check_resources p (Some items) \<longleftrightarrow> (\<forall>(k, n) \<in> set (pairs_of items). n \<le> get_resource p k)"
    by (auto simp: check_resources_def enough_def list_all_iff not_less)
  then show "cost_resources T (Some items) p =
      (if \<forall>(k, n) \<in> set (pairs_of items). n \<le> get_resource p k then (pay_resources T items p, True) else (p, False))"
    by (simp add: cost_resources_def)
next
  assume "\<forall>(k, n) \<in> set (pairs_of items). n \<le> get_resource p k"
  then have "\<forall>(k, n) \<in> set (pairs_of items). k \<in> plain \<and> 0 \<le> n \<and> n \<le> get_resource p k" using assms(2) by blast
  from wallet.pay_distinct [OF assms(1) this assms(3)]
  show "res_ok (pay_resources T items p)"
    "\<forall>j. get_resource (pay_resources T items p) j = get_resource p j - need (pairs_of items) j"
    unfolding pay_resources_take by blast+
qed

theorem cost_resources_exact_witness:
  "snd (cost_resources demo_tables (Some [1, 400, 9, 6]) demo_player)
    \<and> get_resource (pay_resources demo_tables [1, 400, 9, 6] demo_player) 1 = 600
    \<and> get_resource (pay_resources demo_tables [1, 400, 9, 6] demo_player) 9 = 0
    \<and> \<not> snd (cost_resources demo_tables (Some [1, 400, 9, 7]) demo_player)"
proof -
  have g: "get_resource demo_player 1 = 1000" "get_resource demo_player 9 = 6"
    by (simp_all add: get_resource_def get_item_def demo_player_def col_Get_def)
  show ?thesis
    using cost_resources_exact [OF demo_player_ok(2), of "[1, 400, 9, 6]" demo_tables]
      cost_resources_exact [OF demo_player_ok(2), of "[1, 400, 9, 7]" demo_tables]
    by (simp add: plain_def g need_def)
qed

text \<open>C25: Adding experience loses and invents none: the player climbs exactly the levels whose experience he has,
  the new experience and that of the levels climbed are together the old one and the gain (cut off at the largest
  \<open>int32\<close>), and he stops only at a level he cannot pay or that has no next one. Negative amounts change nothing, so
  experience is never taken back.\<close>

theorem experience_conserved:
  assumes "res_ok p" "is_i32 (p_Lvl p)" "tables_ok T"
  shows "(amount n \<longrightarrow> (\<exists>k. p_Lvl (add_exp T n p) = p_Lvl p + int k
      \<and> p_Exp (add_exp T n p) + levels_need T (p_Lvl p) k = min max_int32 (p_Exp p + n)
      \<and> amount (p_Exp (add_exp T n p))
      \<and> (\<forall>i<k. 0 < level_need T (p_Lvl p + int i))
      \<and> (level_need T (p_Lvl p + int k) \<le> 0 \<or> p_Exp (add_exp T n p) < level_need T (p_Lvl p + int k))))
    \<and> (n < 0 \<longrightarrow> add_exp T n p = p)"
proof (intro conjI impI)
  assume "amount n"
  moreover have "amount (p_Exp p)" "levelup_table T max_int32 = None"
    using assms(1,3) by (simp_all add: res_ok_def tables_ok_def)
  ultimately show "\<exists>k. p_Lvl (add_exp T n p) = p_Lvl p + int k
      \<and> p_Exp (add_exp T n p) + levels_need T (p_Lvl p) k = min max_int32 (p_Exp p + n)
      \<and> amount (p_Exp (add_exp T n p))
      \<and> (\<forall>i<k. 0 < level_need T (p_Lvl p + int i))
      \<and> (level_need T (p_Lvl p + int k) \<le> 0 \<or> p_Exp (add_exp T n p) < level_need T (p_Lvl p + int k))"
    using add_exp [OF _ assms(2), of T n] by blast
qed (simp add: add_exp_def)

theorem experience_conserved_witness:
  "p_Lvl (add_exp demo_tables 28 demo_player) = 3 \<and> p_Exp (add_exp demo_tables 28 demo_player) = 3
    \<and> (\<exists>k. p_Lvl (add_exp demo_tables 28 demo_player) = 1 + int k)"
proof -
  have "amount 28" by (simp add: amount_def)
  then have "\<exists>k. p_Lvl (add_exp demo_tables 28 demo_player) = p_Lvl demo_player + int k"
    using experience_conserved [OF demo_player_ok(2,3,1), of 28] by blast
  moreover have "p_Lvl demo_player = 1" by (simp add: demo_player_def)
  moreover have "p_Lvl (add_exp demo_tables 28 demo_player) = 3 \<and> p_Exp (add_exp demo_tables 28 demo_player) = 3"
    by code_simp
  ultimately show ?thesis by simp
qed

end
