(* ===== verification/Player_Drop_Props.thy ===== *)
theory Player_Drop_Props
  imports Player_Roles Player_Items_Props
begin

text \<open>
  Random drops follow the weights of their table: the row drawn is the one whose interval of the cumulated
  weights contains the random value.
\<close>

definition weight_sum :: "XmlDropItem list \<Rightarrow> int" where
  "weight_sum xs = (\<Sum>x \<leftarrow> xs. drop_Weight x)"

definition group_rows :: "int \<Rightarrow> XmlDropItem list \<Rightarrow> XmlDropItem list" where
  "group_rows k xs = filter (\<lambda>x. drop_GroupId x = k) xs"

lemma weight_sum_Cons [simp]: "weight_sum (x # xs) = drop_Weight x + weight_sum xs"
  by (simp add: weight_sum_def)

lemma weight_sum_nonneg: "\<forall>x \<in> set xs. 0 \<le> drop_Weight x \<Longrightarrow> 0 \<le> weight_sum xs"
  by (induction xs) (auto simp: weight_sum_def)

lemma group_rows_Cons: "group_rows k (x # xs) = (if drop_GroupId x = k then x # group_rows k xs else group_rows k xs)"
  by (simp add: group_rows_def)

section \<open>Loading\<close>

lemma drop_add_rows_Some:
  assumes "m k = Some l" and "\<forall>x \<in> set (group_rows k xs). 0 \<le> drop_Weight x"
    and "0 \<le> TotalWeight l" "TotalWeight l + weight_sum (group_rows k xs) \<le> max_int32"
    and "0 \<le> TotalCount l" "TotalCount l + int (length (group_rows k xs)) \<le> max_int32"
  shows "fold drop_add_row xs m k = Some (l\<lparr>TotalCount := TotalCount l + int (length (group_rows k xs)),
    TotalWeight := TotalWeight l + weight_sum (group_rows k xs)\<rparr>)"
  using assms
proof (induction xs arbitrary: m l)
  case Nil
  then show ?case by (simp add: group_rows_def weight_sum_def)
next
  case (Cons x xs)
  show ?case
  proof (cases "drop_GroupId x = k")
    case True
    have pos: "0 \<le> weight_sum (group_rows k xs)" "0 \<le> drop_Weight x"
      using Cons.prems(2) True by (auto simp: group_rows_Cons intro: weight_sum_nonneg)
    define l' where "l' = l\<lparr>TotalCount := TotalCount l + 1, TotalWeight := TotalWeight l + drop_Weight x\<rparr>"
    have step: "drop_add_row x m k = Some l'"
      using Cons.prems True pos by (simp add: drop_add_row_def l'_def group_rows_Cons)
    have "fold drop_add_row xs (drop_add_row x m) k = Some (l'\<lparr>TotalCount := TotalCount l' + int (length (group_rows k xs)),
        TotalWeight := TotalWeight l' + weight_sum (group_rows k xs)\<rparr>)"
      by (rule Cons.IH [of "drop_add_row x m", OF step]) (use Cons.prems True pos in \<open>auto simp: l'_def group_rows_Cons\<close>)
    then show ?thesis using True by (simp add: l'_def group_rows_Cons algebra_simps)
  next
    case False
    then have "drop_add_row x m k = Some l" using Cons.prems(1) by (auto simp: drop_add_row_def split: option.splits)
    from Cons.IH [of "drop_add_row x m", OF this] Cons.prems False show ?thesis by (simp add: group_rows_Cons)
  qed
qed

lemma drop_add_rows:
  assumes "m k = None" and "group_rows k xs \<noteq> []" and "\<forall>x \<in> set (group_rows k xs). 0 \<le> drop_Weight x"
    and "weight_sum (group_rows k xs) \<le> max_int32" "int (length (group_rows k xs)) \<le> max_int32"
  shows "fold drop_add_row xs m k = Some \<lparr>TotalCount = int (length (group_rows k xs)),
    TotalWeight = weight_sum (group_rows k xs), DropItems = []\<rparr>"
  using assms
proof (induction xs arbitrary: m)
  case (Cons x xs)
  show ?case
  proof (cases "drop_GroupId x = k")
    case True
    define l where "l = \<lparr>TotalCount = 1, TotalWeight = drop_Weight x, DropItems = []\<rparr>"
    have step: "drop_add_row x m k = Some l" using Cons.prems(1) True by (simp add: drop_add_row_def l_def)
    have "fold drop_add_row xs (drop_add_row x m) k = Some (l\<lparr>TotalCount := TotalCount l + int (length (group_rows k xs)),
        TotalWeight := TotalWeight l + weight_sum (group_rows k xs)\<rparr>)"
      by (rule drop_add_rows_Some [of "drop_add_row x m", OF step]) (use Cons.prems True in \<open>auto simp: l_def group_rows_Cons\<close>)
    then show ?thesis using True by (simp add: l_def group_rows_Cons)
  next
    case False
    then have "drop_add_row x m k = None" using Cons.prems(1) by (auto simp: drop_add_row_def split: option.splits)
    from Cons.IH [of "drop_add_row x m", OF this] Cons.prems False show ?thesis by (simp add: group_rows_Cons)
  qed
qed (simp add: group_rows_def)

lemma drop_fill_rows:
  "m k = Some l \<Longrightarrow> fold drop_fill_row xs m k = Some (l\<lparr>DropItems := DropItems l @ group_rows k xs\<rparr>)"
proof (induction xs arbitrary: m l)
  case (Cons x xs)
  show ?case
  proof (cases "drop_GroupId x = k")
    case True
    then have "drop_fill_row x m k = Some (l\<lparr>DropItems := DropItems l @ [x]\<rparr>)"
      using Cons.prems by (simp add: drop_fill_row_def)
    from Cons.IH [of "drop_fill_row x m", OF this] True show ?thesis by (simp add: group_rows_Cons)
  next
    case False
    then have "drop_fill_row x m k = Some l" using Cons.prems by (auto simp: drop_fill_row_def split: option.splits)
    from Cons.IH [of "drop_fill_row x m", OF this] False show ?thesis by (simp add: group_rows_Cons)
  qed
qed (simp add: group_rows_def)

lemma Drop_Load_group:
  assumes "group_rows k xs \<noteq> []" and "\<forall>x \<in> set (group_rows k xs). 0 \<le> drop_Weight x"
    and "weight_sum (group_rows k xs) \<le> max_int32" "int (length (group_rows k xs)) \<le> max_int32"
  shows "Drop_Load xs k = Some \<lparr>TotalCount = int (length (group_rows k xs)),
    TotalWeight = weight_sum (group_rows k xs), DropItems = group_rows k xs\<rparr>"
proof -
  have "fold drop_add_row xs Map.empty k = Some \<lparr>TotalCount = int (length (group_rows k xs)),
    TotalWeight = weight_sum (group_rows k xs), DropItems = []\<rparr>"
    by (rule drop_add_rows [of Map.empty, OF refl assms])
  from drop_fill_rows [of "fold drop_add_row xs Map.empty" k, OF this, of xs] show ?thesis by (simp add: Drop_Load_def)
qed

section \<open>Drawing\<close>

definition good_row :: "XmlDropItem \<Rightarrow> bool" where
  "good_row x \<longleftrightarrow> 0 \<le> drop_Weight x \<and> DropItemID x \<noteq> 0 \<and> is_i32 (drop_Min x) \<and> is_i32 (drop_Max x)
     \<and> drop_Min x \<le> drop_Max x \<and> drop_Max x - drop_Min x < max_int32"

lemma rand_from_range:
  assumes "is_i32 mn" "is_i32 mx" "mn \<le> mx" "mx - mn < max_int32"
  shows "\<exists>r rs. rand_from_range mn mx p = Some (r, p\<lparr>p_draws := rs\<rparr>) \<and> mn \<le> r \<and> r \<le> mx"
proof (cases "mn = mx")
  case True
  have "p = p\<lparr>p_draws := p_draws p\<rparr>" by simp
  then have "rand_from_range mn mx p = Some (mn, p\<lparr>p_draws := p_draws p\<rparr>)"
    using True by (simp add: rand_from_range_def)
  then show ?thesis using True by blast
next
  case False
  obtain r rs where I: "Int31n (mx - mn + 1) (p_draws p) = (r, rs)" by fastforce
  then have r: "0 \<le> r" "r < mx - mn + 1" using Int31n_range [of "mx - mn + 1"] False assms(3) by auto
  have "i32 (mx - mn + 1) = mx - mn + 1" using False assms(3,4) by simp
  moreover have "i32 (r + mn) = r + mn" using r assms(1,2) by (intro i32_id) (auto simp: is_i32_def)
  ultimately have "rand_from_range mn mx p = Some (r + mn, p\<lparr>p_draws := rs\<rparr>)"
    using False assms(3) I by (simp add: rand_from_range_def rand_Int31n_def)
  moreover have "mn \<le> r + mn" "r + mn \<le> mx" using r by simp_all
  ultimately show ?thesis by blast
qed

lemma drop_loop_choice:
  assumes "\<forall>x \<in> set xs. good_row x" and "0 \<le> v" "v < weight_sum xs" "weight_sum xs \<le> max_int32"
  shows "\<exists>i num rs. drop_loop T False [] (length xs) xs v False c p
      = Some (Some (DropItemID (xs ! i), num), p\<lparr>p_draws := rs\<rparr>) \<and> i < length xs
    \<and> weight_sum (take i xs) \<le> v \<and> v < weight_sum (take (Suc i) xs)
    \<and> drop_Min (xs ! i) \<le> num \<and> num \<le> drop_Max (xs ! i)"
  using assms
proof (induction xs arbitrary: v)
  case Nil
  have "weight_sum [] = 0" by (simp add: weight_sum_def)
  with Nil.prems(2,3) have False by linarith
  then show ?case ..
next
  case (Cons x xs)
  have x: "good_row x" and xs: "\<forall>x \<in> set xs. good_row x" using Cons.prems(1) by simp_all
  have pos: "0 \<le> weight_sum xs" "0 \<le> drop_Weight x"
    using xs x by (auto intro!: weight_sum_nonneg simp: good_row_def)
  show ?case
  proof (cases "v < drop_Weight x")
    case True
    obtain r rs where r: "rand_from_range (drop_Min x) (drop_Max x) p = Some (r, p\<lparr>p_draws := rs\<rparr>)"
      "drop_Min x \<le> r" "r \<le> drop_Max x"
      using rand_from_range [of "drop_Min x" "drop_Max x" p] x unfolding good_row_def by blast
    have "drop_loop T False [] (length (x # xs)) (x # xs) v False c p
        = Some (Some (DropItemID ((x # xs) ! 0), r), p\<lparr>p_draws := rs\<rparr>)"
      using True x r(1) by (simp add: good_row_def)
    moreover have "weight_sum (take 0 (x # xs)) \<le> v" "v < weight_sum (take (Suc 0) (x # xs))"
      using True Cons.prems(2) by (simp_all add: weight_sum_def)
    ultimately show ?thesis using r(2,3) by (intro exI [of _ 0] exI [of _ r] exI [of _ rs]) simp
  next
    case False
    then have v: "i32 (v - drop_Weight x) = v - drop_Weight x"
      using Cons.prems pos by (intro i32_id) auto
    have prem: "0 \<le> v - drop_Weight x" "v - drop_Weight x < weight_sum xs" "weight_sum xs \<le> max_int32"
      using False Cons.prems(3,4) pos by simp_all
    obtain i num rs where I: "drop_loop T False [] (length xs) xs (v - drop_Weight x) False c p
        = Some (Some (DropItemID (xs ! i), num), p\<lparr>p_draws := rs\<rparr>)" "i < length xs"
      "weight_sum (take i xs) \<le> v - drop_Weight x" "v - drop_Weight x < weight_sum (take (Suc i) xs)"
      "drop_Min (xs ! i) \<le> num" "num \<le> drop_Max (xs ! i)"
      using Cons.IH [OF xs prem] by blast
    have "drop_loop T False [] (length (x # xs)) (x # xs) v False c p
        = Some (Some (DropItemID ((x # xs) ! Suc i), num), p\<lparr>p_draws := rs\<rparr>)"
      using False v I(1) by simp
    moreover have "weight_sum (take (Suc i) (x # xs)) \<le> v" "v < weight_sum (take (Suc (Suc i)) (x # xs))"
      using I(3,4) by simp_all
    ultimately show ?thesis using I(2,5,6) by (intro exI [of _ "Suc i"] exI [of _ num] exI [of _ rs]) simp
  qed
qed

text \<open>C26: A drop follows the weights of its table: in the table built from the rows of the configuration, the row
  chosen is the one in whose interval of the cumulated weights the random value of 0 to the sum of the weights lies,
  so every row is chosen by exactly as many values as its weight says; the number dropped is between its bounds,
  and besides the random numbers the player is unchanged when nothing is to be added.\<close>

theorem drop_by_weight:
  assumes "drop_table T k = Drop_Load rows k" and "rs = group_rows k rows"
    and "\<forall>x \<in> set rs. good_row x" and "0 < weight_sum rs" "weight_sum rs \<le> max_int32" "int (length rs) \<le> max_int32"
  shows "\<exists>i num draws'. drop_item_by_id T k False [] p
      = Some (True, Some (DropItemID (rs ! i), num), p\<lparr>p_draws := draws'\<rparr>) \<and> i < length rs
    \<and> weight_sum (take i rs) \<le> fst (Int31n (weight_sum rs) (p_draws p))
    \<and> fst (Int31n (weight_sum rs) (p_draws p)) < weight_sum (take i rs) + drop_Weight (rs ! i)
    \<and> drop_Min (rs ! i) \<le> num \<and> num \<le> drop_Max (rs ! i)"
proof -
  have ne: "rs \<noteq> []" using assms(4) by (auto simp: weight_sum_def)
  have w: "\<forall>x \<in> set rs. 0 \<le> drop_Weight x" using assms(3) by (simp add: good_row_def)
  have lib: "drop_table T k = Some \<lparr>TotalCount = int (length rs), TotalWeight = weight_sum rs, DropItems = rs\<rparr>"
    using Drop_Load_group [of k rows] ne w assms(1,2,5,6) by simp
  obtain v vs where v: "Int31n (weight_sum rs) (p_draws p) = (v, vs)" by fastforce
  then have v0: "0 \<le> v" "v < weight_sum rs" using Int31n_range [OF assms(4)] by auto
  obtain i num ds where I: "drop_loop T False [] (length rs) rs v False (int (length rs)) (p\<lparr>p_draws := vs\<rparr>)
      = Some (Some (DropItemID (rs ! i), num), p\<lparr>p_draws := vs\<rparr>\<lparr>p_draws := ds\<rparr>)" "i < length rs"
    "weight_sum (take i rs) \<le> v" "v < weight_sum (take (Suc i) rs)"
    "drop_Min (rs ! i) \<le> num" "num \<le> drop_Max (rs ! i)"
    using drop_loop_choice [OF assms(3) v0 assms(5)] by blast
  have "weight_sum (take (Suc i) rs) = weight_sum (take i rs) + drop_Weight (rs ! i)"
    using I(2) by (simp add: take_Suc_conv_app_nth weight_sum_def)
  moreover have "drop_item_by_id T k False [] p
      = Some (True, Some (DropItemID (rs ! i), num), p\<lparr>p_draws := ds\<rparr>)"
    using assms(4) v I(1) by (simp add: drop_item_by_id_def lib drop_item_def rand_Int31n_def)
  ultimately show ?thesis using I v by auto
qed

definition demo_rows :: "XmlDropItem list" where
  "demo_rows = [\<lparr>drop_GroupId = 1, DropItemID = 11, drop_Weight = 30, drop_Min = 1, drop_Max = 4\<rparr>,
     \<lparr>drop_GroupId = 2, DropItemID = 12, drop_Weight = 50, drop_Min = 1, drop_Max = 1\<rparr>,
     \<lparr>drop_GroupId = 1, DropItemID = 13, drop_Weight = 70, drop_Min = 2, drop_Max = 2\<rparr>]"

definition drop_tables :: "player_tables" where
  "drop_tables = demo_tables\<lparr>drop_table := Drop_Load demo_rows\<rparr>"

definition drop_player :: Player where
  "drop_player = demo_player\<lparr>p_draws := [145]\<rparr>"

theorem drop_by_weight_witness:
  "\<exists>ds. drop_item_by_id drop_tables 1 False [] drop_player = Some (True, Some (13, 2), drop_player\<lparr>p_draws := ds\<rparr>)"
proof -
  define rs where "rs = group_rows 1 demo_rows"
  have rs: "rs = [demo_rows ! 0, demo_rows ! 2]" by (simp add: rs_def group_rows_def demo_rows_def)
  have good: "\<forall>x \<in> set rs. good_row x" by (simp add: rs demo_rows_def good_row_def is_i32_def)
  have w: "weight_sum rs = 100" by (simp add: rs demo_rows_def weight_sum_def)
  then have w': "0 < weight_sum rs" "weight_sum rs \<le> max_int32" by simp_all
  have n: "int (length rs) \<le> max_int32" by (simp add: rs)
  have t: "drop_table drop_tables 1 = Drop_Load demo_rows 1" by (simp add: drop_tables_def)
  from drop_by_weight [OF t rs_def good w' n, of drop_player] obtain i num ds where
    I: "drop_item_by_id drop_tables 1 False [] drop_player
      = Some (True, Some (DropItemID (rs ! i), num), drop_player\<lparr>p_draws := ds\<rparr>)" "i < length rs"
    "weight_sum (take i rs) \<le> fst (Int31n (weight_sum rs) (p_draws drop_player))"
    "drop_Min (rs ! i) \<le> num" "num \<le> drop_Max (rs ! i)"
    and up: "fst (Int31n (weight_sum rs) (p_draws drop_player)) < weight_sum (take i rs) + drop_Weight (rs ! i)"
    by blast
  have v: "fst (Int31n 100 (p_draws drop_player)) = 45" by (simp add: drop_player_def Int31n_def)
  have "i = 1"
  proof (rule ccontr)
    assume "i \<noteq> 1"
    then have "i = 0" using I(2) by (simp add: rs less_Suc_eq)
    then show False using up v by (simp add: w rs demo_rows_def weight_sum_def)
  qed
  then have row: "DropItemID (rs ! i) = 13" "drop_Min (rs ! i) = 2" "drop_Max (rs ! i) = 2"
    by (simp_all add: rs demo_rows_def)
  with I(4,5) have "num = 2" by simp
  with I(1) row(1) show ?thesis by metis
qed

end
