(* ===== verification/Player_Equip.thy ===== *)
theory Player_Equip
  imports Player_Roles
begin

text \<open>
  The equipment of roles, selling, joining and upgrading items (\<open>hall_server/player_item.go\<close>, the second
  half, and the equipment handlers of \<open>hall_server/player_role.go\<close>), and the drawing of cards
  (\<open>hall_server/player_draw_card.go\<close>). Reading or writing a slot that a stored list does not have panics.
\<close>

abbreviation (input) "TASK_COMPLETE_TYPE_DRAW_NUM \<equiv> 105 :: int"
abbreviation (input) "ACTIVITY_EVENT_DRAW_SCORE \<equiv> 307 :: int"

definition equip_slot :: "int \<Rightarrow> int list \<Rightarrow> int option" where
  "equip_slot i xs = (if 0 \<le> i \<and> i < int (length xs) then Some (xs ! nat i) else None)"

definition set_slot :: "int \<Rightarrow> int \<Rightarrow> int list \<Rightarrow> int list option" where
  "set_slot i v xs = (if 0 \<le> i \<and> i < int (length xs) then Some (xs[nat i := v]) else None)"

definition set_equips :: "int \<Rightarrow> int list \<Rightarrow> Player \<Rightarrow> Player" where
  "set_equips rid es p = set_role rid (role_Equip_update (\<lambda>_. es)) p"

definition no_equips :: "int list" where
  "no_equips = replicate 7 0"

section \<open>One slot\<close>

definition equip :: "player_tables \<Rightarrow> int \<Rightarrow> int \<Rightarrow> Player \<Rightarrow> answer" where
  "equip T rid equip_id p =
     (case col_Get (p_Items p) equip_id of
        None \<Rightarrow> fail E_ITEM_NOT_FOUND p
      | Some n \<Rightarrow>
          if n \<le> 0 then fail E_ITEM_NUM_NOT_ENOUGH p
          else (case item_table T equip_id of
              None \<Rightarrow> fail E_ITEM_TABLE_ID_NOT_FOUND p
            | Some item \<Rightarrow>
                if EquipType item < 1 \<or> EQUIP_TYPE_MAX \<le> EquipType item then fail E_ITEM_TYPE_NOT_MATCH p
                else (case col_Get (p_Roles p) rid of
                    None \<Rightarrow> fail E_ROLE_NOT_FOUND p
                  | Some d \<Rightarrow>
                      let es = (if role_Equip d = [] then no_equips else role_Equip d) in
                      do {
                        old \<leftarrow> equip_slot (EquipType item) es;
                        es \<leftarrow> set_slot (EquipType item) equip_id es;
                        let p = (if 0 < old then fst (add_item T old 1 p) else p);
                        let p = fst (del_item equip_id 1 (set_equips rid es p));
                        reply 1 (after_role_change rid (id_update rid p))
                      })))"

definition unequip :: "player_tables \<Rightarrow> int \<Rightarrow> int \<Rightarrow> Player \<Rightarrow> answer" where
  "unequip T rid equip_type p =
     (case col_Get (p_Roles p) rid of
        None \<Rightarrow> fail E_ROLE_NOT_FOUND p
      | Some d \<Rightarrow>
          if role_Equip d = [] then fail E_EQUIP_SLOT_EMPTY p
          else if equip_type < 1 \<or> EQUIP_TYPE_MAX \<le> equip_type then fail E_EQUIP_TYPE_INVALID p
          else do {
            old \<leftarrow> equip_slot equip_type (role_Equip d);
            if old \<le> 0 then fail E_EQUIP_SLOT_EMPTY p
            else do {
              es \<leftarrow> set_slot equip_type 0 (role_Equip d);
              let p = set_equips rid es (fst (add_item T old 1 p));
              reply 1 (after_role_change rid (id_update rid p))
            }
          })"

section \<open>The left slot\<close>

definition role_open_left_slot :: "player_tables \<Rightarrow> int \<Rightarrow> Player \<Rightarrow> answer" where
  "role_open_left_slot T rid p =
     (case col_Get (p_Roles p) rid of
        None \<Rightarrow> fail E_ROLE_NOT_FOUND p
      | Some d \<Rightarrow>
          if EQUIP_TYPE_MAX \<le> int (length (role_Equip d)) \<and> 0 < role_Equip d ! 5
          then fail E_ROLE_LEFT_SLOT_ALREADY_OPENED p
          else if role_Level d < ItemLeftSlotOpenLevel T then fail E_ROLE_OPEN_LEFTSLOT_LEVEL_NOT_ENOUGH p
          else do {
            (found, item, p) \<leftarrow> drop_item_by_id T (LeftSlotDropId T) False [] p;
            if \<not> found then fail E_ROLE_LEFT_SLOT_DROP_FAILED p
            else do {
              es \<leftarrow> set_slot EQUIP_TYPE_LEFT_SLOT (case item of None \<Rightarrow> 0 | Some (k, n) \<Rightarrow> k)
                (if role_Equip d = [] then no_equips else role_Equip d);
              let p = check_and_send_roles_change (id_update rid (set_equips rid es p));
              reply 1 (after_role_change rid p)
            }
          })"

definition role_left_slot_upgrade_save :: "Player \<Rightarrow> answer" where
  "role_left_slot_upgrade_save p =
     (let rid = TmpSaveLeftSlotRoleId p; item = TmpLeftSlotItemId p in
      case col_Get (p_Roles p) rid of
        None \<Rightarrow> fail E_ROLE_NOT_FOUND p
      | Some d \<Rightarrow>
          if item \<le> 0 then fail E_FAILED p
          else do {
            es \<leftarrow> set_slot EQUIP_TYPE_LEFT_SLOT item (role_Equip d);
            let p = (set_equips rid es p)\<lparr>TmpLeftSlotItemId := 0, TmpSaveLeftSlotRoleId := 0\<rparr>;
            reply 1 (check_and_send_roles_change (id_update rid p))
          })"

definition role_left_slot_result_cancel :: "Player \<Rightarrow> answer" where
  "role_left_slot_result_cancel p = reply 1 (p\<lparr>TmpLeftSlotItemId := 0, TmpSaveLeftSlotRoleId := 0\<rparr>)"

section \<open>All slots at once\<close>

text \<open>The strongest item of the bag for every slot; \<open>order\<close> is the order Go runs through the bag in.\<close>

definition better_equip :: "player_tables \<Rightarrow> int \<Rightarrow> int list \<Rightarrow> int list option" where
  "better_equip T item_id es =
     (case item_table T item_id of
        None \<Rightarrow> Some es
      | Some item \<Rightarrow>
          if EquipType item < 1 \<or> EquipType item = EQUIP_TYPE_LEFT_SLOT then Some es
          else do {
            cur \<leftarrow> equip_slot (EquipType item) es;
            if cur = 0 \<or> (\<exists>e. item_table T cur = Some e \<and> item_BattlePower e < item_BattlePower item)
            then set_slot (EquipType item) item_id es
            else Some es
          })"

text \<open>Items move between the bag and the role where the two lists differ.\<close>

definition swap_slot :: "player_tables \<Rightarrow> int list \<Rightarrow> int list \<Rightarrow> nat \<Rightarrow> Player \<Rightarrow> Player" where
  "swap_slot T old new i p =
     (if int i = EQUIP_TYPE_LEFT_SLOT \<or> new ! i \<le> 0 then p
      else if i < length old \<and> 0 < old ! i
      then (if new ! i \<noteq> old ! i then fst (add_item T (old ! i) 1 (fst (del_item (new ! i) 1 p))) else p)
      else fst (del_item (new ! i) 1 p))"

definition best_equips :: "player_tables \<Rightarrow> int list \<Rightarrow> int list \<Rightarrow> Player \<Rightarrow> (int list \<times> Player) option" where
  "best_equips T order old p = do {
     new \<leftarrow> for_each (better_equip T) order (take 7 (old @ no_equips));
     Some (new, fold (swap_slot T old new) [0..<7] p)
   }"

definition wanted_equips :: "player_tables \<Rightarrow> int list \<Rightarrow> int list \<Rightarrow> Player \<Rightarrow> Player" where
  "wanted_equips T new old p =
     fold (\<lambda>e p. fst (del_item e 1 p)) new (fold (\<lambda>e p. fst (add_item T e 1 p)) old p)"

definition role_one_key_equip :: "player_tables \<Rightarrow> int list \<Rightarrow> int \<Rightarrow> int list option \<Rightarrow> Player \<Rightarrow> answer" where
  "role_one_key_equip T order rid equips p =
     (case col_Get (p_Roles p) rid of
        None \<Rightarrow> fail E_ROLE_NOT_FOUND p
      | Some d \<Rightarrow>
          let finish = (\<lambda>new p. reply 1 (after_role_change rid
                (check_and_send_roles_change (id_update rid (set_equips rid new p))))) in
          (case equips of
             None \<Rightarrow> Option.bind (best_equips T order (role_Equip d) p) (\<lambda>(new, p). finish new p)
           | Some new \<Rightarrow>
               if list_ex (\<lambda>e. \<not> col_HasIndex (p_Items p) e) new then fail E_ITEM_NOT_FOUND p
               else finish new (wanted_equips T new (role_Equip d) p)))"

fun take_off :: "player_tables \<Rightarrow> nat \<Rightarrow> int list \<Rightarrow> Player \<Rightarrow> int list \<times> Player" where
  "take_off T i [] p = ([], p)"
| "take_off T i (e # es) p =
     (if int i = EQUIP_TYPE_LEFT_SLOT \<or> e = 0
      then (let (es, p) = take_off T (Suc i) es p in (e # es, p))
      else (let (es, p) = take_off T (Suc i) es (fst (add_item T e 1 p)) in (0 # es, p)))"

definition role_one_key_unequip :: "player_tables \<Rightarrow> int \<Rightarrow> Player \<Rightarrow> answer" where
  "role_one_key_unequip T rid p =
     (case col_Get (p_Roles p) rid of
        None \<Rightarrow> fail E_ROLE_NOT_FOUND p
      | Some d \<Rightarrow>
          (let (es, p) = take_off T 0 (role_Equip d) p
           in reply 1 (after_role_change rid (check_and_send_roles_change (id_update rid (set_equips rid es p))))))"

section \<open>Selling\<close>

definition sell_item :: "player_tables \<Rightarrow> int \<Rightarrow> int \<Rightarrow> Player \<Rightarrow> answer" where
  "sell_item T item_id num p =
     (if num \<le> 0 then fail E_FAILED p
      else case item_table T item_id of
          None \<Rightarrow> fail E_ITEM_TABLE_ID_NOT_FOUND p
        | Some item \<Rightarrow>
            if get_item p item_id < num then fail E_ITEM_NUM_NOT_ENOUGH p
            else reply 1 (fold (\<lambda>(k, n) p. fst (add_resource T k (i32 (num * n)) p)) (pairs_of (SellReward item))
                   (fst (del_item item_id num p))))"

section \<open>Joining pieces\<close>

text \<open>The pieces joined so far and the player; an error keeps what was joined.\<close>

fun fuse_loop :: "player_tables \<Rightarrow> XmlItemItem \<Rightarrow> nat \<Rightarrow> int \<Rightarrow> Player \<Rightarrow> ((player_error + int) \<times> Player) option" where
  "fuse_loop T piece 0 i p = Some (Inr i, p)"
| "fuse_loop T piece (Suc n) i p = do {
     (found, item, p) \<leftarrow> drop_item_by_id T (ComposeDropID piece) True [] p;
     if \<not> found \<or> item = None then fail E_ITEM_FUSION_FAILED p
     else if ComposeType piece = 1 \<and> MaxRoleCount T \<le> col_NumAll (p_Roles p) then Some (Inr (i + 1), p)
     else fuse_loop T piece n (i + 1) p
   }"

definition fusion_item :: "player_tables \<Rightarrow> int \<Rightarrow> int \<Rightarrow> Player \<Rightarrow> answer" where
  "fusion_item T piece_id num p =
     (if num \<le> 0 \<or> 1000 \<le> num then fail E_FAILED p
      else if get_item p piece_id \<le> 0 then fail E_ITEM_NOT_FOUND p
      else case item_table T piece_id of
          None \<Rightarrow> fail E_ITEM_TABLE_ID_NOT_FOUND p
        | Some piece \<Rightarrow>
            if ComposeType piece \<noteq> 2 \<and> ComposeType piece \<noteq> 1 then fail E_ITEM_FUSION_FAILED p
            else if ComposeType piece = 1 \<and> MaxRoleCount T \<le> col_NumAll (p_Roles p)
            then fail E_ROLE_INVENTORY_NOT_ENOUGH_SPACE p
            else if get_item p piece_id < i32 (ComposeNum piece * num)
            then fail E_ITEM_COUNT_NOT_ENOUGH_TO_FUSION p
            else do {
              (r, p) \<leftarrow> fuse_loop T piece (nat num) 0 p;
              (case r of
                 Inl e \<Rightarrow> fail e p
               | Inr i \<Rightarrow> reply 1 (fst (del_item piece_id (i32 (i * ComposeNum piece)) p)))
            })"

section \<open>Upgrading items\<close>

text \<open>The rows of the price for so many items, computed in \<open>int32\<close>.\<close>

definition enough_times :: "Player \<Rightarrow> int \<Rightarrow> int list \<Rightarrow> bool" where
  "enough_times p num cond = list_all (\<lambda>(k, n). \<not> get_resource p k < i32 (n * num)) (pairs_of cond)"

definition pay_times :: "player_tables \<Rightarrow> int \<Rightarrow> int \<Rightarrow> int list \<Rightarrow> Player \<Rightarrow> Player" where
  "pay_times T item_id num cond p =
     fold (\<lambda>(k, n) p. let r = i32 (n * num); r = (if 0 < r \<and> k = item_id then i32 (r - num) else r)
                      in fst (add_resource T k (i32 (- r)) p)) (pairs_of cond) p"

fun upgrade_loop :: "player_tables \<Rightarrow> int \<Rightarrow> int \<Rightarrow> nat \<Rightarrow> Player \<Rightarrow> answer" where
  "upgrade_loop T item_id drop_id 0 p = reply 1 p"
| "upgrade_loop T item_id drop_id (Suc n) p = do {
     (found, item, p) \<leftarrow> drop_item_by_id T drop_id True [] p;
     if \<not> found then fail E_ITEM_UPGRADE_FAILED p
     else upgrade_loop T item_id drop_id n (fst (add_resource T item_id (- 1) p))
   }"

text \<open>The left slot and the relic are upgraded on the role; the result of kind 3 waits for the player's decision.\<close>

definition upgrade_on_role ::
    "player_tables \<Rightarrow> int \<Rightarrow> XmlItemItem \<Rightarrow> XmlItemUpgradeItem \<Rightarrow> int \<Rightarrow> int list \<Rightarrow> Player \<Rightarrow> answer" where
  "upgrade_on_role T rid item u upgrade_type es p = do {
     (found, drop, p) \<leftarrow> drop_item_by_id T (ResultDropId u) False [] p;
     if \<not> found then fail E_ITEM_UPGRADE_FAILED p
     else do {
       (k, n) \<leftarrow> drop;
       if EquipType item = EQUIP_TYPE_LEFT_SLOT \<and> upgrade_type = 3
       then reply 1 (p\<lparr>TmpSaveLeftSlotRoleId := rid, TmpLeftSlotItemId := k\<rparr>)
       else do {
         es \<leftarrow> set_slot (EquipType item) k es;
         reply 1 (id_update rid (set_equips rid es p))
       }
     }
   }"

definition on_role :: "XmlItemItem \<Rightarrow> bool" where
  "on_role item \<longleftrightarrow> EquipType item = EQUIP_TYPE_LEFT_SLOT \<or> EquipType item = EQUIP_TYPE_RELIC"

text \<open>What must hold of the item to upgrade: worn by the role, or enough of them in the bag.\<close>

definition upgrade_check :: "int \<Rightarrow> int \<Rightarrow> int \<Rightarrow> XmlItemItem \<Rightarrow> Player \<Rightarrow> player_error option" where
  "upgrade_check rid item_id num item p =
     (if on_role item
      then (case col_Get (p_Roles p) rid of
              None \<Rightarrow> Some E_ROLE_NOT_FOUND
            | Some d \<Rightarrow>
                if int (length (role_Equip d)) < EQUIP_TYPE_MAX then Some E_FAILED
                else if role_Equip d ! nat (EquipType item) \<noteq> item_id then Some E_ITEM_UPGRADE_TYPE_INVALID
                else None)
      else if get_resource p item_id < num then Some E_ITEM_NOT_FOUND else None)"

definition upgrade_row :: "player_tables \<Rightarrow> int \<Rightarrow> XmlItemItem \<Rightarrow> int \<Rightarrow> player_error + XmlItemUpgradeItem" where
  "upgrade_row T item_id item upgrade_type =
     (case GetByItemId T item_id of
        [] \<Rightarrow> Inl E_ITEM_UPGRADE_DATA_NOT_FOUND
      | u # us \<Rightarrow>
          if EquipType item = EQUIP_TYPE_LEFT_SLOT
          then (case find (\<lambda>u. UpgradeType u = upgrade_type) (u # us) of
                  None \<Rightarrow> Inl E_ITEM_UPGRADE_FAILED
                | Some u \<Rightarrow> Inr u)
          else Inr u)"

definition item_upgrade :: "player_tables \<Rightarrow> int \<Rightarrow> int \<Rightarrow> int \<Rightarrow> int \<Rightarrow> Player \<Rightarrow> answer" where
  "item_upgrade T rid item_id item_num upgrade_type p =
     (case item_table T item_id of
        None \<Rightarrow> fail E_ITEM_TABLE_ID_NOT_FOUND p
      | Some item \<Rightarrow>
          if item_Type item \<noteq> ITEM_TYPE_EQUIP then fail E_ITEM_UPGRADE_TYPE_INVALID p
          else
            let num = (if item_num \<le> 0 then 1 else item_num) in
            (case upgrade_check rid item_id num item p of
               Some e \<Rightarrow> fail e p
             | None \<Rightarrow> (case upgrade_row T item_id item upgrade_type of
                   Inl e \<Rightarrow> fail e p
                 | Inr u \<Rightarrow>
                     if \<not> enough_times p num (ResCondition u) then fail E_ITEM_UPGRADE_RES_NOT_ENOUGH p
                     else do {
                       (r, p) \<leftarrow> (if on_role item
                                then upgrade_on_role T rid item u upgrade_type
                                       (case col_Get (p_Roles p) rid of None \<Rightarrow> [] | Some d \<Rightarrow> role_Equip d) p
                                else upgrade_loop T item_id (ResultDropId u) (nat num) p);
                       (case r of
                          Inl e \<Rightarrow> fail e p
                        | Inr _ \<Rightarrow>
                            (let p = pay_times T item_id num (ResCondition u) p;
                                 p = emit (EvTaskUpdate TASK_COMPLETE_TYPE_FORGE_EQUIP_NUM False 0 num) p
                             in reply 1 (after_role_change rid p)))
                     })))"

section \<open>Upgrading as far as it goes\<close>

text \<open>The first price that is not met.\<close>

definition missing :: "Player \<Rightarrow> int list \<Rightarrow> (int \<times> int) option" where
  "missing p cond = find (\<lambda>(k, n). get_resource p k < n) (pairs_of cond)"

text \<open>One step to the next item: 0 when nothing could be done, 1 when the chain got longer.\<close>

definition one_key_pay :: "player_tables \<Rightarrow> int \<Rightarrow> int list \<Rightarrow> Player \<Rightarrow> Player" where
  "one_key_pay T item_id cond p =
     fold (\<lambda>(k, n) p. let r = (if 0 < n \<and> k = item_id then n - 1 else n) in fst (add_resource T k (i32 (- r)) p))
       (pairs_of cond) p"

partial_function (option) one_key_loop ::
    "player_tables \<Rightarrow> int \<Rightarrow> int \<Rightarrow> bool \<Rightarrow> Player \<Rightarrow> ((player_error + int) \<times> bool \<times> Player) option" where
  "one_key_loop T item_id next already p =
     (let stop = Some (Inr (if next = item_id then 0 else 1), already, p) in
      case item_table T next of
        None \<Rightarrow> Some (Inl E_ITEM_TABLE_ID_NOT_FOUND, already, p)
      | Some item \<Rightarrow>
          (case GetByItemId T next of
             [] \<Rightarrow> stop
           | u # us \<Rightarrow>
               if ResCondition u = [] then stop
               else if get_item p next < 1 then stop
               else case missing p (ResCondition u) of
                   Some (k, n) \<Rightarrow>
                     if already then stop
                     else Some (Inl (if \<not> list_ex (\<lambda>(k, n). k = ITEM_RESOURCE_ID_GOLD) (pairs_of (ResCondition u))
                                       \<and> k = ITEM_RESOURCE_ID_GOLD
                                     then E_GOLD_NOT_ENOUGH else E_ITEM_ONE_KEY_UPGRADE_NOT_ENOUGH_MATERIAL), already, p)
                 | None \<Rightarrow> (case drop_table T (ResultDropId u) of
                       None \<Rightarrow> Some (Inr 0, already, p)
                     | Some lib \<Rightarrow> (case DropItems lib of
                           [] \<Rightarrow> Some (Inr 0, already, p)
                         | x # xs \<Rightarrow>
                             if item_table T (DropItemID x) = None then Some (Inr 0, already, p)
                             else one_key_loop T item_id (DropItemID x) True
                               (fst (del_item next 1
                                  (one_key_pay T next (ResCondition u) (fst (add_resource T (DropItemID x) 1 p)))))))))"

partial_function (option) one_key_items ::
    "player_tables \<Rightarrow> int list \<Rightarrow> bool \<Rightarrow> Player \<Rightarrow> answer" where
  "one_key_items T ids already p =
     (case ids of
        [] \<Rightarrow> reply 1 p
      | item_id # rest \<Rightarrow>
          Option.bind (one_key_loop T item_id item_id already p) (\<lambda>(r, already, p).
            case r of
              Inl e \<Rightarrow> fail e p
            | Inr n \<Rightarrow> if n = 0 then one_key_items T rest already p else one_key_items T ids already p))"

definition items_one_key_upgrade :: "player_tables \<Rightarrow> int list \<Rightarrow> Player \<Rightarrow> answer" where
  "items_one_key_upgrade T ids p =
     Option.bind (one_key_items T ids False p) (\<lambda>(r, p).
       case r of
         Inl e \<Rightarrow> fail e p
       | Inr n \<Rightarrow> reply 1 (emit (EvTaskUpdate TASK_COMPLETE_TYPE_FORGE_EQUIP_NUM False 0 1) p))"

section \<open>Drawing cards\<close>

definition has_free_draw :: "player_tables \<Rightarrow> int \<Rightarrow> int \<Rightarrow> Player \<Rightarrow> bool \<times> XmlDrawItem option" where
  "has_free_draw T draw_type now p =
     (case draw_table T draw_type of
        None \<Rightarrow> (False, None)
      | Some dr \<Rightarrow>
          (0 < FreeExtractTime dr
             \<and> (case col_Get (p_DrawTimes p) draw_type of None \<Rightarrow> True | Some t \<Rightarrow> FreeExtractTime dr \<le> i32 (now - t)),
           Some dr))"

text \<open>The price that is paid: none, or the first of the two that the player can pay.\<close>

definition draw_price :: "XmlDrawItem \<Rightarrow> Player \<Rightarrow> int list option" where
  "draw_price dr p =
     (if ResCondition1 dr \<noteq> [] \<and> enough p (ResCondition1 dr) then Some (ResCondition1 dr)
      else if ResCondition1 dr = [] \<and> ResCondition2 dr = [] then Some []
      else if ResCondition2 dr \<noteq> [] \<and> enough p (ResCondition2 dr) then Some (ResCondition2 dr)
      else None)"

text \<open>So many drops of one table; a missing table ends the draw, and what was dropped before stays.\<close>

fun draw_times :: "player_tables \<Rightarrow> int \<Rightarrow> nat \<Rightarrow> Player \<Rightarrow> (bool \<times> Player) option" where
  "draw_times T k 0 p = Some (True, p)"
| "draw_times T k (Suc n) p = do {
     (found, item, p) \<leftarrow> drop_item_by_id T k True [] p;
     if found then draw_times T k n p else Some (False, p)
   }"

fun draw_all :: "player_tables \<Rightarrow> (int \<times> int) list \<Rightarrow> Player \<Rightarrow> (bool \<times> Player) option" where
  "draw_all T [] p = Some (True, p)"
| "draw_all T ((k, n) # ds) p = do {
     (good, p) \<leftarrow> draw_times T k (nat n) p;
     if good then draw_all T ds p else Some (False, p)
   }"

definition draw_card :: "player_tables \<Rightarrow> int \<Rightarrow> int \<Rightarrow> Player \<Rightarrow> answer" where
  "draw_card T now draw_type p =
     (if 100 < draw_type \<and> p_Lvl p < LifeTreeEnterLevel T then fail E_LEVEL_NOT_ENOUGH p
      else case has_free_draw T draw_type now p of
          (_, None) \<Rightarrow> fail E_FAILED p
        | (is_free, Some dr) \<Rightarrow>
            if MaxRoleCount T < i32 (col_NumAll (p_Roles p) + NeedBlank dr)
            then fail E_ROLE_INVENTORY_NOT_ENOUGH_SPACE p
            else (case (if is_free then Some [] else draw_price dr p) of
                None \<Rightarrow> fail E_ITEM_NUM_NOT_ENOUGH p
              | Some price \<Rightarrow>
                  do {
                    (good, p) \<leftarrow> draw_all T (pairs_of
                      (if FirstDropID dr \<noteq> [] \<and> \<not> col_HasIndex (p_DrawTimes p) draw_type
                       then FirstDropID dr else DropId dr)) p;
                    if \<not> good then fail E_FAILED p
                    else
                      let p = p\<lparr>p_DrawTimes := fst (col_Add draw_type now (p_DrawTimes p))\<rparr>;
                          p = (if is_free then p\<lparr>p_DrawTimes := fst (col_Set draw_type (\<lambda>_. now) (p_DrawTimes p))\<rparr>
                               else pay_resources T price p);
                          a = (if draw_type = 1 \<or> draw_type = 2 then 1 else if draw_type = 3 \<or> draw_type = 4 then 2 else 0);
                          p = emit (EvTaskUpdate TASK_COMPLETE_TYPE_DRAW_NUM False a 1) p
                      in reply 1 (if a = 2 then emit (EvActivity ACTIVITY_EVENT_DRAW_SCORE (NeedBlank dr) 0 0 0) p else p)
                  }))"

end
