(* ===== verification/Player_Purse.thy ===== *)
theory Player_Purse
  imports Player_Items_Correct
begin

text \<open>
  Resources that can be given back: adding after taking restores, and neither touches the roles, talents and
  artifacts of the player.
\<close>

section \<open>What resources leave alone\<close>

definition belongings ::
    "Player \<Rightarrow> dbPlayerRoleData column \<times> int column \<times> dbPlayerArtifactData column \<times> int list" where
  "belongings p = (p_Roles p, p_Talents p, p_Artifacts p, p_draws p)"

lemma belongingsD:
  assumes "belongings q = belongings p"
  shows "p_Roles q = p_Roles p" "p_Talents q = p_Talents p" "p_Artifacts q = p_Artifacts p" "p_draws q = p_draws p"
  using assms by (simp_all add: belongings_def)

lemma belongings_item [simp]:
  "belongings (change_info k n p) = belongings p" "belongings (emit e p) = belongings p"
  "belongings (fst (add_item T k n p)) = belongings p" "belongings (fst (del_item k n p)) = belongings p"
  by (auto simp: change_info_def emit_def add_item_def del_item_def belongings_def Let_def split: option.splits prod.splits)

lemma belongings_set [simp]:
  "belongings (set_item T k n p) = belongings p" "belongings (fst (set_resource T k n p)) = belongings p"
proof -
  show s: "belongings (set_item T k n p) = belongings p" for p
    unfolding set_item_def Let_def by simp
  show "belongings (fst (set_resource T k n p)) = belongings p"
    unfolding set_resource_def using s by (auto simp: belongings_def)
qed

lemma belongings_gold [simp]:
  "belongings (fst (add_gold n p)) = belongings p" "belongings (fst (add_diamond n p)) = belongings p"
  by (auto simp: belongings_def add_gold_def add_diamond_def emit_def Let_def)

lemma belongings_exp [simp]: "belongings (add_exp T n p) = belongings p"
  by (auto simp: belongings_def add_exp_def emit_def Let_def split: prod.splits)

lemma belongings_vip [simp]: "belongings (add_vip_exp T n p) = belongings p"
proof -
  have "belongings (p\<lparr>p_VipLvl := l, b_base_prop_chg := True\<rparr>) = belongings p" for l by (simp add: belongings_def)
  then show ?thesis unfolding add_vip_exp_def Let_def by simp
qed

lemma belongings_add_resource [simp]: "belongings (fst (add_resource T k n p)) = belongings p"
proof -
  have "belongings (fst (case add_item T k n p of (p', None) \<Rightarrow> (p', False) | (p', Some item) \<Rightarrow>
      (if 0 < EquipType item then emit (EvTaskUpdate 210 False (item_Quality item) n) p' else p', True))) = belongings p"
    using belongings_item(3) [of T k n p] by (cases "add_item T k n p") (auto split: option.splits)
  then show ?thesis by (simp add: add_resource_def)
qed

lemma belongings_fold:
  assumes "\<And>x p. belongings (f x p) = belongings p"
  shows "belongings (fold f xs p) = belongings p"
  using assms by (induction xs arbitrary: p) simp_all

lemma belongings_lists [simp]:
  "belongings (pay_resources T items p) = belongings p" "belongings (add_resources T items p) = belongings p"
  "belongings (fst (cost_resources T mitems p)) = belongings p"
proof -
  show pay: "belongings (pay_resources T items p) = belongings p" for items
    unfolding pay_resources_def by (rule belongings_fold) auto
  show "belongings (add_resources T items p) = belongings p"
    unfolding add_resources_def by (rule belongings_fold) auto
  show "belongings (fst (cost_resources T mitems p)) = belongings p"
    by (simp add: cost_resources_def pay split: option.splits)
qed

lemma get_resource_cong:
  "p_Gold q = p_Gold p \<Longrightarrow> p_Diamond q = p_Diamond p \<Longrightarrow> p_Exp q = p_Exp p \<Longrightarrow> p_Items q = p_Items p
   \<Longrightarrow> get_resource q j = get_resource p j"
  by (simp add: get_resource_def get_item_def)

lemma get_item_cong: "p_Items q = p_Items p \<Longrightarrow> get_item q j = get_item p j"
  by (simp add: get_item_def)

text \<open>A sum over a column when one row changes.\<close>

lemma sum_update:
  fixes f :: "int \<times> 'd \<Rightarrow> int"
  assumes "distinct (map fst c)" "map_of c k = Some d"
  shows "(\<Sum>x \<leftarrow> AList.update k d' c. f x) = (\<Sum>x \<leftarrow> c. f x) - f (k, d) + f (k, d')"
  using assms by (induction c) auto

lemma sum_add:
  fixes f :: "int \<times> 'd \<Rightarrow> int"
  assumes "map_of c k = None"
  shows "(\<Sum>x \<leftarrow> AList.update k d c. f x) = (\<Sum>x \<leftarrow> c. f x) + f (k, d)"
  using assms by (induction c) auto

section \<open>Giving\<close>

text \<open>The ordinary resources: gold, diamonds and known items that are neither heads nor honor points.\<close>

definition ordinary :: "player_tables \<Rightarrow> int set" where
  "ordinary T = {k. k = 1 \<or> k = 3
     \<or> k \<notin> {1, 3, ITEM_RESOURCE_ID_EXP, ITEM_RESOURCE_ID_VIP_EXP, ITEM_RESOURCE_ID_HONOR}
       \<and> (\<exists>item. item_table T k = Some item \<and> item_Type item \<noteq> ITEM_TYPE_HEAD)}"

lemma ordinary_plain: "k \<in> ordinary T \<Longrightarrow> k \<in> plain"
  by (auto simp: ordinary_def plain_def)

lemma give_resource:
  assumes p: "res_ok p" and k: "k \<in> ordinary T" and n: "0 \<le> n" "get_resource p k + n \<le> max_int32"
  shows "res_ok (fst (add_resource T k n p))
    \<and> get_resource (fst (add_resource T k n p)) j = (if j = k then get_resource p k + n else get_resource p j)"
proof -
  have it: "items_ok (p_Items p)" using p by (simp add: res_ok_def)
  have a: "amount (get_resource p k)"
    using p get_item_amount [OF it, of k] by (simp add: get_resource_def res_ok_def)
  then have n': "amount n" "is_i32 n" using n by (auto simp: amount_def is_i32_def)
  consider "k = 1" | "k = 3" | item where "k \<noteq> 1" "k \<noteq> 3" "k \<noteq> 7" "k \<noteq> 21" "k \<noteq> 17" "item_table T k = Some item" "item_Type item \<noteq> 5"
    using k by (auto simp: ordinary_def)
  then show ?thesis
  proof cases
    case 1
    then show ?thesis using p n a add_gold [OF _ n'(2), of p]
      by (auto simp: add_resource_def res_ok_def get_resource_def get_item_def clamp_def amount_def)
  next
    case 2
    then show ?thesis using p n a add_diamond [OF _ n'(2), of p]
      by (auto simp: add_resource_def res_ok_def get_resource_def get_item_def clamp_def amount_def)
  next
    case 3
    show ?thesis
    proof (cases "n = 0")
      case True
      then show ?thesis using 3 p a by (simp add: add_resource_def del_item_def split: option.splits)
    next
      case False
      have gk: "get_resource p k = get_item p k" using 3 by (simp add: get_resource_def)
      define q where "q = fst (add_item T k n p)"
      have ad: "added T p k n = n" using 3 by (simp add: added_def)
      note q = add_item [OF it, of T k n, unfolded ad, OF n'(1) n(1), folded q_def]
      have "item_sum item n (col_Get (p_Items p) k) = get_item p k + n"
        using 3 n a gk by (auto simp: item_sum_def get_item_def clamp_def amount_def split: option.splits)
      then have g: "get_item q x = (if x = k then get_item p k + n else get_item p x)" for x
        using q(4) [of x] 3(6) by simp
      have "get_resource q j = (if j = k then get_resource p k + n else get_resource p j)"
        using q(2) 3 by (auto simp: get_resource_def g items_only_def)
      moreover have "same_res q (fst (add_resource T k n p))"
        using add_resource_items [OF 3(1-4), of n T p] False n(1) by (simp add: q_def)
      moreover note res_ok_items_only [OF q(2,1) p]
      ultimately show ?thesis by (simp only: same_resD(1,2))
    qed
  qed
qed

text \<open>A purse that also takes, up to what it can hold.\<close>

locale full_purse = purse +
  fixes give :: "int \<Rightarrow> int \<Rightarrow> 'a \<Rightarrow> 'a"
    and cap :: int
  assumes give_good: "good s \<Longrightarrow> k \<in> kinds \<Longrightarrow> 0 \<le> n \<Longrightarrow> get s k + n \<le> cap \<Longrightarrow> good (give k n s)"
    and give_get: "good s \<Longrightarrow> k \<in> kinds \<Longrightarrow> 0 \<le> n \<Longrightarrow> get s k + n \<le> cap \<Longrightarrow>
      get (give k n s) j = (if j = k then get s k + n else get s j)"
begin

lemma give_all:
  assumes "good s" and "\<forall>(k, n) \<in> set ps. k \<in> kinds \<and> 0 \<le> n" and "\<forall>j \<in> fst ` set ps. get s j + need ps j \<le> cap"
  shows "good (fold (\<lambda>(k, n). give k n) ps s)
    \<and> get (fold (\<lambda>(k, n). give k n) ps s) j = get s j + need ps j"
  using assms
proof (induction ps arbitrary: s)
  case Nil
  then show ?case by (simp add: need_def)
next
  case (Cons x ps)
  obtain k n where x: "x = (k, n)" by fastforce
  have kn: "k \<in> kinds" "0 \<le> n" and rest: "\<forall>(k, n) \<in> set ps. k \<in> kinds \<and> 0 \<le> n"
    using Cons.prems(2) by (auto simp: x)
  have pos: "0 \<le> need ps i" for i using rest by (intro need_nonneg) auto
  have n: "get s k + n \<le> cap" using Cons.prems(3) pos [of k] by (auto simp: x need_Cons)
  note t = give_good [OF Cons.prems(1) kn n] give_get [OF Cons.prems(1) kn n]
  have "\<forall>j \<in> fst ` set ps. get (give k n s) j + need ps j \<le> cap"
    using Cons.prems(3) by (auto simp: t(2) x need_Cons)
  from Cons.IH [OF t(1) rest this] show ?case by (auto simp: x need_Cons t(2))
qed

end

definition give_res :: "player_tables \<Rightarrow> int \<Rightarrow> int \<Rightarrow> Player \<Rightarrow> Player" where
  "give_res T k n p = fst (add_resource T k n p)"

interpretation pocket: full_purse get_resource "take_res T" res_ok "ordinary T" "give_res T" max_int32
  by unfold_locales (auto simp: take_res_def take_resource give_res_def give_resource ordinary_plain)

lemma add_resources_give: "add_resources T items p = fold (\<lambda>(k, n). give_res T k n) (pairs_of items) p"
proof -
  have "(\<lambda>(k, n) p. fst (add_resource T k n p)) = (\<lambda>(k, n). give_res T k n)"
    by (auto simp: give_res_def fun_eq_iff)
  then show ?thesis by (simp add: add_resources_def)
qed

end
