(* ===== verification/Player_Equip_Props.thy ===== *)
theory Player_Equip_Props
  imports Player_Equip Player_Items_Props Player_Purse
begin

text \<open>
  Putting equipment on and taking it off moves items between the bag and the roles and neither makes nor loses
  any; the handlers that trust the client do.
\<close>

section \<open>What a player owns\<close>

definition equipped :: "dbPlayerRoleData column \<Rightarrow> int \<Rightarrow> int" where
  "equipped c j = (\<Sum>(k, d) \<leftarrow> c. int (count_list (role_Equip d) j))"

definition owned :: "Player \<Rightarrow> int \<Rightarrow> int" where
  "owned p j = get_item p j + equipped (p_Roles p) j"

lemma equipped_set:
  assumes "col_ok (p_Roles p)" "col_Get (p_Roles p) rid = Some d"
  shows "equipped (p_Roles (set_equips rid es p)) j
    = equipped (p_Roles p) j - int (count_list (role_Equip d) j) + int (count_list es j)"
  using assms sum_update [of "p_Roles p" rid d "\<lambda>(k, d). int (count_list (role_Equip d) j)" "d\<lparr>role_Equip := es\<rparr>"]
  by (simp add: equipped_def set_equips_def set_role_def col_Set_def col_ok_def col_Get_def)

lemma count_list_update:
  assumes "i < length xs"
  shows "int (count_list (xs[i := v]) j) = int (count_list xs j) - (if xs ! i = j then 1 else 0) + (if v = j then 1 else 0)"
proof -
  have "count_list xs j = count_list (take i xs @ xs ! i # drop (Suc i) xs) j"
    using id_take_nth_drop [OF assms] by simp
  then show ?thesis using assms by (simp add: upd_conv_take_nth_drop)
qed

section \<open>One item more, one item less\<close>

text \<open>The bag takes an item that the table knows, that is no head, and of which it is not full.\<close>

definition bag_takes :: "player_tables \<Rightarrow> Player \<Rightarrow> int \<Rightarrow> bool" where
  "bag_takes T p e \<longleftrightarrow> (\<exists>item. item_table T e = Some item \<and> item_Type item \<noteq> ITEM_TYPE_HEAD)
     \<and> e \<noteq> ITEM_RESOURCE_ID_HONOR \<and> get_item p e < max_int32"

lemma add_one:
  assumes "items_ok (p_Items p)" "bag_takes T p e"
  shows "get_item (fst (add_item T e 1 p)) j = get_item p j + (if j = e then 1 else 0)"
    and "items_ok (p_Items (fst (add_item T e 1 p)))"
proof -
  obtain item where item: "item_table T e = Some item" "item_Type item \<noteq> 5" and e: "e \<noteq> 17"
    and room: "get_item p e < max_int32" using assms(2) by (auto simp: bag_takes_def)
  have a: "amount (added T p e 1)" "added T p e 1 = 1" using e by (simp_all add: added_def amount_def)
  have "amount (get_item p e)" by (rule get_item_amount [OF assms(1)])
  then have "item_sum item 1 (col_Get (p_Items p) e) = get_item p e + 1"
    using item(2) room by (auto simp: item_sum_def get_item_def clamp_def amount_def split: option.splits)
  then show "get_item (fst (add_item T e 1 p)) j = get_item p j + (if j = e then 1 else 0)"
    using add_item(4) [OF assms(1) a(1), of j] item(1) a(2) by simp
  show "items_ok (p_Items (fst (add_item T e 1 p)))" using add_item(1) [OF assms(1) a(1)] by simp
qed

lemma del_one:
  assumes "items_ok (p_Items p)" "1 \<le> get_item p e"
  shows "get_item (fst (del_item e 1 p)) j = get_item p j - (if j = e then 1 else 0)"
    and "items_ok (p_Items (fst (del_item e 1 p)))"
  using del_item [OF assms(1), of 1 e] assms(2) by (auto simp: is_i32_def)

lemma p_Roles_item [simp]: "p_Roles (fst (add_item T e n p)) = p_Roles p" "p_Roles (fst (del_item e n p)) = p_Roles p"
  by (rule belongingsD(1) [OF belongings_item(3)], rule belongingsD(1) [OF belongings_item(4)])

lemma p_Items_set_equips [simp]: "p_Items (set_equips rid es p) = p_Items p"
  by (simp add: set_equips_def set_role_def)

lemma owned_cong: "p_Items q = p_Items p \<Longrightarrow> p_Roles q = p_Roles p \<Longrightarrow> owned q j = owned p j"
  by (simp add: owned_def get_item_def)

lemma after_role_change_same [simp]:
  "p_Items (after_role_change rid p) = p_Items p" "p_Roles (after_role_change rid p) = p_Roles p"
  "p_Items (id_update rid p) = p_Items p" "p_Roles (id_update rid p) = p_Roles p"
  "p_Items (check_and_send_roles_change p) = p_Items p" "p_Roles (check_and_send_roles_change p) = p_Roles p"
  by (simp_all add: after_role_change_def id_update_def emit_def check_and_send_roles_change_def ids_reset_def)

section \<open>One slot\<close>

lemma equip_reply:
  assumes "equip T rid e p = reply n p'"
  obtains item d old es es' c where "col_Get (p_Items p) e = Some c" "0 < c" "item_table T e = Some item"
    "1 \<le> EquipType item" "EquipType item < 7" "col_Get (p_Roles p) rid = Some d"
    "es = (if role_Equip d = [] then no_equips else role_Equip d)"
    "equip_slot (EquipType item) es = Some old" "set_slot (EquipType item) e es = Some es'"
    "p' = after_role_change rid (id_update rid (fst (del_item e 1 (set_equips rid es'
       (if 0 < old then fst (add_item T old 1 p) else p)))))"
  using assms
  by (auto simp: equip_def Let_def not_le not_less split: option.splits if_splits Option.bind_splits)

lemma owned_slot_change:
  assumes roles: "col_ok (p_Roles p)" "col_Get (p_Roles p) rid = Some d"
    and es: "es = (if role_Equip d = [] then no_equips else role_Equip d)"
    and s: "equip_slot i es = Some old" "set_slot i e es = Some es'" and j: "0 < j"
  shows "equipped (p_Roles (set_equips rid es' p)) j
    = equipped (p_Roles p) j - (if old = j then 1 else 0) + (if e = j then 1 else 0)"
proof -
  have "count_list es j = count_list (role_Equip d) j" using j by (simp add: es no_equips_def numeral_eq_Suc)
  moreover have "es' = es[nat i := e]" "nat i < length es" "es ! nat i = old"
    using s by (auto simp: equip_slot_def set_slot_def split: if_splits)
  ultimately show ?thesis using count_list_update [of "nat i" es e j] equipped_set [OF roles, of es' j] by auto
qed

text \<open>C27: Putting an item on a role and taking it off again moves it between the bag and the role: of every item the
  player owns as many as before, in the bag and on his roles together, provided the bag takes what comes off (it
  is known, no head, and the bag not full of it).\<close>

theorem equipment_conserved:
  assumes "res_ok p" "col_ok (p_Roles p)" "0 < j"
    and "\<forall>d old. col_Get (p_Roles p) rid = Some d \<and> old \<in> set (role_Equip d) \<and> 0 < old \<longrightarrow> bag_takes T p old"
  shows "(equip T rid e p = reply n p' \<longrightarrow> owned p' j = owned p j)
    \<and> (unequip T rid ty p = reply n p' \<longrightarrow> owned p' j = owned p j)"
proof (intro conjI impI)
  have it: "items_ok (p_Items p)" using assms(1) by (simp add: res_ok_def)
  {
    assume "equip T rid e p = reply n p'"
    then obtain item d old es es' c where E: "col_Get (p_Items p) e = Some c" "0 < c" "item_table T e = Some item"
      "1 \<le> EquipType item" "EquipType item < 7" "col_Get (p_Roles p) rid = Some d"
      "es = (if role_Equip d = [] then no_equips else role_Equip d)"
      "equip_slot (EquipType item) es = Some old" "set_slot (EquipType item) e es = Some es'"
      "p' = after_role_change rid (id_update rid (fst (del_item e 1 (set_equips rid es'
         (if 0 < old then fst (add_item T old 1 p) else p)))))"
      by (rule equip_reply)
    define q where "q = (if 0 < old then fst (add_item T old 1 p) else p)"
    have "old \<in> set es" using E(8) by (auto simp: equip_slot_def split: if_splits)
    then have "0 < old \<Longrightarrow> bag_takes T p old"
      using E(6,7) assms(4) by (auto simp: no_equips_def split: if_splits)
    then have q: "items_ok (p_Items q)" "\<And>i. get_item q i = get_item p i + (if 0 < old \<and> i = old then 1 else 0)"
      "p_Roles q = p_Roles p"
      using add_one [OF it] it by (auto simp: q_def)
    define r where "r = set_equips rid es' q"
    have "col_ok (p_Roles q)" "col_Get (p_Roles q) rid = Some d" using assms(2) E(6) q(3) by simp_all
    then have r: "equipped (p_Roles r) j = equipped (p_Roles p) j - (if old = j then 1 else 0) + (if e = j then 1 else 0)"
      unfolding r_def using owned_slot_change [OF _ _ E(7-9) assms(3), of q rid] q(3) by simp
    have gr: "get_item r i = get_item q i" for i by (rule get_item_cong) (simp add: r_def)
    have "1 \<le> get_item r e" using E(1,2) q(2) [of e] by (simp add: gr get_item_def [of p])
    then have "get_item (fst (del_item e 1 r)) j = get_item r j - (if j = e then 1 else 0)"
      using del_one(1) [of r e j] q(1) by (simp add: r_def)
    then have "owned (fst (del_item e 1 r)) j = owned p j"
      using r assms(3) by (auto simp: owned_def gr q(2))
    then show "owned p' j = owned p j"
      using owned_cong [of p' "fst (del_item e 1 r)" j] by (simp add: E(10) q_def r_def)
  }
  assume "unequip T rid ty p = reply n p'"
  then obtain d old es' where U: "col_Get (p_Roles p) rid = Some d" "role_Equip d \<noteq> []"
    "equip_slot ty (role_Equip d) = Some old" "0 < old" "set_slot ty 0 (role_Equip d) = Some es'"
    "p' = after_role_change rid (id_update rid (set_equips rid es' (fst (add_item T old 1 p))))"
    by (auto simp: unequip_def Let_def not_le split: option.splits if_splits Option.bind_splits)
  define q where "q = fst (add_item T old 1 p)"
  have "old \<in> set (role_Equip d)" using U(3) by (auto simp: equip_slot_def split: if_splits)
  then have b: "bag_takes T p old" using assms(4) U(1,4) by blast
  have q: "get_item q j = get_item p j + (if j = old then 1 else 0)" "p_Roles q = p_Roles p"
    using add_one(1) [OF it b] by (simp_all add: q_def)
  have "col_ok (p_Roles q)" "col_Get (p_Roles q) rid = Some d" using assms(2) U(1) q(2) by simp_all
  then have "equipped (p_Roles (set_equips rid es' q)) j
      = equipped (p_Roles p) j - (if old = j then 1 else 0) + (if 0 = j then 1 else 0)"
    using owned_slot_change [OF _ _ _ U(3,5) assms(3), of q rid d] U(2) q(2) by simp
  moreover have "get_item (set_equips rid es' q) j = get_item q j" by (rule get_item_cong) simp
  ultimately have "owned (set_equips rid es' q) j = owned p j" using assms(3) q(1) by (simp add: owned_def)
  then show "owned p' j = owned p j"
    using owned_cong [of p' "set_equips rid es' q" j] by (simp add: U(6) q_def)
qed


section \<open>A player with a role\<close>

definition gear_tables :: player_tables where
  "gear_tables = demo_tables\<lparr>item_table := (\<lambda>k. if 0 < k \<and> k < 100
     then Some (plain_item\<lparr>item_Type := 2, EquipType := (if k = 60 then 5 else if k < 10 then 0 else 2)\<rparr>) else None),
     item_upgrades := (\<lambda>k. if k = 60 then [\<lparr>upgrade_Id = 1, upgrade_ItemId = 60, UpgradeType = 1, ResultDropId = 8,
       ResCondition = [1, 300]\<rparr>] else []),
     drop_table := (\<lambda>k. if k = 8 then Some \<lparr>TotalCount = 1, TotalWeight = 10, DropItems = [\<lparr>drop_GroupId = 8,
       DropItemID = 61, drop_Weight = 10, drop_Min = 1, drop_Max = 1\<rparr>]\<rparr> else None)\<rparr>"

definition gear_role :: dbPlayerRoleData where
  "gear_role = \<lparr>role_TableId = 5, role_Rank = 1, role_Level = 1, role_Equip = [0, 0, 41, 0, 0, 60, 0],
     role_IsLock = 0, role_State = 0\<rparr>"

definition gear_player :: Player where
  "gear_player = demo_player\<lparr>p_Items := [(9, 6), (40, 1)], p_Roles := [(7, gear_role), (8, gear_role\<lparr>role_Equip := []\<rparr>)],
     p_draws := [3]\<rparr>"

theorem equipment_conserved_witness:
  "\<exists>p'. equip gear_tables 7 40 gear_player = reply 1 p' \<and> owned p' 41 = owned gear_player 41 \<and> get_item p' 41 = 1
     \<and> get_item p' 40 = 0"
proof -
  have ok: "res_ok gear_player" "col_ok (p_Roles gear_player)"
    by (auto simp: res_ok_def gear_player_def demo_player_def amount_def items_ok_def col_ok_def col_Get_def split: if_splits)
  have "\<forall>d old. col_Get (p_Roles gear_player) 7 = Some d \<and> old \<in> set (role_Equip d) \<and> 0 < old
      \<longrightarrow> bag_takes gear_tables gear_player old"
    by (auto simp: gear_player_def gear_role_def demo_player_def col_Get_def bag_takes_def gear_tables_def get_item_def)
  note E = equipment_conserved [OF ok _ this, where j = 41 and e = 40 and n = 1]
  define r where "r = equip gear_tables 7 40 gear_player"
  define p' where "p' = snd (the r)"
  have "r = reply 1 p'" unfolding r_def p'_def by code_simp
  moreover have "get_item p' 41 = 1 \<and> get_item p' 40 = 0" unfolding r_def p'_def by code_simp
  ultimately show ?thesis using E by (simp add: r_def)
qed

section \<open>What the client is believed\<close>

lemma del_none: "col_Get (p_Items q) e = None \<Longrightarrow> fold (\<lambda>e p. fst (del_item e 1 p)) (replicate m e) q = q"
  by (induction m) (simp_all add: del_item_def)

lemma del_last:
  assumes "get_item p e = 1"
  shows "col_Get (p_Items (fst (del_item e 1 p))) e = None"
proof -
  have "col_Get (p_Items p) e = Some 1" using assms by (auto simp: get_item_def split: option.splits)
  then show ?thesis by (simp add: del_item_def change_info_def Let_def)
qed

text \<open>C28: Putting on a list of equipment that the client sends asks only that the bag has each item, not that it has
  as many of it as the list: with one item in the bag, a list that names it several times puts it on as often, and
  the player owns that many more.\<close>

theorem one_key_equip_duplicates:
  assumes "col_ok (p_Roles p)" "get_item p e = 1" "0 < e"
    and "col_Get (p_Roles p) rid = Some d" "role_Equip d = []"
  shows "\<exists>p'. role_one_key_equip T order rid (Some (replicate (Suc m) e)) p = reply 1 p'
    \<and> owned p' e = owned p e + int m"
proof -
  define es where "es = replicate (Suc m) e"
  define q where "q = fst (del_item e 1 p)"
  have none: "col_Get (p_Items q) e = None" unfolding q_def by (rule del_last [OF assms(2)])
  have w: "wanted_equips T es [] p = q"
    using del_none [OF none, of m] by (simp add: wanted_equips_def es_def q_def)
  have "col_HasIndex (p_Items p) e"
    using assms(2) by (auto simp: col_HasIndex get_item_def split: option.splits)
  then have has: "\<not> list_ex (\<lambda>e. \<not> col_HasIndex (p_Items p) e) es" by (auto simp: es_def list_ex_iff)
  define p' where "p' = after_role_change rid (check_and_send_roles_change (id_update rid (set_equips rid es q)))"
  have n: "count_list (replicate k e) e = k" for k by (induction k) simp_all
  have "role_one_key_equip T order rid (Some es) p = reply 1 p'"
    unfolding role_one_key_equip_def using has assms(4,5) w by (simp add: p'_def)
  moreover have "owned p' e = owned (set_equips rid es q) e" by (rule owned_cong) (simp_all add: p'_def)
  moreover have "p_Roles q = p_Roles p" by (simp add: q_def)
  then have "equipped (p_Roles (set_equips rid es q)) e = equipped (p_Roles p) e + int (Suc m)"
    using equipped_set [of q rid d es e] assms(1,4,5) by (simp add: es_def n)
  moreover have "get_item (set_equips rid es q) e = 0" using none by (simp add: get_item_def)
  ultimately show ?thesis using assms(2) by (auto simp: owned_def es_def)
qed

theorem one_key_equip_duplicates_witness:
  "\<exists>p'. role_one_key_equip gear_tables [] 8 (Some (replicate 7 40)) gear_player = reply 1 p'
    \<and> owned p' 40 = owned gear_player 40 + 6"
proof -
  have "col_ok (p_Roles gear_player)" "get_item gear_player 40 = 1" "(0::int) < 40"
    "col_Get (p_Roles gear_player) 8 = Some (gear_role\<lparr>role_Equip := []\<rparr>)" "role_Equip (gear_role\<lparr>role_Equip := []\<rparr>) = []"
    by (simp_all add: gear_player_def col_ok_def get_item_def col_Get_def)
  from one_key_equip_duplicates [OF this, of gear_tables "[]" 6] show ?thesis by (simp add: eval_nat_numeral)
qed

text \<open>The price of upgrading a left slot or a relic is multiplied with a number the client chooses, in
  \<open>int32\<close>: with a number large enough the price turns negative, the check passes and the player is paid. The
  item of the role is upgraded once.\<close>

theorem upgrade_price_wraps:
  "\<exists>p'. item_upgrade gear_tables 7 60 10000000 1 gear_player = reply 1 p'
    \<and> p_Gold gear_player = 1000 \<and> p_Gold p' = 1294968296 \<and> p_Items p' = p_Items gear_player
    \<and> map_option role_Equip (col_Get (p_Roles p') 7) = Some [0, 0, 41, 0, 0, 61, 0]"
proof -
  define r where "r = item_upgrade gear_tables 7 60 10000000 1 gear_player"
  define p' where "p' = snd (the r)"
  have "r = reply 1 p'" unfolding r_def p'_def by code_simp
  moreover have "p_Gold gear_player = 1000 \<and> p_Gold p' = 1294968296 \<and> p_Items p' = p_Items gear_player
    \<and> map_option role_Equip (col_Get (p_Roles p') 7) = Some [0, 0, 41, 0, 0, 61, 0]"
    unfolding r_def p'_def by code_simp
  ultimately show ?thesis by (auto simp: r_def)
qed

end
