(* ===== verification/Player_Roles_Props.thy ===== *)
theory Player_Roles_Props
  imports Player_Equip_Props
begin

text \<open>
  Levelling and fusing roles: one level is paid exactly, several at once are not, and the materials of a fusion
  may be one role that stays.
\<close>

section \<open>Levels\<close>

lemma note_prices:
  assumes "distinct (map fst m @ map fst ps)"
  shows "note_prices ps p m = (if \<forall>(k, n) \<in> set ps. n \<le> get_resource p k then Some (m @ ps) else None)"
  using assms
proof (induction ps arbitrary: m)
  case (Cons x ps)
  obtain k n where x: "x = (k, n)" by fastforce
  have k: "k \<notin> fst ` set m" using Cons.prems by (auto simp: x)
  then have "map_of m k = None" by (simp add: map_of_eq_None_iff)
  moreover have "AList.update k n m = m @ [(k, n)]" using k by (induction m) auto
  moreover have "distinct (map fst (m @ [(k, n)]) @ map fst ps)" using Cons.prems by (auto simp: x)
  ultimately show ?case using Cons.IH [of "m @ [(k, n)]"] by (auto simp: x not_less)
qed simp

lemma get_resource_levelled:
  "get_resource (after_role_change rid (emit e (check_and_send_roles_change (id_update rid (set_role rid f p))))) j
    = get_resource p j"
  by (rule get_resource_cong)
    (simp_all add: after_role_change_def emit_def check_and_send_roles_change_def ids_reset_def id_update_def set_role_def)

text \<open>C29: Raising a role by one level asks for the price of that level and takes exactly it: with every amount at hand
  the role is one level higher, each resource is less by its price and no other changes; otherwise nothing
  happens.\<close>

theorem levelup_by_one:
  assumes "res_ok p" "col_Get (p_Roles p) rid = Some d" "GetRankCard T (role_TableId d) (role_Rank d) = Some cd"
    and "role_Level d < card_MaxLevel cd" "role_Level d < levelup_table_len T"
    and "levelup_table T (role_Level d) = Some ld"
    and "\<forall>(k, n) \<in> set (pairs_of (CardLevelUpRes ld)). k \<in> plain \<and> 0 \<le> n"
    and "distinct (map fst (pairs_of (CardLevelUpRes ld)))"
  shows "if \<forall>(k, n) \<in> set (pairs_of (CardLevelUpRes ld)). n \<le> get_resource p k
    then \<exists>p'. levelup_role T rid 1 p = reply (role_Level d) p'
      \<and> role_field role_Level p' rid = i32 (role_Level d + 1)
      \<and> (\<forall>j. get_resource p' j = get_resource p j - need (pairs_of (CardLevelUpRes ld)) j)
    else levelup_role T rid 1 p = fail E_ITEM_NUM_NOT_ENOUGH p"
proof -
  define ps where "ps = pairs_of (CardLevelUpRes ld)"
  have one: "levelup_loop T (nat 1) (role_Level d) p []
      = (if \<forall>(k, n) \<in> set ps. n \<le> get_resource p k then Inr ps else Inl E_ITEM_NUM_NOT_ENOUGH)"
    using assms(5,6,8) note_prices [of "[]" ps p] by (simp add: levelup_one_def ps_def)
  show ?thesis
  proof (cases "\<forall>(k, n) \<in> set ps. n \<le> get_resource p k")
    case True
    have pay: "pay_map T ps p = pay_resources T (CardLevelUpRes ld) p"
      by (simp add: pay_map_def pay_resources_def ps_def)
    have "\<forall>(k, n) \<in> set ps. k \<in> plain \<and> 0 \<le> n \<and> n \<le> get_resource p k" using True assms(7) by (auto simp: ps_def)
    from wallet.pay_distinct [OF assms(1) this]
    have res: "get_resource (pay_resources T (CardLevelUpRes ld) p) j = get_resource p j - need ps j" for j
      using assms(8) by (simp add: pay_resources_take ps_def)
    define q where "q = pay_resources T (CardLevelUpRes ld) p"
    have "p_Roles q = p_Roles p" unfolding q_def by (rule belongingsD(1) [OF belongings_lists(1)])
    then have "col_Get (p_Roles q) rid = Some d" using assms(2) by simp
    then have lv: "role_field role_Level (set_role rid (role_Level_update (\<lambda>_. i32 (role_Level d + 1))) q) rid
        = i32 (role_Level d + 1)"
      by (simp add: role_field_def set_role_def col_Get_Set)
    define p' where "p' = after_role_change rid (emit (EvTaskUpdate 208 False (card_Camp cd) 1)
      (check_and_send_roles_change (id_update rid (set_role rid (role_Level_update (\<lambda>_. i32 (role_Level d + 1))) q))))"
    have "levelup_role T rid 1 p = reply (role_Level d) p'"
      using True one assms(2-4) unfolding ps_def [symmetric]
      by (simp add: levelup_role_def Let_def pay p'_def q_def del: levelup_loop.simps)
    moreover have "role_field role_Level p' rid = i32 (role_Level d + 1)"
      using lv by (simp add: p'_def role_field_def emit_def)
    moreover have "get_resource p' j = get_resource p j - need ps j" for j
      unfolding p'_def get_resource_levelled q_def by (rule res)
    ultimately show ?thesis using True unfolding ps_def [symmetric] by auto
  next
    case False
    then show ?thesis using one assms(2-4) unfolding ps_def [symmetric]
      by (auto simp: levelup_role_def Let_def simp del: levelup_loop.simps)
  qed
qed

definition role_tables :: player_tables where
  "role_tables = demo_tables\<lparr>card_table := (\<lambda>k. [\<lparr>card_Id = k, card_Type = 1, card_Camp = 2, card_Label = [], BaseHP = 0,
     BaseAttack = 0, BaseDefence = 0, GrowthHP = 0, GrowthAttack = 0, GrowthDefence = 0, NormalSkillID = 0,
     SuperSkillID = 0, PassiveSkillIds = [],
     card_MaxLevel = 3, card_Rarity = 4, card_DecomposeRes = [], HeadItem = 90, BagFullChangeItem = [1, 10],
     ConvertId1 = 0, ConvertId2 = 0, ConvertItem = []\<rparr>])\<rparr>"


definition role_player :: Player where
  "role_player = demo_player\<lparr>p_Roles := [(7, gear_role\<lparr>role_Equip := [], role_Level := 1\<rparr>)], p_DefenseMembers := [7],
     p_CurrentRoleId := 7, p_draws := [0]\<rparr>"

theorem levelup_by_one_witness:
  "\<exists>p'. levelup_role role_tables 7 1 role_player = reply 1 p' \<and> get_resource p' 1 = 950 \<and> get_resource p' 9 = 2"
proof -
  have "res_ok role_player" using demo_player_ok(2) by (simp add: res_ok_def role_player_def)
  moreover have "col_Get (p_Roles role_player) 7 = Some (gear_role\<lparr>role_Equip := [], role_Level := 1\<rparr>)"
    by (simp add: role_player_def col_Get_def)
  moreover obtain cd where "GetRankCard role_tables 5 1 = Some cd" "card_MaxLevel cd = 3"
    by (auto simp: GetRankCard_def role_tables_def)
  moreover have "levelup_table_len role_tables = 4"
    "levelup_table role_tables 1 = Some \<lparr>PlayerLevelUpExp = 10, CardLevelUpRes = [1, 50, 9, 4], CardDecomposeRes = [1, 30]\<rparr>"
    by (simp_all add: role_tables_def demo_tables_def)
  moreover have "get_resource role_player 1 = 1000" "get_resource role_player 9 = 6"
    by (simp_all add: get_resource_def get_item_def role_player_def demo_player_def col_Get_def)
  ultimately show ?thesis
    using levelup_by_one [of role_player 7 "gear_role\<lparr>role_Equip := [], role_Level := 1\<rparr>" role_tables cd]
    by (auto simp: gear_role_def plain_def need_def)
qed

text \<open>Several levels at once are checked one by one against the same resources: six pieces, of which each
  level asks four, buy three levels, and because the player does not have the twelve pieces of the sum not one
  piece is taken; the level also passes the largest level of the card.\<close>

theorem levels_at_once_underpaid:
  "map_option (\<lambda>(r, p'). (case r of Inl e \<Rightarrow> 0 | Inr n \<Rightarrow> n, role_field role_Level p' 7,
        get_resource p' ITEM_RESOURCE_ID_GOLD, get_resource p' 9))
      (levelup_role role_tables 7 3 role_player) = Some (1, 4, 700, 6)
    \<and> get_resource role_player ITEM_RESOURCE_ID_GOLD = 1000 \<and> get_resource role_player 9 = 6"
proof
  show "map_option (\<lambda>(r, p'). (case r of Inl e \<Rightarrow> 0 | Inr n \<Rightarrow> n, role_field role_Level p' 7,
        get_resource p' ITEM_RESOURCE_ID_GOLD, get_resource p' 9))
      (levelup_role role_tables 7 3 role_player) = Some (1, 4, 700, 6)"
    by code_simp
  show "get_resource role_player ITEM_RESOURCE_ID_GOLD = 1000 \<and> get_resource role_player 9 = 6"
    by (simp add: get_resource_def get_item_def role_player_def demo_player_def col_Get_def)
qed

section \<open>Fusion\<close>

definition fusion_tables :: player_tables where
  "fusion_tables = role_tables\<lparr>fusion_table := (\<lambda>k. Some \<lparr>FusionType = 2, ResultDropID = 8, MainCardID = 0,
     MainCardLevelCond = 0, fusion_ResCondition = [], CostConds = [\<lparr>CostId = 5, CostCamp = 0, CostType = 0, CostStar = 0,
       CostNum = 2\<rparr>]\<rparr>),
     rankup_table := (\<lambda>r. Some \<lparr>Type1RankUpRes = [], Type2RankUpRes = [], Type3RankUpRes = [], Type1DecomposeRes = [],
       Type2DecomposeRes = [], Type3DecomposeRes = []\<rparr>),
     drop_table := (\<lambda>k. if k = 8 then Some \<lparr>TotalCount = 1, TotalWeight = 10, DropItems = [\<lparr>drop_GroupId = 8,
       DropItemID = 6, drop_Weight = 10, drop_Min = 1, drop_Max = 1\<rparr>]\<rparr> else None)\<rparr>"

text \<open>The materials of a fusion need not be different, and a role in use counts but is not deleted: one role of the
  defense team, listed twice, pays for a fusion of two roles, is given back its levels twice and stays.\<close>

theorem fusion_material_reused:
  "map_option (\<lambda>(r, p'). (case r of Inl e \<Rightarrow> 0 | Inr n \<Rightarrow> n, map (\<lambda>(k, d). (k, role_TableId d)) (p_Roles p'), p_Gold p'))
      (fusion_role fusion_tables 1 0 [[7, 7]] role_player) = Some (1, [(7, 5), (8, 6)], 1060)
    \<and> map (\<lambda>(k, d). (k, role_TableId d)) (p_Roles role_player) = [(7, 5)] \<and> p_Gold role_player = 1000"
proof
  show "map_option (\<lambda>(r, p'). (case r of Inl e \<Rightarrow> 0 | Inr n \<Rightarrow> n, map (\<lambda>(k, d). (k, role_TableId d)) (p_Roles p'), p_Gold p'))
      (fusion_role fusion_tables 1 0 [[7, 7]] role_player) = Some (1, [(7, 5), (8, 6)], 1060)"
    by code_simp
  show "map (\<lambda>(k, d). (k, role_TableId d)) (p_Roles role_player) = [(7, 5)] \<and> p_Gold role_player = 1000"
    by (simp add: role_player_def demo_player_def gear_role_def)
qed

end
