(* ===== verification/Player_Growth.thy ===== *)
theory Player_Growth
  imports Player_Items
begin

text \<open>
  The talents (\<open>hall_server/player_talent.go\<close>) and artifacts (\<open>hall_server/player_artifact.go\<close>) of a player:
  learning and forgetting talents, unlocking, levelling, ranking up and resetting artifacts. What they do in a
  fight is modelled with the fights.
\<close>

section \<open>Talents\<close>

definition talent_level :: "Player \<Rightarrow> int \<Rightarrow> int" where
  "talent_level p k = (case col_Get (p_Talents p) k of None \<Rightarrow> 0 | Some l \<Rightarrow> l)"

definition get_talent_list :: "Player \<Rightarrow> (int \<times> int) list" where
  "get_talent_list p = p_Talents p"

definition up_talent :: "player_tables \<Rightarrow> int \<Rightarrow> Player \<Rightarrow> answer" where
  "up_talent T k p =
     (let level = talent_level p k in
      case GetByIdLevel T k (i32 (level + 1)) of
        None \<Rightarrow> fail E_TALENT_NOT_FOUND p
      | Some t \<Rightarrow>
          if talent_CanLearn t \<le> 0 then fail E_FAILED p
          else if 0 < PrevSkillCond t
            \<and> (case col_Get (p_Talents p) (PrevSkillCond t) of None \<Rightarrow> True | Some l \<Rightarrow> l < PreSkillLevCond t)
          then fail E_TALENT_UP_NEED_PREV_TALENT p
          else if \<not> enough p (UpgradeCost t) then fail E_TALENT_UP_NOT_ENOUGH_RESOURCE p
          else (let p = pay_resources T (UpgradeCost t) p in
                reply 1 (if level = 0 then p\<lparr>p_Talents := fst (col_Add k (i32 (level + 1)) (p_Talents p))\<rparr>
                         else p\<lparr>p_Talents := fst (col_Set k (\<lambda>_. i32 (level + 1)) (p_Talents p))\<rparr>)))"

text \<open>The levels of one talent are paid back from the first on.\<close>

definition refund_level :: "player_tables \<Rightarrow> int \<Rightarrow> int \<Rightarrow> int \<Rightarrow> Player \<Rightarrow> Player" where
  "refund_level T tag k l p =
     (case GetByIdLevel T k l of
        None \<Rightarrow> p
      | Some t \<Rightarrow>
          if talent_Tag t \<noteq> tag then p
          else (let p = add_resources T (UpgradeCost t) p in p\<lparr>p_Talents := col_Remove k (p_Talents p)\<rparr>))"

definition refund_talent :: "player_tables \<Rightarrow> int \<Rightarrow> int \<Rightarrow> Player \<Rightarrow> Player" where
  "refund_talent T tag k p = fold (refund_level T tag k) [1..talent_level p k] p"

text \<open>\<open>order\<close> is the order in which Go runs through the talents.\<close>

definition talent_reset :: "player_tables \<Rightarrow> int list \<Rightarrow> int \<Rightarrow> Player \<Rightarrow> answer" where
  "talent_reset T order tag p =
     (if col_NumAll (p_Talents p) \<le> 0 then fail E_FAILED p
      else if p_Diamond p < TalentResetCostDiamond T then fail E_DIAMOND_NOT_ENOUGH p
      else reply 1 (fst (add_diamond (i32 (- TalentResetCostDiamond T)) (fold (refund_talent T tag) order p))))"

section \<open>Artifacts\<close>

definition arti_field :: "(dbPlayerArtifactData \<Rightarrow> int) \<Rightarrow> Player \<Rightarrow> int \<Rightarrow> int" where
  "arti_field f p k = (case col_Get (p_Artifacts p) k of None \<Rightarrow> 0 | Some d \<Rightarrow> f d)"

definition set_artifact :: "int \<Rightarrow> (dbPlayerArtifactData \<Rightarrow> dbPlayerArtifactData) \<Rightarrow> Player \<Rightarrow> Player" where
  "set_artifact k f p = p\<lparr>p_Artifacts := fst (col_Set k f (p_Artifacts p))\<rparr>"

text \<open>The list sent to the client drops every artifact the table does not have.\<close>

definition artifact_known :: "player_tables \<Rightarrow> int \<Rightarrow> dbPlayerArtifactData \<Rightarrow> bool" where
  "artifact_known T k d = (artifact_table T k (arti_Rank d) (arti_Level d) \<noteq> None)"

definition artifact_data :: "player_tables \<Rightarrow> Player \<Rightarrow> (int \<times> dbPlayerArtifactData) list \<times> Player" where
  "artifact_data T p =
     (let good = filter (\<lambda>(k, d). artifact_known T k d) (p_Artifacts p)
      in (good, p\<lparr>p_Artifacts := good\<rparr>))"

definition artifact_unlock :: "player_tables \<Rightarrow> int \<Rightarrow> Player \<Rightarrow> answer" where
  "artifact_unlock T k p =
     (if col_HasIndex (p_Artifacts p) k then fail E_ARTIFACT_ALREADY_UNLOCKED p
      else case artifact_unlock_table T k of
          None \<Rightarrow> fail E_ARTIFACT_TABLE_UNLOCK_DATA_NOT_FOUND p
        | Some au \<Rightarrow>
            if p_Level p < UnLockLevel au \<or> p_VipLvl p < UnLockVIPLevel au
            then fail E_ARTIFACT_CANT_UNLOCK_WITH_CONDITION p
            else if \<not> enough p (UnLockResCost au) then fail E_ITEM_NUM_NOT_ENOUGH p
            else if artifact_table T k 1 1 = None then fail E_ARTIFACT_TABLE_DATA_NOT_FOUND p
            else reply 1 (fst (cost_resources T (Some (UnLockResCost au))
                   (p\<lparr>p_Artifacts := fst (col_Add k \<lparr>arti_Rank = 1, arti_Level = 1\<rparr> (p_Artifacts p))\<rparr>))))"

definition artifact_levelup :: "player_tables \<Rightarrow> int \<Rightarrow> Player \<Rightarrow> answer" where
  "artifact_levelup T k p =
     (case col_Get (p_Artifacts p) k of
        None \<Rightarrow> fail E_ARTIFACT_HAS_NOT_UNLOCK p
      | Some d \<Rightarrow> (case artifact_table T k (arti_Rank d) (arti_Level d) of
            None \<Rightarrow> fail E_ARTIFACT_TABLE_DATA_NOT_FOUND p
          | Some a \<Rightarrow>
              if artifact_MaxLevel a \<le> arti_Level d
              then (if artifact_max_rank T k \<le> arti_Rank d then fail E_ARTIFACT_LEVEL_IS_MAX p
                    else fail E_ARTIFACT_MUST_RANKUP_TO_LEVELUP p)
              else if \<not> enough p (LevelUpResCost a) then fail E_ITEM_NUM_NOT_ENOUGH p
              else reply 1 (fst (cost_resources T (Some (LevelUpResCost a))
                     (set_artifact k (arti_Level_update (\<lambda>l. i32 (l + 1))) p)))))"

definition artifact_rankup :: "player_tables \<Rightarrow> int \<Rightarrow> Player \<Rightarrow> answer" where
  "artifact_rankup T k p =
     (case col_Get (p_Artifacts p) k of
        None \<Rightarrow> fail E_ARTIFACT_HAS_NOT_UNLOCK p
      | Some d \<Rightarrow>
          if artifact_max_rank T k \<le> arti_Rank d then fail E_ARTIFACT_RANK_IS_MAX p
          else (case artifact_table T k (arti_Rank d) (arti_Level d) of
              None \<Rightarrow> fail E_ARTIFACT_TABLE_DATA_NOT_FOUND p
            | Some a \<Rightarrow>
                if \<not> enough p (RankUpResCost a) then fail E_ITEM_NUM_NOT_ENOUGH p
                else reply 1 (fst (cost_resources T (Some (RankUpResCost a))
                       (set_artifact k (arti_Rank_update (\<lambda>r. i32 (r + 1))) p)))))"

definition artifact_reset :: "player_tables \<Rightarrow> int \<Rightarrow> Player \<Rightarrow> answer" where
  "artifact_reset T k p =
     (case col_Get (p_Artifacts p) k of
        None \<Rightarrow> fail E_ARTIFACT_HAS_NOT_UNLOCK p
      | Some d \<Rightarrow>
          if arti_Rank d \<le> 1 \<and> arti_Level d \<le> 1 then fail E_ARTIFACT_NO_NEED_TO_RESET p
          else (case artifact_table T k (arti_Rank d) (arti_Level d) of
              None \<Rightarrow> fail E_ARTIFACT_TABLE_DATA_NOT_FOUND p
            | Some a \<Rightarrow>
                reply 1 (add_resources T (artifact_DecomposeRes a)
                  (set_artifact k (\<lambda>_. \<lparr>arti_Rank = 1, arti_Level = 1\<rparr>) p))))"

end
