(* ===== verification/Player_Growth_Props.thy ===== *)
theory Player_Growth_Props
  imports Player_Growth Player_Items_Props Player_Purse
begin

text \<open>
  What talents cost is not lost: a player's resources and the prices of the talents he has learned stay the same
  in sum, and forgetting the talents of a tag gives their prices back exactly, less the fee.
\<close>

section \<open>The price of the talents learned\<close>

definition level_cost :: "player_tables \<Rightarrow> int \<Rightarrow> int \<Rightarrow> int \<Rightarrow> int \<Rightarrow> int" where
  "level_cost T tag k l j =
     (case GetByIdLevel T k l of
        None \<Rightarrow> 0
      | Some t \<Rightarrow> if talent_Tag t = tag then need (pairs_of (UpgradeCost t)) j else 0)"

definition spent :: "player_tables \<Rightarrow> int \<Rightarrow> int \<Rightarrow> int \<Rightarrow> int \<Rightarrow> int" where
  "spent T tag k lv j = (\<Sum>l \<leftarrow> [1..lv]. level_cost T tag k l j)"

definition invested :: "player_tables \<Rightarrow> int \<Rightarrow> Player \<Rightarrow> int \<Rightarrow> int" where
  "invested T tag p j = (\<Sum>(k, lv) \<leftarrow> p_Talents p. spent T tag k lv j)"

text \<open>Prices in different ordinary resources; talents of a level, each once.\<close>

definition talent_costs_ok :: "player_tables \<Rightarrow> bool" where
  "talent_costs_ok T \<longleftrightarrow> (\<forall>k l t. GetByIdLevel T k l = Some t \<longrightarrow>
     (\<forall>(i, n) \<in> set (pairs_of (UpgradeCost t)). i \<in> ordinary T \<and> 0 \<le> n) \<and> distinct (map fst (pairs_of (UpgradeCost t))))"

definition talents_ok :: "Player \<Rightarrow> bool" where
  "talents_ok p \<longleftrightarrow> col_ok (p_Talents p) \<and> (\<forall>k l. col_Get (p_Talents p) k = Some l \<longrightarrow> 1 \<le> l \<and> l \<le> max_int32)"

lemma level_cost_nonneg:
  assumes "talent_costs_ok T"
  shows "0 \<le> level_cost T tag k l j"
proof (cases "GetByIdLevel T k l")
  case (Some t)
  then have "\<forall>(i, n) \<in> set (pairs_of (UpgradeCost t)). i \<in> ordinary T \<and> 0 \<le> n"
    using assms unfolding talent_costs_ok_def by blast
  then have "\<forall>(i, n) \<in> set (pairs_of (UpgradeCost t)). 0 \<le> n" by auto
  then show ?thesis using Some by (simp add: level_cost_def need_nonneg)
qed (simp add: level_cost_def)

lemma spent_nonneg: "talent_costs_ok T \<Longrightarrow> 0 \<le> spent T tag k lv j"
  unfolding spent_def by (intro sum_list_nonneg) (auto intro: level_cost_nonneg)

lemma spent_zero [simp]: "spent T tag k 0 j = 0"
  by (simp add: spent_def)

lemma spent_next: "0 \<le> lv \<Longrightarrow> spent T tag k (lv + 1) j = spent T tag k lv j + level_cost T tag k (lv + 1) j"
  by (simp add: spent_def upto_rec2)

section \<open>Learning\<close>

lemma up_talent_reply:
  assumes "up_talent T k p = reply n p'"
  obtains t where "GetByIdLevel T k (i32 (talent_level p k + 1)) = Some t" "enough p (UpgradeCost t)"
    "p' = (let q = pay_resources T (UpgradeCost t) p; l = i32 (talent_level p k + 1) in
       if talent_level p k = 0 then q\<lparr>p_Talents := fst (col_Add k l (p_Talents q))\<rparr>
       else q\<lparr>p_Talents := fst (col_Set k (\<lambda>_. l) (p_Talents q))\<rparr>)"
  using assms by (auto simp: up_talent_def Let_def split: option.splits if_splits)

lemma talent_level:
  assumes "talents_ok p"
  shows "0 \<le> talent_level p k" "talent_level p k \<le> max_int32"
    "talent_level p k = 0 \<longleftrightarrow> col_Get (p_Talents p) k = None"
  using assms by (fastforce simp: talent_level_def talents_ok_def split: option.splits)+

lemma up_talent_keeps:
  assumes "res_ok p" "talents_ok p" "talent_costs_ok T" and up: "up_talent T k p = reply n p'"
    and tag: "\<And>t. GetByIdLevel T k (talent_level p k + 1) = Some t \<Longrightarrow> talent_Tag t = tag"
  shows "get_resource p' j + invested T tag p' j = get_resource p j + invested T tag p j"
    and "res_ok p'" and "talents_ok p'"
proof -
  obtain t where t: "GetByIdLevel T k (i32 (talent_level p k + 1)) = Some t" "enough p (UpgradeCost t)"
    and p': "p' = (let q = pay_resources T (UpgradeCost t) p; l = i32 (talent_level p k + 1) in
       if talent_level p k = 0 then q\<lparr>p_Talents := fst (col_Add k l (p_Talents q))\<rparr>
       else q\<lparr>p_Talents := fst (col_Set k (\<lambda>_. l) (p_Talents q))\<rparr>)"
    by (rule up_talent_reply [OF up])
  define lv where "lv = talent_level p k"
  note lv = talent_level [OF assms(2), of k, folded lv_def]
  have "1 \<le> i32 (lv + 1)" using t(1) by (auto simp: GetByIdLevel_def lv_def Let_def split: if_splits)
  then have "lv \<noteq> max_int32" by (auto simp: i32_def)
  then have l: "i32 (lv + 1) = lv + 1" using lv by (intro amount_i32) (auto simp: amount_def)
  have row: "GetByIdLevel T k (lv + 1) = Some t" using t(1) l by (simp add: lv_def)
  then have cost: "\<forall>(i, n) \<in> set (pairs_of (UpgradeCost t)). i \<in> ordinary T \<and> 0 \<le> n"
    "distinct (map fst (pairs_of (UpgradeCost t)))" using assms(3) unfolding talent_costs_ok_def by blast+
  define q where "q = pay_resources T (UpgradeCost t) p"
  have "\<forall>(i, n) \<in> set (pairs_of (UpgradeCost t)). i \<in> plain \<and> 0 \<le> n \<and> n \<le> get_resource p i"
    using cost(1) t(2) ordinary_plain by (fastforce simp: enough_def list_all_iff)
  from wallet.pay_distinct [OF assms(1) this cost(2)]
  have q: "res_ok q" "get_resource q j = get_resource p j - need (pairs_of (UpgradeCost t)) j"
    unfolding q_def pay_resources_take by blast+
  have tq: "p_Talents q = p_Talents p" unfolding q_def by (rule belongingsD(2) [OF belongings_lists(1)])
  have lc: "level_cost T tag k (lv + 1) j = need (pairs_of (UpgradeCost t)) j"
    using row tag by (simp add: level_cost_def lv_def)
  have c: "distinct (map fst (p_Talents p))" using assms(2) by (simp add: talents_ok_def col_ok_def)
  have new: "p_Talents p' = AList.update k (lv + 1) (p_Talents p)"
    using lv(3) l by (auto simp: p' Let_def q_def [symmetric] tq lv_def [symmetric] col_Add_def col_Set_def
        col_HasIndex col_Get_def split: option.splits)
  have same: "p_Gold p' = p_Gold q" "p_Diamond p' = p_Diamond q" "p_Exp p' = p_Exp q" "p_Items p' = p_Items q"
    by (simp_all add: p' Let_def q_def [symmetric])
  have "invested T tag p' j = invested T tag p j + need (pairs_of (UpgradeCost t)) j"
  proof (cases "map_of (p_Talents p) k")
    case None
    then have "lv = 0" using lv(3) by (simp add: col_Get_def)
    then show ?thesis using sum_add [OF None, of "\<lambda>(k, lv). spent T tag k lv j" "lv + 1"] spent_next [of lv T tag k j] lc
      by (simp add: invested_def new)
  next
    case (Some d)
    then have "lv = d" by (simp add: lv_def talent_level_def col_Get_def)
    then show ?thesis using sum_update [OF c Some, of "\<lambda>(k, lv). spent T tag k lv j" "lv + 1"] spent_next [of lv T tag k j]
        lc lv(1) by (simp add: invested_def new)
  qed
  then show "get_resource p' j + invested T tag p' j = get_resource p j + invested T tag p j"
    using get_resource_cong [OF same] q(2) by simp
  show "res_ok p'" using q(1) same by (simp add: res_ok_def)
  have "col_Get (p_Talents p') x = (if x = k then Some (lv + 1) else col_Get (p_Talents p) x)" for x
    by (simp add: new col_Get_def update_conv')
  moreover have "1 \<le> lv + 1" "lv + 1 \<le> max_int32" using lv \<open>lv \<noteq> max_int32\<close> by simp_all
  moreover have "col_ok (p_Talents p')" using c by (simp add: new col_ok_def distinct_update)
  ultimately show "talents_ok p'" using assms(2) by (simp add: talents_ok_def)
qed


section \<open>Forgetting\<close>

definition hits :: "player_tables \<Rightarrow> int \<Rightarrow> int \<Rightarrow> int \<Rightarrow> bool" where
  "hits T tag k l \<longleftrightarrow> (\<exists>t. GetByIdLevel T k l = Some t \<and> talent_Tag t = tag)"

lemma refund_level:
  assumes "res_ok p" "talent_costs_ok T" "\<forall>j. get_resource p j + level_cost T tag k l j \<le> max_int32"
  shows "res_ok (refund_level T tag k l p)
    \<and> (\<forall>j. get_resource (refund_level T tag k l p) j = get_resource p j + level_cost T tag k l j)
    \<and> p_Talents (refund_level T tag k l p) = (if hits T tag k l then col_Remove k (p_Talents p) else p_Talents p)"
proof (cases "hits T tag k l")
  case True
  then obtain t where t: "GetByIdLevel T k l = Some t" "talent_Tag t = tag" by (auto simp: hits_def)
  have lc: "level_cost T tag k l j = need (pairs_of (UpgradeCost t)) j" for j using t by (simp add: level_cost_def)
  define q where "q = add_resources T (UpgradeCost t) p"
  have r: "refund_level T tag k l p = q\<lparr>p_Talents := col_Remove k (p_Talents q)\<rparr>"
    using t by (simp add: refund_level_def q_def Let_def)
  have "\<forall>(i, n) \<in> set (pairs_of (UpgradeCost t)). i \<in> ordinary T \<and> 0 \<le> n"
    using assms(2) t(1) unfolding talent_costs_ok_def by blast
  moreover have "\<forall>j \<in> fst ` set (pairs_of (UpgradeCost t)). get_resource p j + need (pairs_of (UpgradeCost t)) j \<le> max_int32"
    using assms(3) lc by simp
  ultimately have q: "res_ok q" "\<And>j. get_resource q j = get_resource p j + need (pairs_of (UpgradeCost t)) j"
    unfolding q_def add_resources_give using pocket.give_all [OF assms(1), where ps = "pairs_of (UpgradeCost t)"] by blast+
  have "p_Talents q = p_Talents p" unfolding q_def by (rule belongingsD(2) [OF belongings_lists(2)])
  moreover have "get_resource (q\<lparr>p_Talents := c\<rparr>) j = get_resource q j" for c j by (rule get_resource_cong) simp_all
  moreover have "res_ok (q\<lparr>p_Talents := c\<rparr>)" for c using q(1) by (simp add: res_ok_def)
  ultimately show ?thesis using True q(2) lc by (simp add: r)
next
  case False
  then have "refund_level T tag k l p = p \<and> (\<forall>j. level_cost T tag k l j = 0)"
    by (auto simp: refund_level_def level_cost_def hits_def split: option.splits)
  then show ?thesis using assms(1) False by simp
qed

lemma col_Remove_twice: "col_Remove k (col_Remove k c) = col_Remove k c"
  by (simp add: col_Remove_def delete_idem)

lemma refund_levels:
  assumes "res_ok p" "talent_costs_ok T" "\<forall>j. get_resource p j + (\<Sum>l \<leftarrow> ls. level_cost T tag k l j) \<le> max_int32"
  shows "res_ok (fold (refund_level T tag k) ls p)
    \<and> (\<forall>j. get_resource (fold (refund_level T tag k) ls p) j = get_resource p j + (\<Sum>l \<leftarrow> ls. level_cost T tag k l j))
    \<and> p_Talents (fold (refund_level T tag k) ls p)
        = (if list_ex (hits T tag k) ls then col_Remove k (p_Talents p) else p_Talents p)"
  using assms
proof (induction ls arbitrary: p)
  case (Cons l ls)
  have pos: "0 \<le> (\<Sum>l \<leftarrow> ls. level_cost T tag k l j)" for j
    using Cons.prems(2) by (intro sum_list_nonneg) (auto intro: level_cost_nonneg)
  then have "\<forall>j. get_resource p j + level_cost T tag k l j \<le> max_int32"
    using Cons.prems(3) by (smt (verit) list.simps(9) sum_list.Cons)
  note one = refund_level [OF Cons.prems(1,2) this]
  have "\<forall>j. get_resource (refund_level T tag k l p) j + (\<Sum>l \<leftarrow> ls. level_cost T tag k l j) \<le> max_int32"
    using Cons.prems(3) one by (simp add: add.assoc)
  from Cons.IH [OF _ Cons.prems(2) this] one show ?case by (simp add: col_Remove_twice)
qed simp

lemma no_hit_cost: "\<not> list_ex (hits T tag k) ls \<Longrightarrow> (\<Sum>l \<leftarrow> ls. level_cost T tag k l j) = 0"
  by (induction ls) (auto simp: level_cost_def hits_def split: option.splits)

text \<open>One talent: its price comes back, and what is left of it has no price under the tag.\<close>

lemma refund_talent:
  assumes "res_ok p" "talents_ok p" "talent_costs_ok T"
    and "\<forall>j. get_resource p j + spent T tag k (talent_level p k) j \<le> max_int32"
  shows "res_ok (refund_talent T tag k p)"
    and "get_resource (refund_talent T tag k p) j = get_resource p j + spent T tag k (talent_level p k) j"
    and "talents_ok (refund_talent T tag k p)"
    and "i \<noteq> k \<Longrightarrow> talent_level (refund_talent T tag k p) i = talent_level p i"
    and "spent T tag k (talent_level (refund_talent T tag k p) k) j = 0"
    and "set (map fst (p_Talents (refund_talent T tag k p))) \<subseteq> set (map fst (p_Talents p))"
proof -
  define ls where "ls = [1..talent_level p k]"
  have "\<forall>j. get_resource p j + (\<Sum>l \<leftarrow> ls. level_cost T tag k l j) \<le> max_int32"
    using assms(4) by (simp add: spent_def ls_def)
  note all = refund_levels [OF assms(1,3) this]
  define q where "q = refund_talent T tag k p"
  have q: "res_ok q" "\<And>j. get_resource q j = get_resource p j + spent T tag k (talent_level p k) j"
    "p_Talents q = (if list_ex (hits T tag k) ls then col_Remove k (p_Talents p) else p_Talents p)"
    using all by (simp_all add: q_def refund_talent_def spent_def ls_def)
  show "res_ok q" "get_resource q j = get_resource p j + spent T tag k (talent_level p k) j"
    using q(1,2) by simp_all
  show "talents_ok q" using assms(2) by (auto simp: talents_ok_def q(3))
  show "i \<noteq> k \<Longrightarrow> talent_level q i = talent_level p i" by (simp add: talent_level_def q(3))
  show "spent T tag k (talent_level q k) j = 0"
  proof (cases "list_ex (hits T tag k) ls")
    case True
    then have "talent_level q k = 0" by (simp add: talent_level_def q(3))
    then show ?thesis by simp
  next
    case False
    then have "talent_level q k = talent_level p k" by (simp add: talent_level_def q(3))
    then show ?thesis using no_hit_cost [OF False] by (simp add: spent_def ls_def)
  qed
  show "set (map fst (p_Talents q)) \<subseteq> set (map fst (p_Talents p))"
    by (auto simp: q(3) col_Remove_def AList.delete_eq)
qed

lemma refund_talents:
  assumes "res_ok p" "talents_ok p" "talent_costs_ok T" "distinct order"
    and "\<forall>j. get_resource p j + (\<Sum>k \<leftarrow> order. spent T tag k (talent_level p k) j) \<le> max_int32"
  shows "let q = fold (refund_talent T tag) order p in res_ok q \<and> talents_ok q
    \<and> (\<forall>j. get_resource q j = get_resource p j + (\<Sum>k \<leftarrow> order. spent T tag k (talent_level p k) j))
    \<and> (\<forall>i. i \<notin> set order \<longrightarrow> talent_level q i = talent_level p i)
    \<and> (\<forall>k \<in> set order. \<forall>j. spent T tag k (talent_level q k) j = 0)
    \<and> set (map fst (p_Talents q)) \<subseteq> set (map fst (p_Talents p))"
  using assms
proof (induction order arbitrary: p)
  case (Cons k order)
  have pos: "0 \<le> (\<Sum>k \<leftarrow> order. spent T tag k (talent_level p k) j)" for j
    using Cons.prems(3) by (intro sum_list_nonneg) (auto intro: spent_nonneg)
  have "\<forall>j. get_resource p j + spent T tag k (talent_level p k) j \<le> max_int32"
  proof
    fix j
    show "get_resource p j + spent T tag k (talent_level p k) j \<le> max_int32"
      using Cons.prems(5) [rule_format, of j] pos [of j] by simp
  qed
  note one = refund_talent [OF Cons.prems(1-3) this]
  define q where "q = refund_talent T tag k p"
  have same: "i \<in> set order \<Longrightarrow> talent_level q i = talent_level p i" for i
    using one(4) [of i] Cons.prems(4) unfolding q_def by auto
  then have same: "(\<Sum>i \<leftarrow> order. spent T tag i (talent_level q i) j) = (\<Sum>i \<leftarrow> order. spent T tag i (talent_level p i) j)" for j
    by (intro arg_cong [where f = sum_list] map_cong) simp_all
  have "\<forall>j. get_resource q j + (\<Sum>i \<leftarrow> order. spent T tag i (talent_level q i) j) \<le> max_int32"
    using Cons.prems(5) one(2) [folded q_def] by (simp add: same add.assoc)
  from Cons.IH [OF _ _ Cons.prems(3) _ this] one(1,3) Cons.prems(4)
  have rest: "let r = fold (refund_talent T tag) order q in res_ok r \<and> talents_ok r
    \<and> (\<forall>j. get_resource r j = get_resource q j + (\<Sum>i \<leftarrow> order. spent T tag i (talent_level q i) j))
    \<and> (\<forall>i. i \<notin> set order \<longrightarrow> talent_level r i = talent_level q i)
    \<and> (\<forall>i \<in> set order. \<forall>j. spent T tag i (talent_level r i) j = 0)
    \<and> set (map fst (p_Talents r)) \<subseteq> set (map fst (p_Talents q))"
    by (simp add: q_def)
  define r where "r = fold (refund_talent T tag) order q"
  note rest = rest [unfolded Let_def, folded r_def]
  have "talent_level r k = talent_level q k" using rest Cons.prems(4) by simp
  then have "spent T tag k (talent_level r k) j = 0" for j using one(5) by (simp add: q_def)
  moreover have "get_resource r j = get_resource p j + (\<Sum>k \<leftarrow> k # order. spent T tag k (talent_level p k) j)" for j
    using rest one(2) [folded q_def] same by simp
  moreover have "i \<notin> set (k # order) \<Longrightarrow> talent_level r i = talent_level p i" for i
    using rest one(4) by (simp add: q_def)
  moreover have "set (map fst (p_Talents r)) \<subseteq> set (map fst (p_Talents p))"
    using rest one(6) unfolding q_def by blast
  moreover have "fold (refund_talent T tag) (k # order) p = r" by (simp add: r_def q_def)
  ultimately show ?case using rest by (simp add: Let_def)
qed simp


text \<open>C30: What a talent costs is not lost. Learning a level moves its price from the resources into the talents,
  and the reset of a tag gives every level of it back: afterwards no talent of the tag costs anything and each
  resource is larger by what its talents had cost, less the fee in diamonds, when the sums stay below the largest
  \<open>int32\<close>.\<close>

theorem talent_prices_conserved:
  assumes "res_ok p" "talents_ok p" "talent_costs_ok T"
    and "distinct order" "set order = set (map fst (p_Talents p))"
    and "\<forall>j. get_resource p j + invested T tag p j \<le> max_int32" "0 \<le> TalentResetCostDiamond T"
  shows "(up_talent T k p = reply n p'
        \<and> (\<forall>t. GetByIdLevel T k (talent_level p k + 1) = Some t \<longrightarrow> talent_Tag t = tag) \<longrightarrow>
      get_resource p' j + invested T tag p' j = get_resource p j + invested T tag p j)
    \<and> (talent_reset T order tag p = reply n p' \<longrightarrow>
      invested T tag p' j = 0
      \<and> get_resource p' j = get_resource p j + invested T tag p j
          - (if j = ITEM_RESOURCE_ID_DIAMOND then TalentResetCostDiamond T else 0))"
proof (intro conjI impI, elim conjE)
  assume "up_talent T k p = reply n p'"
    and "\<forall>t. GetByIdLevel T k (talent_level p k + 1) = Some t \<longrightarrow> talent_Tag t = tag"
  then show "get_resource p' j + invested T tag p' j = get_resource p j + invested T tag p j"
    using up_talent_keeps(1) [OF assms(1-3)] by blast
next
  assume reset: "talent_reset T order tag p = reply n p'"
  define q where "q = fold (refund_talent T tag) order p"
  define fee where "fee = TalentResetCostDiamond T"
  have keys: "distinct (map fst (p_Talents p))" using assms(2) by (simp add: talents_ok_def col_ok_def)
  have inv: "(\<Sum>k \<leftarrow> order. spent T tag k (talent_level p k) i) = invested T tag p i" for i
  proof -
    have "(\<Sum>k \<leftarrow> order. spent T tag k (talent_level p k) i)
        = (\<Sum>k \<leftarrow> map fst (p_Talents p). spent T tag k (talent_level p k) i)"
      by (simp only: sum_list_distinct_conv_sum_set [OF assms(4)] sum_list_distinct_conv_sum_set [OF keys] assms(5))
    also have "\<dots> = invested T tag p i"
      unfolding invested_def map_map comp_def
      by (intro arg_cong [where f = sum_list] map_cong) (auto simp: talent_level_def col_Get_def map_of_is_SomeI [OF keys])
    finally show ?thesis .
  qed
  have "\<forall>j. get_resource p j + (\<Sum>k \<leftarrow> order. spent T tag k (talent_level p k) j) \<le> max_int32"
    using assms(6) inv by simp
  note all = refund_talents [OF assms(1-4) this, unfolded Let_def, folded q_def]
  have q: "res_ok q" "\<And>i. get_resource q i = get_resource p i + invested T tag p i"
    using all inv by simp_all
  have "spent T tag i lv j = 0" if "(i, lv) \<in> set (p_Talents q)" for i lv
  proof -
    have "i \<in> set order" using that all assms(5) by (metis fst_conv imageI list.set_map subsetD)
    moreover have "talent_level q i = lv"
      using that all by (auto simp: talent_level_def col_Get_def talents_ok_def col_ok_def)
    ultimately show ?thesis using all by auto
  qed
  then have "map (\<lambda>(k, lv). spent T tag k lv j) (p_Talents q) = map (\<lambda>_. 0) (p_Talents q)" by auto
  then have zero: "invested T tag q j = 0" unfolding invested_def by (simp only: sum_list_0)
  have en: "fee \<le> p_Diamond p" and p': "p' = fst (add_diamond (i32 (- fee)) q)"
    using reset by (auto simp: talent_reset_def q_def fee_def split: if_splits)
  have "0 \<le> invested T tag p 3"
    unfolding invested_def using assms(3) by (intro sum_list_nonneg) (auto intro: spent_nonneg)
  then have "fee \<le> get_resource q 3" using en q(2) [of 3] by (simp add: get_resource_def)
  moreover have "3 \<in> plain" "0 \<le> fee" using assms(7) by (simp_all add: plain_def fee_def)
  ultimately have "get_resource p' j = (if j = 3 then get_resource q 3 - fee else get_resource q j)"
    using take_resource(2) [OF q(1), of 3 fee T j] by (simp add: p' add_resource_def)
  moreover have "p_Talents p' = p_Talents q"
    unfolding p' by (rule belongingsD(2) [OF belongings_gold(2)])
  ultimately show "invested T tag p' j = 0"
    "get_resource p' j = get_resource p j + invested T tag p j
       - (if j = ITEM_RESOURCE_ID_DIAMOND then TalentResetCostDiamond T else 0)"
    using zero q(2) by (auto simp: invested_def fee_def)
qed

definition talent_tables :: player_tables where
  "talent_tables = demo_tables\<lparr>talent_table := (\<lambda>k. if k = 5 then
     [\<lparr>talent_CanLearn = 1, UpgradeCost = [1, 100, 9, 1], PrevSkillCond = 0, PreSkillLevCond = 0, talent_Tag = 2\<rparr>,
      \<lparr>talent_CanLearn = 1, UpgradeCost = [1, 300, 9, 2], PrevSkillCond = 0, PreSkillLevCond = 0, talent_Tag = 2\<rparr>] else []),
     TalentResetCostDiamond := 15\<rparr>"

definition talent_player :: Player where
  "talent_player = demo_player\<lparr>p_Talents := [(5, 2)]\<rparr>"

theorem talent_prices_conserved_witness:
  "\<exists>p'. talent_reset talent_tables [5] 2 talent_player = reply 1 p'
     \<and> get_resource p' 1 = get_resource talent_player 1 + 400
     \<and> get_resource p' 3 = get_resource talent_player 3 - 15"
proof -
  have get: "get_resource talent_player j = (if j = 1 then 1000 else if j = 3 then 20 else if j = 7 then 5
      else if j = 9 then 6 else if j = 40 then 2 else 0)" for j
    by (simp add: get_resource_def get_item_def talent_player_def demo_player_def col_Get_def)
  have "res_ok talent_player" using demo_player_ok(2) by (simp add: res_ok_def talent_player_def)
  moreover have "talents_ok talent_player"
    by (simp add: talents_ok_def talent_player_def col_ok_def col_Get_def)
  moreover have costs: "talent_costs_ok talent_tables"
    by (auto simp: talent_costs_ok_def talent_tables_def GetByIdLevel_def ordinary_def demo_tables_def plain_item_def
        nth_Cons' split: if_splits)
  moreover have "distinct [5::int]" "set [5] = set (map fst (p_Talents talent_player))"
    by (simp_all add: talent_player_def)
  moreover have inv: "invested talent_tables 2 talent_player j = (if j = 1 then 400 else if j = 9 then 3 else 0)" for j
  proof -
    have "[1..2] = [1, 2::int]" by code_simp
    then show ?thesis
      by (simp add: invested_def spent_def level_cost_def talent_player_def talent_tables_def GetByIdLevel_def need_def)
  qed
  moreover have "\<forall>j. get_resource talent_player j + invested talent_tables 2 talent_player j \<le> max_int32"
    by (simp add: get inv)
  moreover have "0 \<le> TalentResetCostDiamond talent_tables" by (simp add: talent_tables_def)
  ultimately have R: "talent_reset talent_tables [5] 2 talent_player = reply 1 p' \<Longrightarrow>
      get_resource p' j = get_resource talent_player j + invested talent_tables 2 talent_player j
        - (if j = 3 then TalentResetCostDiamond talent_tables else 0)" for p' j
    using talent_prices_conserved [of talent_player talent_tables "[5]" 2 0 1 p' j] by simp
  define r where "r = talent_reset talent_tables [5] 2 talent_player"
  define p' where "p' = snd (the r)"
  have "r = reply 1 p'" unfolding r_def p'_def by code_simp
  moreover have "TalentResetCostDiamond talent_tables = 15" by (simp add: talent_tables_def)
  ultimately show ?thesis using R [of p' 1] R [of p' 3] by (auto simp: r_def inv)
qed

end
