(* ===== verification/Day_Times.thy ===== *)
theory Day_Times
  imports Prelude
begin

text \<open>
  The times of day at which the features of the server refresh (\<open>libs/utils/time_func.go\<close>). Times are Unix
  seconds. The local time zone is an offset \<open>z\<close> from UTC in seconds, without daylight saving; a time of day of
  the configuration is its second of the day, \<open>None\<close> when \<open>time.ParseInLocation\<close> refuses the text. \<open>now\<close> is the clock.
\<close>

abbreviation (input) "day_secs \<equiv> 86400 :: int"

text \<open>Midnight of the local day of a time.\<close>

definition day_start :: "int \<Rightarrow> int \<Rightarrow> int" where
  "day_start z t = (t + z) div day_secs * day_secs - z"

text \<open>The parsed time of day is one of the first of January of the year 0.\<close>

definition parsed_time :: "int \<Rightarrow> int \<Rightarrow> int" where
  "parsed_time z d = d - 62167219200 - z"

definition today_config_time :: "int \<Rightarrow> int option \<Rightarrow> int \<Rightarrow> int option" where
  "today_config_time z tod t =
     (case tod of
        None \<Rightarrow> None
      | Some d \<Rightarrow> (let c = day_start z t + d in if c \<le> parsed_time z d then None else Some c))"

definition CheckDayTimeArrival :: "int \<Rightarrow> int \<Rightarrow> int \<Rightarrow> int option \<Rightarrow> bool" where
  "CheckDayTimeArrival z now prev tod =
     (if now \<le> prev then False
      else case today_config_time z tod now of
          None \<Rightarrow> False
        | Some c \<Rightarrow> c \<le> now \<and> prev < c)"

definition GetRemainSeconds2NextDayTime :: "int \<Rightarrow> int \<Rightarrow> int \<Rightarrow> int option \<Rightarrow> int" where
  "GetRemainSeconds2NextDayTime z now prev tod =
     (if now < prev then - 1
      else case today_config_time z tod now of
          None \<Rightarrow> - 1
        | Some c \<Rightarrow>
            if prev < c then (if now < c then i32 (c - now) else 0)
            else i32 (c + day_secs - now))"

definition GetDaysNumToLastSaveTime :: "int \<Rightarrow> int \<Rightarrow> int \<Rightarrow> int option \<Rightarrow> int" where
  "GetDaysNumToLastSaveTime z now last_save tod =
     (if last_save < 0 then - 1
      else
        let num = (if last_save = 0 then 1 else 0);
            prev = (if last_save = 0 then i32 now else last_save) in
        if now < prev then - 1
        else case today_config_time z tod prev of
            None \<Rightarrow> - 1
          | Some c \<Rightarrow>
              if prev < i32 c
              then (if now < c then num else i32 (num + i32 (go_div (i32 (now - c)) day_secs + 1)))
              else i32 (num + go_div (i32 (now - c)) day_secs))"

section \<open>Every so many days\<close>

record DaysTimeChecker =
  time_tm :: int
  interval_days :: int
  next_time :: int

text \<open>\<open>24*3600*interval_days\<close> is an \<open>int32\<close>.\<close>

definition interval_secs :: "int \<Rightarrow> int" where
  "interval_secs days = i32 (day_secs * days)"

partial_function (option) skip_past :: "int \<Rightarrow> int \<Rightarrow> int \<Rightarrow> int option" where
  "skip_past now step t = (if now < t then Some t else skip_past now step (i64 (t + step)))"

definition init_next_time :: "int \<Rightarrow> int \<Rightarrow> int \<Rightarrow> DaysTimeChecker \<Rightarrow> DaysTimeChecker option" where
  "init_next_time z now last_save c =
     (if next_time c \<noteq> 0 then Some c
      else
        let prev = (if last_save = 0 then i32 now else last_save);
            last_date = day_start z prev + time_tm c;
            n = (if last_date < now then last_date + interval_secs (interval_days c)
                 else last_date + interval_secs (i32 (interval_days c - 1))) in
        do {
          t \<leftarrow> skip_past now (interval_secs (interval_days c)) n;
          Some (c\<lparr>next_time := t\<rparr>)
        })"

definition Checker_Init ::
    "int \<Rightarrow> int \<Rightarrow> int \<Rightarrow> int option \<Rightarrow> int \<Rightarrow> DaysTimeChecker \<Rightarrow> (bool \<times> DaysTimeChecker) option" where
  "Checker_Init z now last_save tod interval c =
     (case tod of
        None \<Rightarrow> Some (False, c)
      | Some d \<Rightarrow>
          let c = c\<lparr>time_tm := d\<rparr> in
          if now \<le> parsed_time z d then Some (False, c)
          else if interval \<le> 0 then Some (False, c)
          else map_option (\<lambda>c. (True, c)) (init_next_time z now last_save (c\<lparr>interval_days := interval\<rparr>)))"

definition ToNextTimePoint :: "DaysTimeChecker \<Rightarrow> DaysTimeChecker" where
  "ToNextTimePoint c =
     (if next_time c = 0 then c
      else c\<lparr>next_time := i64 (next_time c + interval_secs (interval_days c))\<rparr>)"

definition IsArrival :: "int \<Rightarrow> DaysTimeChecker \<Rightarrow> bool" where
  "IsArrival now c = (\<not> now < next_time c)"

definition RemainSecondsToNextRefresh :: "int \<Rightarrow> DaysTimeChecker \<Rightarrow> int" where
  "RemainSecondsToNextRefresh now c = (let r = i32 (next_time c - now) in if r < 0 then 0 else r)"

section \<open>Refresh times given in hours, minutes and seconds\<close>

text \<open>\<open>time.Date\<close> carries hours and minutes outside their range over to the next day.\<close>

definition refresh_time :: "int \<Rightarrow> int \<Rightarrow> int \<Rightarrow> int \<Rightarrow> int \<Rightarrow> int" where
  "refresh_time z now h m s = day_start z now + 3600 * h + 60 * m + s"

definition GetRemainSeconds4NextRefresh :: "int \<Rightarrow> int \<Rightarrow> int \<Rightarrow> int \<Rightarrow> int \<Rightarrow> int \<Rightarrow> int" where
  "GetRemainSeconds4NextRefresh z now h m s prev =
     (if i32 now < prev then 0
      else let c = refresh_time z now h m s in
        if now < c
        then (if prev < i32 (i32 c - day_secs) then 0 else i32 (c - now))
        else (if prev < i32 c then 0 else i32 (day_secs - i32 (now - c))))"

definition IsDayTimeRefresh :: "int \<Rightarrow> int \<Rightarrow> int \<Rightarrow> int \<Rightarrow> int \<Rightarrow> int \<Rightarrow> bool" where
  "IsDayTimeRefresh z now h m s prev =
     (if i32 now < prev then False
      else \<not> i32 (refresh_time z now h m s) < prev)"

section \<open>The day of a time\<close>

lemma day_start_bounds: "day_start z t \<le> t" "t < day_start z t + day_secs"
proof -
  have "(t + z) div day_secs * day_secs + (t + z) mod day_secs = t + z" by simp
  moreover have "0 \<le> (t + z) mod day_secs" "(t + z) mod day_secs < day_secs" by simp_all
  ultimately show "day_start z t \<le> t" "t < day_start z t + day_secs" by (simp_all add: day_start_def)
qed

lemma day_start_mono: "s \<le> t \<Longrightarrow> day_start z s \<le> day_start z t"
  by (simp add: day_start_def zdiv_mono1)

lemma day_start_next:
  assumes "day_start z s < day_start z t"
  shows "day_start z s + day_secs \<le> day_start z t"
proof -
  have "(s + z) div day_secs < (t + z) div day_secs" using assms by (simp add: day_start_def)
  then have "((s + z) div day_secs + 1) * day_secs \<le> (t + z) div day_secs * day_secs"
    by (intro mult_right_mono) auto
  then show ?thesis by (simp add: day_start_def algebra_simps)
qed

lemma is_i32_id: "is_i32 x \<Longrightarrow> i32 x = x"
  by (simp add: is_i32_def)

text \<open>Times of day of a clock that shows a time of this era.\<close>

definition era :: "int \<Rightarrow> bool" where
  "era now \<longleftrightarrow> 86400 < now \<and> now \<le> max_int32 - 86400"

lemma today_config:
  assumes "era now" "\<bar>z\<bar> \<le> day_secs" "0 \<le> d" "d < day_secs"
  shows "today_config_time z (Some d) now = Some (day_start z now + d)"
  using assms day_start_bounds [where z = z and t = now]
  by (auto simp: today_config_time_def parsed_time_def era_def Let_def)

text \<open>C31: The daily refresh comes once for every day: it is due exactly when the refresh time of the present day lies
  after the last refresh and not after now; done at a time, it is not due again before the next day; and at every
  day one is due from the refresh time on until it is done. Before the refresh time nothing is due, however long
  ago the last refresh was, although \<open>GetRemainSeconds4NextRefresh\<close> then answers that no second remains.\<close>

theorem daily_refresh:
  assumes "era now" "\<bar>z\<bar> \<le> day_secs" "0 \<le> h" "h < 24" "0 \<le> m" "m < 60" "0 \<le> s" "s < 60" "is_i32 prev"
  defines "d \<equiv> 3600 * h + 60 * m + s"
  shows "(CheckDayTimeArrival z now prev (Some d) \<longleftrightarrow> prev < day_start z now + d \<and> day_start z now + d \<le> now)
    \<and> (\<forall>t. now \<le> t \<and> era t \<and> CheckDayTimeArrival z now prev (Some d) \<and> CheckDayTimeArrival z t now (Some d) \<longrightarrow>
         day_start z now < day_start z t)
    \<and> (now < day_start z now + d \<and> prev < day_start z now + d - day_secs \<longrightarrow>
         \<not> CheckDayTimeArrival z now prev (Some d) \<and> GetRemainSeconds4NextRefresh z now h m s prev = 0)"
proof -
  have d: "0 \<le> d" "d < day_secs" using assms by simp_all
  have c: "today_config_time z (Some d) t = Some (day_start z t + d)" if "era t" for t
    using that assms(2) d by (rule today_config)
  have one: "CheckDayTimeArrival z t l (Some d) \<longleftrightarrow> l < day_start z t + d \<and> day_start z t + d \<le> t" if "era t" for t l
    using c [OF that] by (auto simp: CheckDayTimeArrival_def)
  have b: "day_start z now \<le> now" "now < day_start z now + day_secs" by (rule day_start_bounds)+
  have r: "refresh_time z now h m s = day_start z now + d" by (simp add: refresh_time_def d_def)
  have "is_i32 now" "is_i32 (day_start z now + d)" "is_i32 (day_start z now + d - day_secs)"
    using assms(1,2) b d by (auto simp: era_def is_i32_def)
  then have "now < day_start z now + d \<and> prev < day_start z now + d - day_secs \<longrightarrow>
      GetRemainSeconds4NextRefresh z now h m s prev = 0"
    using b d by (auto simp: GetRemainSeconds4NextRefresh_def Let_def r is_i32_id)
  moreover have "day_start z now < day_start z t"
    if "now \<le> t" "era t" "CheckDayTimeArrival z t now (Some d)" "CheckDayTimeArrival z now prev (Some d)" for t
    using that one [OF \<open>era t\<close>] one [OF assms(1)] day_start_mono [OF \<open>now \<le> t\<close>, of z] by auto
  ultimately show ?thesis using one [OF assms(1)] by auto
qed

text \<open>The refresh at five in the morning in China: done on a Monday at six, due again on Tuesday from five on, and
  not due at four on Wednesday, when the one of Tuesday was missed.\<close>

theorem daily_refresh_witness:
  "CheckDayTimeArrival 28800 1577916000 1577829600 (Some 18000)
    \<and> \<not> CheckDayTimeArrival 28800 1577908800 1577742000 (Some 18000)
    \<and> GetRemainSeconds4NextRefresh 28800 1577908800 5 0 0 1577742000 = 0"
proof -
  have e: "era 1577916000" "era 1577908800" by (simp_all add: era_def)
  have d: "day_start 28800 1577916000 = 1577894400" "day_start 28800 1577908800 = 1577894400" by (simp_all add: day_start_def)
  have i: "is_i32 1577829600" "is_i32 1577742000" by (simp_all add: is_i32_def)
  show ?thesis
    using daily_refresh [OF e(1), of 28800 5 0 0 1577829600] daily_refresh [OF e(2), of 28800 5 0 0 1577742000] i
    by (simp add: d)
qed

text \<open>The refresh times after one time and up to another: days counted from that of the first.\<close>

definition refreshes :: "int \<Rightarrow> int \<Rightarrow> int \<Rightarrow> int \<Rightarrow> int set" where
  "refreshes z d s t = {j. s < day_start z s + d + j * day_secs \<and> day_start z s + d + j * day_secs \<le> t}"

lemma refreshes_interval:
  assumes "0 \<le> d" "d < day_secs"
  shows "refreshes z d s t = {(if s < day_start z s + d then 0 else 1) .. (t - (day_start z s + d)) div day_secs}"
proof (rule set_eqI)
  fix j
  define c where "c = day_start z s + d"
  have b: "c - day_secs \<le> s" "s < c + day_secs"
    using day_start_bounds [where z = z and t = s] assms by (simp_all add: c_def)
  define q where "q = (t - c) div day_secs"
  have "q * day_secs + (t - c) mod day_secs = t - c" by (simp add: q_def)
  moreover have "0 \<le> (t - c) mod day_secs" "(t - c) mod day_secs < day_secs" by simp_all
  ultimately have "q * day_secs \<le> t - c" "t - c < q * day_secs + day_secs" by linarith+
  then have up: "c + j * day_secs \<le> t \<longleftrightarrow> j \<le> (t - c) div day_secs"
    unfolding q_def [symmetric] by linarith
  have low: "s < c + j * day_secs \<longleftrightarrow> (if s < c then 0 else 1) \<le> j"
    using b by (cases "s < c"; simp; linarith)
  show "j \<in> refreshes z d s t \<longleftrightarrow> j \<in> {(if s < day_start z s + d then 0 else 1) .. (t - (day_start z s + d)) div day_secs}"
    using up low by (simp add: refreshes_def c_def)
qed

text \<open>C32: The number of days since the last save is the number of refresh times after it, up to now; a player never
  saved has one day, and a last save that is negative or in the future is answered by -1.\<close>

theorem days_counted:
  assumes "era now" "\<bar>z\<bar> \<le> day_secs" "0 \<le> d" "d < day_secs" "last_save \<le> 0 \<or> era last_save"
  shows "GetDaysNumToLastSaveTime z now last_save (Some d) =
    (if last_save < 0 \<or> now < last_save then - 1
     else if last_save = 0 then 1
     else int (card (refreshes z d last_save now)))"
proof -
  have c: "today_config_time z (Some d) t = Some (day_start z t + d)" if "era t" for t
    using that assms(2-4) by (rule today_config)
  have n: "is_i32 now" "0 < now" using assms(1) by (auto simp: era_def is_i32_def)
  have b: "day_start z t \<le> t" "t < day_start z t + day_secs" for t by (rule day_start_bounds)+
  have i: "is_i32 (day_start z t + d)" if "era t" for t
    using that b [of t] assms(3,4) by (auto simp: era_def is_i32_def)
  have zero: "GetDaysNumToLastSaveTime z now 0 (Some d) = 1"
    using n b [of now] i [OF assms(1)] assms(3,4)
    by (auto simp: GetDaysNumToLastSaveTime_def c [OF assms(1)] is_i32_id Let_def go_div_def sgn_if is_i32_def)
  have pos: "GetDaysNumToLastSaveTime z now l (Some d) = int (card (refreshes z d l now))"
    if "era l" "l \<le> now" for l
  proof -
    define k where "k = day_start z l + d"
    have k: "k - day_secs \<le> l" "l < k + day_secs" using b [of l] assms(3,4) by (auto simp: k_def)
    have l: "0 < l" using that(1) by (simp add: era_def)
    have r: "refreshes z d l now = {(if l < k then 0 else 1) .. (now - k) div day_secs}"
      using refreshes_interval [OF assms(3,4), of z l now] by (simp add: k_def)
    define q where "q = (now - k) div day_secs"
    have m: "is_i32 (now - k)" using k that n by (auto simp: is_i32_def era_def)
    have "q * day_secs \<le> now - k" "now - k < q * day_secs + day_secs" unfolding q_def by linarith+
    then have q: "is_i32 q" "is_i32 (q + 1)" "now < k \<Longrightarrow> q = - 1" "k \<le> now \<Longrightarrow> 0 \<le> q"
      using k m that by (auto simp: is_i32_def)
    have g: "go_div (now - k) day_secs = q" if "k \<le> now"
      using that by (simp add: q_def go_div_nonneg)
    show ?thesis
      using l that k i [OF that(1)] m q g
      by (auto simp: GetDaysNumToLastSaveTime_def c [OF that(1)] r is_i32_id k_def [symmetric] q_def [symmetric])
  qed
  show ?thesis
  proof (cases "last_save = 0")
    case True
    then show ?thesis using zero n by simp
  next
    case False
    moreover have "GetDaysNumToLastSaveTime z now last_save (Some d) = - 1" if "last_save < 0 \<or> now < last_save"
      using that False by (auto simp: GetDaysNumToLastSaveTime_def)
    ultimately show ?thesis using pos [of last_save] assms(5) by (auto simp: era_def)
  qed
qed

text \<open>Saved on Wednesday at six, asked on Friday at six: the refreshes at five of Thursday and Friday.\<close>

theorem days_counted_witness:
  "GetDaysNumToLastSaveTime 28800 1578088800 1577916000 (Some 18000) = 2"
proof -
  have e: "era 1578088800" "era 1577916000" by (simp_all add: era_def)
  have "day_start 28800 1577916000 = 1577894400" by (simp add: day_start_def)
  then have "card (refreshes 28800 18000 1577916000 1578088800) = 2" by (simp add: refreshes_interval)
  then show ?thesis using days_counted [OF e(1), of 28800 18000 1577916000] e(2) by simp
qed

section \<open>Intervals of days\<close>

lemma skip_past:
  assumes "0 < step" "is_i32 step" "\<bar>now\<bar> \<le> 2 ^ 40" "\<bar>t\<bar> \<le> 2 ^ 41"
  shows "\<exists>k. skip_past now step t = Some (t + int k * step) \<and> now < t + int k * step
    \<and> (k = 0 \<or> t + int k * step \<le> now + step)"
  using assms(4)
proof (induction "nat (now - t + 1)" arbitrary: t rule: less_induct)
  case less
  show ?case
  proof (cases "now < t")
    case True
    then show ?thesis by (intro exI [of _ 0]) (simp add: skip_past.simps)
  next
    case False
    have "i64 (t + step) = t + step"
      using less.prems assms(2) by (intro i64_id) (auto simp: is_i32_def)
    then have eq: "skip_past now step t = skip_past now step (t + step)"
      using False by (simp add: skip_past.simps [of now step t])
    have m: "nat (now - (t + step) + 1) < nat (now - t + 1)" using False assms(1) by simp
    have "\<bar>t + step\<bar> \<le> 2 ^ 41" using less.prems assms(1-3) False by (auto simp: is_i32_def)
    from less.hyps [OF m this] obtain k where k: "skip_past now step (t + step) = Some (t + step + int k * step)"
      "now < t + step + int k * step" "k = 0 \<or> t + step + int k * step \<le> now + step" by blast
    have r: "t + int (Suc k) * step = t + step + int k * step" by (simp add: algebra_simps)
    have "t + step + int k * step \<le> now + step" using k(3) False by auto
    then show ?thesis using eq k(1,2) r by (intro exI [of _ "Suc k"]) simp
  qed
qed

lemma skip_past_stuck_aux:
  "skip_past now s u = Some r \<Longrightarrow> s = 0 \<Longrightarrow> i64 u = u \<Longrightarrow> now < u"
  by (erule skip_past.raw_induct [of "\<lambda>now s u r. s = 0 \<longrightarrow> i64 u = u \<longrightarrow> now < u", rule_format, rotated])
     (auto split: if_splits)

lemma skip_past_stuck:
  assumes "t \<le> now" "\<bar>t\<bar> \<le> 2 ^ 41"
  shows "skip_past now 0 t = None"
proof -
  have "i64 t = t" using assms(2) by (intro i64_id) auto
  then show ?thesis using skip_past_stuck_aux [of now 0 t] assms(1) by (cases "skip_past now 0 t") auto
qed

lemma day_start_shift:
  assumes "0 \<le> d" "d < day_secs"
  shows "day_start z (day_start z t + d + j * day_secs) = day_start z t + j * day_secs"
proof -
  have "((t + z) div day_secs * day_secs + d + j * day_secs) div day_secs = (t + z) div day_secs + j"
    using assms by (simp add: div_add1_eq [of _ "j * day_secs"] flip: distrib_right)
  then show ?thesis by (simp add: day_start_def algebra_simps)
qed

lemma interval_secs: "0 \<le> n \<Longrightarrow> n \<le> 24855 \<Longrightarrow> interval_secs n = day_secs * n"
  by (simp add: interval_secs_def is_i32_id is_i32_def)

abbreviation (input) "fresh_checker \<equiv> \<lparr>time_tm = 0, interval_days = 0, next_time = 0\<rparr>"

text \<open>Starting a checker comes down to the loop of \<open>_init_next_time\<close>.\<close>

definition first_candidate :: "int \<Rightarrow> int \<Rightarrow> int \<Rightarrow> int \<Rightarrow> int \<Rightarrow> int" where
  "first_candidate z now l d n =
     (let last_date = day_start z l + d in
      if last_date < now then last_date + interval_secs n else last_date + interval_secs (i32 (n - 1)))"

lemma Checker_Init_fresh:
  assumes "era now" "\<bar>z\<bar> \<le> day_secs" "0 \<le> d" "d < day_secs" "1 \<le> n"
  shows "Checker_Init z now prev (Some d) n fresh_checker =
    map_option (\<lambda>t. (True, \<lparr>time_tm = d, interval_days = n, next_time = t\<rparr>))
      (skip_past now (interval_secs n) (first_candidate z now (if prev = 0 then i32 now else prev) d n))"
  using assms by (auto simp: Checker_Init_def init_next_time_def first_candidate_def parsed_time_def era_def Let_def
      split: option.splits Option.bind_splits)

lemma first_candidate:
  assumes "era now" "0 \<le> d" "d < day_secs" "1 \<le> n" "n \<le> 24855" "l \<le> now"
  shows "\<exists>j. first_candidate z now l d n = day_start z l + d + j * day_secs"
    "first_candidate z now l d n \<le> now + day_secs * n"
    "l - day_secs \<le> first_candidate z now l d n"
proof -
  have s: "interval_secs n = day_secs * n" "interval_secs (n - 1) = day_secs * (n - 1)" "i32 (n - 1) = n - 1"
    using assms by (simp_all add: interval_secs is_i32_id is_i32_def)
  show "\<exists>j. first_candidate z now l d n = day_start z l + d + j * day_secs"
    by (cases "day_start z l + d < now")
       (auto simp: first_candidate_def s intro: exI [of _ n] exI [of _ "n - 1"])
  show "first_candidate z now l d n \<le> now + day_secs * n"
    using day_start_bounds(1) [of z l] assms by (auto simp: first_candidate_def s Let_def)
  show "l - day_secs \<le> first_candidate z now l d n"
    using day_start_bounds(2) [of l z] assms by (auto simp: first_candidate_def s Let_def)
qed

text \<open>C33: A checker of a refresh every \<open>n\<close> days starts with a time after now, at most \<open>n\<close> days away and at the configured
  time of a day; at that time it is due, and the next time is \<open>n\<close> days later. From 24856 days on the interval in
  seconds leaves the range of \<open>int32\<close>; for 33554432 days it is 0, and starting the checker never returns.\<close>

theorem days_checker:
  assumes "era now" "\<bar>z\<bar> \<le> day_secs" "0 \<le> d" "d < day_secs" "1 \<le> n" "0 \<le> prev" "prev \<le> now"
  shows "(n \<le> 24855 \<longrightarrow> (\<exists>c. Checker_Init z now prev (Some d) n fresh_checker = Some (True, c)
      \<and> now < next_time c \<and> next_time c \<le> now + day_secs * n \<and> next_time c = day_start z (next_time c) + d
      \<and> (\<forall>t. IsArrival t c \<longleftrightarrow> next_time c \<le> t)
      \<and> next_time (ToNextTimePoint c) = next_time c + day_secs * n))
    \<and> (n = 33554432 \<and> day_start z prev + d < now \<and> 0 < prev \<longrightarrow>
      Checker_Init z now prev (Some d) n fresh_checker = None)"
proof (intro conjI impI)
  define l where "l = (if prev = 0 then i32 now else prev)"
  have nw: "0 < now" "now \<le> max_int32" "is_i32 now" using assms(1) by (simp_all add: era_def is_i32_def)
  then have l: "0 < l" "l \<le> now" using assms(6,7) by (auto simp: l_def is_i32_id)
  note start = Checker_Init_fresh [OF assms(1-5), of prev, folded l_def]
  {
    assume n: "n \<le> 24855"
    have s: "interval_secs n = day_secs * n" using n assms(5) by (simp add: interval_secs)
    obtain j where j: "first_candidate z now l d n = day_start z l + d + j * day_secs"
      using first_candidate(1) [OF assms(1,3,4,5) n l(2), of z] by blast
    note le = first_candidate(2) [OF assms(1,3,4,5) n l(2), of z]
    have "\<bar>first_candidate z now l d n\<bar> \<le> 2 ^ 41" "is_i32 (day_secs * n)"
      using le first_candidate(3) [OF assms(1,3,4,5) n l(2), of z] n assms(5) nw l(1) by (auto simp: is_i32_def)
    then obtain k where k: "skip_past now (day_secs * n) (first_candidate z now l d n) =
        Some (first_candidate z now l d n + int k * (day_secs * n))"
      "now < first_candidate z now l d n + int k * (day_secs * n)"
      "k = 0 \<or> first_candidate z now l d n + int k * (day_secs * n) \<le> now + day_secs * n"
      using skip_past [of "day_secs * n" now "first_candidate z now l d n"] nw assms(5) by auto
    define r where "r = first_candidate z now l d n + int k * (day_secs * n)"
    have r: "now < r" "r \<le> now + day_secs * n" using k(2,3) le by (auto simp: r_def)
    have "r = day_start z l + d + (j + int k * n) * day_secs" by (simp add: r_def j algebra_simps)
    then have day: "r = day_start z r + d" using day_start_shift [OF assms(3,4), of z l "j + int k * n"] by simp
    have i: "i64 (r + day_secs * n) = r + day_secs * n" using r n nw assms(5) by (intro i64_id) auto
    show "\<exists>c. Checker_Init z now prev (Some d) n fresh_checker = Some (True, c)
      \<and> now < next_time c \<and> next_time c \<le> now + day_secs * n \<and> next_time c = day_start z (next_time c) + d
      \<and> (\<forall>t. IsArrival t c \<longleftrightarrow> next_time c \<le> t)
      \<and> next_time (ToNextTimePoint c) = next_time c + day_secs * n"
      using r day i nw
      by (intro exI [of _ "\<lparr>time_tm = d, interval_days = n, next_time = r\<rparr>"])
         (auto simp: start s k(1) r_def [symmetric] IsArrival_def ToNextTimePoint_def)
  next
    assume n: "n = 33554432 \<and> day_start z prev + d < now \<and> 0 < prev"
    have z: "interval_secs n = 0" using n by (simp add: interval_secs_def i32_def)
    have c: "first_candidate z now l d n = day_start z prev + d"
      using n z by (simp add: first_candidate_def l_def)
    have "\<bar>day_start z prev + d\<bar> \<le> 2 ^ 41" using day_start_bounds [of prev z] n assms(3,6) nw by auto
    with n show "Checker_Init z now prev (Some d) n fresh_checker = None"
      unfolding start z c by (simp add: skip_past_stuck)
  }
qed

text \<open>A refresh at five every three days: started on the Wednesday before, due on Saturday; and the start that hangs.\<close>

theorem days_checker_witness:
  "(\<exists>c. Checker_Init 28800 1577916000 1577829600 (Some 18000) 3 fresh_checker = Some (True, c)
      \<and> 1577916000 < next_time c \<and> next_time c \<le> 1578175200)
    \<and> Checker_Init 28800 1577916000 1577829600 (Some 18000) 33554432 fresh_checker = None"
proof -
  have e: "era 1577916000" by (simp add: era_def)
  have d: "day_start 28800 1577829600 = 1577808000" by (simp add: day_start_def)
  show ?thesis
    using days_checker [OF e, of 28800 18000 3 1577829600] days_checker [OF e, of 28800 18000 33554432 1577829600]
    by (auto simp: d)
qed

end
