(* ===== verification/Guild.thy ===== *)
theory Guild
  imports Player_Items Hall_Utils Day_Times
begin

text \<open>
  The guilds (\<open>hall_server/guild.go\<close>): their rows in the data base, the manager with its lists of guilds by id and by
  name, and the handlers of the players. A handler that holds a pointer to a row holds the id of the row here; the
  rows are looked up when they are read. A guild that has been dissolved long enough is deleted when somebody looks at it.
\<close>

section \<open>The state\<close>

record dbPlayerGuildData =
  pg_Id :: int
  pg_JoinTime :: int
  pg_QuitTime :: int
  pg_SignTime :: int
  pg_Position :: int
  pg_DonateNum :: int
  pg_LastAskDonateTime :: int
  pg_LastDonateTime :: int

text \<open>A player on the server: his belongings and his guild column.\<close>

record GuildPlayer =
  gp_player :: Player
  gp_guild :: dbPlayerGuildData

record dbGuildLogData =
  log_LogType :: int
  log_PlayerId :: int
  log_Time :: int

record dbGuildAskDonateData =
  ask_ItemId :: int
  ask_ItemNum :: int
  ask_AskTime :: int

record dbGuildRow =
  gr_Name :: string
  gr_Creater :: int
  gr_CreateTime :: int
  gr_DismissTime :: int
  gr_Logo :: int
  gr_Level :: int
  gr_Exp :: int
  gr_ExistType :: int
  gr_Anouncement :: string
  gr_President :: int
  gr_Members :: "unit column"
  gr_AskLists :: "unit column"
  gr_Logs :: "dbGuildLogData column"
  gr_LogMaxId :: int
  gr_AskDonates :: "dbGuildAskDonateData column"

text \<open>What other players are told.\<close>

datatype guild_event =
    GuildDeleteNotify int int
  | GuildAgreeJoinNotify int int
  | GuildSetOfficerNotify int int int
  | GuildKickMemberNotify int
  | GuildChangePresidentNotify int int
  | GuildDonateItemNotify int int int bool

text \<open>The server: the players, the rows of the guilds and the number of the last guild in the data base, and the
  guild manager. Of the array \<open>guild_ids\<close> with its number \<open>guild_num\<close> it has the part in use; of the extra data of a guild
  the state of the fight against its boss.\<close>

record World =
  w_players :: "int \<Rightarrow> GuildPlayer option"
  w_guilds :: "int \<Rightarrow> dbGuildRow option"
  w_CurrentGuildId :: int
  guild_ids :: "int list"
  guild_id_map :: "int \<Rightarrow> int option"
  guild_name_map :: "string \<Rightarrow> int option"
  guilds_ex_map :: "int \<Rightarrow> int option"
  w_events :: "guild_event list"
  w_draws :: "int list"

record XmlGuildLevelUpItem =
  guild_level_Exp :: int
  guild_level_MemberNum :: int

record XmlGuildDonateItem =
  RequestNum :: int
  DonateRewardItem :: "int list"
  LimitScore :: int

text \<open>The configuration. The times of day are seconds of the day in the zone of the server.\<close>

record guild_config =
  gc_tables :: player_tables
  gc_zone :: int
  gc_ServerId :: int
  GuildEnterLevel :: int
  GuildOpenLevel :: int
  GuildNameLength :: int
  GuildCreateCostGem :: int
  GuildChangeNameCostGem :: int
  GuildSignReward :: "int list"
  GuildSignAddExp :: int
  GuildAskDonateCDSecs :: int
  GuildAskDonateExistSeconds :: int
  GuildQuitAskJoinCDSecs :: int
  GuildDonateLimitDay :: int
  GuildDismissWaitingSeconds :: int
  GuildSignRefreshTime :: "int option"
  GuildDonateRefreshTime :: "int option"
  guild_levelup_table :: "int \<Rightarrow> XmlGuildLevelUpItem option"
  guild_donate_table :: "int \<Rightarrow> XmlGuildDonateItem option"

abbreviation (input) "GUILD_MAX_NUM \<equiv> 10000 :: nat"
abbreviation (input) "GUILD_RECOMMEND_NUM \<equiv> 5 :: nat"
abbreviation (input) "GUILD_LOG_MAX_NUM \<equiv> 10 :: nat"
abbreviation (input) "GUILD_EXIST_TYPE_NONE \<equiv> 0 :: int"
abbreviation (input) "GUILD_EXIST_TYPE_WILL_DELETE \<equiv> 1 :: int"
abbreviation (input) "GUILD_EXIST_TYPE_DELETED \<equiv> 2 :: int"
abbreviation (input) "GUILD_POSITION_MEMBER \<equiv> 0 :: int"
abbreviation (input) "GUILD_POSITION_PRESIDENT \<equiv> 1 :: int"
abbreviation (input) "GUILD_POSITION_OFFICER \<equiv> 2 :: int"
abbreviation (input) "GUILD_LOG_TYPE_CREATE \<equiv> 1 :: int"
abbreviation (input) "GUILD_LOG_TYPE_MEMBER_JOIN \<equiv> 2 :: int"
abbreviation (input) "GUILD_LOG_TYPE_MEMBER_QUIT \<equiv> 3 :: int"
abbreviation (input) "GUILD_LOG_TYPE_MEMBER_KICK \<equiv> 4 :: int"
abbreviation (input) "GUILD_LOG_TYPE_MEMBER_APPOINT \<equiv> 5 :: int"
abbreviation (input) "GUILD_LOG_TYPE_OFFICER_DISMISS \<equiv> 6 :: int"
abbreviation (input) "GUILD_LOG_TYPE_PRESIDENT_CHANGE \<equiv> 7 :: int"

datatype guild_error =
    G_FAILED | G_PLAYER_NOT_EXIST | G_NAME_TOO_LONG | G_NAME_IS_USED | G_ALREADY_CREATED_OR_JOINED | G_CREATED_DB_ERROR
  | G_NO_GUILDS_TO_RECOMMEND | G_NOT_ENOUGH_LEVEL_TO_OPEN | G_NOT_JOINED | G_DATA_NOT_FOUND | G_DIAMOND_NOT_ENOUGH
  | G_CANT_GET_WITH_AUTHORITY | G_STATE_IS_DELETED_OR_DELETING | G_STATE_IS_NOT_DELETING | G_CHANGE_NAME_FAILED
  | G_JOIN_NEED_COOLDOWN | G_IS_ALREADY_MEMBER | G_LEVELUP_TABLE_DATA_NOT_FOUND | G_MEMBER_NUM_LIMITED | G_NOT_ASK_JOIN
  | G_PRESIDENT_CANT_QUIT | G_SIGN_IN_IS_COOLDOWN | G_SET_OFFICER_ONLY_PRESIDENT | G_CANT_DISMISS_OFFICER
  | G_CANT_CHANGE_PRESIDENT_SELF | G_DONATE_TABLE_DATA_NOT_FOUND | G_ALREADY_ASKED_DONATE | G_CANT_ASK_DONATE_TO_SELF
  | G_NOT_ASK_DONATE | G_NOT_ENOUGH_DONATE_SCORE | G_ITEM_NUM_NOT_ENOUGH

type_synonym guild_answer = "(guild_error + int) \<times> World"

section \<open>Reading and writing\<close>

text \<open>A column of a player, with the values of a new row when there is no such player.\<close>

definition no_guild :: dbPlayerGuildData where
  "no_guild = \<lparr>pg_Id = 0, pg_JoinTime = 0, pg_QuitTime = 0, pg_SignTime = 0, pg_Position = 0, pg_DonateNum = 0,
     pg_LastAskDonateTime = 0, pg_LastDonateTime = 0\<rparr>"

definition pguild :: "World \<Rightarrow> int \<Rightarrow> dbPlayerGuildData" where
  "pguild w k = (case w_players w k of None \<Rightarrow> no_guild | Some p \<Rightarrow> gp_guild p)"

definition has_player :: "World \<Rightarrow> int \<Rightarrow> bool" where
  "has_player w k = (w_players w k \<noteq> None)"

definition p_Lvl_of :: "World \<Rightarrow> int \<Rightarrow> int" where
  "p_Lvl_of w k = (case w_players w k of None \<Rightarrow> 0 | Some p \<Rightarrow> p_Lvl (gp_player p))"

definition p_Diamond_of :: "World \<Rightarrow> int \<Rightarrow> int" where
  "p_Diamond_of w k = (case w_players w k of None \<Rightarrow> 0 | Some p \<Rightarrow> p_Diamond (gp_player p))"

definition set_pguild :: "int \<Rightarrow> (dbPlayerGuildData \<Rightarrow> dbPlayerGuildData) \<Rightarrow> World \<Rightarrow> World" where
  "set_pguild k f w = (case w_players w k of
      None \<Rightarrow> w
    | Some p \<Rightarrow> w\<lparr>w_players := (w_players w)(k \<mapsto> p\<lparr>gp_guild := f (gp_guild p)\<rparr>)\<rparr>)"

definition set_player :: "int \<Rightarrow> (Player \<Rightarrow> Player) \<Rightarrow> World \<Rightarrow> World" where
  "set_player k f w = (case w_players w k of
      None \<Rightarrow> w
    | Some p \<Rightarrow> w\<lparr>w_players := (w_players w)(k \<mapsto> p\<lparr>gp_player := f (gp_player p)\<rparr>)\<rparr>)"

definition set_row :: "int \<Rightarrow> (dbGuildRow \<Rightarrow> dbGuildRow) \<Rightarrow> World \<Rightarrow> World" where
  "set_row g f w = w\<lparr>w_guilds := (w_guilds w)(g := map_option f (w_guilds w g))\<rparr>"

definition new_row :: dbGuildRow where
  "new_row = \<lparr>gr_Name = [], gr_Creater = 0, gr_CreateTime = 0, gr_DismissTime = 0, gr_Logo = 0, gr_Level = 0, gr_Exp = 0,
     gr_ExistType = 0, gr_Anouncement = [], gr_President = 0, gr_Members = [], gr_AskLists = [], gr_Logs = [],
     gr_LogMaxId = 0, gr_AskDonates = []\<rparr>"

definition row :: "World \<Rightarrow> int \<Rightarrow> dbGuildRow" where
  "row w g = (case w_guilds w g of None \<Rightarrow> new_row | Some r \<Rightarrow> r)"

definition tell :: "guild_event \<Rightarrow> World \<Rightarrow> World" where
  "tell e w = w\<lparr>w_events := w_events w @ [e]\<rparr>"

text \<open>The serial number is put below the number of the server.\<close>

definition GenerateGuildId :: "int \<Rightarrow> int \<Rightarrow> int" where
  "GenerateGuildId server serial = or (and (i32 (push_bit 20 server)) 2146435072) serial"

definition GetNextGuildId :: "guild_config \<Rightarrow> World \<Rightarrow> int \<times> World" where
  "GetNextGuildId C w =
     (let curr = i32 (w_CurrentGuildId w + 1) in (GenerateGuildId (gc_ServerId C) curr, w\<lparr>w_CurrentGuildId := curr\<rparr>))"

section \<open>The manager\<close>

text \<open>A new guild takes the next place of the array of 10000; without one, the program panics.\<close>

definition add_guild :: "int \<Rightarrow> string \<Rightarrow> World \<Rightarrow> (World \<times> bool) option" where
  "add_guild g name w =
     (if guild_id_map w g \<noteq> None then Some (w, False)
      else if guild_name_map w name \<noteq> None then Some (w, False)
      else if GUILD_MAX_NUM \<le> length (guild_ids w) then None
      else Some (w\<lparr>guild_ids := guild_ids w @ [g],
          guild_id_map := (guild_id_map w)(g \<mapsto> g),
          guild_name_map := (guild_name_map w)(name \<mapsto> g),
          guilds_ex_map := (guilds_ex_map w)(g \<mapsto> 0)\<rparr>, True))"

text \<open>The last guild takes the place of the first one with the id.\<close>

fun take_out :: "int \<Rightarrow> int list \<Rightarrow> int \<Rightarrow> int list" where
  "take_out g [] z = []"
| "take_out g (x # xs) z = (if x = g then (if xs = [] then [] else z # butlast xs) else x # take_out g xs z)"

definition remove_guild :: "int \<Rightarrow> string \<Rightarrow> World \<Rightarrow> World \<times> bool" where
  "remove_guild g name w =
     (if guild_id_map w g = None then (w, False)
      else if guild_name_map w name = None then (w, False)
      else (w\<lparr>guild_ids := take_out g (guild_ids w) (last (guild_ids w)),
          guild_id_map := (guild_id_map w)(g := None),
          guild_name_map := (guild_name_map w)(name := None),
          guilds_ex_map := (guilds_ex_map w)(g := None)\<rparr>, True))"

definition has_guild_by_name :: "World \<Rightarrow> string \<Rightarrow> bool" where
  "has_guild_by_name w name = (guild_name_map w name \<noteq> None)"

definition change_name :: "int \<Rightarrow> string \<Rightarrow> World \<Rightarrow> World \<times> bool" where
  "change_name g new_name w =
     (case w_guilds w g of
        None \<Rightarrow> (w, False)
      | Some r \<Rightarrow>
          (case guild_name_map w (gr_Name r) of
             None \<Rightarrow> (w, False)
           | Some k \<Rightarrow>
               let m = (if k = g then (guild_name_map w)(gr_Name r := None) else guild_name_map w) in
               (set_row g (\<lambda>r. r\<lparr>gr_Name := new_name\<rparr>) (w\<lparr>guild_name_map := m(new_name \<mapsto> g)\<rparr>), True)))"

definition remove_guild_row :: "int \<Rightarrow> World \<Rightarrow> World" where
  "remove_guild_row g w =
     fst (remove_guild g (gr_Name (row w g))
       (set_row g (\<lambda>r. r\<lparr>gr_ExistType := GUILD_EXIST_TYPE_DELETED, gr_Members := [], gr_AskLists := []\<rparr>) w))"

text \<open>The members of a guild deleted lose it and are told, with a mail.\<close>

definition leave_deleted :: "int \<Rightarrow> int \<Rightarrow> World \<Rightarrow> World" where
  "leave_deleted g k w =
     (if has_player w k
      then tell (GuildDeleteNotify k g)
        (set_pguild k (\<lambda>d. d\<lparr>pg_Id := 0, pg_Position := 0, pg_DonateNum := 0, pg_JoinTime := 0, pg_QuitTime := 0\<rparr>) w)
      else w)"

definition guild_get_dismiss_remain_seconds :: "guild_config \<Rightarrow> int \<Rightarrow> int \<Rightarrow> World \<Rightarrow> World \<times> int" where
  "guild_get_dismiss_remain_seconds C now g w =
     (if gr_ExistType (row w g) \<noteq> GUILD_EXIST_TYPE_WILL_DELETE then (w, 0)
      else let remain = GetRemainSeconds now (gr_DismissTime (row w g)) (GuildDismissWaitingSeconds C) in
        if remain = 0
        then (remove_guild_row g (fold (leave_deleted g) (map fst (gr_Members (row w g))) w), 0)
        else (w, remain))"

definition guild_get_exist_type :: "guild_config \<Rightarrow> int \<Rightarrow> int \<Rightarrow> World \<Rightarrow> World \<times> int" where
  "guild_get_exist_type C now g w =
     (let w = fst (guild_get_dismiss_remain_seconds C now g w) in (w, gr_ExistType (row w g)))"

text \<open>Whether the guild is there.\<close>

definition GetGuild :: "guild_config \<Rightarrow> int \<Rightarrow> int \<Rightarrow> World \<Rightarrow> World \<times> bool" where
  "GetGuild C now g w =
     (case w_guilds w g of
        None \<Rightarrow> (w, False)
      | Some _ \<Rightarrow> (let (w, e) = guild_get_exist_type C now g w in (w, e \<noteq> GUILD_EXIST_TYPE_DELETED)))"

text \<open>The start of the server, with the rows in the order Go runs through them.\<close>

definition Manager_Init_step :: "guild_config \<Rightarrow> int \<Rightarrow> int \<Rightarrow> World \<Rightarrow> World option" where
  "Manager_Init_step C now g w =
     (let (w, e) = guild_get_exist_type C now g w in
      if e = GUILD_EXIST_TYPE_DELETED then Some w else map_option fst (add_guild g (gr_Name (row w g)) w))"

definition Manager_Init :: "guild_config \<Rightarrow> int \<Rightarrow> int list \<Rightarrow> World \<Rightarrow> World option" where
  "Manager_Init C now gids w =
     for_each (\<lambda>g w. Manager_Init_step C now g w) gids
       (w\<lparr>guild_ids := [], guild_id_map := Map.empty, guild_name_map := Map.empty, guilds_ex_map := Map.empty\<rparr>)"

definition CanStageFight :: "int \<Rightarrow> World \<Rightarrow> World \<times> bool" where
  "CanStageFight g w =
     (if guilds_ex_map w g = Some 0 then (w\<lparr>guilds_ex_map := (guilds_ex_map w)(g \<mapsto> 1)\<rparr>, True) else (w, False))"

definition CancelStageFight :: "int \<Rightarrow> World \<Rightarrow> World \<times> bool" where
  "CancelStageFight g w =
     (if guilds_ex_map w g = Some 1 then (w\<lparr>guilds_ex_map := (guilds_ex_map w)(g \<mapsto> 0)\<rparr>, True) else (w, False))"

section \<open>Finding guilds\<close>

text \<open>The result is \<open>None\<close> when the player has a guild, no guild is there, or otherwise the recommended ones and the
  rest of the random numbers. From a random place on the first guild not yet chosen is taken; the loop ends early when
  it comes back to its start.\<close>

fun recommend_scan :: "int list \<Rightarrow> int list \<Rightarrow> nat \<Rightarrow> nat \<Rightarrow> nat \<Rightarrow> nat option" where
  "recommend_scan ids chosen r sr 0 = None"
| "recommend_scan ids chosen r sr (Suc n) =
     (if ids ! sr \<notin> set chosen then Some sr
      else let sr = (sr + 1) mod length ids in
        if sr = r then None else recommend_scan ids chosen r sr n)"

fun recommend_loop :: "nat \<Rightarrow> int list \<Rightarrow> int list \<Rightarrow> int list \<Rightarrow> int list \<times> int list" where
  "recommend_loop 0 ids ds chosen = (chosen, ds)"
| "recommend_loop (Suc i) ids ds chosen =
     (let (r, ds) = Int31n (int (length ids)) ds in
      case recommend_scan ids chosen (nat r) (nat r) (length ids) of
        None \<Rightarrow> (chosen, ds)
      | Some sr \<Rightarrow>
          if ids ! sr \<le> 0 then (chosen, ds) else recommend_loop i ids ds (chosen @ [ids ! sr]))"

definition Recommend :: "guild_config \<Rightarrow> int \<Rightarrow> int \<Rightarrow> World \<Rightarrow> (guild_error + int list) \<times> World" where
  "Recommend C now me w =
     (let g = pg_Id (pguild w me);
          (w, found) = (if has_player w me \<and> 0 < g then GetGuild C now g w else (w, False)) in
      if found then (Inl G_ALREADY_CREATED_OR_JOINED, w)
      else if guild_ids w = [] then (Inl G_NO_GUILDS_TO_RECOMMEND, w)
      else let (chosen, ds) = recommend_loop GUILD_RECOMMEND_NUM (guild_ids w) (w_draws w) [] in
        (Inr chosen, w\<lparr>w_draws := ds\<rparr>))"

text \<open>\<open>strconv.Atoi\<close>: digits after an optional sign, in the range of an \<open>int64\<close>.\<close>

definition digits_value :: "string \<Rightarrow> int option" where
  "digits_value s =
     (if s = [] \<or> \<not> list_all (\<lambda>c. 48 \<le> (of_char c :: int) \<and> (of_char c :: int) \<le> 57) s then None
      else Some (fold (\<lambda>c n. 10 * n + (of_char c - 48)) s 0))"

definition Atoi :: "string \<Rightarrow> int option" where
  "Atoi s =
     (let neg = (s \<noteq> [] \<and> hd s = CHR ''-'');
          t = (if s \<noteq> [] \<and> (hd s = CHR ''-'' \<or> hd s = CHR ''+'') then tl s else s) in
      case digits_value t of
        None \<Rightarrow> None
      | Some n \<Rightarrow> (let n = (if neg then - n else n) in if i64 n = n then Some n else None))"

definition Search :: "string \<Rightarrow> World \<Rightarrow> int list" where
  "Search key w =
     (case Atoi key of
        None \<Rightarrow> []
      | Some n \<Rightarrow> (case guild_id_map w (i32 n) of Some k \<Rightarrow> if 0 < k then [i32 n] else [] | None \<Rightarrow> []))
     @ (case guild_name_map w key of None \<Rightarrow> [] | Some g \<Rightarrow> [g])"

text \<open>The guild of a player, for which he must be the president if asked. A disagreement between the position of the
  player and the president of the guild is repaired, and a president who is not a member becomes one.\<close>

definition repair_position :: "int \<Rightarrow> int \<Rightarrow> World \<Rightarrow> World" where
  "repair_position g k w =
     (let position = pg_Position (pguild w k) in
      if position \<le> GUILD_POSITION_MEMBER \<and> gr_President (row w g) = k
      then set_pguild k (\<lambda>d. d\<lparr>pg_Position := GUILD_POSITION_PRESIDENT\<rparr>) w
      else if position = GUILD_POSITION_PRESIDENT \<and> gr_President (row w g) \<noteq> k
      then set_row g (\<lambda>r. r\<lparr>gr_President := k\<rparr>) w
      else w)"

definition repair_member :: "int \<Rightarrow> int \<Rightarrow> World \<Rightarrow> World" where
  "repair_member g k w =
     (if gr_President (row w g) = k \<and> \<not> col_HasIndex (gr_Members (row w g)) k
      then set_row g (\<lambda>r. r\<lparr>gr_Members := fst (col_Add k () (gr_Members r))\<rparr>) w
      else w)"

definition get_guild :: "guild_config \<Rightarrow> int \<Rightarrow> int \<Rightarrow> bool \<Rightarrow> World \<Rightarrow> World \<times> int option" where
  "get_guild C now k is_president w =
     (if \<not> has_player w k then (w, None)
      else let g = pg_Id (pguild w k) in
        if g \<le> 0 then (w, None)
        else let (w, found) = GetGuild C now g w in
          if \<not> found \<or> (is_president \<and> gr_President (row w g) \<noteq> k) then (w, None)
          else (repair_member g k (repair_position g k w), Some g))"

definition guild_member_num_limit :: "guild_config \<Rightarrow> dbGuildRow \<Rightarrow> int" where
  "guild_member_num_limit C r = (case guild_levelup_table C (gr_Level r) of None \<Rightarrow> 0 | Some d \<Rightarrow> guild_level_MemberNum d)"

text \<open>The log of a guild keeps ten entries; the one with the smallest id goes first.\<close>

definition oldest_log :: "int list \<Rightarrow> int" where
  "oldest_log ids = fold (\<lambda>k m. if m = 0 \<or> k < m then k else m) ids 0"

definition add_log :: "dbGuildLogData \<Rightarrow> dbGuildRow \<Rightarrow> dbGuildRow" where
  "add_log d r =
     (let m = oldest_log (map fst (gr_Logs r));
          logs = (if GUILD_LOG_MAX_NUM \<le> length (gr_Logs r) \<and> 0 < m then col_Remove m (gr_Logs r) else gr_Logs r);
          k = i32 (gr_LogMaxId r + 1)
      in r\<lparr>gr_Logs := AList.update k d logs, gr_LogMaxId := k\<rparr>)"

definition push_new_guild_log :: "int \<Rightarrow> int \<Rightarrow> int \<Rightarrow> int \<Rightarrow> World \<Rightarrow> World" where
  "push_new_guild_log now g log_type k w =
     (if has_player w k
      then set_row g (add_log \<lparr>log_LogType = log_type, log_PlayerId = k, log_Time = i32 now\<rparr>) w
      else w)"

text \<open>The message with the data of a guild; building it repairs the level and may delete the guild.\<close>

definition format_guild_info :: "guild_config \<Rightarrow> int \<Rightarrow> int \<Rightarrow> World \<Rightarrow> World" where
  "format_guild_info C now g w =
     (let w = (if gr_Level (row w g) \<le> 0 then set_row g (\<lambda>r. r\<lparr>gr_Level := 1\<rparr>) w else w) in
      fst (guild_get_dismiss_remain_seconds C now g w))"

definition send_guild_data :: "guild_config \<Rightarrow> int \<Rightarrow> int \<Rightarrow> World \<Rightarrow> guild_answer" where
  "send_guild_data C now me w =
     (if p_Lvl_of w me < GuildEnterLevel C then (Inl G_NOT_ENOUGH_LEVEL_TO_OPEN, w)
      else let g = pg_Id (pguild w me) in
        if g \<le> 0 then (Inl G_NOT_JOINED, w)
        else let (w, found) = GetGuild C now g w in
          if \<not> found then (Inl G_DATA_NOT_FOUND, w)
          else (Inr 1, format_guild_info C now g w))"

definition guild_recommend :: "guild_config \<Rightarrow> int \<Rightarrow> int \<Rightarrow> World \<Rightarrow> guild_answer" where
  "guild_recommend C now me w =
     (if p_Lvl_of w me < GuildOpenLevel C then (Inl G_NOT_ENOUGH_LEVEL_TO_OPEN, w)
      else case Recommend C now me w of
          (Inl e, w) \<Rightarrow> (Inl e, w)
        | (Inr gids, w) \<Rightarrow> (Inr 1, fold (\<lambda>g w. fst (GetGuild C now g w)) gids w))"

definition guild_search :: "guild_config \<Rightarrow> int \<Rightarrow> string \<Rightarrow> int \<Rightarrow> World \<Rightarrow> guild_answer" where
  "guild_search C now key me w =
     (if p_Lvl_of w me < GuildOpenLevel C then (Inl G_NOT_ENOUGH_LEVEL_TO_OPEN, w)
      else if 0 < pg_Id (pguild w me) then (Inl G_FAILED, w)
      else (Inr 1, fold (\<lambda>g w. fst (GetGuild C now g w)) (Search key w) w))"

section \<open>Founding and dissolving\<close>

definition found_row :: "int \<Rightarrow> int \<Rightarrow> string \<Rightarrow> int \<Rightarrow> dbGuildRow" where
  "found_row now k name logo = new_row\<lparr>gr_Name := name, gr_Creater := k, gr_CreateTime := i32 now, gr_Level := 1,
     gr_Logo := logo, gr_President := k, gr_Members := fst (col_Add k () [])\<rparr>"

definition CreateGuild :: "guild_config \<Rightarrow> int \<Rightarrow> int \<Rightarrow> string \<Rightarrow> int \<Rightarrow> World \<Rightarrow> ((guild_error + int) \<times> World) option" where
  "CreateGuild C now k name logo w =
     (if \<not> has_player w k then Some (Inl G_PLAYER_NOT_EXIST, w)
      else if GuildNameLength C < i32 (int (length name)) then Some (Inl G_NAME_TOO_LONG, w)
      else if has_guild_by_name w name then Some (Inl G_NAME_IS_USED, w)
      else let g = pg_Id (pguild w k);
               (w, found) = (if 0 < g then GetGuild C now g w else (w, False)) in
        if found then Some (Inl G_ALREADY_CREATED_OR_JOINED, w)
        else let (g, w) = GetNextGuildId C w in
          if w_guilds w g \<noteq> None then Some (Inl G_CREATED_DB_ERROR, w)
          else let w = w\<lparr>w_guilds := (w_guilds w)(g \<mapsto> found_row now k name logo)\<rparr>;
                   w = set_pguild k (\<lambda>d. d\<lparr>pg_Id := g, pg_Position := GUILD_POSITION_PRESIDENT\<rparr>) w in
            map_option (\<lambda>(w, _). (Inr g, w)) (add_guild g name w))"

definition guild_create :: "guild_config \<Rightarrow> int \<Rightarrow> string \<Rightarrow> string \<Rightarrow> int \<Rightarrow> int \<Rightarrow> World \<Rightarrow> guild_answer option" where
  "guild_create C now name anouncement logo me w =
     (if p_Lvl_of w me < GuildOpenLevel C then Some (Inl G_NOT_ENOUGH_LEVEL_TO_OPEN, w)
      else if p_Diamond_of w me < GuildCreateCostGem C then Some (Inl G_DIAMOND_NOT_ENOUGH, w)
      else case CreateGuild C now me name logo w of
          None \<Rightarrow> None
        | Some (Inl e, w) \<Rightarrow> Some (Inl e, w)
        | Some (Inr g, w) \<Rightarrow>
            if g < 0 then Some (Inr g, w)
            else let w = set_player me (\<lambda>p. fst (add_diamond (i32 (- GuildCreateCostGem C)) p)) w;
                     (w, found) = GetGuild C now g w in
              if \<not> found then Some (Inl G_DATA_NOT_FOUND, w)
              else let w = set_row g (\<lambda>r. r\<lparr>gr_Anouncement := anouncement\<rparr>) w;
                       w = format_guild_info C now g w in
                Some (Inr 1, push_new_guild_log now g GUILD_LOG_TYPE_CREATE me w))"

definition guild_dismiss :: "guild_config \<Rightarrow> int \<Rightarrow> int \<Rightarrow> World \<Rightarrow> guild_answer" where
  "guild_dismiss C now me w =
     (case get_guild C now me True w of
        (w, None) \<Rightarrow> (Inl G_CANT_GET_WITH_AUTHORITY, w)
      | (w, Some g) \<Rightarrow>
          if gr_ExistType (row w g) \<noteq> GUILD_EXIST_TYPE_NONE then (Inl G_STATE_IS_DELETED_OR_DELETING, w)
          else (Inr 1, set_row g (\<lambda>r. r\<lparr>gr_DismissTime := i32 now, gr_ExistType := GUILD_EXIST_TYPE_WILL_DELETE\<rparr>) w))"

definition guild_cancel_dismiss :: "guild_config \<Rightarrow> int \<Rightarrow> int \<Rightarrow> World \<Rightarrow> guild_answer" where
  "guild_cancel_dismiss C now me w =
     (case get_guild C now me True w of
        (w, None) \<Rightarrow> (Inl G_CANT_GET_WITH_AUTHORITY, w)
      | (w, Some g) \<Rightarrow>
          if gr_ExistType (row w g) \<noteq> GUILD_EXIST_TYPE_WILL_DELETE then (Inl G_STATE_IS_NOT_DELETING, w)
          else (Inr 1, set_row g (\<lambda>r. r\<lparr>gr_DismissTime := 0, gr_ExistType := GUILD_EXIST_TYPE_NONE\<rparr>) w))"

definition guild_info_modify :: "guild_config \<Rightarrow> int \<Rightarrow> string \<Rightarrow> int \<Rightarrow> int \<Rightarrow> World \<Rightarrow> guild_answer" where
  "guild_info_modify C now name logo me w =
     (case get_guild C now me True w of
        (w, None) \<Rightarrow> (Inl G_CANT_GET_WITH_AUTHORITY, w)
      | (w, Some g) \<Rightarrow>
          if name \<noteq> [] \<and> p_Diamond_of w me < GuildChangeNameCostGem C then (Inl G_DIAMOND_NOT_ENOUGH, w)
          else let (w, changed) = (if name \<noteq> [] then change_name g name w else (w, True)) in
            if \<not> changed then (Inl G_CHANGE_NAME_FAILED, w)
            else let w = (if name \<noteq> [] then set_player me (\<lambda>p. fst (add_diamond (i32 (- GuildChangeNameCostGem C)) p)) w else w) in
              (Inr 1, if logo \<noteq> 0 then set_row g (\<lambda>r. r\<lparr>gr_Logo := logo\<rparr>) w else w))"

definition guild_anouncement :: "guild_config \<Rightarrow> int \<Rightarrow> string \<Rightarrow> int \<Rightarrow> World \<Rightarrow> guild_answer" where
  "guild_anouncement C now content me w =
     (case get_guild C now me True w of
        (w, None) \<Rightarrow> (Inl G_CANT_GET_WITH_AUTHORITY, w)
      | (w, Some g) \<Rightarrow> (Inr 1, set_row g (\<lambda>r. r\<lparr>gr_Anouncement := content\<rparr>) w))"

section \<open>Members\<close>

text \<open>The list of members drops those that are no players.\<close>

definition guild_members_list :: "guild_config \<Rightarrow> int \<Rightarrow> int \<Rightarrow> World \<Rightarrow> guild_answer" where
  "guild_members_list C now me w =
     (case get_guild C now me False w of
        (w, None) \<Rightarrow> (Inl G_DATA_NOT_FOUND, w)
      | (w, Some g) \<Rightarrow>
          (Inr 1, fold (\<lambda>k w. if has_player w k then w
                             else set_row g (\<lambda>r. r\<lparr>gr_Members := col_Remove k (gr_Members r)\<rparr>) w)
                    (map fst (gr_Members (row w g))) w))"

definition guild_ask_join :: "guild_config \<Rightarrow> int \<Rightarrow> int \<Rightarrow> int \<Rightarrow> World \<Rightarrow> guild_answer" where
  "guild_ask_join C now g me w =
     (let last_quit_time = pg_QuitTime (pguild w me) in
      if 0 < last_quit_time \<and> i32 (i32 now - last_quit_time) < GuildQuitAskJoinCDSecs C then (Inl G_JOIN_NEED_COOLDOWN, w)
      else if has_player w me \<and> 0 < pg_Id (pguild w me) then (Inl G_ALREADY_CREATED_OR_JOINED, w)
      else let (w, found) = GetGuild C now g w in
        if \<not> found then (Inl G_DATA_NOT_FOUND, w)
        else if col_HasIndex (gr_Members (row w g)) me then (Inl G_IS_ALREADY_MEMBER, w)
        else if col_HasIndex (gr_AskLists (row w g)) me then (Inr 1, w)
        else (Inr 1, set_row g (\<lambda>r. r\<lparr>gr_AskLists := fst (col_Add me () (gr_AskLists r))\<rparr>) w))"

text \<open>One round of the loop over the players to be taken in.\<close>

definition unask :: "int \<Rightarrow> int \<Rightarrow> World \<Rightarrow> World" where
  "unask g k w = set_row g (\<lambda>r. r\<lparr>gr_AskLists := col_Remove k (gr_AskLists r)\<rparr>) w"

definition take_in :: "int \<Rightarrow> int \<Rightarrow> int \<Rightarrow> World \<Rightarrow> World" where
  "take_in now g k w =
     push_new_guild_log now g GUILD_LOG_TYPE_MEMBER_JOIN k
       (set_pguild k (\<lambda>d. d\<lparr>pg_Id := g, pg_JoinTime := i32 now\<rparr>)
         (set_row g (\<lambda>r. r\<lparr>gr_Members := fst (col_Add k () (gr_Members r))\<rparr>) w))"

definition agree_one :: "int \<Rightarrow> int \<Rightarrow> bool \<Rightarrow> int \<Rightarrow> World \<Rightarrow> World" where
  "agree_one now g is_refuse k w =
     (if is_refuse then unask g k w
      else if \<not> has_player w k then w
      else if \<not> col_HasIndex (gr_AskLists (row w g)) k then w
      else if col_HasIndex (gr_Members (row w g)) k then w
      else if 0 < pg_Id (pguild w k) then w
      else unask g k (take_in now g k w))"

definition guild_agree_join :: "guild_config \<Rightarrow> int \<Rightarrow> int list \<Rightarrow> bool \<Rightarrow> int \<Rightarrow> World \<Rightarrow> guild_answer" where
  "guild_agree_join C now player_ids is_refuse me w =
     (if player_ids = [] then (Inl G_FAILED, w)
      else case get_guild C now me False w of
          (w, None) \<Rightarrow> (Inl G_DATA_NOT_FOUND, w)
        | (w, Some g) \<Rightarrow>
            if \<not> is_refuse \<and> guild_levelup_table C (gr_Level (row w g)) = None then (Inl G_LEVELUP_TABLE_DATA_NOT_FOUND, w)
            else if \<not> is_refuse \<and> guild_member_num_limit C (row w g) <
                i32 (col_NumAll (gr_Members (row w g)) + i32 (int (length player_ids)))
            then (Inl G_MEMBER_NUM_LIMITED, w)
            else if pg_Position (pguild w me) \<le> GUILD_POSITION_MEMBER then (Inl G_CANT_GET_WITH_AUTHORITY, w)
            else let w = fold (agree_one now g is_refuse) player_ids w in
              (Inr 1, if is_refuse then w
                 else fold (\<lambda>k w. if has_player w k then tell (GuildAgreeJoinNotify k g) w else w) player_ids w))"

definition guild_ask_list :: "guild_config \<Rightarrow> int \<Rightarrow> int \<Rightarrow> World \<Rightarrow> guild_answer" where
  "guild_ask_list C now me w =
     (case get_guild C now me False w of
        (w, None) \<Rightarrow> (Inl G_DATA_NOT_FOUND, w)
      | (w, Some g) \<Rightarrow>
          if pg_Position (pguild w me) \<le> GUILD_POSITION_MEMBER then (Inl G_CANT_GET_WITH_AUTHORITY, w) else (Inr 1, w))"

definition clear_guild_data :: "int \<Rightarrow> int \<Rightarrow> World \<Rightarrow> World" where
  "clear_guild_data now k w =
     set_pguild k (\<lambda>d. d\<lparr>pg_Id := 0, pg_Position := 0, pg_JoinTime := 0, pg_QuitTime := i32 now\<rparr>) w"

definition leave :: "int \<Rightarrow> int \<Rightarrow> int \<Rightarrow> World \<Rightarrow> World" where
  "leave now g k w =
     clear_guild_data now k (set_row g (\<lambda>r. r\<lparr>gr_Members := col_Remove k (gr_Members r)\<rparr>) w)"

definition guild_quit :: "guild_config \<Rightarrow> int \<Rightarrow> int \<Rightarrow> World \<Rightarrow> guild_answer" where
  "guild_quit C now me w =
     (case get_guild C now me False w of
        (w, None) \<Rightarrow> (Inl G_DATA_NOT_FOUND, w)
      | (w, Some g) \<Rightarrow>
          if gr_President (row w g) = me then (Inl G_PRESIDENT_CANT_QUIT, w)
          else (Inr 1, push_new_guild_log now g GUILD_LOG_TYPE_MEMBER_QUIT me (leave now g me w)))"

definition guild_logs :: "guild_config \<Rightarrow> int \<Rightarrow> int \<Rightarrow> World \<Rightarrow> guild_answer" where
  "guild_logs C now me w =
     (case get_guild C now me False w of (w, None) \<Rightarrow> (Inl G_DATA_NOT_FOUND, w) | (w, Some g) \<Rightarrow> (Inr 1, w))"

section \<open>Experience and signing in\<close>

function guild_level_loop :: "guild_config \<Rightarrow> int \<Rightarrow> int \<Rightarrow> int \<times> int" where
  "guild_level_loop C level e =
     (case guild_levelup_table C level of
        None \<Rightarrow> (level, e)
      | Some d \<Rightarrow>
          if guild_level_Exp d \<le> 0 then (level, e)
          else if e < guild_level_Exp d then (level, e)
          else guild_level_loop C (i32 (level + 1)) (i32 (e - guild_level_Exp d)))"
  by pat_completeness auto

termination
proof (relation "measure (\<lambda>(C, level, e). nat (e + 2147483648))", goal_cases)
  case (2 C level e d)
  then show ?case
    using i32_range(2) [of "e - guild_level_Exp d"] by (cases "e \<le> max_int32") auto
qed simp

declare guild_level_loop.simps [simp del]

definition guild_add_exp :: "guild_config \<Rightarrow> int \<Rightarrow> int \<Rightarrow> World \<Rightarrow> World \<times> bool" where
  "guild_add_exp C g n w =
     (let old_level = gr_Level (row w g);
          level = (if old_level \<le> 0 then 1 else old_level);
          (level, e) = guild_level_loop C level (i32 (gr_Exp (row w g) + n))
      in (set_row g (\<lambda>r. r\<lparr>gr_Level := level, gr_Exp := e\<rparr>) w, old_level < level))"

definition guild_can_sign_in :: "guild_config \<Rightarrow> int \<Rightarrow> int \<Rightarrow> World \<Rightarrow> (guild_error + int) \<times> World" where
  "guild_can_sign_in C now me w =
     (case get_guild C now me False w of
        (w, None) \<Rightarrow> (Inl G_DATA_NOT_FOUND, w)
      | (w, Some g) \<Rightarrow>
          if \<not> CheckDayTimeArrival (gc_zone C) now (pg_SignTime (pguild w me)) (GuildSignRefreshTime C)
          then (Inl G_SIGN_IN_IS_COOLDOWN, w) else (Inr g, w))"

definition guild_sign_in :: "guild_config \<Rightarrow> int \<Rightarrow> int \<Rightarrow> World \<Rightarrow> guild_answer" where
  "guild_sign_in C now me w =
     (case guild_can_sign_in C now me w of
        (Inl e, w) \<Rightarrow> (Inl e, w)
      | (Inr g, w) \<Rightarrow>
          let w = set_pguild me (\<lambda>d. d\<lparr>pg_SignTime := i32 now\<rparr>) w;
              w = set_player me (add_resources (gc_tables C) (GuildSignReward C)) w
          in (Inr 1, fst (guild_add_exp C g (GuildSignAddExp C) w)))"

section \<open>Officers, presidents, expulsion\<close>

text \<open>Whom the loop of \<open>guild_set_officer\<close> leaves in the list; the others are replaced by 0.\<close>

definition officer_candidate :: "int \<Rightarrow> int \<Rightarrow> World \<Rightarrow> int \<Rightarrow> int" where
  "officer_candidate g me w k =
     (if k = me \<or> \<not> col_HasIndex (gr_Members (row w g)) k \<or> \<not> has_player w k then 0 else k)"

definition set_position :: "int \<Rightarrow> int \<Rightarrow> int \<Rightarrow> int \<Rightarrow> World \<Rightarrow> World" where
  "set_position g me position k w =
     (if k = me \<or> \<not> col_HasIndex (gr_Members (row w g)) k \<or> \<not> has_player w k then w
      else set_pguild k (\<lambda>d. d\<lparr>pg_Position := position\<rparr>) w)"

definition tell_officer :: "int \<Rightarrow> int \<Rightarrow> int \<Rightarrow> int \<Rightarrow> int \<Rightarrow> World \<Rightarrow> World" where
  "tell_officer now g set_type position k w =
     (if \<not> has_player w k then w
      else let w = tell (GuildSetOfficerNotify k set_type position) w in
        if set_type = 1 then push_new_guild_log now g GUILD_LOG_TYPE_MEMBER_APPOINT k w
        else if set_type = 2 then push_new_guild_log now g GUILD_LOG_TYPE_OFFICER_DISMISS k w
        else w)"

definition guild_set_officer :: "guild_config \<Rightarrow> int \<Rightarrow> int list \<Rightarrow> int \<Rightarrow> int \<Rightarrow> World \<Rightarrow> guild_answer" where
  "guild_set_officer C now player_ids set_type me w =
     (case get_guild C now me True w of
        (w, None) \<Rightarrow> (Inl G_SET_OFFICER_ONLY_PRESIDENT, w)
      | (w, Some g) \<Rightarrow>
          let position = (if set_type = 1 then GUILD_POSITION_OFFICER else GUILD_POSITION_MEMBER);
              ids = map (officer_candidate g me w) player_ids;
              w = fold (set_position g me position) player_ids w
          in (Inr 1, fold (tell_officer now g set_type position) ids w))"

text \<open>What happens to one player of the list of those to be expelled, and the number the answer has for him.\<close>

definition kick_one :: "int \<Rightarrow> int \<Rightarrow> int \<Rightarrow> int \<Rightarrow> World \<Rightarrow> World" where
  "kick_one now g me k w =
     (if k = me then w
      else if \<not> col_HasIndex (gr_Members (row w g)) k then w
      else if \<not> has_player w k then w
      else if pg_Position (pguild w k) \<noteq> GUILD_POSITION_MEMBER then w
      else leave now g k w)"

definition tell_kicked :: "int \<Rightarrow> int \<Rightarrow> int \<Rightarrow> World \<Rightarrow> World" where
  "tell_kicked now g k w =
     (if has_player w k then push_new_guild_log now g GUILD_LOG_TYPE_MEMBER_KICK k (tell (GuildKickMemberNotify k) w) else w)"

text \<open>No list is \<open>None\<close>.\<close>

definition guild_kick_member :: "guild_config \<Rightarrow> int \<Rightarrow> int list option \<Rightarrow> int \<Rightarrow> World \<Rightarrow> guild_answer" where
  "guild_kick_member C now player_ids me w =
     (case player_ids of
        None \<Rightarrow> (Inl G_FAILED, w)
      | Some ids \<Rightarrow>
          (case get_guild C now me False w of
             (w, None) \<Rightarrow> (Inl G_DATA_NOT_FOUND, w)
           | (w, Some g) \<Rightarrow>
               if pg_Position (pguild w me) \<le> GUILD_POSITION_MEMBER then (Inl G_CANT_GET_WITH_AUTHORITY, w)
               else (Inr 1, fold (tell_kicked now g) ids (fold (kick_one now g me) ids w))))"

definition guild_change_president :: "guild_config \<Rightarrow> int \<Rightarrow> int \<Rightarrow> int \<Rightarrow> World \<Rightarrow> guild_answer" where
  "guild_change_president C now k me w =
     (if k = me then (Inl G_CANT_CHANGE_PRESIDENT_SELF, w)
      else if \<not> has_player w k then (Inl G_PLAYER_NOT_EXIST, w)
      else case get_guild C now me True w of
          (w, None) \<Rightarrow> (Inl G_CANT_GET_WITH_AUTHORITY, w)
        | (w, Some g) \<Rightarrow>
            if \<not> col_HasIndex (gr_Members (row w g)) k then (Inl G_NOT_JOINED, w)
            else let w = set_row g (\<lambda>r. r\<lparr>gr_President := k\<rparr>) w;
                     w = set_pguild me (\<lambda>d. d\<lparr>pg_Position := GUILD_POSITION_MEMBER\<rparr>) w;
                     w = set_pguild k (\<lambda>d. d\<lparr>pg_Position := GUILD_POSITION_PRESIDENT\<rparr>) w;
                     w = tell (GuildChangePresidentNotify me k) w
              in (Inr 1, push_new_guild_log now g GUILD_LOG_TYPE_PRESIDENT_CHANGE k w))"

section \<open>Donations\<close>

text \<open>A request that is over goes, and the player gets what was given so far.\<close>

definition check_donate :: "guild_config \<Rightarrow> int \<Rightarrow> int \<Rightarrow> int \<Rightarrow> World \<Rightarrow> World" where
  "check_donate C now g k w =
     (case col_Get (gr_AskDonates (row w g)) k of
        None \<Rightarrow> w
      | Some a \<Rightarrow>
          if 1 < GetRemainSeconds now (ask_AskTime a) (GuildAskDonateCDSecs C) then w
          else if \<not> has_player w k then w
          else tell (GuildDonateItemNotify k (ask_ItemId a) (ask_ItemNum a) False)
                 (set_row g (\<lambda>r. r\<lparr>gr_AskDonates := col_Remove k (gr_AskDonates r)\<rparr>)
                   (set_player k (\<lambda>p. fst (add_resource (gc_tables C) (ask_ItemId a) (ask_ItemNum a) p)) w)))"

definition guild_check_donate_list :: "guild_config \<Rightarrow> int \<Rightarrow> int \<Rightarrow> World \<Rightarrow> World" where
  "guild_check_donate_list C now g w = fold (check_donate C now g) (map fst (gr_AskDonates (row w g))) w"

definition guild_check_donate_refresh :: "guild_config \<Rightarrow> int \<Rightarrow> int \<Rightarrow> World \<Rightarrow> World \<times> bool" where
  "guild_check_donate_refresh C now me w =
     (case get_guild C now me False w of
        (w, None) \<Rightarrow> (w, False)
      | (w, Some g) \<Rightarrow>
          let last_refresh_time = pg_LastDonateTime (pguild w me) in
          if \<not> CheckDayTimeArrival (gc_zone C) now last_refresh_time (GuildDonateRefreshTime C)
             \<and> 1 < GetRemainSeconds now last_refresh_time (GuildAskDonateExistSeconds C)
          then (w, False)
          else let w = set_pguild me (\<lambda>d. d\<lparr>pg_LastDonateTime := i32 now, pg_DonateNum := 0\<rparr>) w in
            (snd (send_guild_data C now me w), True))"

definition guild_donate_list :: "guild_config \<Rightarrow> int \<Rightarrow> int \<Rightarrow> World \<Rightarrow> guild_answer" where
  "guild_donate_list C now me w =
     (case get_guild C now me False w of
        (w, None) \<Rightarrow> (Inl G_DATA_NOT_FOUND, w)
      | (w, Some g) \<Rightarrow> (Inr 1, guild_check_donate_list C now g w))"

definition guild_ask_donate :: "guild_config \<Rightarrow> int \<Rightarrow> int \<Rightarrow> int \<Rightarrow> World \<Rightarrow> guild_answer" where
  "guild_ask_donate C now item_id me w =
     (case guild_donate_table C item_id of
        None \<Rightarrow> (Inl G_DONATE_TABLE_DATA_NOT_FOUND, w)
      | Some item \<Rightarrow>
          (case get_guild C now me False w of
             (w, None) \<Rightarrow> (Inl G_DATA_NOT_FOUND, w)
           | (w, Some g) \<Rightarrow>
               let w = fst (guild_check_donate_refresh C now me (guild_check_donate_list C now g w)) in
               if 1 < GetRemainSeconds now (pg_LastAskDonateTime (pguild w me)) (GuildAskDonateCDSecs C)
               then (Inl G_ALREADY_ASKED_DONATE, w)
               else if col_HasIndex (gr_AskDonates (row w g)) me then (Inl G_ALREADY_ASKED_DONATE, w)
               else (Inr 1, set_pguild me (\<lambda>d. d\<lparr>pg_LastAskDonateTime := i32 now\<rparr>)
                     (set_row g (\<lambda>r. r\<lparr>gr_AskDonates := fst (col_Add me
                        \<lparr>ask_ItemId = item_id, ask_ItemNum = 0, ask_AskTime = i32 now\<rparr> (gr_AskDonates r))\<rparr>) w))))"

text \<open>One item more for the request, and the request fulfilled when it is the last one.\<close>

definition give_one :: "guild_config \<Rightarrow> XmlGuildDonateItem \<Rightarrow> int \<Rightarrow> int \<Rightarrow> dbGuildAskDonateData \<Rightarrow> int \<Rightarrow> World \<Rightarrow> World \<times> int" where
  "give_one C item g me a k w =
     (if ask_ItemNum a < RequestNum item
      then (set_row g (\<lambda>r. r\<lparr>gr_AskDonates := fst (col_Set k (\<lambda>a. a\<lparr>ask_ItemNum := i32 (ask_ItemNum a + 1)\<rparr>) (gr_AskDonates r))\<rparr>)
             (set_player me (\<lambda>p. fst (add_resource (gc_tables C) (ask_ItemId a) (- 1) p)) w), i32 (ask_ItemNum a + 1))
      else (w, ask_ItemNum a))"

definition finish_request :: "guild_config \<Rightarrow> XmlGuildDonateItem \<Rightarrow> int \<Rightarrow> int \<Rightarrow> int \<Rightarrow> int \<Rightarrow> World \<Rightarrow> World \<times> bool" where
  "finish_request C item g item_id n k w =
     (if RequestNum item \<le> n
      then (set_row g (\<lambda>r. r\<lparr>gr_AskDonates := col_Remove k (gr_AskDonates r)\<rparr>)
             (set_player k (\<lambda>p. fst (add_resource (gc_tables C) item_id (RequestNum item) p)) w), True)
      else (w, False))"

definition get_resource_of :: "World \<Rightarrow> int \<Rightarrow> int \<Rightarrow> int" where
  "get_resource_of w k item_id = (case w_players w k of None \<Rightarrow> 0 | Some p \<Rightarrow> get_resource (gp_player p) item_id)"

definition guild_donate :: "guild_config \<Rightarrow> int \<Rightarrow> int \<Rightarrow> int \<Rightarrow> World \<Rightarrow> guild_answer" where
  "guild_donate C now k me w =
     (if me = k then (Inl G_CANT_ASK_DONATE_TO_SELF, w)
      else if \<not> has_player w k then (Inl G_PLAYER_NOT_EXIST, w)
      else case get_guild C now me False w of
          (w, None) \<Rightarrow> (Inl G_DATA_NOT_FOUND, w)
        | (w, Some g) \<Rightarrow>
            let w = fst (guild_check_donate_refresh C now me (guild_check_donate_list C now g w)) in
            (case col_Get (gr_AskDonates (row w g)) k of
               None \<Rightarrow> (Inl G_NOT_ASK_DONATE, w)
             | Some a \<Rightarrow>
                 (case guild_donate_table C (ask_ItemId a) of
                    None \<Rightarrow> (Inl G_DONATE_TABLE_DATA_NOT_FOUND, w)
                  | Some item \<Rightarrow>
                      let donate_num = pg_DonateNum (pguild w me) in
                      if GuildDonateLimitDay C < i32 (donate_num + LimitScore item) then (Inl G_NOT_ENOUGH_DONATE_SCORE, w)
                      else if get_resource_of w me (ask_ItemId a) < 1 then (Inl G_ITEM_NUM_NOT_ENOUGH, w)
                      else let (w, n) = give_one C item g me a k w;
                               (w, donate_over) = finish_request C item g (ask_ItemId a) n k w;
                               w = set_pguild me (\<lambda>d. d\<lparr>pg_DonateNum := i32 (donate_num + LimitScore item)\<rparr>) w;
                               w = set_player me (add_resources (gc_tables C) (DonateRewardItem item)) w
                        in (Inr 1, tell (GuildDonateItemNotify k (ask_ItemId a) n donate_over) w))))"

section \<open>All requests\<close>

datatype guild_request =
    C2SGuildData | C2SGuildRecommend | C2SGuildSearch string | C2SGuildCreate string string int
  | C2SGuildDismiss | C2SGuildCancelDismiss | C2SGuildInfoModify string int | C2SGuildSetAnouncement string
  | C2SGuildMembers | C2SGuildAskJoin int | C2SGuildAgreeJoin "int list" bool | C2SGuildAskList | C2SGuildQuit | C2SGuildLogs
  | C2SGuildSignIn | C2SGuildSetOfficer "int list" int | C2SGuildKickMember "int list option" | C2SGuildChangePresident int
  | C2SGuildDonateList | C2SGuildAskDonate int | C2SGuildDonate int

fun handle_request :: "guild_config \<Rightarrow> int \<Rightarrow> int \<Rightarrow> guild_request \<Rightarrow> World \<Rightarrow> guild_answer option" where
  "handle_request C now me C2SGuildData w = Some (send_guild_data C now me w)"
| "handle_request C now me C2SGuildRecommend w = Some (guild_recommend C now me w)"
| "handle_request C now me (C2SGuildSearch key) w = Some (guild_search C now key me w)"
| "handle_request C now me (C2SGuildCreate name anouncement logo) w = guild_create C now name anouncement logo me w"
| "handle_request C now me C2SGuildDismiss w = Some (guild_dismiss C now me w)"
| "handle_request C now me C2SGuildCancelDismiss w = Some (guild_cancel_dismiss C now me w)"
| "handle_request C now me (C2SGuildInfoModify name logo) w = Some (guild_info_modify C now name logo me w)"
| "handle_request C now me (C2SGuildSetAnouncement content) w = Some (guild_anouncement C now content me w)"
| "handle_request C now me C2SGuildMembers w = Some (guild_members_list C now me w)"
| "handle_request C now me (C2SGuildAskJoin g) w = Some (guild_ask_join C now g me w)"
| "handle_request C now me (C2SGuildAgreeJoin ks is_refuse) w = Some (guild_agree_join C now ks is_refuse me w)"
| "handle_request C now me C2SGuildAskList w = Some (guild_ask_list C now me w)"
| "handle_request C now me C2SGuildQuit w = Some (guild_quit C now me w)"
| "handle_request C now me C2SGuildLogs w = Some (guild_logs C now me w)"
| "handle_request C now me C2SGuildSignIn w = Some (guild_sign_in C now me w)"
| "handle_request C now me (C2SGuildSetOfficer ks t) w = Some (guild_set_officer C now ks t me w)"
| "handle_request C now me (C2SGuildKickMember ks) w = Some (guild_kick_member C now ks me w)"
| "handle_request C now me (C2SGuildChangePresident k) w = Some (guild_change_president C now k me w)"
| "handle_request C now me C2SGuildDonateList w = Some (guild_donate_list C now me w)"
| "handle_request C now me (C2SGuildAskDonate item_id) w = Some (guild_ask_donate C now item_id me w)"
| "handle_request C now me (C2SGuildDonate k) w = Some (guild_donate C now k me w)"

end
