(* ===== verification/Guild_Correct.thy ===== *)
theory Guild_Correct
  imports Guild
begin

text \<open>
  The invariant of the guilds: the members of a guild are the players who have its id, the president is one of them
  and the only one with his position, a deleted guild has no member; and the manager lists exactly the guilds that
  are there, under their names. The locale \<open>guild_invariant\<close> asks of an invariant that the single changes keep it,
  and gives that every request does.
\<close>

section \<open>Reading after writing\<close>

lemma pguild_set_pguild: "pguild (set_pguild k f w) j = (if j = k \<and> has_player w k then f (pguild w k) else pguild w j)"
  by (auto simp: pguild_def set_pguild_def has_player_def split: option.splits)

lemma pguild_frame [simp]:
  "pguild (set_row g h w) j = pguild w j" "pguild (tell e w) j = pguild w j" "pguild (set_player k p w) j = pguild w j"
  "pguild (w\<lparr>w_guilds := x\<rparr>) j = pguild w j" "pguild (w\<lparr>w_CurrentGuildId := c\<rparr>) j = pguild w j"
  "pguild (w\<lparr>w_draws := ds\<rparr>) j = pguild w j" "pguild (w\<lparr>guild_name_map := nm\<rparr>) j = pguild w j"
  by (auto simp: pguild_def set_row_def tell_def set_player_def split: option.splits)

lemma has_player_frame [simp]:
  "has_player (set_row g h w) j = has_player w j" "has_player (tell e w) j = has_player w j"
  "has_player (set_player k p w) j = has_player w j" "has_player (set_pguild k f w) j = has_player w j"
  "has_player (w\<lparr>w_guilds := x\<rparr>) j = has_player w j" "has_player (w\<lparr>w_CurrentGuildId := c\<rparr>) j = has_player w j"
  "has_player (w\<lparr>w_draws := ds\<rparr>) j = has_player w j" "has_player (w\<lparr>guild_name_map := nm\<rparr>) j = has_player w j"
  by (auto simp: has_player_def set_row_def tell_def set_player_def set_pguild_def split: option.splits)

lemma w_guilds_frame [simp]:
  "w_guilds (tell e w) = w_guilds w" "w_guilds (set_player k p w) = w_guilds w" "w_guilds (set_pguild k f w) = w_guilds w"
  by (auto simp: tell_def set_player_def set_pguild_def split: option.splits)

lemma w_guilds_set_row: "w_guilds (set_row g f w) = (w_guilds w)(g := map_option f (w_guilds w g))"
  by (simp add: set_row_def)

lemma row_frame [simp]:
  "row (tell e w) j = row w j" "row (set_player k p w) j = row w j" "row (set_pguild k f w) j = row w j"
  "row (w\<lparr>w_CurrentGuildId := c\<rparr>) j = row w j" "row (w\<lparr>w_draws := ds\<rparr>) j = row w j"
  "row (w\<lparr>guild_name_map := nm\<rparr>) j = row w j"
  by (simp_all add: row_def)

lemma row_set_row: "row (set_row g f w) j = (if j = g \<and> w_guilds w g \<noteq> None then f (row w g) else row w j)"
  by (auto simp: row_def set_row_def split: option.splits)

lemma manager_frame [simp]:
  "w_CurrentGuildId (set_row g f w) = w_CurrentGuildId w" "guild_ids (set_row g f w) = guild_ids w" "guild_id_map (set_row g f w) = guild_id_map w" "guild_name_map (set_row g f w) = guild_name_map w" "guilds_ex_map (set_row g f w) = guilds_ex_map w"
  "w_CurrentGuildId (set_pguild k f' w) = w_CurrentGuildId w" "guild_ids (set_pguild k f' w) = guild_ids w" "guild_id_map (set_pguild k f' w) = guild_id_map w" "guild_name_map (set_pguild k f' w) = guild_name_map w" "guilds_ex_map (set_pguild k f' w) = guilds_ex_map w"
  "w_CurrentGuildId (set_player k p w) = w_CurrentGuildId w" "guild_ids (set_player k p w) = guild_ids w" "guild_id_map (set_player k p w) = guild_id_map w" "guild_name_map (set_player k p w) = guild_name_map w" "guilds_ex_map (set_player k p w) = guilds_ex_map w"
  "w_CurrentGuildId (tell e w) = w_CurrentGuildId w" "guild_ids (tell e w) = guild_ids w" "guild_id_map (tell e w) = guild_id_map w" "guild_name_map (tell e w) = guild_name_map w" "guilds_ex_map (tell e w) = guilds_ex_map w"
  by (auto simp: set_row_def set_pguild_def set_player_def tell_def split: option.splits)

definition same_manager :: "World \<Rightarrow> World \<Rightarrow> bool" where
  "same_manager w w' \<longleftrightarrow> w_CurrentGuildId w' = w_CurrentGuildId w \<and> guild_ids w' = guild_ids w
     \<and> guild_id_map w' = guild_id_map w \<and> guild_name_map w' = guild_name_map w \<and> guilds_ex_map w' = guilds_ex_map w"

lemma same_manager_ops [simp]:
  "same_manager w w" "same_manager w (set_row g h w)" "same_manager w (tell e w)" "same_manager w (set_player k p w)"
  "same_manager w (set_pguild k f w)" "same_manager w (w\<lparr>w_draws := ds\<rparr>)" "same_manager w (w\<lparr>w_guilds := x\<rparr>)"
  by (auto simp: same_manager_def set_row_def tell_def set_player_def set_pguild_def split: option.splits)

lemma same_manager_trans: "same_manager w w' \<Longrightarrow> same_manager w' w'' \<Longrightarrow> same_manager w w''"
  by (simp add: same_manager_def)

section \<open>The invariants\<close>

abbreviation is_member :: "World \<Rightarrow> int \<Rightarrow> int \<Rightarrow> bool" where
  "is_member w g k \<equiv> col_HasIndex (gr_Members (row w g)) k"

definition standing :: "World \<Rightarrow> int \<Rightarrow> bool" where
  "standing w g \<longleftrightarrow> w_guilds w g \<noteq> None \<and> gr_ExistType (row w g) \<noteq> GUILD_EXIST_TYPE_DELETED"

text \<open>The members: a player without a guild has the id 0.\<close>

definition members_agree :: "World \<Rightarrow> bool" where
  "members_agree w \<longleftrightarrow> (\<forall>g k. is_member w g k \<longleftrightarrow> g \<noteq> 0 \<and> pg_Id (pguild w k) = g)"

definition presidents_agree :: "World \<Rightarrow> bool" where
  "presidents_agree w \<longleftrightarrow>
     (\<forall>g. standing w g \<longrightarrow> is_member w g (gr_President (row w g)))
     \<and> (\<forall>g. \<not> standing w g \<longrightarrow> gr_Members (row w g) = [])
     \<and> (\<forall>k. pg_Position (pguild w k) \<in> {GUILD_POSITION_MEMBER, GUILD_POSITION_PRESIDENT, GUILD_POSITION_OFFICER})
     \<and> (\<forall>k. pg_Id (pguild w k) = 0 \<longrightarrow> pg_Position (pguild w k) = GUILD_POSITION_MEMBER)
     \<and> (\<forall>k. pg_Id (pguild w k) \<noteq> 0 \<longrightarrow>
          (pg_Position (pguild w k) = GUILD_POSITION_PRESIDENT \<longleftrightarrow> gr_President (row w (pg_Id (pguild w k))) = k))"

definition rows_numbered :: "guild_config \<Rightarrow> World \<Rightarrow> bool" where
  "rows_numbered C w \<longleftrightarrow> 0 \<le> w_CurrentGuildId w \<and> w_CurrentGuildId w < 2 ^ 20 \<and>
     (\<forall>g. w_guilds w g \<noteq> None \<longrightarrow> col_ok (gr_Members (row w g)) \<and>
       (\<exists>c. 0 < c \<and> c \<le> w_CurrentGuildId w \<and> g = GenerateGuildId (gc_ServerId C) c))"

definition members_ok :: "guild_config \<Rightarrow> World \<Rightarrow> bool" where
  "members_ok C w \<longleftrightarrow> members_agree w \<and> presidents_agree w \<and> rows_numbered C w"

definition managed :: "World \<Rightarrow> bool" where
  "managed w \<longleftrightarrow> distinct (guild_ids w) \<and> length (guild_ids w) \<le> GUILD_MAX_NUM \<and> set (guild_ids w) = {g. standing w g}
     \<and> guild_id_map w = (\<lambda>g. if standing w g then Some g else None) \<and> dom (guilds_ex_map w) = {g. standing w g}
     \<and> (\<forall>n g. guild_name_map w n = Some g \<longleftrightarrow> standing w g \<and> gr_Name (row w g) = n)"

text \<open>What the invariants look at.\<close>

definition row_view :: "dbGuildRow \<Rightarrow> string \<times> unit column \<times> int \<times> int" where
  "row_view r = (gr_Name r, gr_Members r, gr_President r, gr_ExistType r)"

definition quiet :: "World \<Rightarrow> World \<Rightarrow> bool" where
  "quiet w w' \<longleftrightarrow> (\<forall>k. pg_Id (pguild w' k) = pg_Id (pguild w k) \<and> pg_Position (pguild w' k) = pg_Position (pguild w k))
     \<and> (\<forall>g. map_option row_view (w_guilds w' g) = map_option row_view (w_guilds w g))
     \<and> w_CurrentGuildId w' = w_CurrentGuildId w \<and> guild_ids w' = guild_ids w
     \<and> guild_id_map w' = guild_id_map w \<and> guild_name_map w' = guild_name_map w \<and> dom (guilds_ex_map w') = dom (guilds_ex_map w)"

lemma quiet_refl [simp]: "quiet w w"
  by (simp add: quiet_def)

lemma quiet_trans: "quiet w w' \<Longrightarrow> quiet w' w'' \<Longrightarrow> quiet w w''"
  by (simp add: quiet_def)

lemma quiet_fold: "(\<And>k w. quiet w (f k w)) \<Longrightarrow> quiet w (fold f ks w)"
  by (induction ks arbitrary: w) (auto intro: quiet_trans)

lemma quietD:
  assumes "quiet w w'"
  shows "row_view (row w' g) = row_view (row w g)" "(w_guilds w' g = None) = (w_guilds w g = None)"
    "standing w' g = standing w g"
proof -
  have m: "map_option row_view (w_guilds w' g) = map_option row_view (w_guilds w g)" using assms by (simp add: quiet_def)
  then show v: "row_view (row w' g) = row_view (row w g)" by (auto simp: row_def split: option.splits)
  from m show n: "(w_guilds w' g = None) = (w_guilds w g = None)" by (cases "w_guilds w g"; cases "w_guilds w' g") auto
  show "standing w' g = standing w g" using v n by (auto simp: standing_def row_view_def)
qed

lemma quiet_same:
  assumes "same_manager w w'" "\<And>k. pguild w' k = pguild w k"
    "\<And>g. map_option row_view (w_guilds w' g) = map_option row_view (w_guilds w g)"
  shows "quiet w w'"
  using assms by (auto simp: quiet_def same_manager_def)

lemma quiet_ops [simp]:
  "quiet w (tell e w)" "quiet w (set_player k p w)" "quiet w (w\<lparr>w_draws := ds\<rparr>)"
  by (auto intro!: quiet_same)

lemma quiet_set_row: "(\<And>r. row_view (f r) = row_view r) \<Longrightarrow> quiet w (set_row g f w)"
  by (rule quiet_same) (auto simp: w_guilds_set_row option.map_comp comp_def)

lemma quiet_set_pguild:
  assumes "\<And>d. pg_Id (f d) = pg_Id d" "\<And>d. pg_Position (f d) = pg_Position d"
  shows "quiet w (set_pguild k f w)"
  using same_manager_ops(5) [where w = w and k = k and f = f] assms
  by (auto simp: quiet_def same_manager_def pguild_set_pguild)

lemma quiet_log [simp]: "quiet w (push_new_guild_log now g t k w)"
  by (auto simp: push_new_guild_log_def add_log_def row_view_def Let_def intro!: quiet_set_row)

lemma members_ok_quiet:
  assumes ok: "members_ok C w" and q: "quiet w w'"
  shows "members_ok C w'"
proof -
  have v: "gr_Members (row w' g) = gr_Members (row w g)" "gr_President (row w' g) = gr_President (row w g)" for g
    using quietD(1) [OF q, of g] by (auto simp: row_view_def)
  have p: "pg_Id (pguild w' k) = pg_Id (pguild w k)" "pg_Position (pguild w' k) = pg_Position (pguild w k)" for k
    using q by (auto simp: quiet_def)
  have c: "w_CurrentGuildId w' = w_CurrentGuildId w" using q by (simp add: quiet_def)
  show ?thesis
    using ok unfolding members_ok_def members_agree_def presidents_agree_def rows_numbered_def v p c quietD(2,3) [OF q] .
qed

lemma managed_quiet:
  assumes "managed w" "quiet w w'"
  shows "managed w'"
proof -
  have "gr_Name (row w' g) = gr_Name (row w g)" for g
    using quietD(1) [OF assms(2), of g] by (auto simp: row_view_def)
  with assms show ?thesis by (simp add: managed_def quietD(3) [OF assms(2)] quiet_def)
qed

section \<open>The numbers of guilds\<close>

lemma and_mask_low: "0 \<le> c \<Longrightarrow> c < 2 ^ 20 \<Longrightarrow> and (and a 2146435072) c = (0 :: int)"
proof -
  assume c: "0 \<le> c" "c < 2 ^ 20"
  have "take_bit 20 (and (and a 2146435072) c) = and (and (take_bit 20 a) (take_bit 20 2146435072)) (take_bit 20 c)"
    by simp
  also have "take_bit 20 2146435072 = (0 :: int)" by (simp add: take_bit_eq_mod)
  finally have "take_bit 20 (and (and a 2146435072) c) = 0" by simp
  moreover have "0 \<le> and (and a 2146435072) c" using c by simp
  moreover have "and (and a 2146435072) c \<le> c" using c by (simp add: AND_upper2)
  ultimately show ?thesis using c by (simp add: take_bit_eq_mod)
qed

lemma GenerateGuildId:
  assumes "0 < c" "c < 2 ^ 20"
  shows "GenerateGuildId s c = and (i32 (push_bit 20 s)) 2146435072 + c" "0 < GenerateGuildId s c"
proof -
  define x where "x = and (i32 (push_bit 20 s)) 2146435072"
  have "and x c = 0" unfolding x_def using assms by (intro and_mask_low) auto
  then have e: "or x c = x + c" using plus_and_or [of x c] by simp
  have "0 \<le> x" by (simp add: x_def)
  with e assms show "GenerateGuildId s c = and (i32 (push_bit 20 s)) 2146435072 + c" "0 < GenerateGuildId s c"
    by (simp_all add: GenerateGuildId_def x_def [symmetric])
qed

section \<open>What the invariant says\<close>

lemma members_okD:
  assumes "members_ok C w"
  shows "is_member w g k \<longleftrightarrow> g \<noteq> 0 \<and> pg_Id (pguild w k) = g"
    and "standing w g \<Longrightarrow> is_member w g (gr_President (row w g))"
    and "\<not> standing w g \<Longrightarrow> gr_Members (row w g) = []"
    and "pg_Position (pguild w k) \<in> {0, 1, 2}"
    and "pg_Id (pguild w k) = 0 \<Longrightarrow> pg_Position (pguild w k) = 0"
    and "pg_Id (pguild w k) \<noteq> 0 \<Longrightarrow> pg_Position (pguild w k) = 1 \<longleftrightarrow> gr_President (row w (pg_Id (pguild w k))) = k"
    and "w_guilds w g \<noteq> None \<Longrightarrow> col_ok (gr_Members (row w g))"
  using assms by (auto simp: members_ok_def members_agree_def presidents_agree_def rows_numbered_def)

lemma guild_positive:
  assumes "members_ok C w" "w_guilds w g \<noteq> None"
  shows "0 < g"
  using assms GenerateGuildId(2) unfolding members_ok_def rows_numbered_def by fastforce

lemma has_guild:
  assumes "members_ok C w" "pg_Id (pguild w k) \<noteq> 0"
  shows "standing w (pg_Id (pguild w k))" "is_member w (pg_Id (pguild w k)) k" "has_player w k" "0 < pg_Id (pguild w k)"
proof -
  show m: "is_member w (pg_Id (pguild w k)) k" using assms members_okD(1) [OF assms(1)] by blast
  then have "gr_Members (row w (pg_Id (pguild w k))) \<noteq> []" by (auto simp: col_HasIndex_def)
  then show a: "standing w (pg_Id (pguild w k))" using members_okD(3) [OF assms(1)] by blast
  show "has_player w k" using assms(2) by (auto simp: has_player_def pguild_def no_guild_def split: option.splits)
  show "0 < pg_Id (pguild w k)" using guild_positive [OF assms(1)] a by (simp add: standing_def)
qed

lemma is_member_fst: "is_member w g k \<longleftrightarrow> k \<in> set (map fst (gr_Members (row w g)))"
  by (auto simp: col_HasIndex_def map_of_eq_None_iff image_iff)

section \<open>The deletion of a guild\<close>

definition expire :: "int \<Rightarrow> World \<Rightarrow> World" where
  "expire g w = remove_guild_row g (fold (leave_deleted g) (map fst (gr_Members (row w g))) w)"

abbreviation (input) "cleared d \<equiv> d\<lparr>pg_Id := 0, pg_Position := 0, pg_DonateNum := 0, pg_JoinTime := 0, pg_QuitTime := 0\<rparr>"

lemma leave_deleted_frame [simp]:
  "w_guilds (leave_deleted g k w) = w_guilds w" "row (leave_deleted g k w) j = row w j"
  "has_player (leave_deleted g k w) j = has_player w j" "same_manager w (leave_deleted g k w)"
  by (auto simp: leave_deleted_def) (auto simp: same_manager_def tell_def set_pguild_def split: option.splits)

lemma pguild_leave_deleted: "pguild (leave_deleted g k w) j = (if j = k then cleared (pguild w j) else pguild w j)"
  by (auto simp: leave_deleted_def pguild_set_pguild) (auto simp: pguild_def has_player_def no_guild_def)

lemma leave_deleted_fold:
  "w_guilds (fold (leave_deleted g) ks w) = w_guilds w" "row (fold (leave_deleted g) ks w) j = row w j"
  "has_player (fold (leave_deleted g) ks w) j = has_player w j"
  "pguild (fold (leave_deleted g) ks w) j = (if j \<in> set ks then cleared (pguild w j) else pguild w j)"
  by (induction ks arbitrary: w) (auto simp: pguild_leave_deleted)

lemma leave_deleted_manager: "same_manager w (fold (leave_deleted g) ks w)"
proof (induction ks arbitrary: w)
  case (Cons k ks)
  have "same_manager w (fold (leave_deleted g) ks (leave_deleted g k w))"
    using leave_deleted_frame(4) Cons.IH by (rule same_manager_trans)
  then show ?case by simp
qed simp

lemma remove_guild_frame [simp]:
  "w_guilds (fst (remove_guild g n w)) = w_guilds w" "row (fst (remove_guild g n w)) j = row w j"
  "has_player (fst (remove_guild g n w)) j = has_player w j" "pguild (fst (remove_guild g n w)) j = pguild w j"
  "w_CurrentGuildId (fst (remove_guild g n w)) = w_CurrentGuildId w"
  by (auto simp: remove_guild_def row_def has_player_def pguild_def)

lemma expire_view:
  "pguild (expire g w) k = (if is_member w g k then cleared (pguild w k) else pguild w k)"
  "has_player (expire g w) k = has_player w k"
  "w_guilds (expire g w) = (w_guilds w)(g := map_option (\<lambda>r. r\<lparr>gr_ExistType := 2, gr_Members := [], gr_AskLists := []\<rparr>) (w_guilds w g))"
  "row (expire g w) j = (if j = g \<and> w_guilds w g \<noteq> None
     then (row w g)\<lparr>gr_ExistType := 2, gr_Members := [], gr_AskLists := []\<rparr> else row w j)"
  "w_CurrentGuildId (expire g w) = w_CurrentGuildId w"
  unfolding is_member_fst
  using leave_deleted_manager [of w g "map fst (gr_Members (row w g))"]
  by (auto simp: expire_def remove_guild_row_def leave_deleted_fold w_guilds_set_row row_set_row same_manager_def)

lemma standing_expire: "standing (expire g w) j \<longleftrightarrow> standing w j \<and> j \<noteq> g"
  by (auto simp: standing_def expire_view split: if_splits)

lemma members_ok_expire:
  assumes ok: "members_ok C w" and g: "standing w g"
  shows "members_ok C (expire g w)"
proof -
  note D = members_okD [OF ok]
  have gn: "w_guilds w g \<noteq> None" "0 < g" using g guild_positive [OF ok] by (auto simp: standing_def)
  have id0: "pg_Id (pguild (expire g w) k) = (if pg_Id (pguild w k) = g then 0 else pg_Id (pguild w k))"
    "pg_Position (pguild (expire g w) k) = (if pg_Id (pguild w k) = g then 0 else pg_Position (pguild w k))" for k
    using D(1) [of g k] gn by (auto simp: expire_view)
  have mem: "gr_Members (row (expire g w) j) = (if j = g then [] else gr_Members (row w j))"
    "gr_President (row (expire g w) j) = gr_President (row w j)" for j
    using gn by (auto simp: expire_view)
  have "is_member (expire g w) j k \<longleftrightarrow> j \<noteq> 0 \<and> pg_Id (pguild (expire g w) k) = j" for j k
    using D(1) [of j k] gn by (auto simp: mem id0 col_HasIndex_def)
  moreover have "standing (expire g w) j \<Longrightarrow> is_member (expire g w) j (gr_President (row (expire g w) j))" for j
    using D(2) [of j] by (auto simp: mem standing_expire)
  moreover have "\<not> standing (expire g w) j \<Longrightarrow> gr_Members (row (expire g w) j) = []" for j
    using D(3) [of j] by (auto simp: mem standing_expire)
  ultimately have "members_agree (expire g w)" "presidents_agree (expire g w)"
    using D(4-6) by (auto simp: members_agree_def presidents_agree_def id0 mem)
  moreover have "rows_numbered C (expire g w)"
    using ok by (auto simp: members_ok_def rows_numbered_def expire_view(3,5) mem col_ok_def)
  ultimately show ?thesis by (simp add: members_ok_def)
qed

lemma take_out: "distinct xs \<Longrightarrow> g \<in> set xs \<Longrightarrow>
  distinct (take_out g xs (last xs)) \<and> set (take_out g xs (last xs)) = set xs - {g} \<and> length (take_out g xs (last xs)) < length xs"
proof (induction xs)
  case (Cons x xs)
  show ?case
  proof (cases "xs = []")
    case False
    then have b: "xs = butlast xs @ [last xs]" by simp
    have d: "distinct xs" "x \<notin> set xs" using Cons.prems by auto
    have bl: "distinct (butlast xs)" "last xs \<notin> set (butlast xs)" "set xs = insert (last xs) (set (butlast xs))"
      using d(1) b by (metis distinct_butlast, metis distinct_append b disjoint_insert(1) list.simps(15),
        metis b set_append list.simps(15) Un_insert_right sup_bot_right set_empty2)
    show ?thesis
    proof (cases "x = g")
      case True
      then show ?thesis using False bl d by auto
    next
      case x: False
      then have "g \<in> set xs" using Cons.prems by simp
      from Cons.IH [OF d(1) this] show ?thesis using x False d by auto
    qed
  qed (use Cons.prems in auto)
qed simp

lemma managedD:
  assumes "managed w"
  shows "distinct (guild_ids w)" "length (guild_ids w) \<le> GUILD_MAX_NUM" "g \<in> set (guild_ids w) \<longleftrightarrow> standing w g"
    "guild_id_map w g = (if standing w g then Some g else None)" "guilds_ex_map w g \<noteq> None \<longleftrightarrow> standing w g"
    "guild_name_map w n = Some g \<longleftrightarrow> standing w g \<and> gr_Name (row w g) = n"
  using assms unfolding managed_def by (auto simp: dom_def)

lemma managed_expire:
  assumes m: "managed w" and g: "standing w g"
  shows "managed (expire g w)"
proof -
  define v where "v = set_row g (\<lambda>r. r\<lparr>gr_ExistType := 2, gr_Members := [], gr_AskLists := []\<rparr>)
    (fold (leave_deleted g) (map fst (gr_Members (row w g))) w)"
  have gn: "w_guilds w g \<noteq> None" using g by (simp add: standing_def)
  have sm: "same_manager w v"
    unfolding v_def by (rule same_manager_trans [OF leave_deleted_manager same_manager_ops(2)])
  have name: "gr_Name (row v g) = gr_Name (row w g)" using gn
    by (simp add: v_def row_set_row leave_deleted_fold)
  have e: "expire g w = fst (remove_guild g (gr_Name (row w g)) v)"
    using name by (simp add: expire_def remove_guild_row_def v_def leave_deleted_fold)
  have "guild_id_map w g = Some g" "guild_name_map w (gr_Name (row w g)) = Some g"
    using g managedD(4,6) [OF m] by auto
  then have e': "guild_ids (expire g w) = take_out g (guild_ids w) (last (guild_ids w))"
    "guild_id_map (expire g w) = (guild_id_map w)(g := None)"
    "guild_name_map (expire g w) = (guild_name_map w)(gr_Name (row w g) := None)"
    "guilds_ex_map (expire g w) = (guilds_ex_map w)(g := None)"
    using sm by (auto simp: e remove_guild_def same_manager_def)
  have t: "distinct (guild_ids (expire g w))" "set (guild_ids (expire g w)) = set (guild_ids w) - {g}"
    "length (guild_ids (expire g w)) < length (guild_ids w)"
    using take_out [OF managedD(1) [OF m]] g managedD(3) [OF m] by (auto simp: e')
  have names: "guild_name_map (expire g w) n = Some j \<longleftrightarrow> standing (expire g w) j \<and> gr_Name (row (expire g w) j) = n" for n j
    using managedD(6) [OF m, of n j] managedD(6) [OF m, of "gr_Name (row w g)" j] managedD(6) [OF m, of "gr_Name (row w g)" g] g
    by (auto simp: e' standing_expire expire_view)
  have "length (guild_ids w) \<le> GUILD_MAX_NUM" by (rule managedD(2) [OF m])
  then show ?thesis
    using t managedD(3-5) [OF m] unfolding managed_def
    by (auto simp: e'(2,4) names standing_expire dom_def fun_eq_iff)
qed

section \<open>The other changes\<close>

text \<open>A player joins, leaves, gets a position, hands the guild over; a guild is marked, renamed, founded.\<close>

definition join :: "int \<Rightarrow> int \<Rightarrow> int \<Rightarrow> World \<Rightarrow> World" where
  "join now g k w = set_pguild k (\<lambda>d. d\<lparr>pg_Id := g, pg_JoinTime := i32 now\<rparr>)
     (set_row g (\<lambda>r. r\<lparr>gr_Members := fst (col_Add k () (gr_Members r))\<rparr>) w)"

definition hand_over :: "int \<Rightarrow> int \<Rightarrow> int \<Rightarrow> World \<Rightarrow> World" where
  "hand_over g me k w = set_pguild k (\<lambda>d. d\<lparr>pg_Position := GUILD_POSITION_PRESIDENT\<rparr>)
     (set_pguild me (\<lambda>d. d\<lparr>pg_Position := GUILD_POSITION_MEMBER\<rparr>) (set_row g (\<lambda>r. r\<lparr>gr_President := k\<rparr>) w))"

definition found :: "int \<Rightarrow> int \<Rightarrow> int \<Rightarrow> string \<Rightarrow> int \<Rightarrow> World \<Rightarrow> World" where
  "found now g k name logo w = set_pguild k (\<lambda>d. d\<lparr>pg_Id := g, pg_Position := GUILD_POSITION_PRESIDENT\<rparr>)
     (w\<lparr>w_guilds := (w_guilds w)(g \<mapsto> found_row now k name logo)\<rparr>)"

lemma HasIndex_ops [simp]:
  "col_HasIndex (fst (col_Add k d c)) j \<longleftrightarrow> j = k \<or> col_HasIndex c j"
  "col_HasIndex (col_Remove k c) j \<longleftrightarrow> j \<noteq> k \<and> col_HasIndex c j"
  "\<not> col_HasIndex [] j"
  by (auto simp: col_HasIndex col_Get_Add) (simp add: col_Get_def)

lemma join_manager [simp]: "w_CurrentGuildId (join now g k w) = w_CurrentGuildId w" "same_manager w (join now g k w)"
  by (simp_all add: join_def same_manager_def)

lemma members_ok_join:
  assumes ok: "members_ok C w" and g: "standing w g" and k: "has_player w k" "pg_Id (pguild w k) = 0"
  shows "members_ok C (join now g k w)"
proof -
  note D = members_okD [OF ok]
  have gn: "w_guilds w g \<noteq> None" "g \<noteq> 0" using g guild_positive [OF ok] by (auto simp: standing_def)
  have p: "pg_Id (pguild (join now g k w) j) = (if j = k then g else pg_Id (pguild w j))"
    "pg_Position (pguild (join now g k w) j) = pg_Position (pguild w j)" for j
    using k by (auto simp: join_def pguild_set_pguild)
  have r: "row (join now g k w) j = (if j = g then (row w g)\<lparr>gr_Members := fst (col_Add k () (gr_Members (row w g)))\<rparr> else row w j)"
    "(w_guilds (join now g k w) j = None) = (w_guilds w j = None)" for j
    using gn by (auto simp: join_def row_set_row w_guilds_set_row)
  have a: "standing (join now g k w) j = standing w j" for j by (auto simp: standing_def r)
  have pos0: "pg_Position (pguild w k) = 0" using D(5) k by simp
  have notm: "gr_President (row w g) \<noteq> k" using D(2) [OF g] D(1) [of g] k gn by auto
  have "members_agree (join now g k w)"
    using D(1) k(2) gn by (auto simp: members_agree_def p r)
  moreover have "presidents_agree (join now g k w)"
    using D(2-6) g k(2) gn pos0 notm by (auto simp: presidents_agree_def p r a)
  moreover have "rows_numbered C (join now g k w)"
    using ok by (auto simp: members_ok_def rows_numbered_def r)
  ultimately show ?thesis by (simp add: members_ok_def)
qed

lemma managed_cong:
  assumes "managed w" "same_manager w w'" "\<And>g. standing w' g = standing w g" "\<And>g. gr_Name (row w' g) = gr_Name (row w g)"
  shows "managed w'"
proof -
  have "standing w' = standing w" using assms(3) by auto
  with assms show ?thesis unfolding managed_def same_manager_def by simp
qed

lemma managed_join: "managed w \<Longrightarrow> managed (join now g k w)"
  by (erule managed_cong) (auto simp: join_def standing_def row_set_row w_guilds_set_row same_manager_def)

lemma managed_leave: "managed w \<Longrightarrow> managed (leave now g k w)"
  by (erule managed_cong)
     (auto simp: leave_def clear_guild_data_def standing_def row_set_row w_guilds_set_row same_manager_def)

lemma managed_position: "managed w \<Longrightarrow> managed (set_pguild k f w)"
  by (erule managed_cong) (auto simp: standing_def)

lemma managed_hand_over: "managed w \<Longrightarrow> managed (hand_over g me k w)"
  by (erule managed_cong) (auto simp: hand_over_def standing_def row_set_row w_guilds_set_row same_manager_def)

definition mark :: "int \<Rightarrow> int \<Rightarrow> int \<Rightarrow> World \<Rightarrow> World" where
  "mark g t e w = set_row g (\<lambda>r. r\<lparr>gr_DismissTime := t, gr_ExistType := e\<rparr>) w"

lemma standing_mark: "standing w g \<Longrightarrow> e \<noteq> 2 \<Longrightarrow> standing (mark g t e w) j = standing w j"
  by (auto simp: mark_def standing_def row_set_row w_guilds_set_row)

lemma managed_mark: "managed w \<Longrightarrow> standing w g \<Longrightarrow> e \<noteq> 2 \<Longrightarrow> managed (mark g t e w)"
  by (erule managed_cong) (auto simp: standing_mark, auto simp: mark_def row_set_row same_manager_def)

lemma members_ok_leave:
  assumes ok: "members_ok C w" and k: "is_member w g k" "gr_President (row w g) \<noteq> k"
  shows "members_ok C (leave now g k w)"
proof -
  note D = members_okD [OF ok]
  have g: "g \<noteq> 0" "pg_Id (pguild w k) = g" using k(1) D(1) by auto
  then have "standing w g" "has_player w k" using has_guild [OF ok, of k] by auto
  then have gn: "w_guilds w g \<noteq> None" by (simp add: standing_def)
  have p: "pg_Id (pguild (leave now g k w) j) = (if j = k then 0 else pg_Id (pguild w j))"
    "pg_Position (pguild (leave now g k w) j) = (if j = k then 0 else pg_Position (pguild w j))" for j
    using \<open>has_player w k\<close> by (auto simp: leave_def clear_guild_data_def pguild_set_pguild)
  have r: "row (leave now g k w) j = (if j = g then (row w g)\<lparr>gr_Members := col_Remove k (gr_Members (row w g))\<rparr> else row w j)"
    "(w_guilds (leave now g k w) j = None) = (w_guilds w j = None)" for j
    using gn by (auto simp: leave_def clear_guild_data_def row_set_row w_guilds_set_row)
  have c: "w_CurrentGuildId (leave now g k w) = w_CurrentGuildId w" by (simp add: leave_def clear_guild_data_def)
  have a: "standing (leave now g k w) j = standing w j" for j by (auto simp: standing_def r)
  have "members_agree (leave now g k w)" using D(1) g by (auto simp: members_agree_def p r)
  moreover have "presidents_agree (leave now g k w)"
    using D(2-6) \<open>standing w g\<close> g k(2) by (auto simp: presidents_agree_def p r a)
  moreover have "rows_numbered C (leave now g k w)"
    using ok c by (auto simp: members_ok_def rows_numbered_def r)
  ultimately show ?thesis by (simp add: members_ok_def)
qed

lemma members_ok_position:
  assumes ok: "members_ok C w" and k: "is_member w g k" "gr_President (row w g) \<noteq> k" and p: "p = 0 \<or> p = 2"
  shows "members_ok C (set_pguild k (\<lambda>d. d\<lparr>pg_Position := p\<rparr>) w)"
proof -
  note D = members_okD [OF ok]
  have g: "g \<noteq> 0" "pg_Id (pguild w k) = g" using k(1) D(1) by auto
  then have "has_player w k" using has_guild [OF ok, of k] by auto
  then have v: "pg_Id (pguild (set_pguild k (\<lambda>d. d\<lparr>pg_Position := p\<rparr>) w) j) = pg_Id (pguild w j)"
    "pg_Position (pguild (set_pguild k (\<lambda>d. d\<lparr>pg_Position := p\<rparr>) w) j) = (if j = k then p else pg_Position (pguild w j))" for j
    by (auto simp: pguild_set_pguild)
  show ?thesis
    using ok g k p by (auto simp: members_ok_def members_agree_def presidents_agree_def rows_numbered_def standing_def v)
qed

lemma members_ok_hand_over:
  assumes ok: "members_ok C w" and k: "is_member w g k" "gr_President (row w g) = me" "me \<noteq> k"
  shows "members_ok C (hand_over g me k w)"
proof -
  note D = members_okD [OF ok]
  have g: "g \<noteq> 0" "pg_Id (pguild w k) = g" using k(1) D(1) by auto
  then have al: "standing w g" "has_player w k" using has_guild [OF ok, of k] by auto
  then have gn: "w_guilds w g \<noteq> None" by (simp add: standing_def)
  have "is_member w g me" using D(2) [OF al(1)] k(2) by simp
  then have m: "pg_Id (pguild w me) = g" "has_player w me" using D(1) has_guild(3) [OF ok, of me] g(1) by auto
  have p: "pg_Id (pguild (hand_over g me k w) j) = pg_Id (pguild w j)"
    "pg_Position (pguild (hand_over g me k w) j) = (if j = k then 1 else if j = me then 0 else pg_Position (pguild w j))" for j
    using al(2) m(2) by (auto simp: hand_over_def pguild_set_pguild)
  have r: "row (hand_over g me k w) j = (if j = g then (row w g)\<lparr>gr_President := k\<rparr> else row w j)"
    "(w_guilds (hand_over g me k w) j = None) = (w_guilds w j = None)" for j
    using gn by (auto simp: hand_over_def row_set_row w_guilds_set_row)
  have c: "w_CurrentGuildId (hand_over g me k w) = w_CurrentGuildId w" by (simp add: hand_over_def)
  have a: "standing (hand_over g me k w) j = standing w j" for j by (auto simp: standing_def r)
  have "members_agree (hand_over g me k w)" using D(1) by (auto simp: members_agree_def p r)
  moreover have "presidents_agree (hand_over g me k w)"
    using D(2-6) k g m by (auto simp: presidents_agree_def p r a)
  moreover have "rows_numbered C (hand_over g me k w)"
    using ok c by (auto simp: members_ok_def rows_numbered_def r)
  ultimately show ?thesis by (simp add: members_ok_def)
qed

lemma members_ok_mark:
  assumes ok: "members_ok C w" and g: "standing w g" "e \<noteq> 2"
  shows "members_ok C (mark g t e w)"
proof -
  have r: "gr_Members (row (mark g t e w) j) = gr_Members (row w j)" "gr_President (row (mark g t e w) j) = gr_President (row w j)"
    "(w_guilds (mark g t e w) j = None) = (w_guilds w j = None)" "pguild (mark g t e w) j = pguild w j"
    "w_CurrentGuildId (mark g t e w) = w_CurrentGuildId w" for j
    by (auto simp: mark_def row_set_row w_guilds_set_row)
  show ?thesis
    using ok unfolding members_ok_def members_agree_def presidents_agree_def rows_numbered_def r standing_mark [OF g] .
qed

text \<open>A change the members do not see.\<close>

lemma members_ok_cong:
  assumes "members_ok C w" "\<And>k. pguild w' k = pguild w k" "w_CurrentGuildId w' = w_CurrentGuildId w"
    "\<And>g. gr_Members (row w' g) = gr_Members (row w g)" "\<And>g. gr_President (row w' g) = gr_President (row w g)"
    "\<And>g. gr_ExistType (row w' g) = gr_ExistType (row w g)" "\<And>g. (w_guilds w' g = None) = (w_guilds w g = None)"
  shows "members_ok C w'"
  using assms(1) unfolding members_ok_def members_agree_def presidents_agree_def rows_numbered_def standing_def assms(2-7) .

lemma members_ok_rename: "members_ok C w \<Longrightarrow> members_ok C (fst (change_name g n w))"
  by (erule members_ok_cong) (auto simp: change_name_def row_set_row w_guilds_set_row Let_def split: option.splits)

lemma managed_rename:
  assumes m: "managed w" and g: "standing w g" and n: "guild_name_map w n = None \<or> guild_name_map w n = Some g"
  shows "managed (fst (change_name g n w))"
proof -
  note D = managedD [OF m]
  obtain r where r: "w_guilds w g = Some r" "row w g = r" using g by (auto simp: standing_def row_def)
  have old: "guild_name_map w (gr_Name r) = Some g" using D(6) g r(2) by blast
  define nm where "nm = ((guild_name_map w)(gr_Name r := None))(n \<mapsto> g)"
  define w' where "w' = set_row g (\<lambda>r. r\<lparr>gr_Name := n\<rparr>) (w\<lparr>guild_name_map := nm\<rparr>)"
  have e: "fst (change_name g n w) = w'"
    using r old by (simp add: change_name_def w'_def nm_def)
  have row: "row w' j = (if j = g then r\<lparr>gr_Name := n\<rparr> else row w j)" "(w_guilds w' j = None) = (w_guilds w j = None)" for j
    using r by (auto simp: w'_def row_set_row w_guilds_set_row)
  then have a: "standing w' = standing w" using r by (auto simp: standing_def fun_eq_iff)
  have f: "guild_ids w' = guild_ids w" "guild_id_map w' = guild_id_map w" "guilds_ex_map w' = guilds_ex_map w"
    "guild_name_map w' = nm" by (simp_all add: w'_def)
  have "nm x = Some j \<longleftrightarrow> standing w' j \<and> gr_Name (row w' j) = x" for x j
    using D(6) [of x j] D(6) [of n j] old n r g D(6) [of "gr_Name r" j]
    unfolding a by (auto simp: nm_def row)
  then show ?thesis using m unfolding e managed_def a f by simp
qed

section \<open>Founding\<close>

lemma found_view:
  assumes "has_player w k"
  shows "pguild (found now g k name logo w) j =
      (if j = k then (pguild w k)\<lparr>pg_Id := g, pg_Position := GUILD_POSITION_PRESIDENT\<rparr> else pguild w j)"
    "row (found now g k name logo w) j = (if j = g then found_row now k name logo else row w j)"
    "w_guilds (found now g k name logo w) = (w_guilds w)(g \<mapsto> found_row now k name logo)"
    "w_CurrentGuildId (found now g k name logo w) = w_CurrentGuildId w"
  using assms by (auto simp: found_def pguild_set_pguild row_def)

lemma found_row_simps [simp]:
  "gr_President (found_row now k name logo) = k" "gr_ExistType (found_row now k name logo) = 0"
  "gr_Name (found_row now k name logo) = name" "col_ok (gr_Members (found_row now k name logo))"
  "col_HasIndex (gr_Members (found_row now k name logo)) j \<longleftrightarrow> j = k"
  by (auto simp: found_row_def new_row_def col_ok_def col_Add_def col_HasIndex_def)

lemma fresh_number:
  assumes ok: "members_ok C w" and c: "w_CurrentGuildId w < c" "c < 2 ^ 20"
  shows "w_guilds w (GenerateGuildId (gc_ServerId C) c) = None"
proof (rule ccontr)
  assume "w_guilds w (GenerateGuildId (gc_ServerId C) c) \<noteq> None"
  then obtain d where "0 < d" "d \<le> w_CurrentGuildId w" "GenerateGuildId (gc_ServerId C) c = GenerateGuildId (gc_ServerId C) d"
    using ok unfolding members_ok_def rows_numbered_def by blast
  then show False using c GenerateGuildId(1) [of c "gc_ServerId C"] GenerateGuildId(1) [of d "gc_ServerId C"] by auto
qed

lemma members_ok_found:
  assumes ok: "members_ok C w" and k: "has_player w k" "pg_Id (pguild w k) = 0"
    and c: "c = w_CurrentGuildId w + 1" "c < 2 ^ 20" and g: "g = GenerateGuildId (gc_ServerId C) c"
  shows "members_ok C (found now g k name logo (w\<lparr>w_CurrentGuildId := c\<rparr>))"
proof -
  let ?v = "found now g k name logo (w\<lparr>w_CurrentGuildId := c\<rparr>)"
  note D = members_okD [OF ok]
  have c0: "0 < c" using ok c by (auto simp: members_ok_def rows_numbered_def)
  then have g0: "0 < g" using GenerateGuildId(2) c by (simp add: g)
  have new: "w_guilds w g = None" unfolding g using c by (intro fresh_number [OF ok]) auto
  have k': "has_player (w\<lparr>w_CurrentGuildId := c\<rparr>) k" using k(1) by simp
  note V = found_view [OF k']
  have a: "standing ?v j \<longleftrightarrow> j = g \<or> standing w j" for j by (auto simp: standing_def V)
  have ng: "\<not> standing w g" "pg_Id (pguild w j) \<noteq> g" for j
    using new has_guild [OF ok, of j] g0 by (auto simp: standing_def)
  have "members_agree ?v" using D(1) g0 ng k(2) by (auto simp: members_agree_def V)
  moreover have "presidents_agree ?v" using D(2-6) g0 ng k(2) by (auto simp: presidents_agree_def V a)
  moreover have cv: "w_CurrentGuildId ?v = c" by (simp add: V)
  have "rows_numbered C ?v"
    unfolding rows_numbered_def cv
  proof (intro conjI allI impI)
    fix j
    assume j: "w_guilds ?v j \<noteq> None"
    then show "col_ok (gr_Members (row ?v j))" using D(7) by (auto simp: V split: if_splits)
    show "\<exists>d>0. d \<le> c \<and> j = GenerateGuildId (gc_ServerId C) d"
    proof (cases "j = g")
      case True
      then show ?thesis using c0 by (intro exI [of _ c]) (simp add: g)
    next
      case False
      then obtain d where "0 < d" "d \<le> w_CurrentGuildId w" "j = GenerateGuildId (gc_ServerId C) d"
        using j ok by (auto simp: V members_ok_def rows_numbered_def)
      then show ?thesis using c(1) by (intro exI [of _ d]) simp
    qed
  qed (use c0 c(2) in simp_all)
  ultimately show ?thesis by (simp add: members_ok_def)
qed

lemma members_ok_add_guild:
  assumes "members_ok C w" "add_guild g n w = Some (w', b)"
  shows "members_ok C w'"
  using assms(1) by (rule members_ok_cong) (use assms(2) in \<open>auto simp: add_guild_def row_def pguild_def split: if_splits\<close>)

lemma managed_found:
  assumes m: "managed w" and k: "has_player w k" and new: "w_guilds w g = None" and n: "guild_name_map w name = None"
    and add: "add_guild g name (found now g k name logo (w\<lparr>w_CurrentGuildId := c\<rparr>)) = Some (w', b)"
  shows "managed w'"
proof -
  let ?v = "found now g k name logo (w\<lparr>w_CurrentGuildId := c\<rparr>)"
  note D = managedD [OF m]
  have "has_player (w\<lparr>w_CurrentGuildId := c\<rparr>) k" using k by simp
  note V = found_view [OF this]
  have f: "guild_ids ?v = guild_ids w" "guild_id_map ?v = guild_id_map w" "guilds_ex_map ?v = guilds_ex_map w"
    "guild_name_map ?v = guild_name_map w" by (simp_all add: found_def)
  have ng: "\<not> standing w g" using new by (simp add: standing_def)
  then have "guild_id_map w g = None" using D(4) by simp
  then have w': "guild_ids w' = guild_ids w @ [g]" "guild_id_map w' = (guild_id_map w)(g \<mapsto> g)"
    "guild_name_map w' = (guild_name_map w)(name \<mapsto> g)" "guilds_ex_map w' = (guilds_ex_map w)(g \<mapsto> 0)"
    "length (guild_ids w) < GUILD_MAX_NUM" "\<And>j. row w' j = row ?v j" "w_guilds w' = w_guilds ?v"
    using add n by (auto simp: add_guild_def f row_def split: if_splits)
  have a: "standing w' j \<longleftrightarrow> j = g \<or> standing w j" for j by (auto simp: standing_def w'(6,7) V)
  have names: "guild_name_map w' x = Some j \<longleftrightarrow> standing w' j \<and> gr_Name (row w' j) = x" for x j
    using D(6) [of x j] D(6) [of name j] n ng by (auto simp: a w' V)
  show ?thesis
    using D(1-5) ng unfolding managed_def names by (auto simp: a w'(1,2,4) dom_def fun_eq_iff) (use w'(5) in simp)+
qed

section \<open>Looking a guild up\<close>

lemma dismiss_cases:
  obtains (stays) "fst (guild_get_dismiss_remain_seconds C now g w) = w"
  | (ends) "gr_ExistType (row w g) = 1" "fst (guild_get_dismiss_remain_seconds C now g w) = expire g w"
proof (cases "gr_ExistType (row w g) = 1 \<and> GetRemainSeconds now (gr_DismissTime (row w g)) (GuildDismissWaitingSeconds C) = 0")
  case True
  then show ?thesis using ends by (simp add: guild_get_dismiss_remain_seconds_def expire_def)
next
  case False
  then show ?thesis using stays by (auto simp: guild_get_dismiss_remain_seconds_def Let_def)
qed

lemma GetGuild_cases:
  assumes "GetGuild C now g w = (w', b)"
  obtains (there) "w' = w" "b" "standing w g"
  | (gone) "w' = w" "\<not> b" "\<not> standing w g"
  | (expired) "w' = expire g w" "\<not> b" "standing w g"
proof (cases "w_guilds w g")
  case None
  then show ?thesis using assms gone by (auto simp: GetGuild_def standing_def)
next
  case (Some r)
  then have b: "w' = fst (guild_get_dismiss_remain_seconds C now g w)" "b = (gr_ExistType (row w' g) \<noteq> 2)"
    using assms by (auto simp: GetGuild_def guild_get_exist_type_def Let_def)
  show ?thesis
  proof (cases rule: dismiss_cases [of C now g w])
    case stays
    then show ?thesis using b Some there gone by (cases b) (auto simp: standing_def)
  next
    case ends
    then show ?thesis using b Some expired by (auto simp: standing_def expire_view)
  qed
qed

text \<open>What a player who has the guild \<open>g\<close> may rely on.\<close>

definition in_guild :: "World \<Rightarrow> int \<Rightarrow> int \<Rightarrow> bool" where
  "in_guild w k g \<longleftrightarrow> has_player w k \<and> pg_Id (pguild w k) = g \<and> standing w g \<and> is_member w g k \<and> 0 < g"

definition presides :: "World \<Rightarrow> int \<Rightarrow> int \<Rightarrow> bool" where
  "presides w k g \<longleftrightarrow> gr_President (row w g) = k"

lemma get_guild_cases:
  assumes ok: "members_ok C w" and get: "get_guild C now k p w = (w', r)"
  obtains (none) "r = None" "w' = w \<or> (\<exists>g. standing w g \<and> w' = expire g w)"
  | (guild) g where "r = Some g" "w' = w" "in_guild w k g" "p \<longrightarrow> gr_President (row w g) = k"
proof -
  note D = members_okD [OF ok]
  let ?g = "pg_Id (pguild w k)"
  consider "\<not> has_player w k \<or> ?g \<le> 0" | "has_player w k" "0 < ?g" by linarith
  then show ?thesis
  proof cases
    case 1
    then show ?thesis using get none by (auto simp: get_guild_def Let_def split: if_splits)
  next
    case 2
    obtain v b where v: "GetGuild C now ?g w = (v, b)" by force
    then show ?thesis
    proof (cases rule: GetGuild_cases)
      case there
      have a: "is_member w ?g k" using has_guild(2) [OF ok] 2 by simp
      have "repair_position ?g k w = w" using D(4-6) [of k] 2 by (auto simp: repair_position_def Let_def)
      moreover have "repair_member ?g k w = w" using a by (simp add: repair_member_def)
      ultimately have "w' = w" "r = None \<or> r = Some ?g \<and> (p \<longrightarrow> gr_President (row w ?g) = k)"
        using get 2 v there by (auto simp: get_guild_def Let_def split: if_splits)
      then show ?thesis using none guild [of ?g] 2 a there by (auto simp: in_guild_def)
    next
      case gone
      then show ?thesis using get 2 v none by (auto simp: get_guild_def Let_def split: if_splits)
    next
      case expired
      then show ?thesis using get 2 v none by (auto simp: get_guild_def Let_def split: if_splits)
    qed
  qed
qed

text \<open>A player whose guild is not found has none.\<close>

lemma name_map_expire: "guild_name_map w n = None \<Longrightarrow> guild_name_map (expire g w) n = None"
  using leave_deleted_manager [of w g "map fst (gr_Members (row w g))"]
  by (auto simp: expire_def remove_guild_row_def remove_guild_def same_manager_def)

lemma looked_in_vain:
  assumes ok: "members_ok C w"
    and u: "(if 0 < pg_Id (pguild w k) then GetGuild C now (pg_Id (pguild w k)) w else (w, False)) = (u, b)" and "\<not> b"
  shows "pg_Id (pguild u k) = 0" "guild_name_map w n = None \<Longrightarrow> guild_name_map u n = None"
    "w_CurrentGuildId u = w_CurrentGuildId w" "has_player u j = has_player w j"
proof -
  let ?g = "pg_Id (pguild w k)"
  have "(?g = 0 \<and> u = w) \<or> (?g \<noteq> 0 \<and> u = expire ?g w)"
  proof (cases "0 < ?g")
    case True
    with u have "GetGuild C now ?g w = (u, b)" by simp
    then show ?thesis by (cases rule: GetGuild_cases) (use assms(3) True has_guild(1) [OF ok, of k] in auto)
  next
    case False
    then show ?thesis using u has_guild(4) [OF ok, of k] by auto
  qed
  then show "pg_Id (pguild u k) = 0" "guild_name_map w n = None \<Longrightarrow> guild_name_map u n = None"
    "w_CurrentGuildId u = w_CurrentGuildId w" "has_player u j = has_player w j"
    using has_guild(2) [OF ok, of k] by (auto simp: expire_view name_map_expire)
qed

section \<open>Every request keeps an invariant of the guilds\<close>

locale guild_invariant =
  fixes C :: guild_config and inv :: "World \<Rightarrow> bool" and may_rename :: "World \<Rightarrow> int \<Rightarrow> string \<Rightarrow> bool"
  assumes members: "inv w \<Longrightarrow> members_ok C w"
    and quiet_change: "inv w \<Longrightarrow> quiet w w' \<Longrightarrow> inv w'"
    and deletes: "inv w \<Longrightarrow> standing w g \<Longrightarrow> inv (expire g w)"
    and joins: "inv w \<Longrightarrow> standing w g \<Longrightarrow> has_player w k \<Longrightarrow> pg_Id (pguild w k) = 0 \<Longrightarrow> inv (join now g k w)"
    and leaves: "inv w \<Longrightarrow> is_member w g k \<Longrightarrow> gr_President (row w g) \<noteq> k \<Longrightarrow> inv (leave now g k w)"
    and positions: "inv w \<Longrightarrow> is_member w g k \<Longrightarrow> gr_President (row w g) \<noteq> k \<Longrightarrow> p = 0 \<or> p = 2 \<Longrightarrow>
      inv (set_pguild k (\<lambda>d. d\<lparr>pg_Position := p\<rparr>) w)"
    and hands_over: "inv w \<Longrightarrow> is_member w g k \<Longrightarrow> gr_President (row w g) = me \<Longrightarrow> me \<noteq> k \<Longrightarrow> inv (hand_over g me k w)"
    and marks: "inv w \<Longrightarrow> standing w g \<Longrightarrow> e \<noteq> 2 \<Longrightarrow> inv (mark g t e w)"
    and renames: "inv w \<Longrightarrow> standing w g \<Longrightarrow> may_rename w g n \<Longrightarrow> inv (fst (change_name g n w))"
    and founds: "inv w \<Longrightarrow> has_player w k \<Longrightarrow> pg_Id (pguild w k) = 0 \<Longrightarrow> guild_name_map w name = None \<Longrightarrow>
      c = w_CurrentGuildId w + 1 \<Longrightarrow> c < 2 ^ 20 \<Longrightarrow> g = GenerateGuildId (gc_ServerId C) c \<Longrightarrow>
      add_guild g name (found now g k name logo (w\<lparr>w_CurrentGuildId := c\<rparr>)) = Some (w', b) \<Longrightarrow> inv w'"
begin

lemma GetGuild_inv:
  assumes "inv w" "GetGuild C now g w = (w', b)"
  shows "inv w'"
  using assms(2) by (cases rule: GetGuild_cases) (use assms(1) deletes in auto)

lemma get_guild_inv:
  assumes "inv w" "get_guild C now k p w = (w', r)"
  shows "inv w'"
  using members [OF assms(1)] assms(2) by (cases rule: get_guild_cases) (use assms(1) deletes in auto)

lemma quiet_row: "inv w \<Longrightarrow> (\<And>r. row_view (f r) = row_view r) \<Longrightarrow> inv (set_row g f w)"
  using quiet_change quiet_set_row by blast

text \<open>The shape of most handlers: look the guild up, fail or go on with a member of it.\<close>

lemma with_guild:
  assumes "inv w" "\<And>g. in_guild w me g \<Longrightarrow> p \<longrightarrow> presides w me g \<Longrightarrow> inv (snd (f w g))"
  shows "inv (snd (case get_guild C now me p w of (w', None) \<Rightarrow> (Inl e, w') | (w', Some g) \<Rightarrow> f w' g))"
proof -
  obtain w' r where g: "get_guild C now me p w = (w', r)" by force
  from members [OF assms(1)] g show ?thesis
    by (cases rule: get_guild_cases) (use get_guild_inv [OF assms(1) g] assms(2) g in \<open>auto simp: presides_def\<close>)
qed

lemma dismiss_inv:
  assumes "inv w" "w_guilds w g \<noteq> None"
  shows "inv (fst (guild_get_dismiss_remain_seconds C now g w))"
  by (cases rule: dismiss_cases [of C now g w]) (use assms deletes [of w g] in \<open>auto simp: standing_def\<close>)

lemma fold_inv: "inv w \<Longrightarrow> (\<And>k w. k \<in> set ks \<Longrightarrow> inv w \<Longrightarrow> inv (f k w)) \<Longrightarrow> inv (fold f ks w)"
  by (induction ks arbitrary: w) auto

lemma format_inv:
  assumes "inv w" "w_guilds w g \<noteq> None"
  shows "inv (format_guild_info C now g w)"
proof -
  define v where "v = (if gr_Level (row w g) \<le> 0 then set_row g (\<lambda>r. r\<lparr>gr_Level := 1\<rparr>) w else w)"
  have "quiet w v" by (auto simp: v_def row_view_def intro!: quiet_set_row)
  then have "inv v" "w_guilds v g \<noteq> None" using assms quiet_change quietD(2) by auto
  then show ?thesis using dismiss_inv [of v g now] by (simp add: format_guild_info_def v_def [symmetric] Let_def)
qed

lemma send_data_inv: "inv w \<Longrightarrow> inv (snd (send_guild_data C now me w))"
proof -
  assume i: "inv w"
  obtain v b where v: "GetGuild C now (pg_Id (pguild w me)) w = (v, b)" by force
  have "inv v" using GetGuild_inv [OF i v] .
  moreover have "b \<Longrightarrow> w_guilds v (pg_Id (pguild w me)) \<noteq> None"
    using v by (cases rule: GetGuild_cases) (auto simp: standing_def)
  ultimately show ?thesis using i format_inv [of v "pg_Id (pguild w me)" now] v
    by (auto simp: send_guild_data_def Let_def)
qed

end

end
