(* ===== verification/Guild_Steps.thy ===== *)
theory Guild_Steps
  imports Guild_Correct
begin

text \<open>
  Every request of a player keeps an invariant of the guilds (\<open>guild_invariant\<close>), handler by handler, and the two
  interpretations: the agreement of members and presidents, and with it the lists of the manager as long as nobody
  gives his guild the name of another.
\<close>

section \<open>The handlers\<close>

context guild_invariant begin

lemma marks_row: "inv w \<Longrightarrow> standing w g \<Longrightarrow> e \<noteq> 2 \<Longrightarrow> inv (set_row g (\<lambda>r. r\<lparr>gr_DismissTime := t, gr_ExistType := e\<rparr>) w)"
  using marks [of w g e t] by (simp add: mark_def)

lemma quiet_pguild:
  "inv w \<Longrightarrow> (\<And>d. pg_Id (f d) = pg_Id d) \<Longrightarrow> (\<And>d. pg_Position (f d) = pg_Position d) \<Longrightarrow> inv (set_pguild k f w)"
  using quiet_change quiet_set_pguild by blast

lemma quiet_others: "inv w \<Longrightarrow> inv (tell e w)" "inv w \<Longrightarrow> inv (set_player k p w)" "inv w \<Longrightarrow> inv (w\<lparr>w_draws := ds\<rparr>)"
  "inv w \<Longrightarrow> inv (push_new_guild_log now g t k w)"
  by (auto intro: quiet_change)

lemma look_all: "inv w \<Longrightarrow> inv (fold (\<lambda>g w. fst (GetGuild C now g w)) gs w)"
  by (rule fold_inv) (auto intro: GetGuild_inv surjective_pairing)

lemma dismiss_request: "inv w \<Longrightarrow> inv (snd (guild_dismiss C now me w))"
  unfolding guild_dismiss_def by (rule with_guild) (auto simp: in_guild_def intro: marks_row)

lemma cancel_dismiss_request: "inv w \<Longrightarrow> inv (snd (guild_cancel_dismiss C now me w))"
  unfolding guild_cancel_dismiss_def by (rule with_guild) (auto simp: in_guild_def intro: marks_row)

lemma anouncement_request: "inv w \<Longrightarrow> inv (snd (guild_anouncement C now s me w))"
  unfolding guild_anouncement_def by (rule with_guild) (auto simp: row_view_def intro: quiet_row)

lemma recommend_request: "inv w \<Longrightarrow> inv (snd (guild_recommend C now me w))"
proof -
  assume i: "inv w"
  obtain v b where v: "GetGuild C now (pg_Id (pguild w me)) w = (v, b)" by force
  then have "inv v" using GetGuild_inv [OF i] by blast
  with i v have "inv (snd (Recommend C now me w))"
    by (auto simp: Recommend_def Let_def split: prod.splits if_splits intro: quiet_others)
  then show ?thesis
    using i by (auto simp: guild_recommend_def split: prod.splits sum.splits intro: look_all)
qed

lemma search_request: "inv w \<Longrightarrow> inv (snd (guild_search C now key me w))"
  by (auto simp: guild_search_def intro: look_all)

lemma ask_list_request: "inv w \<Longrightarrow> inv (snd (guild_ask_list C now me w))"
  unfolding guild_ask_list_def by (rule with_guild) auto

lemma logs_request: "inv w \<Longrightarrow> inv (snd (guild_logs C now me w))"
  unfolding guild_logs_def by (rule with_guild) auto

lemma ask_join_request: "inv w \<Longrightarrow> inv (snd (guild_ask_join C now g me w))"
proof -
  assume i: "inv w"
  obtain v b where v: "GetGuild C now g w = (v, b)" by force
  then have "inv v" using GetGuild_inv [OF i] by blast
  with i v show ?thesis
    by (auto simp: guild_ask_join_def Let_def row_view_def intro: quiet_row)
qed

text \<open>A member is a player, so the list of members stays.\<close>

lemma drop_nobody: "\<forall>k \<in> set ks. has_player w k \<Longrightarrow>
    fold (\<lambda>k w. if has_player w k then w else set_row g (\<lambda>r. r\<lparr>gr_Members := col_Remove k (gr_Members r)\<rparr>) w) ks w = w"
  by (induction ks) auto

lemma members_are_players:
  assumes "inv w" "k \<in> set (map fst (gr_Members (row w g)))"
  shows "has_player w k"
proof -
  have "is_member w g k" using assms(2) by (simp only: is_member_fst)
  then have "pg_Id (pguild w k) \<noteq> 0" using members_okD(1) [OF members [OF assms(1)], of g k] by simp
  then show ?thesis by (rule has_guild(3) [OF members [OF assms(1)]])
qed

lemma members_list_request: "inv w \<Longrightarrow> inv (snd (guild_members_list C now me w))"
  unfolding guild_members_list_def
  by (rule with_guild, assumption, subst drop_nobody) (use members_are_players in blast, simp)

lemma agree_one_inv:
  assumes i: "inv w" and g: "standing w g"
  shows "inv (agree_one now g refuse k w) \<and> standing (agree_one now g refuse k w) g"
proof -
  have un: "inv (unask g k v) \<and> standing (unask g k v) g" if "inv v" "standing v g" for v
    using that by (auto simp: unask_def row_view_def standing_def row_set_row w_guilds_set_row intro: quiet_row)
  have "pg_Id (pguild w k) = 0" if "\<not> 0 < pg_Id (pguild w k)"
    using that has_guild(4) [OF members [OF i], of k] by auto
  moreover have "take_in now g k w = push_new_guild_log now g 2 k (join now g k w)"
    by (simp add: take_in_def join_def)
  moreover have "standing (join now g k w) g" using g by (auto simp: join_def standing_def row_set_row w_guilds_set_row)
  ultimately show ?thesis
    using i g un joins [OF i g, of k] quietD(3) [OF quiet_log]
    by (auto simp: agree_one_def intro!: un quiet_others)
qed

lemma agree_join_request: "inv w \<Longrightarrow> inv (snd (guild_agree_join C now ks refuse me w))"
proof -
  assume i: "inv w"
  have all: "inv (fold (agree_one now g refuse) ks v) \<and> standing (fold (agree_one now g refuse) ks v) g"
    if "inv v" "standing v g" for v g ks refuse
    using that agree_one_inv by (induction ks arbitrary: v) auto
  have told: "inv (fold (\<lambda>k w. if has_player w k then tell (GuildAgreeJoinNotify k g) w else w) ks v)" if "inv v" for v g
    using that by (rule fold_inv) (auto intro: quiet_others)
  show ?thesis
  proof (cases "ks = []")
    case False
    then show ?thesis unfolding guild_agree_join_def if_not_P [OF False]
      by (intro with_guild [OF i]) (auto simp: in_guild_def Let_def i all told)
  qed (use i in \<open>simp add: guild_agree_join_def\<close>)
qed

lemma quit_request: "inv w \<Longrightarrow> inv (snd (guild_quit C now me w))"
  unfolding guild_quit_def by (rule with_guild) (auto simp: in_guild_def intro: quiet_others leaves)

lemma sign_in_request: "inv w \<Longrightarrow> inv (snd (guild_sign_in C now me w))"
proof -
  assume i: "inv w"
  have e: "inv (fst (guild_add_exp C g n v))" if "inv v" for v g n
    using that by (auto simp: guild_add_exp_def Let_def row_view_def split: prod.splits intro: quiet_row)
  have "inv (snd (guild_can_sign_in C now me w))"
    unfolding guild_can_sign_in_def by (rule with_guild [OF i]) (auto simp: i)
  then show ?thesis
    by (auto simp: guild_sign_in_def Let_def split: prod.splits sum.splits intro!: e quiet_others quiet_pguild)
qed

lemma set_officer_request: "inv w \<Longrightarrow> inv (snd (guild_set_officer C now ks t me w))"
proof -
  assume i: "inv w"
  have pos: "inv (fold (set_position g me p) ks v)" if "inv v" "presides v me g" "p = 0 \<or> p = 2" for v g p ks
    using that
  proof (induction ks arbitrary: v)
    case (Cons k ks)
    then show ?case using positions [of v g k p] by (auto simp: set_position_def presides_def)
  qed simp
  have told: "inv (fold (tell_officer now g t p) ks v)" if "inv v" for v g t p ks
    using that by (rule fold_inv) (auto simp: tell_officer_def Let_def intro!: quiet_others)
  show ?thesis unfolding guild_set_officer_def
    by (rule with_guild [OF i]) (auto simp: Let_def i intro!: told pos)
qed

lemma kick_one_inv: "inv w \<Longrightarrow> inv (kick_one now g me k w)"
proof -
  assume i: "inv w"
  have "gr_President (row w g) \<noteq> k" if "is_member w g k" "pg_Position (pguild w k) = 0"
    using that members_okD(1) [OF members [OF i], of g k] members_okD(6) [OF members [OF i], of k] by auto
  with i show ?thesis by (auto simp: kick_one_def intro: leaves)
qed

lemma kick_request: "inv w \<Longrightarrow> inv (snd (guild_kick_member C now ks me w))"
proof -
  assume i: "inv w"
  have told: "inv (fold (tell_kicked now g) js v)" if "inv v" for v g js
    using that by (rule fold_inv) (auto simp: tell_kicked_def intro!: quiet_others)
  have kicked: "inv (fold (kick_one now g me) js v)" if "inv v" for v g js
    using that by (rule fold_inv) (auto intro: kick_one_inv)
  show ?thesis
  proof (cases ks)
    case (Some js)
    then show ?thesis unfolding guild_kick_member_def Some option.case
      by (intro with_guild [OF i]) (auto simp: i intro!: told kicked)
  qed (use i in \<open>simp add: guild_kick_member_def\<close>)
qed

lemma change_president_request: "inv w \<Longrightarrow> inv (snd (guild_change_president C now k me w))"
proof -
  assume i: "inv w"
  show ?thesis
  proof (cases "k = me \<or> \<not> has_player w k")
    case False
    have h: "inv (set_pguild k (\<lambda>d. d\<lparr>pg_Position := GUILD_POSITION_PRESIDENT\<rparr>)
        (set_pguild me (\<lambda>d. d\<lparr>pg_Position := GUILD_POSITION_MEMBER\<rparr>) (set_row g (\<lambda>r. r\<lparr>gr_President := k\<rparr>) w)))"
      if "is_member w g k" "presides w me g" for g
      using hands_over [OF i that(1)] that(2) False by (auto simp: hand_over_def presides_def)
    from False have "k \<noteq> me" "\<not> \<not> has_player w k" by auto
    then show ?thesis unfolding guild_change_president_def if_not_P [OF \<open>k \<noteq> me\<close>] if_not_P [OF \<open>\<not> \<not> has_player w k\<close>]
      by (intro with_guild [OF i]) (auto simp: Let_def i intro!: quiet_others h)
  qed (use i in \<open>auto simp: guild_change_president_def\<close>)
qed

lemma check_donate_list_inv: "inv w \<Longrightarrow> inv (guild_check_donate_list C now g w)"
  unfolding guild_check_donate_list_def
  by (rule fold_inv) (auto simp: check_donate_def row_view_def split: option.splits intro!: quiet_others quiet_row)

lemma donate_refresh_inv: "inv w \<Longrightarrow> inv (fst (guild_check_donate_refresh C now me w))"
proof -
  assume i: "inv w"
  obtain v r where v: "get_guild C now me False w = (v, r)" by force
  then have "inv v" using get_guild_inv [OF i] by blast
  with v show ?thesis
    by (auto simp: guild_check_donate_refresh_def Let_def split: option.splits intro!: send_data_inv quiet_pguild)
qed

lemma donate_list_request: "inv w \<Longrightarrow> inv (snd (guild_donate_list C now me w))"
  unfolding guild_donate_list_def by (rule with_guild) (auto intro: check_donate_list_inv)

lemma ask_donate_request: "inv w \<Longrightarrow> inv (snd (guild_ask_donate C now item_id me w))"
proof (cases "guild_donate_table C item_id")
  case (Some item)
  assume i: "inv w"
  show ?thesis unfolding guild_ask_donate_def Some option.case
    by (rule with_guild [OF i])
       (auto simp: Let_def row_view_def intro!: quiet_pguild quiet_row donate_refresh_inv check_donate_list_inv i)
qed (simp add: guild_ask_donate_def)

lemma give_inv: "inv w \<Longrightarrow> inv (fst (give_one C item g me a k w))"
  by (auto simp: give_one_def row_view_def intro!: quiet_others quiet_row)

lemma finish_inv: "inv w \<Longrightarrow> inv (fst (finish_request C item g item_id n k w))"
  by (auto simp: finish_request_def row_view_def intro!: quiet_others quiet_row)

lemma donate_request: "inv w \<Longrightarrow> inv (snd (guild_donate C now k me w))"
proof -
  assume i: "inv w"
  show ?thesis
  proof (cases "me = k \<or> \<not> has_player w k")
    case False
    then have f: "me \<noteq> k" "\<not> \<not> has_player w k" by auto
    have v: "inv (fst (guild_check_donate_refresh C now me (guild_check_donate_list C now g w)))" for g
      by (intro donate_refresh_inv check_donate_list_inv i)
    show ?thesis unfolding guild_donate_def if_not_P [OF f(1)] if_not_P [OF f(2)]
      by (rule with_guild [OF i])
         (auto simp: Let_def case_prod_beta split: option.splits
           intro!: v quiet_others quiet_pguild give_inv finish_inv)
  qed (use i in \<open>auto simp: guild_donate_def\<close>)
qed

lemma info_modify_request:
  assumes i: "inv w" and may: "name \<noteq> [] \<Longrightarrow> may_rename w (pg_Id (pguild w me)) name"
  shows "inv (snd (guild_info_modify C now name logo me w))"
proof -
  have logo: "inv (set_row g (\<lambda>r. r\<lparr>gr_Logo := logo\<rparr>) v)" if "inv v" for v g
    using that by (auto simp: row_view_def intro: quiet_row)
  have named: "inv (fst (change_name g name w))" if "name \<noteq> []" "in_guild w me g" for g
    using renames [OF i] may [OF that(1)] that(2) by (auto simp: in_guild_def)
  show ?thesis unfolding guild_info_modify_def
    by (rule with_guild [OF i]) (auto simp: Let_def case_prod_beta i named intro!: logo quiet_others)
qed

lemma create_request:
  assumes i: "inv w" and few: "w_CurrentGuildId w < 2 ^ 20 - 1" and run: "guild_create C now name text logo me w = Some (r, w')"
  shows "inv w'"
proof -
  have c0: "0 \<le> w_CurrentGuildId w" using members [OF i] by (simp add: members_ok_def rows_numbered_def)
  have create: "inv v" if cr: "CreateGuild C now me name logo w = Some (x, v)" for x v
  proof -
    obtain u b where u: "(if 0 < pg_Id (pguild w me) then GetGuild C now (pg_Id (pguild w me)) w else (w, False)) = (u, b)" by force
    then have iu: "inv u" using i GetGuild_inv [OF i] by (auto split: if_splits)
    show ?thesis
    proof (cases "has_player w me \<and> \<not> GuildNameLength C < i32 (int (length name)) \<and> \<not> has_guild_by_name w name \<and> \<not> b")
      case False
      then show ?thesis using cr u i iu by (auto simp: CreateGuild_def Let_def split: if_splits)
    next
      case True
      note e = looked_in_vain [OF members [OF i] u] 
      have eu: "pg_Id (pguild u me) = 0" "guild_name_map u name = None" "w_CurrentGuildId u = w_CurrentGuildId w" "has_player u me"
        using e True by (auto simp: has_guild_by_name_def)
      define c where "c = w_CurrentGuildId w + 1"
      have ci: "i32 c = c" "c < 2 ^ 20" using c0 few by (simp_all add: c_def)
      define g where "g = GenerateGuildId (gc_ServerId C) c"
      have new: "w_guilds u g = None"
        unfolding g_def using ci(2) eu(3) by (intro fresh_number [OF members [OF iu]]) (auto simp: c_def)
      have "map_option (\<lambda>(w, _). (Inr g, w)) (add_guild g name (found now g me name logo (u\<lparr>w_CurrentGuildId := c\<rparr>))) =
          Some (x, v)"
        using cr u True new eu(3) ci(1)
        by (simp add: CreateGuild_def GetNextGuildId_def found_def c_def g_def Let_def)
      then have "\<exists>b. add_guild g name (found now g me name logo (u\<lparr>w_CurrentGuildId := c\<rparr>)) = Some (v, b)" by auto
      then show ?thesis using founds [OF iu eu(4,1,2) _ ci(2) g_def] eu(3) by (auto simp: c_def)
    qed
  qed
  have there: "w_guilds v g \<noteq> None" if "GetGuild C now g u = (v, True)" for v u g
    using that by (cases rule: GetGuild_cases) (auto simp: standing_def)
  show ?thesis
  proof (cases "p_Lvl_of w me < GuildOpenLevel C \<or> p_Diamond_of w me < GuildCreateCostGem C")
    case False
    then obtain x v where xv: "CreateGuild C now me name logo w = Some (x, v)"
      using run by (auto simp: guild_create_def split: option.splits)
    then have iv: "inv v" by (rule create)
    show ?thesis
    proof (cases x)
      case (Inr g)
      define u where "u = set_player me (\<lambda>p. fst (add_diamond (i32 (- GuildCreateCostGem C)) p)) v"
      have iu: "inv u" using iv by (simp add: u_def quiet_others)
      obtain y b where y: "GetGuild C now g u = (y, b)" by force
      then have iy: "inv y" using GetGuild_inv [OF iu] by blast
      have "inv (push_new_guild_log now g 1 me (format_guild_info C now g (set_row g (\<lambda>r. r\<lparr>gr_Anouncement := text\<rparr>) y)))" if b
        using that there [of g u y] y iy
        by (intro quiet_others format_inv quiet_row) (auto simp: row_view_def w_guilds_set_row)
      then show ?thesis using run False xv Inr iv iy y
        by (auto simp: guild_create_def u_def [symmetric] Let_def split: if_splits)
    qed (use run False xv iv in \<open>auto simp: guild_create_def\<close>)
  qed (use run i in \<open>auto simp: guild_create_def split: if_splits\<close>)
qed

end

section \<open>Runs of the server\<close>

text \<open>A server numbers fewer than \<open>2 ^ 20\<close> guilds; a new name may be asked for when the condition says so.\<close>

definition request_ok :: "(World \<Rightarrow> int \<Rightarrow> string \<Rightarrow> bool) \<Rightarrow> World \<Rightarrow> int \<Rightarrow> guild_request \<Rightarrow> bool" where
  "request_ok may w me q =
     (case q of
        C2SGuildCreate _ _ _ \<Rightarrow> w_CurrentGuildId w < 2 ^ 20 - 1
      | C2SGuildInfoModify name _ \<Rightarrow> name = [] \<or> may w (pg_Id (pguild w me)) name
      | _ \<Rightarrow> True)"

definition new_player :: "int \<Rightarrow> Player \<Rightarrow> World \<Rightarrow> World" where
  "new_player k p w = w\<lparr>w_players := (w_players w)(k \<mapsto> \<lparr>gp_player = p, gp_guild = no_guild\<rparr>)\<rparr>"

text \<open>The requests of the players, at any times, and what the rest of the server does in between: players come, their
  belongings change, fights against the boss of a guild begin and end.\<close>

inductive guild_run :: "guild_config \<Rightarrow> (World \<Rightarrow> int \<Rightarrow> string \<Rightarrow> bool) \<Rightarrow> World \<Rightarrow> World \<Rightarrow> bool"
  for C :: guild_config and may :: "World \<Rightarrow> int \<Rightarrow> string \<Rightarrow> bool" and w0 :: World where
  start: "guild_run C may w0 w0"
| request: "guild_run C may w0 w \<Longrightarrow> request_ok may w me q \<Longrightarrow> handle_request C now me q w = Some (r, w') \<Longrightarrow> guild_run C may w0 w'"
| arrives: "guild_run C may w0 w \<Longrightarrow> \<not> has_player w k \<Longrightarrow> guild_run C may w0 (new_player k p w)"
| belongings: "guild_run C may w0 w \<Longrightarrow> guild_run C may w0 (set_player k f w)"
| fight_begins: "guild_run C may w0 w \<Longrightarrow> guild_run C may w0 (fst (CanStageFight g w))"
| fight_ends: "guild_run C may w0 w \<Longrightarrow> guild_run C may w0 (fst (CancelStageFight g w))"

lemma quiet_new_player: "\<not> has_player w k \<Longrightarrow> quiet w (new_player k p w)"
  by (auto simp: quiet_def new_player_def pguild_def has_player_def)

lemma quiet_fights: "quiet w (fst (CanStageFight g w))" "quiet w (fst (CancelStageFight g w))"
  by (auto simp: quiet_def CanStageFight_def CancelStageFight_def pguild_def dom_def)

context guild_invariant begin

lemma request_inv:
  assumes i: "inv w" and q: "request_ok may_rename w me q" and run: "handle_request C now me q w = Some (r, w')"
  shows "inv w'"
proof -
  note all = send_data_inv recommend_request search_request dismiss_request cancel_dismiss_request anouncement_request
    members_list_request ask_join_request agree_join_request ask_list_request quit_request logs_request sign_in_request
    set_officer_request kick_request change_president_request donate_list_request ask_donate_request donate_request
  show ?thesis
  proof (cases q)
    case (C2SGuildCreate name s logo)
    then show ?thesis using create_request [OF i] q run by (simp add: request_ok_def)
  next
    case (C2SGuildInfoModify name logo)
    then show ?thesis using info_modify_request [OF i, of name me now logo] q run by (auto simp: request_ok_def)
  qed (use run i all in \<open>(simp, metis snd_conv)+\<close>)
qed

lemma run_inv: "guild_run C may_rename w0 w \<Longrightarrow> inv w0 \<Longrightarrow> inv w"
  by (induction rule: guild_run.induct)
     (auto intro: request_inv quiet_change quiet_new_player quiet_fights quiet_others)

end

text \<open>The members agree whatever the players ask for.\<close>

interpretation membership: guild_invariant C "members_ok C" "\<lambda>_ _ _. True" for C
proof unfold_locales
  fix w k name c g now logo w' b
  assume "members_ok C w" "has_player w k" "pg_Id (pguild w k) = 0" "c = w_CurrentGuildId w + 1" "c < 2 ^ 20"
    "g = GenerateGuildId (gc_ServerId C) c" "add_guild g name (found now g k name logo (w\<lparr>w_CurrentGuildId := c\<rparr>)) = Some (w', b)"
  then show "members_ok C w'" by (metis members_ok_found members_ok_add_guild)
qed (auto intro: members_ok_quiet members_ok_expire members_ok_join members_ok_leave members_ok_position
    members_ok_hand_over members_ok_mark members_ok_rename)

text \<open>The lists of the manager agree as long as a new name is free or the old one of the guild.\<close>

definition free_name :: "World \<Rightarrow> int \<Rightarrow> string \<Rightarrow> bool" where
  "free_name w g name \<longleftrightarrow> guild_name_map w name = None \<or> guild_name_map w name = Some g"

interpretation management: guild_invariant C "\<lambda>w. members_ok C w \<and> managed w" free_name for C
proof unfold_locales
  fix w k name c g now logo w' b
  assume a: "members_ok C w \<and> managed w" "has_player w k" "pg_Id (pguild w k) = 0" "guild_name_map w name = None"
    "c = w_CurrentGuildId w + 1" "c < 2 ^ 20" "g = GenerateGuildId (gc_ServerId C) c"
    "add_guild g name (found now g k name logo (w\<lparr>w_CurrentGuildId := c\<rparr>)) = Some (w', b)"
  then have "w_guilds w g = None" using fresh_number [of C w c] by simp
  with a show "members_ok C w' \<and> managed w'" by (metis membership.founds managed_found)
qed (auto simp: free_name_def intro: members_ok_quiet members_ok_expire members_ok_join members_ok_leave members_ok_position
    members_ok_hand_over members_ok_mark members_ok_rename managed_quiet managed_expire managed_join managed_leave
    managed_position managed_hand_over managed_mark managed_rename)

end
