(* ===== verification/Guild_Donations.thy ===== *)
theory Guild_Donations
  imports Guild_Steps Player_Purse
begin

text \<open>
  Donations: of every ordinary kind of resource the players and the open requests of a guild together hold as much after
  a request to give, to ask or to look as before, apart from the reward of the giver.
\<close>

section \<open>What the players and the requests hold\<close>

definition asked_for :: "World \<Rightarrow> int \<Rightarrow> int \<Rightarrow> int" where
  "asked_for w g j = (\<Sum>x \<leftarrow> gr_AskDonates (row w g). if ask_ItemId (snd x) = j then ask_ItemNum (snd x) else 0)"

definition held :: "World \<Rightarrow> int \<Rightarrow> int" where
  "held w j = (\<Sum>k \<in> dom (w_players w). get_resource_of w k j)"

definition stock :: "World \<Rightarrow> int \<Rightarrow> int \<Rightarrow> int" where
  "stock w g j = held w j + asked_for w g j"

text \<open>Players and requests hold amounts; a request has at most what it asks for. No total is more than an \<open>int32\<close> holds.\<close>

definition request_fine :: "guild_config \<Rightarrow> dbGuildAskDonateData \<Rightarrow> bool" where
  "request_fine C a \<longleftrightarrow> 0 \<le> ask_ItemNum a \<and> ask_ItemId a \<in> ordinary (gc_tables C)
     \<and> (\<forall>item. guild_donate_table C (ask_ItemId a) = Some item \<longrightarrow> ask_ItemNum a \<le> RequestNum item)"

definition goods_ok :: "guild_config \<Rightarrow> int \<Rightarrow> World \<Rightarrow> bool" where
  "goods_ok C g w \<longleftrightarrow> finite (dom (w_players w)) \<and> (\<forall>k p. w_players w k = Some p \<longrightarrow> res_ok (gp_player p))
     \<and> col_ok (gr_AskDonates (row w g)) \<and> (\<forall>k a. col_Get (gr_AskDonates (row w g)) k = Some a \<longrightarrow> request_fine C a)
     \<and> (\<forall>j. stock w g j \<le> max_int32)"

text \<open>Changes that leave the goods alone.\<close>

definition same_goods :: "int \<Rightarrow> World \<Rightarrow> World \<Rightarrow> bool" where
  "same_goods g w w' \<longleftrightarrow> (\<forall>k. map_option gp_player (w_players w' k) = map_option gp_player (w_players w k))
     \<and> gr_AskDonates (row w' g) = gr_AskDonates (row w g)"

lemma same_goods_refl [simp]: "same_goods g w w"
  by (simp add: same_goods_def)

lemma same_goods_trans: "same_goods g w w' \<Longrightarrow> same_goods g w' w'' \<Longrightarrow> same_goods g w w''"
  by (simp add: same_goods_def)

lemma same_goods_stock:
  assumes "same_goods g w w'"
  shows "stock w' g j = stock w g j" "goods_ok C g w' = goods_ok C g w" "dom (w_players w') = dom (w_players w)"
    "get_resource_of w' k j = get_resource_of w k j"
proof -
  have m: "map_option gp_player (w_players w' k) = map_option gp_player (w_players w k)" for k
    using assms by (simp add: same_goods_def)
  have n: "(w_players w' k = None) = (w_players w k = None)" for k
    using m [of k] by (cases "w_players w k"; cases "w_players w' k") auto
  then show d: "dom (w_players w') = dom (w_players w)" by (auto simp: dom_def)
  have r: "get_resource_of w' k j = get_resource_of w k j" for k j
    using m [of k] by (auto simp: get_resource_of_def split: option.splits)
  then show "get_resource_of w' k j = get_resource_of w k j" .
  have a: "gr_AskDonates (row w' g) = gr_AskDonates (row w g)" using assms by (simp add: same_goods_def)
  have s: "stock w' g j = stock w g j" for j
    by (simp add: stock_def held_def asked_for_def d r a)
  then show "stock w' g j = stock w g j" .
  have "(\<forall>p. w_players w' k = Some p \<longrightarrow> res_ok (gp_player p)) = (\<forall>p. w_players w k = Some p \<longrightarrow> res_ok (gp_player p))" for k
    using m [of k] by (cases "w_players w k"; cases "w_players w' k") auto
  then show "goods_ok C g w' = goods_ok C g w" by (simp add: goods_ok_def d a s)
qed

lemma same_goods_ops:
  "same_goods g w (tell e w)" "same_goods g w (set_pguild k f w)" "same_goods g w (leave_deleted h k w)"
  "(\<And>r. gr_AskDonates (f' r) = gr_AskDonates r) \<Longrightarrow> same_goods g w (set_row h f' w)"
  by (auto simp: same_goods_def tell_def set_pguild_def leave_deleted_def row_def set_row_def split: option.splits)

lemma same_goods_fold: "(\<And>k w. same_goods g w (f k w)) \<Longrightarrow> same_goods g w (fold f ks w)"
  by (induction ks arbitrary: w) (auto intro: same_goods_trans)

lemma same_goods_expire: "same_goods g w (expire h w)"
proof -
  have r: "same_goods g v (fst (remove_guild h n v))" for v n
    by (auto simp: same_goods_def remove_guild_def row_def)
  have "same_goods g w (fold (leave_deleted h) (map fst (gr_Members (row w h))) w)"
    by (rule same_goods_fold) (rule same_goods_ops)
  then show ?thesis unfolding expire_def remove_guild_row_def
    by (rule same_goods_trans [OF same_goods_trans [OF _ same_goods_ops(4)] r]) simp
qed

lemma same_goods_GetGuild: "GetGuild C now h w = (w', b) \<Longrightarrow> same_goods g w w'"
  by (erule GetGuild_cases) (auto simp: same_goods_expire)

lemma same_goods_data: "same_goods g w (snd (send_guild_data C now me w))"
proof -
  obtain v b where v: "GetGuild C now (pg_Id (pguild w me)) w = (v, b)" by force
  have f: "same_goods g v (format_guild_info C now h v)" for h
  proof -
    define u where "u = (if gr_Level (row v h) \<le> 0 then set_row h (\<lambda>r. r\<lparr>gr_Level := 1\<rparr>) v else v)"
    have "same_goods g v u" by (auto simp: u_def intro: same_goods_ops)
    moreover have "same_goods g u (fst (guild_get_dismiss_remain_seconds C now h u))"
      by (cases rule: dismiss_cases [of C now h u]) (auto simp: same_goods_expire)
    ultimately show ?thesis unfolding format_guild_info_def u_def [symmetric] Let_def by (rule same_goods_trans)
  qed
  show ?thesis using v same_goods_GetGuild [OF v] same_goods_trans [OF same_goods_GetGuild [OF v] f]
    by (auto simp: send_guild_data_def Let_def)
qed

lemma same_goods_refresh:
  assumes "members_ok C w"
  shows "same_goods g w (fst (guild_check_donate_refresh C now me w))"
proof -
  obtain v r where v: "get_guild C now me False w = (v, r)" by force
  from assms v show ?thesis
  proof (cases rule: get_guild_cases)
    case none
    then have "same_goods g w v" using same_goods_expire by auto
    then show ?thesis using v none by (simp add: guild_check_donate_refresh_def)
  next
    case (guild h)
    then show ?thesis using v
      by (auto simp: guild_check_donate_refresh_def Let_def intro: same_goods_trans [OF same_goods_ops(2) same_goods_data])
  qed
qed

section \<open>Moving goods\<close>

lemma w_players_set_player:
  "w_players (set_player k f w) j = (if j = k then map_option (\<lambda>p. p\<lparr>gp_player := f (gp_player p)\<rparr>) (w_players w k) else w_players w j)"
  by (auto simp: set_player_def split: option.splits)

lemma w_players_set_row [simp]: "w_players (set_row g f w) = w_players w"
  by (simp add: set_row_def)

lemma dom_set_player [simp]: "dom (w_players (set_player k f w)) = dom (w_players w)"
  by (auto simp: w_players_set_player split: if_splits)

lemma get_resource_frame [simp]: "get_resource_of (set_row g h w) k j = get_resource_of w k j"
  by (simp add: get_resource_of_def)

lemma get_resource_set_player:
  "get_resource_of (set_player k f w) x j =
     (if x = k then (case w_players w k of None \<Rightarrow> 0 | Some p \<Rightarrow> get_resource (f (gp_player p)) j) else get_resource_of w x j)"
  by (auto simp: get_resource_of_def w_players_set_player split: option.splits)

lemma held_set_player:
  assumes "finite (dom (w_players w))" "w_players w k = Some p"
  shows "held (set_player k f w) j = held w j - get_resource (gp_player p) j + get_resource (f (gp_player p)) j"
proof -
  have k: "k \<in> dom (w_players w)" using assms(2) by auto
  have "(\<Sum>x \<in> dom (w_players w) - {k}. get_resource_of (set_player k f w) x j) = (\<Sum>x \<in> dom (w_players w) - {k}. get_resource_of w x j)"
    by (rule sum.cong) (auto simp: get_resource_set_player)
  then show ?thesis
    using assms unfolding held_def dom_set_player
    by (simp add: sum.remove [OF assms(1) k] get_resource_set_player) (simp add: get_resource_of_def)
qed

lemma sum_delete:
  fixes f :: "int \<times> 'd \<Rightarrow> int"
  assumes "distinct (map fst c)" "map_of c k = Some d"
  shows "(\<Sum>x \<leftarrow> AList.delete k c. f x) = (\<Sum>x \<leftarrow> c. f x) - f (k, d)"
  using assms
proof (induction c)
  case (Cons x c)
  show ?case
  proof (cases "fst x = k")
    case True
    then have "k \<notin> fst ` set c" using Cons.prems(1) by auto
    then have "AList.delete k c = c" by (simp add: AList.delete_id)
    then show ?thesis using True Cons.prems by (cases x) auto
  next
    case False
    then show ?thesis using Cons by (cases x) auto
  qed
qed simp

lemma res_amount: "res_ok p \<Longrightarrow> k \<in> ordinary T \<Longrightarrow> amount (get_resource p k)"
  using get_item_amount [of p k] by (auto simp: get_resource_def res_ok_def)

lemma goodsD:
  assumes "goods_ok C g w"
  shows "finite (dom (w_players w))" "w_players w k = Some p \<Longrightarrow> res_ok (gp_player p)" "col_ok (gr_AskDonates (row w g))"
    "col_Get (gr_AskDonates (row w g)) k = Some a \<Longrightarrow> request_fine C a" "stock w g j \<le> max_int32"
  using assms by (auto simp: goods_ok_def)

text \<open>No holding is more than the total.\<close>

lemma holding_bounds:
  assumes ok: "goods_ok C g w" and p: "w_players w k = Some p" and j: "j \<in> ordinary (gc_tables C)"
  shows "0 \<le> get_resource (gp_player p) j" "get_resource (gp_player p) j \<le> held w j" "0 \<le> asked_for w g j"
    "col_Get (gr_AskDonates (row w g)) x = Some a \<Longrightarrow> ask_ItemId a = j \<Longrightarrow> ask_ItemNum a \<le> asked_for w g j"
proof -
  note G = goodsD [OF ok]
  have pos: "0 \<le> get_resource_of w i j" for i
    using res_amount [OF G(2) j] by (auto simp: get_resource_of_def amount_def split: option.splits)
  then show "0 \<le> get_resource (gp_player p) j" using p pos [of k] by (simp add: get_resource_of_def)
  have "get_resource_of w k j \<le> held w j"
    unfolding held_def using G(1) p pos by (intro member_le_sum) auto
  then show "get_resource (gp_player p) j \<le> held w j" using p by (simp add: get_resource_of_def)
  have fine: "request_fine C (snd y)" if "y \<in> set (gr_AskDonates (row w g))" for y
    using map_of_is_SomeI [of "gr_AskDonates (row w g)" "fst y" "snd y"] G(3) G(4) [of "fst y" "snd y"] that
    by (simp add: col_ok_def col_Get_def)
  let ?f = "\<lambda>x. if ask_ItemId (snd x) = j then ask_ItemNum (snd x) else 0"
  have nn: "0 \<le> ?f y" if "y \<in> set (gr_AskDonates (row w g))" for y
    using fine [OF that] by (simp add: request_fine_def)
  have nn': "0 \<le> z" if "z \<in> set (map ?f (gr_AskDonates (row w g)))" for z
    using that nn by (metis (no_types, lifting) imageE list.set_map)
  then show "0 \<le> asked_for w g j" unfolding asked_for_def by (rule sum_list_nonneg)
  show "ask_ItemNum a \<le> asked_for w g j" if a: "col_Get (gr_AskDonates (row w g)) x = Some a" "ask_ItemId a = j"
  proof -
    have "(x, a) \<in> set (gr_AskDonates (row w g))" using a(1) by (auto simp: col_Get_def dest: map_of_SomeD)
    then have "?f (x, a) \<in> set (map ?f (gr_AskDonates (row w g)))" unfolding set_map by (rule imageI)
    then have "?f (x, a) \<le> sum_list (map ?f (gr_AskDonates (row w g)))"
      using nn' by (intro member_le_sum_list) auto
    then show ?thesis using a(2) by (simp add: asked_for_def)
  qed
qed

text \<open>A request is given to its player and goes.\<close>

definition hand_out :: "guild_config \<Rightarrow> int \<Rightarrow> int \<Rightarrow> dbGuildAskDonateData \<Rightarrow> World \<Rightarrow> World" where
  "hand_out C g k a w = set_row g (\<lambda>r. r\<lparr>gr_AskDonates := col_Remove k (gr_AskDonates r)\<rparr>)
     (set_player k (\<lambda>p. fst (add_resource (gc_tables C) (ask_ItemId a) (ask_ItemNum a) p)) w)"

lemma AskDonates_set_row:
  "gr_AskDonates (row w g) \<noteq> [] \<Longrightarrow> row (set_row g f w) g = f (row w g)"
  by (cases "w_guilds w g = None") (simp_all add: row_set_row, simp add: row_def new_row_def)

lemma hand_out_goods:
  assumes ok: "goods_ok C g w" and p: "w_players w k = Some p" and a: "col_Get (gr_AskDonates (row w g)) k = Some a"
  shows "goods_ok C g (hand_out C g k a w)" "stock (hand_out C g k a w) g j = stock w g j"
proof -
  note G = goodsD [OF ok]
  have fa: "request_fine C a" using G(4) a .
  define i n where "i = ask_ItemId a" and "n = ask_ItemNum a"
  have i: "i \<in> ordinary (gc_tables C)" and n: "0 \<le> n" using fa by (auto simp: request_fine_def i_def n_def)
  note B = holding_bounds [OF ok p i]
  have "get_resource (gp_player p) i + n \<le> max_int32"
    using B(2) B(4) [OF a] G(5) [of i] by (simp add: stock_def i_def n_def)
  note give = give_resource [OF G(2) [OF p] i n this]
  let ?q = "fst (add_resource (gc_tables C) i n (gp_player p))"
  let ?v = "set_player k (\<lambda>p. fst (add_resource (gc_tables C) i n p)) w"
  have w': "hand_out C g k a w = set_row g (\<lambda>r. r\<lparr>gr_AskDonates := col_Remove k (gr_AskDonates r)\<rparr>) ?v"
    by (simp add: hand_out_def i_def n_def)
  have fin: "finite (dom (w_players (hand_out C g k a w)))" using G(1) by (simp add: w')
  have "gr_AskDonates (row w g) \<noteq> []" using a by (auto simp: col_Get_def)
  then have ad: "gr_AskDonates (row (hand_out C g k a w) g) = col_Remove k (gr_AskDonates (row w g))"
    by (simp add: w' AskDonates_set_row)
  have h: "held (hand_out C g k a w) j = held w j + (if j = i then n else 0)" for j
  proof -
    have "held (hand_out C g k a w) j = held ?v j" by (simp add: held_def w')
    then show ?thesis using held_set_player [OF G(1) p] give by simp
  qed
  have "map_of (gr_AskDonates (row w g)) k = Some a" "distinct (map fst (gr_AskDonates (row w g)))"
    using a G(3) by (simp_all add: col_Get_def col_ok_def)
  note del = sum_delete [OF this(2,1)]
  have as: "asked_for (hand_out C g k a w) g j = asked_for w g j - (if j = i then n else 0)" for j
    by (simp add: asked_for_def ad col_Remove_def del i_def n_def)
  show s: "stock (hand_out C g k a w) g j = stock w g j" for j by (simp add: stock_def h as)
  have "res_ok (gp_player q)" if "w_players (hand_out C g k a w) x = Some q" for x q
    using that G(2) p give by (auto simp: w' w_players_set_player split: if_splits)
  then show "goods_ok C g (hand_out C g k a w)"
    using G(3,4,5) fin by (auto simp: goods_ok_def ad s split: if_splits)
qed

text \<open>A player gives one item to a request.\<close>

definition hand_in :: "guild_config \<Rightarrow> int \<Rightarrow> int \<Rightarrow> int \<Rightarrow> dbGuildAskDonateData \<Rightarrow> World \<Rightarrow> World" where
  "hand_in C g me k a w =
     set_row g (\<lambda>r. r\<lparr>gr_AskDonates := fst (col_Set k (\<lambda>a. a\<lparr>ask_ItemNum := i32 (ask_ItemNum a + 1)\<rparr>) (gr_AskDonates r))\<rparr>)
       (set_player me (\<lambda>p. fst (add_resource (gc_tables C) (ask_ItemId a) (- 1) p)) w)"

lemma hand_in_goods:
  assumes ok: "goods_ok C g w" and p: "w_players w me = Some p" and a: "col_Get (gr_AskDonates (row w g)) k = Some a"
    and has: "1 \<le> get_resource (gp_player p) (ask_ItemId a)"
    and room: "\<And>item. guild_donate_table C (ask_ItemId a) = Some item \<Longrightarrow> ask_ItemNum a < RequestNum item"
  shows "goods_ok C g (hand_in C g me k a w)" "stock (hand_in C g me k a w) g j = stock w g j"
    "col_Get (gr_AskDonates (row (hand_in C g me k a w) g)) k = Some (a\<lparr>ask_ItemNum := ask_ItemNum a + 1\<rparr>)"
proof -
  note G = goodsD [OF ok]
  have fa: "request_fine C a" using G(4) a .
  define i n where "i = ask_ItemId a" and "n = ask_ItemNum a"
  have i: "i \<in> ordinary (gc_tables C)" and n: "0 \<le> n" using fa by (auto simp: request_fine_def i_def n_def)
  note B = holding_bounds [OF ok p i]
  have has': "1 \<le> get_resource (gp_player p) i" using has by (simp add: i_def)
  have "n + 1 \<le> max_int32"
    using B(2) B(4) [OF a] G(5) [of i] has' by (simp add: stock_def i_def n_def)
  then have n1: "i32 (n + 1) = n + 1" using n by simp
  note take = take_resource [OF G(2) [OF p] ordinary_plain [OF i], of 1 "gc_tables C", simplified, OF has']
  let ?v = "set_player me (\<lambda>p. fst (add_resource (gc_tables C) i (- 1) p)) w"
  define a' where "a' = a\<lparr>ask_ItemNum := n + 1\<rparr>"
  have w': "hand_in C g me k a w = set_row g (\<lambda>r. r\<lparr>gr_AskDonates := fst (col_Set k (\<lambda>a. a\<lparr>ask_ItemNum := i32 (ask_ItemNum a + 1)\<rparr>)
      (gr_AskDonates r))\<rparr>) ?v"
    by (simp add: hand_in_def i_def)
  have m: "map_of (gr_AskDonates (row w g)) k = Some a" "distinct (map fst (gr_AskDonates (row w g)))"
    using a G(3) by (simp_all add: col_Get_def col_ok_def)
  have fin: "finite (dom (w_players (hand_in C g me k a w)))" using G(1) by (simp add: w')
  have "gr_AskDonates (row w g) \<noteq> []" using a by (auto simp: col_Get_def)
  then have ad: "gr_AskDonates (row (hand_in C g me k a w) g) = AList.update k a' (gr_AskDonates (row w g))"
    using m(1) n1 by (simp add: w' AskDonates_set_row col_Set_def a'_def n_def)
  show ga: "col_Get (gr_AskDonates (row (hand_in C g me k a w) g)) k = Some (a\<lparr>ask_ItemNum := ask_ItemNum a + 1\<rparr>)"
    by (simp add: ad col_Get_def update_conv' a'_def n_def)
  have h: "held (hand_in C g me k a w) j = held w j - (if j = i then 1 else 0)" for j
  proof -
    have "held (hand_in C g me k a w) j = held ?v j" by (simp add: held_def w')
    then show ?thesis using held_set_player [OF G(1) p] take(2) by simp
  qed
  have as: "asked_for (hand_in C g me k a w) g j = asked_for w g j + (if j = i then 1 else 0)" for j
    by (simp add: asked_for_def ad sum_update [OF m(2,1)] i_def n_def a'_def)
  show s: "stock (hand_in C g me k a w) g j = stock w g j" for j by (simp add: stock_def h as)
  have "res_ok (gp_player q)" if "w_players (hand_in C g me k a w) x = Some q" for x q
    using that G(2) p take(1) by (auto simp: w' w_players_set_player split: if_splits)
  moreover have "request_fine C b" if "col_Get (gr_AskDonates (row (hand_in C g me k a w) g)) x = Some b" for x b
  proof (cases "x = k")
    case True
    then have "b = a'" using that by (simp add: ad col_Get_def update_conv')
    then show ?thesis using fa room n by (auto simp: request_fine_def a'_def n_def)
  next
    case False
    then show ?thesis using that G(4) by (auto simp: ad col_Get_def update_conv')
  qed
  ultimately show "goods_ok C g (hand_in C g me k a w)"
    using G(3,5) fin by (auto simp: goods_ok_def s ad col_ok_def distinct_update)
qed

lemma reward_goods:
  assumes ok: "goods_ok C g w" and p: "w_players w k = Some p"
    and rs: "\<forall>(i, n) \<in> set (pairs_of xs). i \<in> ordinary (gc_tables C) \<and> 0 \<le> n"
    and room: "\<And>j. stock w g j + need (pairs_of xs) j \<le> max_int32"
  shows "goods_ok C g (set_player k (add_resources (gc_tables C) xs) w)"
    "stock (set_player k (add_resources (gc_tables C) xs) w) g j = stock w g j + need (pairs_of xs) j"
proof -
  note G = goodsD [OF ok]
  have "get_resource (gp_player p) i + need (pairs_of xs) i \<le> max_int32" if "i \<in> fst ` set (pairs_of xs)" for i
  proof -
    have "i \<in> ordinary (gc_tables C)" using that rs by auto
    note B = holding_bounds [OF ok p this]
    show ?thesis using B(2,3) room [of i] by (simp add: stock_def)
  qed
  then have "\<forall>i \<in> fst ` set (pairs_of xs). get_resource (gp_player p) i + need (pairs_of xs) i \<le> max_int32" by blast
  note give = pocket.give_all [OF G(2) [OF p] rs this]
  have h: "held (set_player k (add_resources (gc_tables C) xs) w) j = held w j + need (pairs_of xs) j" for j
    using held_set_player [OF G(1) p] give by (simp add: add_resources_give)
  show s: "stock (set_player k (add_resources (gc_tables C) xs) w) g j = stock w g j + need (pairs_of xs) j" for j
    by (simp add: stock_def h asked_for_def)
  show "goods_ok C g (set_player k (add_resources (gc_tables C) xs) w)"
    using G p give room by (auto simp: goods_ok_def s w_players_set_player add_resources_give split: if_splits)
qed

section \<open>The requests\<close>

lemma check_donate_goods:
  assumes ok: "goods_ok C g w"
  shows "goods_ok C g (check_donate C now g k w) \<and> (\<forall>j. stock (check_donate C now g k w) g j = stock w g j)
    \<and> has_player (check_donate C now g k w) x = has_player w x"
proof -
  have "check_donate C now g k w = w \<or> (\<exists>a p e. col_Get (gr_AskDonates (row w g)) k = Some a \<and> w_players w k = Some p
      \<and> check_donate C now g k w = tell e (hand_out C g k a w))"
    by (auto simp: check_donate_def hand_out_def has_player_def split: option.splits)
  then show ?thesis
  proof
    assume "\<exists>a p e. col_Get (gr_AskDonates (row w g)) k = Some a \<and> w_players w k = Some p
      \<and> check_donate C now g k w = tell e (hand_out C g k a w)"
    then obtain a p e where a: "col_Get (gr_AskDonates (row w g)) k = Some a" "w_players w k = Some p"
      "check_donate C now g k w = tell e (hand_out C g k a w)" by blast
    show ?thesis unfolding a(3) same_goods_stock [OF same_goods_ops(1)]
      using hand_out_goods [OF ok a(2,1)] by (simp add: hand_out_def)
  qed (use ok in simp)
qed

lemma check_list_goods:
  assumes "goods_ok C g w"
  shows "goods_ok C g (guild_check_donate_list C now g w) \<and> (\<forall>j. stock (guild_check_donate_list C now g w) g j = stock w g j)
    \<and> has_player (guild_check_donate_list C now g w) x = has_player w x"
proof -
  have "goods_ok C g (fold (check_donate C now g) ks w) \<and> (\<forall>j. stock (fold (check_donate C now g) ks w) g j = stock w g j)
    \<and> has_player (fold (check_donate C now g) ks w) x = has_player w x" for ks
    using assms
  proof (induction ks arbitrary: w)
    case (Cons k ks)
    show ?case using Cons.IH [of "check_donate C now g k w"] check_donate_goods [OF Cons.prems, of now k] by simp
  qed simp
  then show ?thesis by (simp add: guild_check_donate_list_def)
qed

text \<open>What \<open>guild_ask_donate\<close> and \<open>guild_donate\<close> do first.\<close>

lemma refreshed_goods:
  assumes ok: "goods_ok C g w" and m: "members_ok C w"
    and v: "v = fst (guild_check_donate_refresh C now me (guild_check_donate_list C now g w))"
  shows "goods_ok C g v" "stock v g j = stock w g j" "has_player v x = has_player w x"
proof -
  have "members_ok C (guild_check_donate_list C now g w)" using m by (rule membership.check_donate_list_inv)
  then have s: "same_goods g (guild_check_donate_list C now g w) v" unfolding v by (rule same_goods_refresh)
  note L = check_list_goods [OF ok, of now]
  show "goods_ok C g v" "stock v g j = stock w g j" using L same_goods_stock(1,2) [OF s] by auto
  show "has_player v x = has_player w x"
    using L [of x] same_goods_stock(3) [OF s] unfolding has_player_def by (metis domIff)
qed

text \<open>Give one and finish the request when it is full.\<close>

lemma give_and_finish:
  assumes ok: "goods_ok C g w" and p: "w_players w me = Some p" "has_player w k"
    and a: "col_Get (gr_AskDonates (row w g)) k = Some a" and t: "guild_donate_table C (ask_ItemId a) = Some item"
    and has: "1 \<le> get_resource (gp_player p) (ask_ItemId a)"
    and u: "give_one C item g me a k w = (u, n)" and v: "finish_request C item g (ask_ItemId a) n k u = (v, b)"
  shows "goods_ok C g v \<and> stock v g j = stock w g j \<and> has_player v x = has_player w x"
proof -
  have fa: "request_fine C a" by (rule goodsD(4) [OF ok a])
  have le: "0 \<le> ask_ItemNum a" "ask_ItemNum a \<le> RequestNum item" using fa t by (auto simp: request_fine_def)
  define a' where "a' = a\<lparr>ask_ItemNum := n\<rparr>"
  have U: "goods_ok C g u \<and> (\<forall>j. stock u g j = stock w g j) \<and> col_Get (gr_AskDonates (row u g)) k = Some a'
    \<and> (\<forall>x. has_player u x = has_player w x) \<and> n \<le> RequestNum item"
  proof (cases "ask_ItemNum a < RequestNum item")
    case True
    then have room: "\<And>i. guild_donate_table C (ask_ItemId a) = Some i \<Longrightarrow> ask_ItemNum a < RequestNum i" using t by simp
    note H = hand_in_goods [OF ok p(1) a has room]
    have "ask_ItemNum a + 1 \<le> max_int32"
      using holding_bounds(2) [OF ok p(1), of "ask_ItemId a"] holding_bounds(4) [OF ok p(1) _ a refl] goodsD(5) [OF ok, of "ask_ItemId a"]
        fa has by (simp add: stock_def request_fine_def)
    then have "u = hand_in C g me k a w" "n = ask_ItemNum a + 1"
      using u True le by (auto simp: give_one_def hand_in_def)
    then show ?thesis using H True by (simp add: a'_def hand_in_def)
  next
    case False
    then show ?thesis using u ok a le by (simp add: give_one_def a'_def)
  qed
  have "has_player u k" using U p(2) by simp
  then obtain q where q: "w_players u k = Some q" by (auto simp: has_player_def)
  have full: "RequestNum item \<le> n \<Longrightarrow> v = hand_out C g k a' u"
    using v U by (auto simp: finish_request_def hand_out_def a'_def)
  have "\<not> RequestNum item \<le> n \<Longrightarrow> v = u" using v by (simp add: finish_request_def)
  with full hand_out_goods [OF _ q, of C g a'] U show ?thesis
    by (cases "RequestNum item \<le> n") (auto simp: hand_out_def)
qed

text \<open>The tables: what can be asked for is ordinary, and so are the rewards; and no total with a reward is too large.\<close>

definition donate_tables_ok :: "guild_config \<Rightarrow> int \<Rightarrow> World \<Rightarrow> bool" where
  "donate_tables_ok C g w \<longleftrightarrow> (\<forall>k item. guild_donate_table C k = Some item \<longrightarrow>
     k \<in> ordinary (gc_tables C) \<and> 0 \<le> RequestNum item
     \<and> (\<forall>(i, n) \<in> set (pairs_of (DonateRewardItem item)). i \<in> ordinary (gc_tables C) \<and> 0 \<le> n)
     \<and> (\<forall>j. stock w g j + need (pairs_of (DonateRewardItem item)) j \<le> max_int32))"

lemma donate_goods:
  assumes ok: "goods_ok C g w" and m: "members_ok C w" and g: "g = pg_Id (pguild w me)" and T: "donate_tables_ok C g w"
    and run: "guild_donate C now k me w = (r, w')"
  shows "goods_ok C g w' \<and> ((\<forall>j. stock w' g j = stock w g j) \<or> r = Inr 1 \<and> (\<exists>i item. guild_donate_table C i = Some item
    \<and> (\<forall>j. stock w' g j = stock w g j + need (pairs_of (DonateRewardItem item)) j)))"
proof (cases "me = k \<or> \<not> has_player w k")
  case False
  obtain v x where v: "get_guild C now me False w = (v, x)" by force
  from m v show ?thesis
  proof (cases rule: get_guild_cases)
    case none
    then have "same_goods g w v" using same_goods_expire by auto
    then show ?thesis using v none run False ok same_goods_stock by (auto simp: guild_donate_def)
  next
    case (guild h)
    then have h: "h = g" using g by (simp add: in_guild_def)
    define u where "u = fst (guild_check_donate_refresh C now me (guild_check_donate_list C now g w))"
    note R = refreshed_goods [OF ok m u_def]
    show ?thesis
    proof (cases "\<exists>a item. col_Get (gr_AskDonates (row u g)) k = Some a \<and> guild_donate_table C (ask_ItemId a) = Some item
        \<and> \<not> GuildDonateLimitDay C < i32 (pg_DonateNum (pguild u me) + LimitScore item) \<and> 1 \<le> get_resource_of u me (ask_ItemId a)")
      case stop: False
      then have "w' = u \<and> r \<noteq> Inr 1"
        using run False v guild h by (auto simp: guild_donate_def u_def [symmetric] Let_def split: option.splits if_splits)
      then show ?thesis using R by auto
    next
      case True
      then obtain a item where a: "col_Get (gr_AskDonates (row u g)) k = Some a" "guild_donate_table C (ask_ItemId a) = Some item"
        "\<not> GuildDonateLimitDay C < i32 (pg_DonateNum (pguild u me) + LimitScore item)" "1 \<le> get_resource_of u me (ask_ItemId a)"
        by blast
      then obtain p where p: "w_players u me = Some p" "1 \<le> get_resource (gp_player p) (ask_ItemId a)"
        by (auto simp: get_resource_of_def split: option.splits)
      have k: "has_player u k" using R(3) False by simp
      obtain x n where x: "give_one C item g me a k u = (x, n)" by force
      obtain y b where y: "finish_request C item g (ask_ItemId a) n k x = (y, b)" by force
      note F = give_and_finish [OF R(1) p(1) k a(1,2) p(2) x y]
      define z where "z = set_pguild me (\<lambda>d. d\<lparr>pg_DonateNum := i32 (pg_DonateNum (pguild u me) + LimitScore item)\<rparr>) y"
      have sz: "same_goods g y z" unfolding z_def by (rule same_goods_ops)
      note Z = same_goods_stock [OF sz]
      have "has_player u me" using p(1) by (simp add: has_player_def)
      then have "has_player z me" using F by (simp add: z_def)
      then obtain q where q: "w_players z me = Some q" by (auto simp: has_player_def)
      have rs: "\<forall>(i, n) \<in> set (pairs_of (DonateRewardItem item)). i \<in> ordinary (gc_tables C) \<and> 0 \<le> n"
        "\<And>j. stock z g j + need (pairs_of (DonateRewardItem item)) j \<le> max_int32"
        using T a(2) Z(1) F R(2) unfolding donate_tables_ok_def by auto
      have "goods_ok C g z" using Z(2) F by simp
      note W = reward_goods [OF this q rs]
      have "w' = tell (GuildDonateItemNotify k (ask_ItemId a) n b) (set_player me (add_resources (gc_tables C) (DonateRewardItem item)) z)
          \<and> r = Inr 1"
        using run False v guild h a x y by (auto simp: guild_donate_def u_def [symmetric] z_def [symmetric] Let_def)
      then show ?thesis using W a(2) Z(1) F R(2) same_goods_stock(1,2) [OF same_goods_ops(1)] by auto
    qed
  qed
next
  case True
  then have "w' = w" using run by (cases "me = k") (simp_all add: guild_donate_def)
  then show ?thesis using ok by simp
qed

lemma ask_goods:
  assumes ok: "goods_ok C g w" and m: "members_ok C w" and g: "g = pg_Id (pguild w me)" and T: "donate_tables_ok C g w"
    and run: "guild_ask_donate C now i me w = (r, w')"
  shows "goods_ok C g w' \<and> (\<forall>j. stock w' g j = stock w g j)"
proof (cases "guild_donate_table C i")
  case (Some item)
  obtain v x where v: "get_guild C now me False w = (v, x)" by force
  from m v show ?thesis
  proof (cases rule: get_guild_cases)
    case none
    then have "same_goods g w v" using same_goods_expire by auto
    then show ?thesis using v none run ok same_goods_stock Some by (auto simp: guild_ask_donate_def)
  next
    case (guild h)
    then have h: "h = g" using g by (simp add: in_guild_def)
    define u where "u = fst (guild_check_donate_refresh C now me (guild_check_donate_list C now g w))"
    note R = refreshed_goods [OF ok m u_def]
    define a where "a = \<lparr>ask_ItemId = i, ask_ItemNum = 0, ask_AskTime = i32 now\<rparr>"
    define z where "z = set_row g (\<lambda>r. r\<lparr>gr_AskDonates := fst (col_Add me a (gr_AskDonates r))\<rparr>) u"
    have z: "goods_ok C g z \<and> (\<forall>j. stock z g j = stock u g j)" if new: "\<not> col_HasIndex (gr_AskDonates (row u g)) me"
    proof (cases "w_guilds u g = None")
      case True
      then have "row z g = row u g" by (simp add: z_def row_set_row)
      then have "same_goods g u z" by (simp add: same_goods_def z_def)
      then show ?thesis using same_goods_stock R(1) by auto
    next
      case False
      have n: "map_of (gr_AskDonates (row u g)) me = None" using new by (simp add: col_HasIndex_def)
      have ad: "gr_AskDonates (row z g) = AList.update me a (gr_AskDonates (row u g))"
        using False new by (simp add: z_def row_set_row col_Add_def)
      have s: "stock z g j = stock u g j" for j
        by (simp add: stock_def asked_for_def ad sum_add [OF n] a_def) (simp add: held_def z_def)
      have "request_fine C a" using T Some by (auto simp: request_fine_def a_def donate_tables_ok_def)
      then have f: "request_fine C b" if "col_Get (gr_AskDonates (row z g)) y = Some b" for y b
        using that goodsD(4) [OF R(1)] by (auto simp: ad col_Get_def update_conv' split: if_splits)
      have "dom (w_players z) = dom (w_players u)" "\<And>k. w_players z k = w_players u k" by (simp_all add: z_def)
      then show ?thesis using R(1) f unfolding goods_ok_def s ad by (auto simp: col_ok_def distinct_update)
    qed
    have "w' = u \<or> (\<not> col_HasIndex (gr_AskDonates (row u g)) me \<and> (\<exists>f. w' = set_pguild me f z))"
      using run v guild h Some
      by (auto simp: guild_ask_donate_def u_def [symmetric] a_def [symmetric] z_def [symmetric] Let_def split: if_splits)
    then show ?thesis using R z same_goods_stock(1,2) [OF same_goods_ops(2)] by auto
  qed
qed (use run ok in \<open>auto simp: guild_ask_donate_def\<close>)

lemma list_goods:
  assumes ok: "goods_ok C g w" and m: "members_ok C w" and g: "g = pg_Id (pguild w me)"
    and run: "guild_donate_list C now me w = (r, w')"
  shows "goods_ok C g w' \<and> (\<forall>j. stock w' g j = stock w g j)"
proof -
  obtain v x where v: "get_guild C now me False w = (v, x)" by force
  from m v show ?thesis
  proof (cases rule: get_guild_cases)
    case none
    then have "same_goods g w v" using same_goods_expire by auto
    then show ?thesis using v none run ok same_goods_stock by (auto simp: guild_donate_list_def)
  next
    case (guild h)
    then show ?thesis using v run g check_list_goods [OF ok, of now] by (auto simp: guild_donate_list_def in_guild_def)
  qed
qed

end
