(* ===== verification/Guild_Members.thy ===== *)
theory Guild_Members
  imports Guild_Steps
begin

text \<open>
  Who is taken in and who is expelled: the loops of \<open>guild_agree_join\<close> and \<open>guild_kick_member\<close> over the players of a request.
\<close>

section \<open>Taking in\<close>

text \<open>Who can be taken in: a player who has asked and has no guild.\<close>

definition may_join :: "World \<Rightarrow> int \<Rightarrow> int \<Rightarrow> bool" where
  "may_join w g k \<longleftrightarrow> has_player w k \<and> col_HasIndex (gr_AskLists (row w g)) k \<and> pg_Id (pguild w k) = 0"

lemma log_frame [simp]:
  "pguild (push_new_guild_log now g t k w) x = pguild w x" "has_player (push_new_guild_log now g t k w) x = has_player w x"
  "gr_Members (row (push_new_guild_log now g t k w) x) = gr_Members (row w x)"
  "gr_AskLists (row (push_new_guild_log now g t k w) x) = gr_AskLists (row w x)"
  "w_guilds (push_new_guild_log now g t k w) x = None \<longleftrightarrow> w_guilds w x = None"
  "w_events (push_new_guild_log now g t k w) = w_events w"
  by (auto simp: push_new_guild_log_def row_set_row add_log_def Let_def w_guilds_set_row) (simp add: set_row_def)

lemma agree_one_joins:
  assumes ok: "members_ok C w" and g: "standing w g"
  shows "is_member (agree_one now g False k w) g x \<longleftrightarrow> is_member w g x \<or> x = k \<and> may_join w g x"
    "may_join (agree_one now g False k w) g x \<longleftrightarrow> may_join w g x \<and> x \<noteq> k"
    "length (gr_Members (row (agree_one now g False k w) g)) \<le> Suc (length (gr_Members (row w g)))"
proof -
  have gn: "w_guilds w g \<noteq> None" "g \<noteq> 0" using g guild_positive [OF ok] by (auto simp: standing_def)
  have none: "\<not> 0 < pg_Id (pguild w k) \<longleftrightarrow> pg_Id (pguild w k) = 0" using has_guild(4) [OF ok, of k] by auto
  have mem: "\<not> is_member w g k" if "pg_Id (pguild w k) = 0" using members_okD(1) [OF ok, of g k] that gn(2) by simp
  have len: "length (fst (col_Add k () c)) \<le> Suc (length c)" for c :: "unit column"
    by (induction c) (auto simp: col_Add_def col_HasIndex_def split: if_splits)
  show "is_member (agree_one now g False k w) g x \<longleftrightarrow> is_member w g x \<or> x = k \<and> may_join w g x"
    "may_join (agree_one now g False k w) g x \<longleftrightarrow> may_join w g x \<and> x \<noteq> k"
    "length (gr_Members (row (agree_one now g False k w) g)) \<le> Suc (length (gr_Members (row w g)))"
    using gn none mem len
    by (auto simp: agree_one_def unask_def take_in_def may_join_def row_set_row w_guilds_set_row pguild_set_pguild)
qed

lemma agree_all_joins:
  assumes "members_ok C w" "standing w g"
  shows "(is_member (fold (agree_one now g False) ks w) g x \<longleftrightarrow> is_member w g x \<or> x \<in> set ks \<and> may_join w g x)
    \<and> length (gr_Members (row (fold (agree_one now g False) ks w) g)) \<le> length (gr_Members (row w g)) + length ks"
  using assms
proof (induction ks arbitrary: w)
  case (Cons k ks)
  have "members_ok C (agree_one now g False k w)" "standing (agree_one now g False k w) g"
    using membership.agree_one_inv [OF Cons.prems] by auto
  from Cons.IH [OF this] agree_one_joins [OF Cons.prems, of now k] show ?case by auto
qed simp

section \<open>Expelling\<close>

lemma kick_one_leaves:
  assumes ok: "members_ok C w" and g: "standing w g"
  shows "is_member (kick_one now g me k w) g x \<longleftrightarrow> is_member w g x \<and> \<not> (x = k \<and> x \<noteq> me \<and> pg_Position (pguild w x) = 0)"
    "x \<noteq> k \<Longrightarrow> pguild (kick_one now g me k w) x = pguild w x" "standing (kick_one now g me k w) g"
    "has_player (kick_one now g me k w) x = has_player w x" "w_events (kick_one now g me k w) = w_events w"
proof -
  have gn: "w_guilds w g \<noteq> None" using g by (simp add: standing_def)
  have p: "is_member w g k \<Longrightarrow> has_player w k"
    using members_okD(1) [OF ok, of g k] has_guild(3) [OF ok, of k] by auto
  show "is_member (kick_one now g me k w) g x \<longleftrightarrow> is_member w g x \<and> \<not> (x = k \<and> x \<noteq> me \<and> pg_Position (pguild w x) = 0)"
    "x \<noteq> k \<Longrightarrow> pguild (kick_one now g me k w) x = pguild w x" "standing (kick_one now g me k w) g"
    "has_player (kick_one now g me k w) x = has_player w x"
    using gn p g by (auto simp: kick_one_def leave_def clear_guild_data_def row_set_row w_guilds_set_row pguild_set_pguild standing_def)
  show "w_events (kick_one now g me k w) = w_events w"
    by (auto simp: kick_one_def leave_def clear_guild_data_def set_pguild_def set_row_def split: option.splits)
qed

lemma kick_all_leaves:
  assumes "members_ok C w" "standing w g"
  shows "(is_member (fold (kick_one now g me) ks w) g x \<longleftrightarrow>
      is_member w g x \<and> \<not> (x \<in> set ks \<and> x \<noteq> me \<and> pg_Position (pguild w x) = 0))
    \<and> has_player (fold (kick_one now g me) ks w) = has_player w \<and> w_events (fold (kick_one now g me) ks w) = w_events w"
  using assms
proof (induction ks arbitrary: w)
  case (Cons k ks)
  have v: "members_ok C (kick_one now g me k w)" using membership.kick_one_inv [OF Cons.prems(1)] .
  note K = kick_one_leaves [OF Cons.prems, where now = now and me = me and k = k]
  have h: "has_player (kick_one now g me k w) = has_player w" using K(4) by auto
  show ?case
  proof (cases "x = k")
    case True
    then show ?thesis using Cons.IH [OF v K(3)] K(1) [of x] h K(5) by (auto simp: kick_one_def)
  next
    case False
    then show ?thesis using Cons.IH [OF v K(3)] K(1,2) [of x] h K(5) by auto
  qed
qed simp

lemma tell_kicked_all:
  "w_events (fold (tell_kicked now g) ks w) = w_events w @ map GuildKickMemberNotify (filter (has_player w) ks)
    \<and> gr_Members (row (fold (tell_kicked now g) ks w) g) = gr_Members (row w g)"
proof (induction ks arbitrary: w)
  case (Cons k ks)
  have h: "has_player (tell_kicked now g k w) = has_player w" by (auto simp: tell_kicked_def fun_eq_iff)
  have e: "w_events (tell_kicked now g k w) = (if has_player w k then w_events w @ [GuildKickMemberNotify k] else w_events w)"
    by (simp add: tell_kicked_def) (simp add: tell_def)
  have m: "gr_Members (row (tell_kicked now g k w) g) = gr_Members (row w g)" by (simp add: tell_kicked_def)
  show ?case using Cons.IH [of "tell_kicked now g k w"] by (simp add: h e m)
qed simp

end
