(* ===== verification/Guild_Restart.thy ===== *)
theory Guild_Restart
  imports Guild_Correct
begin

text \<open>
  The start of the server: the manager reads the rows of the guilds, deletes those whose time is over, and lists the others.
\<close>

text \<open>The lists of the manager are exact for the guilds of a set.\<close>

definition managed_in :: "int set \<Rightarrow> World \<Rightarrow> bool" where
  "managed_in P w \<longleftrightarrow> distinct (guild_ids w) \<and> length (guild_ids w) \<le> GUILD_MAX_NUM
     \<and> set (guild_ids w) = {g \<in> P. standing w g}
     \<and> guild_id_map w = (\<lambda>g. if g \<in> P \<and> standing w g then Some g else None) \<and> dom (guilds_ex_map w) = {g \<in> P. standing w g}
     \<and> (\<forall>n g. guild_name_map w n = Some g \<longleftrightarrow> g \<in> P \<and> standing w g \<and> gr_Name (row w g) = n)"

definition names_differ :: "World \<Rightarrow> bool" where
  "names_differ w \<longleftrightarrow> (\<forall>g h. standing w g \<and> standing w h \<and> gr_Name (row w g) = gr_Name (row w h) \<longrightarrow> g = h)"

lemma expire_unlisted:
  assumes "guild_id_map w g = None"
  shows "guild_ids (expire g w) = guild_ids w" "guild_id_map (expire g w) = guild_id_map w"
    "guild_name_map (expire g w) = guild_name_map w" "guilds_ex_map (expire g w) = guilds_ex_map w"
  using assms leave_deleted_manager [of w g "map fst (gr_Members (row w g))"]
  by (simp_all add: expire_def remove_guild_row_def remove_guild_def same_manager_def)

text \<open>What a round of the loop may do to the rows.\<close>

definition fewer :: "World \<Rightarrow> World \<Rightarrow> bool" where
  "fewer w w' \<longleftrightarrow> (\<forall>g. (w_guilds w' g = None) = (w_guilds w g = None)) \<and> (\<forall>g. standing w' g \<longrightarrow> standing w g \<and> row w' g = row w g)"

lemma fewer_trans: "fewer w w' \<Longrightarrow> fewer w' w'' \<Longrightarrow> fewer w w''"
  by (auto simp: fewer_def)

lemma names_differ_fewer: "names_differ w \<Longrightarrow> fewer w w' \<Longrightarrow> names_differ w'"
  unfolding names_differ_def fewer_def by metis

lemma init_step:
  assumes ok: "members_ok C w" and m: "managed_in P w" and g: "g \<notin> P" "w_guilds w g \<noteq> None"
    and names: "names_differ w" and room: "length (guild_ids w) < GUILD_MAX_NUM"
  shows "\<exists>w'. Manager_Init_step C now g w = Some w' \<and> members_ok C w' \<and> managed_in (insert g P) w' \<and> fewer w w'
    \<and> length (guild_ids w') \<le> Suc (length (guild_ids w))"
proof -
  have idm: "guild_id_map w g = None" using m g(1) by (simp add: managed_in_def)
  have nm: "guild_name_map w n = Some j \<longleftrightarrow> j \<in> P \<and> standing w j \<and> gr_Name (row w j) = n" for n j
    using m by (simp add: managed_in_def)
  have dead: "\<not> standing w g \<Longrightarrow> managed_in (insert g P) w"
    using m by (auto simp: managed_in_def fun_eq_iff)
  show ?thesis
  proof (cases rule: dismiss_cases [of C now g w])
    case stays
    show ?thesis
    proof (cases "standing w g")
      case False
      then have "gr_ExistType (row w g) = 2" using g(2) by (simp add: standing_def)
      then show ?thesis using stays ok dead [OF False]
        by (auto simp: Manager_Init_step_def guild_get_exist_type_def fewer_def)
    next
      case True
      then have e: "gr_ExistType (row w g) \<noteq> 2" by (simp add: standing_def)
      have "guild_name_map w (gr_Name (row w g)) = None"
      proof (rule ccontr)
        assume "guild_name_map w (gr_Name (row w g)) \<noteq> None"
        then obtain j where "j \<in> P" "standing w j" "gr_Name (row w j) = gr_Name (row w g)" using nm by auto
        then show False using names True g(1) by (auto simp: names_differ_def)
      qed
      then obtain w' where w': "add_guild g (gr_Name (row w g)) w = Some (w', True)"
        "guild_ids w' = guild_ids w @ [g]" "guild_id_map w' = (guild_id_map w)(g \<mapsto> g)"
        "guild_name_map w' = (guild_name_map w)(gr_Name (row w g) \<mapsto> g)" "guilds_ex_map w' = (guilds_ex_map w)(g \<mapsto> 0)"
        "\<And>j. row w' j = row w j" "w_guilds w' = w_guilds w"
        using idm room by (auto simp: add_guild_def row_def)
      have a: "standing w' = standing w" by (auto simp: standing_def w'(6,7) fun_eq_iff)
      have names': "guild_name_map w' x = Some j \<longleftrightarrow> j \<in> insert g P \<and> standing w' j \<and> gr_Name (row w' j) = x" for x j
        using nm [of x j] True names g(1) unfolding a by (auto simp: w' names_differ_def)
      have "managed_in (insert g P) w'"
        using m True room g(1) unfolding managed_in_def names' by (auto simp: a w'(2,3,5) dom_def fun_eq_iff)
      moreover have "members_ok C w'" using ok w'(1) by (rule members_ok_add_guild)
      moreover have "fewer w w'" by (simp add: fewer_def a w')
      ultimately show ?thesis using stays e w'(1,2)
        by (auto simp: Manager_Init_step_def guild_get_exist_type_def)
    qed
  next
    case ends
    have a: "standing w g" using ends(1) g(2) by (simp add: standing_def)
    have "gr_ExistType (row (expire g w) g) = 2" using g(2) by (simp add: expire_view)
    moreover have "members_ok C (expire g w)" using ok a by (rule members_ok_expire)
    moreover have "managed_in (insert g P) (expire g w)"
      using m g(1) unfolding managed_in_def expire_unlisted [OF idm] by (auto simp: standing_expire expire_view fun_eq_iff)
    moreover have "fewer w (expire g w)" by (auto simp: fewer_def standing_expire expire_view)
    ultimately show ?thesis using ends(2) expire_unlisted(1) [OF idm]
      by (auto simp: Manager_Init_step_def guild_get_exist_type_def)
  qed
qed

lemma init_loop:
  assumes "members_ok C w" "managed_in P w" "distinct gids" "set gids \<inter> P = {}" "\<forall>g \<in> set gids. w_guilds w g \<noteq> None"
    "names_differ w" "length (guild_ids w) + length gids \<le> GUILD_MAX_NUM"
  shows "\<exists>w'. for_each (\<lambda>g w. Manager_Init_step C now g w) gids w = Some w' \<and> members_ok C w'
    \<and> managed_in (P \<union> set gids) w' \<and> fewer w w'"
  using assms
proof (induction gids arbitrary: P w)
  case Nil
  then show ?case by (simp add: fewer_def)
next
  case (Cons g gids)
  obtain v where v: "Manager_Init_step C now g w = Some v" "members_ok C v" "managed_in (insert g P) v" "fewer w v"
    "length (guild_ids v) \<le> Suc (length (guild_ids w))"
    using init_step [OF Cons.prems(1,2), of g now] Cons.prems(3-7) by auto
  have "\<exists>w'. for_each (\<lambda>g w. Manager_Init_step C now g w) gids v = Some w' \<and> members_ok C w'
    \<and> managed_in (insert g P \<union> set gids) w' \<and> fewer v w'"
    using v Cons.prems(3-7) by (intro Cons.IH) (auto simp: fewer_def intro: names_differ_fewer)
  then show ?case using v fewer_trans [OF v(4)] by auto
qed

end
