(* ===== verification/Guild_Props.thy ===== *)
theory Guild_Props
  imports Guild_Members Guild_Restart
begin

text \<open>
  What the guilds promise: members, presidents and positions agree after any requests; the lists of the manager are
  exact as long as names are not taken over; and what happens when one is.
\<close>

section \<open>Runs from an agreeing state\<close>

text \<open>C34: Whatever the players ask for, in whatever order and at whatever times, the members of a guild are exactly the
  players who have its id; a guild that is there has its president among them, who is the only one with the position
  of the president; a deleted guild has no members; and a player without a guild has no position.\<close>

theorem guild_memberships:
  assumes "guild_run C (\<lambda>_ _ _. True) w0 w" "members_ok C w0"
  shows "(is_member w g k \<longleftrightarrow> g \<noteq> 0 \<and> pg_Id (pguild w k) = g)
    \<and> (standing w g \<longrightarrow> is_member w g (gr_President (row w g))
         \<and> (is_member w g k \<longrightarrow> (pg_Position (pguild w k) = GUILD_POSITION_PRESIDENT \<longleftrightarrow> k = gr_President (row w g))))
    \<and> (\<not> standing w g \<longrightarrow> gr_Members (row w g) = [])
    \<and> (pg_Id (pguild w k) = 0 \<longrightarrow> pg_Position (pguild w k) = GUILD_POSITION_MEMBER)"
proof -
  have "members_ok C w" using assms by (rule membership.run_inv)
  note D = members_okD [OF this]
  show ?thesis using D(1) [of g k] D(2,3) [of g] D(5,6) [of k] by auto
qed

text \<open>C35: As long as nobody gives his guild the name of another one, the manager lists exactly the guilds that are there,
  each once; a name leads to the guild that has it, and no two guilds have the same name.\<close>

theorem guild_lists:
  assumes "guild_run C free_name w0 w" "members_ok C w0" "managed w0"
  shows "distinct (guild_ids w) \<and> set (guild_ids w) = {g. standing w g} \<and> length (guild_ids w) \<le> 10000
    \<and> guild_id_map w = (\<lambda>g. if standing w g then Some g else None)
    \<and> (guild_name_map w n = Some g \<longleftrightarrow> standing w g \<and> gr_Name (row w g) = n)
    \<and> (standing w g \<and> standing w h \<and> gr_Name (row w g) = gr_Name (row w h) \<longrightarrow> g = h)"
proof -
  have "managed w" using management.run_inv [OF assms(1)] assms(2,3) by simp
  note D = managedD [OF this]
  have "g = h" if "standing w g" "standing w h" "gr_Name (row w g) = gr_Name (row w h)"
    using that D(6) [of "gr_Name (row w h)" g] D(6) [of "gr_Name (row w h)" h] by simp
  then show ?thesis using D(1-4,6) by (auto simp: fun_eq_iff)
qed

section \<open>A small server\<close>

definition guild_demo :: guild_config where
  "guild_demo = \<lparr>gc_tables = \<lparr>item_table = (\<lambda>_. None), vip_array = [], levelup_table = (\<lambda>_. None), levelup_table_len = 0,
       rankup_table = (\<lambda>_. None), card_table = (\<lambda>_. []), drop_table = (\<lambda>_. None), item_upgrades = (\<lambda>_. []),
       talent_table = (\<lambda>_. []), artifact_table = (\<lambda>_ _ _. None), artifact_max_rank = (\<lambda>_. 0),
       artifact_unlock_table = (\<lambda>_. None), fusion_table = (\<lambda>_. None), hero_convert_table = (\<lambda>_. None),
       draw_table = (\<lambda>_. None), LifeTreeEnterLevel = 0, MaxRoleCount = 0, TalentResetCostDiamond = 0,
       ItemLeftSlotOpenLevel = 0, LeftSlotDropId = 0\<rparr>,
     gc_zone = 0, gc_ServerId = 0, GuildEnterLevel = 1, GuildOpenLevel = 1, GuildNameLength = 20, GuildCreateCostGem = 0,
     GuildChangeNameCostGem = 0, GuildSignReward = [], GuildSignAddExp = 5, GuildAskDonateCDSecs = 100,
     GuildAskDonateExistSeconds = 100, GuildQuitAskJoinCDSecs = 100, GuildDonateLimitDay = 10,
     GuildDismissWaitingSeconds = 50, GuildSignRefreshTime = Some 0, GuildDonateRefreshTime = Some 0,
     guild_levelup_table = (\<lambda>l. if l = 1 then Some \<lparr>guild_level_Exp = 10, guild_level_MemberNum = 3\<rparr> else None),
     guild_donate_table = (\<lambda>_. None)\<rparr>"

definition poor_player :: Player where
  "poor_player = \<lparr>p_Gold = 0, p_Diamond = 0, p_Exp = 0, p_Lvl = 5, p_Level = 5, p_VipLvl = 0, p_Items = [], p_Roles = [],
     p_CurrentRoleId = 0, p_RoleHandbook = [], p_CampaignMembers = [], p_DefenseMembers = [], p_AssistRoleId = 0,
     p_Talents = [], p_Artifacts = [], p_ExpeditionRoles = [], p_DrawTimes = [], TmpSaveLeftSlotRoleId = 0,
     TmpLeftSlotItemId = 0, DisplaceRoleId = 0, DisplacedNewRoleTableId = 0, DisplaceGroupId = 0, b_base_prop_chg = False,
     items_changed_info = [], is_handbook_adds = False, ids_add = [], ids_remove = [], ids_update = [], p_events = [],
     p_draws = []\<rparr>"

definition two_guildless :: World where
  "two_guildless = \<lparr>w_players = (\<lambda>k. if k = 7 \<or> k = 8 then Some \<lparr>gp_player = poor_player, gp_guild = no_guild\<rparr> else None),
     w_guilds = (\<lambda>_. None), w_CurrentGuildId = 0, guild_ids = [], guild_id_map = (\<lambda>_. None), guild_name_map = (\<lambda>_. None),
     guilds_ex_map = (\<lambda>_. None), w_events = [], w_draws = []\<rparr>"

lemma two_guildless_ok: "members_ok C two_guildless" "managed two_guildless"
proof -
  have p: "pguild two_guildless k = no_guild" "row two_guildless g = new_row" "\<not> standing two_guildless g" for k g
    by (simp_all add: pguild_def two_guildless_def row_def standing_def)
  have f: "w_CurrentGuildId two_guildless = 0" "w_guilds two_guildless = (\<lambda>_. None)" "guild_ids two_guildless = []"
    "guild_id_map two_guildless = (\<lambda>_. None)" "guild_name_map two_guildless = (\<lambda>_. None)" "guilds_ex_map two_guildless = (\<lambda>_. None)"
    by (simp_all add: two_guildless_def)
  show "members_ok C two_guildless"
    by (simp add: members_ok_def members_agree_def presidents_agree_def rows_numbered_def p f, simp add: new_row_def no_guild_def)
  show "managed two_guildless" by (simp add: managed_def p f dom_def)
qed

text \<open>Requests one after the other, with their times.\<close>

definition requests ::
    "guild_config \<Rightarrow> (World \<Rightarrow> int \<Rightarrow> string \<Rightarrow> bool) \<Rightarrow> (int \<times> int \<times> guild_request) list \<Rightarrow> World \<Rightarrow> World option" where
  "requests C may qs w =
     for_each (\<lambda>(now, me, q) w. if request_ok may w me q then map_option snd (handle_request C now me q w) else None) qs w"

lemma requests_run:
  assumes "requests C may qs w = Some w'" "guild_run C may w0 w"
  shows "guild_run C may w0 w'"
  using assms
proof (induction qs arbitrary: w)
  case (Cons x qs)
  obtain now me q where x: "x = (now, me, q)" by (cases x) auto
  obtain r v where v: "handle_request C now me q w = Some (r, v)" "requests C may qs v = Some w'" "request_ok may w me q"
    using Cons.prems(1) by (auto simp: requests_def x split: Option.bind_splits if_splits)
  have "guild_run C may w0 v" using guild_run.request [OF Cons.prems(2) v(3) v(1)] .
  then show ?case using Cons.IH [OF v(2)] by auto
qed (simp add: requests_def)

definition founding :: "(int \<times> int \<times> guild_request) list" where
  "founding = [(100, 7, C2SGuildCreate ''a'' [] 1), (110, 8, C2SGuildAskJoin 1), (120, 7, C2SGuildAgreeJoin [8] False)]"

text \<open>One founds a guild and takes the other in.\<close>

lemma founded:
  "map_option (\<lambda>w. (pg_Id (pguild w 7), pg_Id (pguild w 8), gr_President (row w 1), gr_ExistType (row w 1), w_guilds w 1 \<noteq> None,
       w_CurrentGuildId w))
     (requests guild_demo free_name founding two_guildless) = Some (1, 1, 7, 0, True, 1)"
  by code_simp

text \<open>A name that is free may be asked for by anybody.\<close>

lemma guild_run_mono:
  assumes "guild_run C may w0 w" "\<And>w g n. may w g n \<Longrightarrow> may' w g n"
  shows "guild_run C may' w0 w"
proof -
  have "request_ok may w me q \<Longrightarrow> request_ok may' w me q" for w me q
    using assms(2) by (auto simp: request_ok_def split: guild_request.splits)
  with assms(1) show ?thesis by (induction rule: guild_run.induct) (auto intro: guild_run.intros)
qed

theorem guild_memberships_witness:
  "\<exists>w. guild_run guild_demo (\<lambda>_ _ _. True) two_guildless w \<and> is_member w 1 8 \<and> is_member w 1 7
    \<and> pg_Position (pguild w 7) = 1 \<and> pg_Position (pguild w 8) \<noteq> 1"
proof -
  obtain w where w: "requests guild_demo free_name founding two_guildless = Some w"
    and f: "pg_Id (pguild w 7) = 1" "pg_Id (pguild w 8) = 1" "gr_President (row w 1) = 7" "standing w 1"
    using founded by (auto simp: standing_def)
  have run: "guild_run guild_demo (\<lambda>_ _ _. True) two_guildless w"
    using requests_run [OF w guild_run.start] by (rule guild_run_mono) simp
  show ?thesis
    using run f guild_memberships [OF run two_guildless_ok(1), of 1 7] guild_memberships [OF run two_guildless_ok(1), of 1 8]
    by auto
qed

theorem guild_lists_witness:
  "\<exists>w. guild_run guild_demo free_name two_guildless w \<and> standing w 1 \<and> 1 \<in> set (guild_ids w)
    \<and> guild_name_map w (gr_Name (row w 1)) = Some 1"
proof -
  obtain w where w: "requests guild_demo free_name founding two_guildless = Some w" and f: "standing w 1"
    using founded by (auto simp: standing_def)
  note run = requests_run [OF w guild_run.start]
  show ?thesis
    using run f guild_lists [OF run two_guildless_ok, of "gr_Name (row w 1)" 1 1] by auto
qed

text \<open>C37: At the start of the server the manager lists exactly the guilds of the data base whose dissolution is not over,
  in whatever order Go runs through them, when their names differ and there are at most 10000; guilds whose time is
  over are deleted, and the others keep their data.\<close>

theorem guild_restart:
  assumes "members_ok C w" "names_differ w" "distinct gids" "set gids = dom (w_guilds w)" "length gids \<le> 10000"
  shows "\<exists>w'. Manager_Init C now gids w = Some w' \<and> members_ok C w' \<and> managed w'
    \<and> (\<forall>g. standing w' g \<longrightarrow> standing w g \<and> row w' g = row w g)"
proof -
  define v where "v = w\<lparr>guild_ids := [], guild_id_map := Map.empty, guild_name_map := Map.empty, guilds_ex_map := Map.empty\<rparr>"
  have r: "pguild v k = pguild w k" "row v g = row w g" "w_guilds v = w_guilds w" "w_CurrentGuildId v = w_CurrentGuildId w" for k g
    by (simp_all add: v_def pguild_def row_def)
  have a: "standing v = standing w" by (auto simp: standing_def r fun_eq_iff)
  have "members_ok C v" using assms(1) by (rule members_ok_cong) (simp_all add: r)
  moreover have "managed_in {} v" by (simp add: managed_in_def v_def)
  moreover have "names_differ v" using assms(2) by (simp add: names_differ_def a r)
  moreover have "\<forall>g \<in> set gids. w_guilds v g \<noteq> None" using assms(4) by (auto simp: r)
  moreover have "length (guild_ids v) + length gids \<le> GUILD_MAX_NUM" using assms(5) by (simp add: v_def)
  ultimately obtain w' where w': "Manager_Init C now gids w = Some w'" "members_ok C w'" "managed_in (set gids) w'" "fewer v w'"
    using init_loop [of C v "{}" gids now] assms(3) by (auto simp: Manager_Init_def v_def)
  have "g \<in> set gids" if "standing w' g" for g
    using that w'(4) assms(4) by (auto simp: fewer_def standing_def r)
  then have "(g \<in> set gids \<and> standing w' g) = standing w' g" for g by blast
  then have "managed w'" using w'(3) by (simp add: managed_in_def managed_def) blast
  then show ?thesis using w' by (auto simp: fewer_def a r)
qed

text \<open>The server of the founding, started again.\<close>

theorem guild_restart_witness:
  "\<exists>w w'. requests guild_demo free_name founding two_guildless = Some w \<and> standing w 1
    \<and> Manager_Init guild_demo 200 [1] w = Some w' \<and> managed w'"
proof -
  obtain w where w: "requests guild_demo free_name founding two_guildless = Some w"
    and f: "standing w 1" "w_CurrentGuildId w = 1"
    using founded by (auto simp: standing_def)
  note run = requests_run [OF w guild_run.start]
  have ok: "members_ok guild_demo w" and m: "managed w"
    using management.run_inv [OF run] two_guildless_ok by auto
  have "w_guilds w g \<noteq> None \<longleftrightarrow> g = 1" for g
  proof
    assume "w_guilds w g \<noteq> None"
    then obtain c where "0 < c" "c \<le> 1" "g = GenerateGuildId 0 c"
      using ok f(2) by (auto simp: members_ok_def rows_numbered_def guild_demo_def)
    then have "c = 1" by simp
    then show "g = 1" using \<open>g = _\<close> by (simp add: GenerateGuildId_def)
  qed (use f(1) in \<open>auto simp: standing_def\<close>)
  then have "set [1] = dom (w_guilds w)" by auto
  moreover have "names_differ w" using managedD(6) [OF m] unfolding names_differ_def by (metis option.inject)
  ultimately show ?thesis using guild_restart [OF ok, of "[1]" 200] w f(1) by auto
qed


section \<open>Who comes and who goes\<close>

text \<open>C38: When an officer answers the applications of a list of players, exactly those of them are taken in who have applied
  and have no guild, and nobody else, and the guild then has at most as many members as its level allows.\<close>

theorem guild_agree_join_exact:
  assumes "members_ok C w" "guild_agree_join C now ks False me w = (Inr 1, w')"
    and "int (length (gr_Members (row w (pg_Id (pguild w me))))) + int (length ks) \<le> max_int32"
  defines "g \<equiv> pg_Id (pguild w me)"
  shows "(is_member w' g k \<longleftrightarrow> is_member w g k
      \<or> k \<in> set ks \<and> has_player w k \<and> col_HasIndex (gr_AskLists (row w g)) k \<and> pg_Id (pguild w k) = 0)
    \<and> int (length (gr_Members (row w' g))) \<le> guild_member_num_limit C (row w g)
    \<and> pg_Position (pguild w me) \<noteq> GUILD_POSITION_MEMBER"
proof -
  obtain v x where v: "get_guild C now me False w = (v, x)" by force
  from assms(1) v show ?thesis
  proof (cases rule: get_guild_cases)
    case none
    then show ?thesis using assms(2) v by (simp add: guild_agree_join_def split: if_splits)
  next
    case (guild h)
    then have h: "h = g" "standing w g" by (auto simp: in_guild_def g_def)
    define u where "u = fold (agree_one now g False) ks w"
    define told where "told = (\<lambda>k w. if has_player w k then tell (GuildAgreeJoinNotify k g) w else w)"
    have w': "w' = fold told ks u" "\<not> pg_Position (pguild w me) \<le> 0"
      "\<not> guild_member_num_limit C (row w g) < i32 (col_NumAll (gr_Members (row w g)) + i32 (int (length ks)))"
      using assms(2) v guild h by (auto simp: guild_agree_join_def u_def told_def Let_def split: if_splits)
    have "row (fold told ks y) g = row y g" for ks y
      by (induction ks arbitrary: y) (simp_all add: told_def)
    then have r: "row w' g = row u g" by (simp add: w'(1))
    have "i32 (col_NumAll (gr_Members (row w g)) + i32 (int (length ks))) = int (length (gr_Members (row w g))) + int (length ks)"
      using assms(3) by (simp add: col_NumAll_def g_def)
    then show ?thesis using agree_all_joins [OF assms(1) h(2), of now ks k] w'(2,3)
      by (auto simp: r u_def may_join_def)
  qed
qed

text \<open>The application of player 8 is accepted, the one of nobody is not.\<close>

definition applied :: World where
  "applied = the (requests guild_demo free_name
     [(100, 7, C2SGuildCreate ''a'' [] 1), (110, 8, C2SGuildAskJoin 1)] two_guildless)"

lemma applied:
  "requests guild_demo free_name [(100, 7, C2SGuildCreate ''a'' [] 1), (110, 8, C2SGuildAskJoin 1)] two_guildless \<noteq> None"
  "pg_Id (pguild applied 7) = 1" "pg_Id (pguild applied 8) = 0" "pg_Position (pguild applied 7) = 1" "gr_Members (row applied 1) = [(7, ())]"
  "gr_AskLists (row applied 1) = [(8, ())]" "has_player applied 8" "gr_Level (row applied 1) = 1"
  "fst (guild_agree_join guild_demo 120 [8, 9] False 7 applied) = Inr 1"
  by code_simp+

lemma applied_ok: "members_ok guild_demo applied"
proof -
  have "requests guild_demo free_name [(100, 7, C2SGuildCreate ''a'' [] 1), (110, 8, C2SGuildAskJoin 1)] two_guildless = Some applied"
    using applied(1) unfolding applied_def by (metis option.exhaust_sel)
  from requests_run [OF this guild_run.start] show ?thesis
    using management.run_inv two_guildless_ok by blast
qed

theorem guild_agree_join_exact_witness:
  "\<exists>w'. guild_agree_join guild_demo 120 [8, 9] False 7 applied = (Inr 1, w') \<and> is_member w' 1 8 \<and> \<not> is_member w' 1 9
    \<and> int (length (gr_Members (row w' 1))) \<le> 3"
proof -
  obtain w' where w': "guild_agree_join guild_demo 120 [8, 9] False 7 applied = (Inr 1, w')"
    using applied(9) by (cases "guild_agree_join guild_demo 120 [8, 9] False 7 applied") simp
  have l: "guild_member_num_limit guild_demo (row applied 1) = 3"
    by (simp add: guild_member_num_limit_def applied(8) guild_demo_def)
  have n: "\<not> is_member applied 1 9" "col_HasIndex (gr_AskLists (row applied 1)) 8" "\<not> col_HasIndex (gr_AskLists (row applied 1)) 9"
    by (simp_all add: applied(5,6) col_HasIndex_def)
  have b: "int (length (gr_Members (row applied (pg_Id (pguild applied 7))))) + int (length [8 :: int, 9]) \<le> max_int32"
    by (simp add: applied(2,5))
  show ?thesis
    using guild_agree_join_exact [OF applied_ok w' b, of 8] guild_agree_join_exact [OF applied_ok w' b, of 9] w' l n applied(3,7)
    by (simp add: applied(2))
qed

text \<open>C39: An officer expels exactly those players of his list who are ordinary members, and not himself. All players of the
  list are told that they were expelled, also those who stay, such as the president, and players of other guilds.\<close>

theorem guild_kick_exact:
  assumes "members_ok C w" "guild_kick_member C now (Some ks) me w = (Inr 1, w')"
  defines "g \<equiv> pg_Id (pguild w me)"
  shows "(is_member w' g k \<longleftrightarrow> is_member w g k \<and> \<not> (k \<in> set ks \<and> k \<noteq> me \<and> pg_Position (pguild w k) = GUILD_POSITION_MEMBER))
    \<and> is_member w' g me \<and> is_member w' g (gr_President (row w g))
    \<and> w_events w' = w_events w @ map GuildKickMemberNotify (filter (has_player w) ks)"
proof -
  obtain v x where v: "get_guild C now me False w = (v, x)" by force
  from assms(1) v show ?thesis
  proof (cases rule: get_guild_cases)
    case none
    then show ?thesis using assms(2) v by (simp add: guild_kick_member_def)
  next
    case (guild h)
    then have h: "h = g" "standing w g" "is_member w g me" by (auto simp: in_guild_def g_def)
    let ?u = "fold (kick_one now g me) ks w"
    have w': "w' = fold (tell_kicked now g) ks ?u"
      using assms(2) v guild h by (simp add: guild_kick_member_def split: if_splits)
    note K = kick_all_leaves [OF assms(1) h(2), of now me ks]
    have m: "is_member w' g y \<longleftrightarrow> is_member w g y \<and> \<not> (y \<in> set ks \<and> y \<noteq> me \<and> pg_Position (pguild w y) = 0)" for y
      using K [of y] tell_kicked_all [of now g ks ?u] by (simp add: w')
    have p: "is_member w g (gr_President (row w g))" by (rule members_okD(2) [OF assms(1) h(2)])
    then have "pg_Id (pguild w (gr_President (row w g))) = g" "g \<noteq> 0" using members_okD(1) [OF assms(1)] by auto
    then have "pg_Position (pguild w (gr_President (row w g))) = 1" using members_okD(6) [OF assms(1), of "gr_President (row w g)"] by simp
    then show ?thesis using m p h(3) K tell_kicked_all [of now g ks ?u] by (simp add: w')
  qed
qed

text \<open>The president lists himself and a player without a guild; both are told that they were expelled.\<close>

lemma applied_kick:
  "fst (guild_kick_member guild_demo 120 (Some [7, 8]) 7 applied) = Inr 1" "has_player applied 7" "w_events applied = []"
  by code_simp+

theorem guild_kick_exact_witness:
  "\<exists>w'. guild_kick_member guild_demo 120 (Some [7, 8]) 7 applied = (Inr 1, w') \<and> is_member w' 1 7
    \<and> w_events w' = [GuildKickMemberNotify 7, GuildKickMemberNotify 8]"
proof -
  obtain w' where w': "guild_kick_member guild_demo 120 (Some [7, 8]) 7 applied = (Inr 1, w')"
    using applied_kick(1) by (cases "guild_kick_member guild_demo 120 (Some [7, 8]) 7 applied") simp
  show ?thesis using guild_kick_exact [OF applied_ok w', of 7] w' applied(2,7) applied_kick(2,3) by auto
qed

end
