(* ===== verification/Guild_Gift_Props.thy ===== *)
theory Guild_Gift_Props
  imports Guild_Donations Guild_Props
begin

text \<open>
  What becomes of donations: nothing is lost by giving, asking and looking, but everything given so far is when the guild
  is deleted before a request is fulfilled.
\<close>

text \<open>C36: Giving to a request, asking and looking at the requests neither makes nor loses goods: of every kind the players
  and the open requests of the guild together have as much afterwards as before, and after a gift the reward in addition.\<close>

theorem donations_conserved:
  assumes "members_ok C w" "goods_ok C (pg_Id (pguild w me)) w" "donate_tables_ok C (pg_Id (pguild w me)) w"
    and "q = C2SGuildDonateList \<or> q = C2SGuildAskDonate i \<or> q = C2SGuildDonate k"
    and "handle_request C now me q w = Some (r, w')"
  defines "g \<equiv> pg_Id (pguild w me)"
  shows "goods_ok C g w' \<and> ((\<forall>j. stock w' g j = stock w g j)
    \<or> q = C2SGuildDonate k \<and> r = Inr 1 \<and> (\<exists>i item. guild_donate_table C i = Some item
        \<and> (\<forall>j. stock w' g j = stock w g j + need (pairs_of (DonateRewardItem item)) j)))"
  using assms(4,5) list_goods [OF assms(2,1) refl] ask_goods [OF assms(2,1) refl assms(3)]
    donate_goods [OF assms(2,1) refl assms(3)]
  unfolding g_def by (elim disjE; simp; metis)

section \<open>Two players and a request\<close>

text \<open>The small server with an item of kind 5 of which two can be asked for; the giver gets ten pieces of gold.\<close>

definition gift_demo :: guild_config where
  "gift_demo = guild_demo\<lparr>gc_tables := (gc_tables guild_demo)\<lparr>item_table := (\<lambda>k. if k = 5 then Some \<lparr>item_Type = 1,
       EquipType = 0, item_Quality = 1, ComposeNum = 0, ComposeType = 0, ComposeDropID = 0, SellReward = [],
       item_BattlePower = 0\<rparr> else None)\<rparr>,
     guild_donate_table := (\<lambda>k. if k = 5 then Some \<lparr>RequestNum = 2, DonateRewardItem = [1, 10], LimitScore = 1\<rparr> else None)\<rparr>"

definition gift_row :: dbGuildRow where
  "gift_row = (found_row 0 7 ''a'' 1)\<lparr>gr_Members := [(7, ()), (8, ())],
     gr_AskDonates := [(8, \<lparr>ask_ItemId = 5, ask_ItemNum = 1, ask_AskTime = 100\<rparr>)]\<rparr>"

definition gift_world :: World where
  "gift_world = \<lparr>w_players = (\<lambda>k. if k = 7 then Some \<lparr>gp_player = poor_player\<lparr>p_Items := [(5, 3)]\<rparr>,
         gp_guild = no_guild\<lparr>pg_Id := 1, pg_Position := 1, pg_LastDonateTime := 100\<rparr>\<rparr>
       else if k = 8 then Some \<lparr>gp_player = poor_player, gp_guild = no_guild\<lparr>pg_Id := 1, pg_LastDonateTime := 100\<rparr>\<rparr> else None),
     w_guilds = (\<lambda>g. if g = 1 then Some gift_row else None), w_CurrentGuildId = 1, guild_ids = [1],
     guild_id_map = (\<lambda>g. if g = 1 then Some 1 else None), guild_name_map = (\<lambda>n. if n = ''a'' then Some 1 else None),
     guilds_ex_map = (\<lambda>g. if g = 1 then Some 0 else None), w_events = [], w_draws = []\<rparr>"

lemma gift_ok: "members_ok gift_demo gift_world"
proof -
  have r: "row gift_world g = (if g = 1 then gift_row else new_row)" "w_guilds gift_world g \<noteq> None \<longleftrightarrow> g = 1" for g
    by (simp_all add: row_def gift_world_def)
  have p: "pg_Id (pguild gift_world k) = (if k = 7 \<or> k = 8 then 1 else 0)"
    "pg_Position (pguild gift_world k) = (if k = 7 then 1 else 0)" for k
    by (simp_all add: pguild_def gift_world_def no_guild_def)
  have s: "standing gift_world g \<longleftrightarrow> g = 1" for g
    unfolding standing_def r by (simp add: gift_row_def)
  have m: "is_member gift_world g k \<longleftrightarrow> g = 1 \<and> (k = 7 \<or> k = 8)" for g k
    by (auto simp: r col_HasIndex_def) (auto simp: gift_row_def new_row_def split: if_splits)
  have pr: "gr_President (row gift_world 1) = 7" "g \<noteq> 1 \<Longrightarrow> gr_Members (row gift_world g) = []"
    "col_ok (gr_Members (row gift_world 1))" for g
    by (simp_all add: r, simp_all add: gift_row_def found_row_def new_row_def col_ok_def)
  have "members_agree gift_world" by (auto simp: members_agree_def m p)
  moreover have "presidents_agree gift_world" by (auto simp: presidents_agree_def m p s pr)
  moreover have "rows_numbered gift_demo gift_world"
  proof -
    have c: "w_CurrentGuildId gift_world = 1" "GenerateGuildId (gc_ServerId gift_demo) 1 = 1"
      by (simp_all add: gift_world_def gift_demo_def guild_demo_def GenerateGuildId_def)
    have "\<exists>c>0. c \<le> 1 \<and> 1 = GenerateGuildId (gc_ServerId gift_demo) c" using c(2) by (intro exI [of _ 1]) simp
    then show ?thesis unfolding rows_numbered_def c(1) r(2) using pr(3) by simp
  qed
  ultimately show ?thesis by (simp add: members_ok_def)
qed

text \<open>What the two players and the request have of each kind.\<close>

lemma gift_stock: "stock gift_world 1 j = (if j = 5 then 4 else 0)"
proof -
  have d: "dom (w_players gift_world) = {7, 8}" by (auto simp: gift_world_def split: if_splits)
  have "get_resource_of gift_world 7 j = (if j = 5 then 3 else 0)" "get_resource_of gift_world 8 j = 0"
    by (simp_all add: get_resource_of_def gift_world_def get_resource_def get_item_def col_Get_def poor_player_def)
  moreover have "asked_for gift_world 1 j = (if j = 5 then 1 else 0)"
    by (simp add: asked_for_def row_def gift_world_def gift_row_def)
  ultimately show ?thesis by (simp add: stock_def held_def d)
qed

lemma gift_goods: "goods_ok gift_demo 1 gift_world" "donate_tables_ok gift_demo 1 gift_world"
proof -
  have d: "dom (w_players gift_world) = {7, 8}" by (auto simp: gift_world_def split: if_splits)
  have five: "5 \<in> ordinary (gc_tables gift_demo)" "1 \<in> ordinary (gc_tables gift_demo)"
    by (simp_all add: ordinary_def gift_demo_def)
  have t: "guild_donate_table gift_demo k = (if k = 5 then Some \<lparr>RequestNum = 2, DonateRewardItem = [1, 10], LimitScore = 1\<rparr> else None)" for k
    by (simp add: gift_demo_def)
  have a: "gr_AskDonates (row gift_world 1) = [(8, \<lparr>ask_ItemId = 5, ask_ItemNum = 1, ask_AskTime = 100\<rparr>)]"
    by (simp add: row_def gift_world_def gift_row_def)
  have "res_ok (gp_player p)" if "w_players gift_world k = Some p" for k p
    using that by (auto simp: gift_world_def poor_player_def res_ok_def items_ok_def col_ok_def col_Get_def amount_def split: if_splits)
  then show "goods_ok gift_demo 1 gift_world"
    using five by (auto simp: goods_ok_def d a gift_stock request_fine_def t col_ok_def col_Get_def split: if_splits)
  show "donate_tables_ok gift_demo 1 gift_world"
    using five by (auto simp: donate_tables_ok_def t gift_stock need_def split: if_splits)
qed

text \<open>The gift that fulfils the request: the giver has one item less, the other two.\<close>

lemma gift_given:
  "map_option (\<lambda>(r, w). (r, get_resource_of w 7 5, get_resource_of w 8 5, get_resource_of w 7 1, gr_AskDonates (row w 1)))
     (handle_request gift_demo 150 7 (C2SGuildDonate 8) gift_world) = Some (Inr 1, 2, 2, 10, [])"
  by code_simp

theorem donations_conserved_witness:
  "\<exists>w'. handle_request gift_demo 150 7 (C2SGuildDonate 8) gift_world = Some (Inr 1, w')
    \<and> get_resource_of w' 8 5 = 2 \<and> stock w' 1 5 = stock gift_world 1 5"
proof -
  obtain w' where w': "handle_request gift_demo 150 7 (C2SGuildDonate 8) gift_world = Some (Inr 1, w')" "get_resource_of w' 8 5 = 2"
    using gift_given by (auto simp del: handle_request.simps)
  have g: "pg_Id (pguild gift_world 7) = 1" by (simp add: pguild_def gift_world_def)
  have "item = \<lparr>RequestNum = 2, DonateRewardItem = [1, 10], LimitScore = 1\<rparr>" if "guild_donate_table gift_demo i = Some item" for i item
    using that by (simp add: gift_demo_def split: if_splits)
  then have n: "need (pairs_of (DonateRewardItem item)) 5 = 0" if "guild_donate_table gift_demo i = Some item" for i item
    using that by (fastforce simp: need_def)
  show ?thesis
    using donations_conserved [OF gift_ok, where me = 7, unfolded g, OF gift_goods _ w'(1), where i = 0 and k = 8] n w' by auto
qed

text \<open>The president dissolves the guild after the first gift to the request of the other player. When the guild is deleted
  the request stays in its row, where no request of a player can reach it: the item given is with nobody.\<close>

theorem deletion_loses_gifts:
  "map_option (\<lambda>w. (get_resource_of w 7 5, get_resource_of w 8 5, map (\<lambda>x. (fst x, ask_ItemNum (snd x))) (gr_AskDonates (row w 1)),
        gr_ExistType (row w 1), pg_Id (pguild w 7), pg_Id (pguild w 8)))
     (requests gift_demo (\<lambda>_ _ _. True)
        [(110, 7, C2SGuildDismiss), (170, 8, C2SGuildDonateList), (300, 8, C2SGuildDonateList)] gift_world)
     = Some (3, 0, [(8, 1)], 2, 0, 0)"
  by code_simp

end
