(* ===== verification/Spec2Isabelle.thy ===== *)
theory Spec2Isabelle
  imports Skiplist_Props Ranking_Props Damage_Ranks Battle_Targets_Props Battle_Cond Battle_Damage_Props Battle_Fuel_Props
    Conn_Timer_Props Player_Drop_Props Player_Equip_Props Player_Roles_Props Player_Growth_Props Guild_Gift_Props
begin

text \<open>
  A model of the game server \<open>ih_server\<close>, a Go program of several servers of which the hall server
  (\<open>src/src/hall_server\<close>) carries the rules of the game: it keeps the players, their items and roles, fights
  their battles, ranks them and runs their guilds. The theories translate its core function by function and prove
  what makes each part correct. Paths below are under \<open>src/src\<close>, those of \<open>libs\<close> under \<open>src\<close>.

  \<^bold>\<open>How the code is read.\<close> An \<open>int32\<close> is an \<open>int\<close> and every operation that can leave its range is wrapped with
  \<open>i32\<close> (theory \<open>Prelude\<close>, which also has Go's truncating division and remainder and loops that may panic). A struct is
  a record, a slice a list, and a column of a database row an association list with different keys in the order Go
  runs through the map, so a theorem holds for every such order. A function that panics is \<open>None\<close>; a handler answers an
  error or a number, as a sum type, with the new state. Pointers that the code shares are addresses into a heap: the
  nodes of the skip list, the items of a ranking, the members of a battle, the timers of the wheel. Random numbers are
  a list of draws of the state, or an argument; the clock is an argument \<open>now\<close>; the tables of the game, which are data,
  are arguments too, read through the functions of \<open>table_config\<close>. \<open>float64\<close> and \<open>float32\<close> are rationals rounded to 53
  and 24 bits after every operation (\<open>Go_Float\<close>). Locks do nothing in a sequential model and are left out, as are the
  log and the messages to the client; what a handler tells other parts of the server is an event of the state.

  \<^bold>\<open>Rankings.\<close> \<open>Skiplist\<close> is \<open>libs/utils/skiplist.go\<close>, with the nodes in a heap and the layer of a new node drawn.
  \<open>Skiplist_Layer\<close>, \<open>_Walk\<close>, \<open>_Inv\<close> and \<open>_Query\<close> show that the heap represents a list in descending order whose spans
  are the distances between nodes; the locale \<open>skiplist_order\<close> asks the laws of the order of the values, and
  \<open>Skiplist_Nodes\<close> interprets it for the values of the code. \<open>Ranklist\<close> and \<open>Ranklist_Correct\<close> are
  \<open>libs/utils/ranklist.go\<close>, a skip list of shared items with a map of keys, which refines a list of items with different
  keys; \<open>Rank_Items\<close> has the items of the server and interprets \<open>rank_node_laws\<close> for each. \<open>Rank_List\<close> is
  \<open>hall_server/rank_list.go\<close>, \<open>Arena\<close> is \<open>player_arena.go\<close>, \<open>Hall_Utils\<close> is \<open>utils.go\<close>. \<open>Short_Ranklist\<close> and
  \<open>Short_Ranklist_Correct\<close> are \<open>libs/utils/short_ranklist.go\<close>, an array with a map, and \<open>Damage_Ranks\<close> its users, the
  damage ranking of a guild boss and the power of the roles of a player. The properties are in \<open>Skiplist_Props\<close>,
  \<open>Ranking_Props\<close> and \<open>Damage_Ranks\<close>.

  \<^bold>\<open>Battles.\<close> \<open>Battle_Data\<close> has the records of \<open>player_member.go\<close>, \<open>player_battle.go\<close> and of the tables. \<open>Battle_Targets\<close>,
  \<open>Battle_Cond\<close> and \<open>Battle_Damage\<close> are the choice of targets, the conditions and the numbers of a skill
  (\<open>player_skill.go\<close>), functions of the members they look at; \<open>Battle_Passive\<close> and \<open>Battle_Buff\<close> are the passive skills and
  the buffs of one member. \<open>Battle_State\<close> puts members into a heap and teams into slots; \<open>Battle_Skill\<close> has the effects of
  a skill, which trigger passive skills, which have effects; \<open>Battle_Round\<close> has the turns, the rounds and the fight.
  The nesting of passive skills has no bound in the code (a skill that triggers itself runs for ever, which
  \<open>Battle_Fuel_Props\<close> proves), so \<open>passive_fx\<close> and the loops over it take fuel; \<open>Battle_Fuel\<close> shows, in the locale
  \<open>more_fuel\<close>, that more fuel never changes a result. The loop over the pairs of fighters needs nine steps and is given
  them; the rounds are bounded by the table. \<open>Battle_Members\<close>, \<open>Battle_Inv\<close>, \<open>Battle_Rounds_Inv\<close> and \<open>Battle_Fight\<close> carry
  the invariant of the state (forty attributes, eight buff lists, every pointer and place valid) through the fight; the
  locale \<open>passive_caller\<close> is what an effect may assume of the passive skills it calls.

  \<^bold>\<open>Connections.\<close> \<open>Conn_Timer\<close> is \<open>conn_timer_wheel.go\<close> with the list of \<open>conn_timer_mgr.go\<close>: intrusive lists in a heap,
  slots, a channel of operations. \<open>Conn_Timer_Correct\<close> relates it to a map from players to seconds left, and
  \<open>Conn_Timer_Props\<close> has the refinement and the liveness of the log-out.

  \<^bold>\<open>Players.\<close> \<open>Player_Data\<close> has the columns of \<open>a_db_tables.go\<close> that the handlers use (one generic set of operations for
  all of them, since the generated code is the same), the rows of the tables and the record \<open>Player\<close>. \<open>Player_Items\<close> is the
  first half of \<open>player_item.go\<close>, resources and items; \<open>Player_Roles\<close> is \<open>player_role.go\<close> with the random drops of
  \<open>player_draw_card.go\<close>; \<open>Player_Equip\<close> the equipment and upgrades of \<open>player_item.go\<close> and \<open>player_role.go\<close> and the drawing
  of cards; \<open>Player_Growth\<close> is \<open>player_talent.go\<close> and \<open>player_artifact.go\<close>. \<open>Player_Items_Correct\<close> shows how each
  operation changes each amount; the locale \<open>purse\<close> pays lists of prices and \<open>Player_Purse\<close> extends it to \<open>full_purse\<close>,
  which also gives back, both interpreted on \<open>add_resource\<close>. The properties are in the theories \<open>..._Props\<close>.

  \<^bold>\<open>Guilds.\<close> \<open>Guild\<close> is \<open>guild.go\<close>: the rows of the guilds, the manager with its lists by id and by name, and the
  handlers, which change several players at once, so the state is the whole server. \<open>Guild_Correct\<close> has the invariant (who
  is a member, who presides, what the manager lists) and its preservation by the single changes; its locale
  \<open>guild_invariant\<close> asks that of any invariant and gives, in \<open>Guild_Steps\<close>, that every request keeps it. It is interpreted
  twice, for the members alone and together with the lists, which a rename to the name of another guild breaks.
  \<open>Guild_Restart\<close> is the start of the server, \<open>Guild_Members\<close> joining and expelling, \<open>Guild_Donations\<close> the goods that
  donations move. Runs of the server are the inductive \<open>guild_run\<close>; a server numbers fewer than \<open>2 ^ 20\<close> guilds, as the
  numbers have 20 bits. The properties are in \<open>Guild_Props\<close> and \<open>Guild_Gift_Props\<close>.

  \<^bold>\<open>Times of day.\<close> \<open>Day_Times\<close> is \<open>libs/utils/time_func.go\<close>: the functions that say when a feature refreshes, against the
  set of refresh times between two moments, and the checker of refreshes every so many days, whose loop is a
  \<open>partial_function\<close> because it does not end for one interval.

  \<^bold>\<open>Bounds.\<close> Theorems on amounts assume them between 0 and the largest \<open>int32\<close> (\<open>amount\<close>, \<open>res_ok\<close>), which
  \<open>resources_stay_in_range\<close> shows to be kept; theorems on battle damage assume attributes in the range of the tables
  (\<open>tame\<close>); the theorems on the wheel assume a heart beat interval whose triple is an \<open>int32\<close>. Where the model has no
  such bound the wrap-around is part of it.

  \<^bold>\<open>Not modelled.\<close> The network, the RPC and the database code (\<open>libs/socket\<close>, \<open>libs/rpc\<close>, \<open>server_conn\<close>, most of the
  generated \<open>a_db_tables.go\<close>), the login, center and rpc servers, reading the tables from XML, the reports of a battle
  shown to the client, payment, mail, chat (with \<open>guild_recruit\<close>), the stages of the guild boss, and the handlers of
  the remaining features of the game (explore, campaign, tower, expedition, friends, shop, tasks, activities, carnival):
  they are I/O, generated, or not reached yet. The manifest lists them one by one.
\<close>

end
